(* ===== verification/Prelude.thy ===== *)
theory Prelude
  imports Main "HOL-Library.Word" "HOL-Library.Monad_Syntax"
begin

text \<open>
  Shared vocabulary of the development.

  \<^item> Fixed-width integers of the C code: \<open>u8\<close>, \<open>u16\<close>, \<open>u32\<close>.
  \<^item> \<open>'a option\<close> as the result of a C call: \<open>Some r\<close> is a call that returned \<open>r\<close>;
    \<open>None\<close> is a call that never returns to its caller, because a \<open>configASSERT\<close> failed
    (\<open>vAssertCalled\<close> of source/main.c spins with interrupts disabled), because an
    access went outside an object, or because a loop did not end.  Calls are sequenced with
    the option monad, so every later statement is skipped.
  \<^item> C arrays as lists with checked access (\<open>arr_get\<close>, \<open>arr_set\<close>, \<open>mem_write\<close>).
  \<^item> The part of the C library the program uses: \<open>strncmp\<close>, \<open>snprintf\<close>, \<open>strtoul\<close>.

  The collection \<open>c_defs\<close> gathers the definitions a component's proofs unfold.
\<close>

type_synonym u8 = "8 word"
type_synonym u16 = "16 word"
type_synonym u32 = "32 word"

named_theorems c_defs

section \<open>Machine integers\<close>

lemma of_nat_unat_word: "of_nat (unat w) = (w :: 'a :: len word)"
  by simp

lemma unat_of_nat32: "n < 2 ^ 32 \<Longrightarrow> unat (of_nat n :: u32) = n"
  by (simp add: unat_of_nat take_bit_nat_eq_self)

lemma sint_small_len:
  fixes w :: "'a :: len word"
  assumes "unat w < 2 ^ (LENGTH('a) - 1)"
  shows "sint w = int (unat w)"
proof -
  have u: "uint w < 2 ^ (LENGTH('a) - 1)"
    using assms by (metis nat_less_numeral_power_cancel_iff unat_eq_nat_uint)
  have "sint w = signed_take_bit (LENGTH('a) - 1) (uint w)" by (simp add: sint_uint)
  also have "\<dots> = uint w"
    by (rule signed_take_bit_int_eq_self [OF _ u])
       (use uint_ge_0 [of w] in \<open>simp add: order_trans [of _ 0]\<close>)
  finally show ?thesis by simp
qed

lemma sint_small: "unat (w :: u32) < 2 ^ 31 \<Longrightarrow> sint w = int (unat w)"
  using sint_small_len [of w] by simp

lemma sint_small16: "unat (w :: u16) < 2 ^ 15 \<Longrightarrow> sint w = int (unat w)"
  using sint_small_len [of w] by simp

section \<open>Assertions\<close>

definition configASSERT :: "bool \<Rightarrow> unit option" where
  "configASSERT b = (if b then Some () else None)"

lemma configASSERT_simps [simp]:
  "configASSERT True = Some ()"
  "configASSERT False = None"
  by (simp_all add: configASSERT_def)

lemma configASSERT_eq_Some [simp]: "configASSERT b = Some u \<longleftrightarrow> b"
  by (simp add: configASSERT_def)

lemma bind_eq_Some [simp]:
  "(Option.bind m f = Some r) \<longleftrightarrow> (\<exists>x. m = Some x \<and> f x = Some r)"
  by (cases m) auto

lemma ex_bool_simps [simp]:
  "\<exists>a. a" "\<exists>a. \<not> a"
  "(\<exists>a. a \<and> P a) \<longleftrightarrow> P True" "(\<exists>a. \<not> a \<and> P a) \<longleftrightarrow> P False"
  by auto

section \<open>Arrays\<close>

definition arr_get :: "'a list \<Rightarrow> nat \<Rightarrow> 'a option" where
  "arr_get xs i = (if i < length xs then Some (xs ! i) else None)"

definition arr_set :: "'a list \<Rightarrow> nat \<Rightarrow> 'a \<Rightarrow> 'a list option" where
  "arr_set xs i v = (if i < length xs then Some (xs[i := v]) else None)"

lemma arr_get_in [simp]: "i < length xs \<Longrightarrow> arr_get xs i = Some (xs ! i)"
  by (simp add: arr_get_def)

lemma arr_set_in [simp]: "i < length xs \<Longrightarrow> arr_set xs i v = Some (xs[i := v])"
  by (simp add: arr_set_def)

lemma arr_get_eq_Some: "arr_get xs i = Some x \<longleftrightarrow> i < length xs \<and> x = xs ! i"
  by (auto simp: arr_get_def)

lemma arr_set_eq_Some: "arr_set xs i v = Some ys \<longleftrightarrow> i < length xs \<and> ys = xs[i := v]"
  by (auto simp: arr_set_def)

text \<open>\<open>mem_write m i vs\<close> stores the values \<open>vs\<close> at index \<open>i\<close> onwards.\<close>

definition mem_write :: "'a list \<Rightarrow> nat \<Rightarrow> 'a list \<Rightarrow> 'a list option" where
  "mem_write m i vs =
     (if i + length vs \<le> length m
      then Some (take i m @ vs @ drop (i + length vs) m) else None)"

lemma mem_write_in [simp]:
  "i + length vs \<le> length m \<Longrightarrow>
   mem_write m i vs = Some (take i m @ vs @ drop (i + length vs) m)"
  by (simp add: mem_write_def)

lemma mem_write_eq_Some:
  "mem_write m i vs = Some m' \<longleftrightarrow>
   i + length vs \<le> length m \<and> m' = take i m @ vs @ drop (i + length vs) m"
  by (auto simp: mem_write_def)

lemma length_mem_write: "mem_write m i vs = Some m' \<Longrightarrow> length m' = length m"
  by (auto simp: mem_write_eq_Some)

text \<open>\<open>mem_read m i n\<close> loads \<open>n\<close> values from index \<open>i\<close> onwards.\<close>

definition mem_read :: "'a list \<Rightarrow> nat \<Rightarrow> nat \<Rightarrow> 'a list option" where
  "mem_read m i n = (if i + n \<le> length m then Some (take n (drop i m)) else None)"

lemma mem_read_in [simp]: "i + n \<le> length m \<Longrightarrow> mem_read m i n = Some (take n (drop i m))"
  by (simp add: mem_read_def)

lemma mem_read_eq_Some:
  "mem_read m i n = Some vs \<longleftrightarrow> i + n \<le> length m \<and> vs = take n (drop i m)"
  by (auto simp: mem_read_def)

section \<open>C strings\<close>

text \<open>
  A C string is the list of the characters in front of its terminating NUL; a read at the
  end of the list gives the NUL.
\<close>

definition c_char :: "string \<Rightarrow> nat" where
  "c_char s = (case s of [] \<Rightarrow> 0 | c # _ \<Rightarrow> of_char c)"

fun strncmp :: "string \<Rightarrow> string \<Rightarrow> nat \<Rightarrow> int" where
  "strncmp s t 0 = 0"
| "strncmp s t (Suc n) =
     (if c_char s \<noteq> c_char t then int (c_char s) - int (c_char t)
      else if c_char s = 0 then 0
      else strncmp (tl s) (tl t) n)"

text \<open>A string that has at least \<open>n\<close> characters, none of them NUL.\<close>

definition str_prefix_ok :: "nat \<Rightarrow> string \<Rightarrow> bool" where
  "str_prefix_ok n s \<longleftrightarrow> n \<le> length s \<and> CHR 0x00 \<notin> set (take n s)"

lemma of_char_eq_0: "(of_char c :: nat) = 0 \<longleftrightarrow> c = CHR 0x00"
  using of_char_eq_iff [of c "CHR 0x00"] by simp

lemma strncmp_eq_0_iff:
  "str_prefix_ok n s \<Longrightarrow> str_prefix_ok n t \<Longrightarrow> strncmp s t n = 0 \<longleftrightarrow> take n s = take n t"
proof (induction s t n rule: strncmp.induct)
  case (1 s t)
  then show ?case by simp
next
  case (2 s t n)
  from "2.prems" obtain a s' b t' where st: "s = a # s'" "t = b # t'"
    by (cases s; cases t) (auto simp: str_prefix_ok_def)
  from "2.prems" st have ok: "str_prefix_ok n s'" "str_prefix_ok n t'"
    and nz: "a \<noteq> CHR 0x00" "b \<noteq> CHR 0x00"
    by (auto simp: str_prefix_ok_def)
  show ?case
  proof (cases "a = b")
    case True
    with "2.IH" ok nz st show ?thesis by (simp add: c_char_def of_char_eq_0)
  next
    case False
    then have "(of_char a :: nat) \<noteq> of_char b" by simp
    with False st show ?thesis by (simp add: c_char_def)
  qed
qed

section \<open>Decimal numbers\<close>

definition dec_digit :: "nat \<Rightarrow> char" where
  "dec_digit d = char_of (48 + d)"

definition is_digit :: "char \<Rightarrow> bool" where
  "is_digit c \<longleftrightarrow> 48 \<le> (of_char c :: nat) \<and> (of_char c :: nat) \<le> 57"

definition digit_val :: "char \<Rightarrow> nat" where
  "digit_val c = of_char c - 48"

fun dec :: "nat \<Rightarrow> string" where
  "dec n = (if n < 10 then [dec_digit n] else dec (n div 10) @ [dec_digit (n mod 10)])"

declare dec.simps [simp del]

lemma of_char_dec_digit: "d < 10 \<Longrightarrow> (of_char (dec_digit d) :: nat) = 48 + d"
  by (simp add: dec_digit_def)

lemma is_digit_dec_digit [simp]: "d < 10 \<Longrightarrow> is_digit (dec_digit d)"
  by (simp add: is_digit_def of_char_dec_digit)

lemma digit_val_dec_digit [simp]: "d < 10 \<Longrightarrow> digit_val (dec_digit d) = d"
  by (simp add: digit_val_def of_char_dec_digit)

lemma dec_digits: "\<forall>c \<in> set (dec n). is_digit c"
proof (induction n rule: dec.induct)
  case (1 n)
  then show ?case by (subst dec.simps) (auto simp: dec.simps [of n])
qed

lemma dec_nonempty [simp]: "dec n \<noteq> []"
  by (subst dec.simps) simp

lemma length_dec_pos: "0 < length (dec n)"
  by simp

lemma length_dec_le: "n < 10 ^ k \<Longrightarrow> 0 < k \<Longrightarrow> length (dec n) \<le> k"
proof (induction n arbitrary: k rule: dec.induct)
  case (1 n)
  show ?case
  proof (cases "n < 10")
    case True
    with "1.prems" show ?thesis by (simp add: dec.simps [of n])
  next
    case False
    then obtain j where k: "k = Suc j" "0 < j"
      using "1.prems" by (cases k; cases "k - 1") auto
    with "1.prems" have "n div 10 < 10 ^ j" by auto
    with "1.IH" False k have "length (dec (n div 10)) \<le> j" by blast
    with False k show ?thesis by (simp add: dec.simps [of n])
  qed
qed

section \<open>snprintf\<close>

text \<open>
  Arguments of a format: a string for \<open>%s\<close>, an unsigned integer for \<open>%u\<close>,
  \<open>%hu\<close>, \<open>%lu\<close> and their zero-padded forms, a signed one for \<open>%d\<close>.  \<open>c_format\<close> renders a format string;
  a conversion specification ends at its conversion character (\<open>s\<close>, \<open>u\<close> or \<open>d\<close>).
\<close>

datatype fmt_arg = Fmt_str string | Fmt_uint nat | Fmt_int int

definition dec_int :: "int \<Rightarrow> string" where
  "dec_int i = (if i < 0 then CHR ''-'' # dec (nat (- i)) else dec (nat i))"

definition conv_chars :: "string" where
  "conv_chars = ''sud''"

definition field_width :: "string \<Rightarrow> nat" where
  "field_width spec =
     foldl (\<lambda>w c. 10 * w + digit_val c) 0 (takeWhile is_digit spec)"

definition render_arg :: "string \<Rightarrow> fmt_arg \<Rightarrow> string" where
  "render_arg spec a =
     (case a of
        Fmt_str s \<Rightarrow> s
      | Fmt_uint n \<Rightarrow>
          (let d = dec n in
           replicate (field_width spec - length d)
             (if c_char spec = c_char ''0'' then CHR ''0'' else CHR '' '') @ d)
      | Fmt_int i \<Rightarrow> (let d = dec_int i in replicate (field_width spec - length d) (CHR '' '') @ d))"

lemma dropWhile_less: "dropWhile P xs = y # ys \<Longrightarrow> length ys < length xs"
  using length_dropWhile_le [of P xs] by simp

function c_format :: "string \<Rightarrow> fmt_arg list \<Rightarrow> string" where
  "c_format [] as = []"
| "c_format (c # f) as =
     (if c \<noteq> CHR ''%'' then c # c_format f as
      else case dropWhile (\<lambda>k. k \<notin> set conv_chars) f of
        [] \<Rightarrow> []
      | k # f' \<Rightarrow>
          (case as of
             [] \<Rightarrow> []
           | a # as' \<Rightarrow>
               render_arg (takeWhile (\<lambda>k. k \<notin> set conv_chars) f) a @ c_format f' as'))"
  by pat_completeness auto
termination
  by (relation "measure (\<lambda>(f, as). length f)") (auto dest: dropWhile_less)

lemma render_plain [simp]:
  "render_arg [] (Fmt_uint n) = dec n"
  "render_arg ''l'' (Fmt_uint n) = dec n"
  "render_arg ''h'' (Fmt_uint n) = dec n"
  "render_arg ''1'' (Fmt_uint n) = dec n"
  "render_arg spec (Fmt_str s) = s"
  "render_arg [] (Fmt_int i) = dec_int i"
  by (simp_all add: render_arg_def field_width_def Let_def is_digit_def digit_val_def Suc_leI)

text \<open>The rules that render a concrete format; the recursion equation itself is not one.\<close>

lemma c_format_conv:
  "c_format (CHR ''%'' # CHR ''s'' # f) (a # as) = render_arg [] a @ c_format f as"
  "c_format (CHR ''%'' # CHR ''u'' # f) (a # as) = render_arg [] a @ c_format f as"
  "c_format (CHR ''%'' # CHR ''d'' # f) (a # as) = render_arg [] a @ c_format f as"
  "c_format (CHR ''%'' # CHR ''l'' # CHR ''u'' # f) (a # as) = render_arg ''l'' a @ c_format f as"
  "c_format (CHR ''%'' # CHR ''h'' # CHR ''u'' # f) (a # as) = render_arg ''h'' a @ c_format f as"
  "c_format (CHR ''%'' # CHR ''1'' # CHR ''u'' # f) (a # as) = render_arg ''1'' a @ c_format f as"
  "c_format (CHR ''%'' # CHR ''0'' # CHR ''6'' # CHR ''l'' # CHR ''u'' # f) (a # as) =
     render_arg ''06l'' a @ c_format f as"
  by (simp_all add: conv_chars_def)

lemma c_format_plain: "c \<noteq> CHR ''%'' \<Longrightarrow> c_format (c # f) as = c # c_format f as"
  by simp

lemmas format_rules = c_format_conv c_format_plain c_format.simps(1)

lemma render_06: "render_arg ''06l'' (Fmt_uint n) = replicate (6 - length (dec n)) (CHR ''0'') @ dec n"
  by (simp add: render_arg_def field_width_def Let_def is_digit_def digit_val_def c_char_def)

text \<open>
  \<open>snprintf\<close> on a buffer: it stores at most \<open>n - 1\<close> characters and a NUL at
  position \<open>p\<close>, and returns the length of the whole rendered text, or a negative
  number if that length is not an \<open>int\<close>.
\<close>

definition snprintf :: "string \<Rightarrow> nat \<Rightarrow> u32 \<Rightarrow> string \<Rightarrow> (int \<times> string) option" where
  "snprintf buf p n txt =
     (let r = (if length txt < 2 ^ 31 then int (length txt) else -1) in
      if n = 0 then Some (r, buf)
      else do {
        buf' \<leftarrow> mem_write buf p (take (unat n - 1) txt @ [CHR 0x00]);
        Some (r, buf')
      })"

section \<open>strtoul\<close>

definition is_space :: "char \<Rightarrow> bool" where
  "is_space c \<longleftrightarrow> (of_char c :: nat) = 32 \<or> (9 \<le> (of_char c :: nat) \<and> (of_char c :: nat) \<le> 13)"

definition digits_value :: "string \<Rightarrow> nat" where
  "digits_value ds = foldl (\<lambda>v c. 10 * v + digit_val c) 0 ds"

text \<open>
  \<open>strtoul (s, NULL, 10)\<close> with the 32-bit \<open>unsigned long\<close> of both build targets:
  white space, an optional sign, digits; a value out of range gives \<open>ULONG_MAX\<close>.
\<close>

definition strtoul10 :: "string \<Rightarrow> u32" where
  "strtoul10 s0 =
     (let s = dropWhile is_space s0;
          neg = (s \<noteq> [] \<and> hd s = CHR ''-'');
          t = (if s \<noteq> [] \<and> (hd s = CHR ''-'' \<or> hd s = CHR ''+'') then tl s else s);
          v = digits_value (takeWhile is_digit t)
      in if v < 2 ^ 32 then (if neg then - of_nat v else of_nat v) else - 1)"

lemma digits_value_snoc: "digits_value (ds @ [c]) = 10 * digits_value ds + digit_val c"
  by (simp add: digits_value_def)

lemma digits_value_dec [simp]: "digits_value (dec n) = n"
proof (induction n rule: dec.induct)
  case (1 n)
  then show ?case
    by (cases "n < 10")
       (simp_all add: dec.simps [of n] digits_value_snoc digits_value_def [of "[_]"])
qed

lemma is_digit_not_space: "is_digit c \<Longrightarrow> \<not> is_space c"
  by (auto simp: is_digit_def is_space_def)

lemma is_digit_not_sign: "is_digit c \<Longrightarrow> c \<noteq> CHR ''-'' \<and> c \<noteq> CHR ''+''"
  by (auto simp: is_digit_def)

text \<open>Reading a run of digits, whatever follows it.\<close>

lemma strtoul10_digits:
  assumes "ds \<noteq> []" and "\<forall>c \<in> set ds. is_digit c" and "digits_value ds < 2 ^ 32"
    and "rest = [] \<or> \<not> is_digit (hd rest)"
  shows "strtoul10 (ds @ rest) = of_nat (digits_value ds)"
proof -
  obtain c ds' where cs: "ds = c # ds'" using assms(1) by (cases ds) auto
  with assms(2) have c: "is_digit c" by simp
  have drop: "dropWhile is_space (ds @ rest) = ds @ rest"
    using c cs by (simp add: is_digit_not_space)
  have tw: "takeWhile is_digit (ds @ rest) = ds"
  proof -
    have "takeWhile is_digit (ds @ rest) = ds @ takeWhile is_digit rest"
      using assms(2) by (simp add: takeWhile_append2)
    also have "takeWhile is_digit rest = []"
      using assms(4) by (cases rest) auto
    finally show ?thesis by simp
  qed
  from tw cs c is_digit_not_space [OF c] is_digit_not_sign [OF c] assms(3) drop
  show ?thesis by (simp add: strtoul10_def Let_def)
qed

text \<open>Reading back a printed number.\<close>

lemma strtoul10_dec:
  "n < 2 ^ 32 \<Longrightarrow> rest = [] \<or> \<not> is_digit (hd rest) \<Longrightarrow> strtoul10 (dec n @ rest) = of_nat n"
  using strtoul10_digits [of "dec n" rest] dec_digits [of n] by simp

lemma digits_value_zeros [simp]: "digits_value (replicate k (CHR ''0'') @ ds) = digits_value ds"
proof (induction k)
  case (Suc k)
  then show ?case by (simp add: digits_value_def digit_val_def)
qed simp

end
