(* ===== verification/Subscription_Manager.thy ===== *)
theory Subscription_Manager
  imports Prelude
begin

text \<open>
  source/subscription-manager: the array of subscriptions that fans incoming publishes out
  to the callbacks of the tasks.

  The array is a list of elements of length \<open>SUBSCRIPTION_MANAGER_MAX_SUBSCRIPTIONS\<close>;
  an element whose filter length is 0 is free.  A pointer argument is an \<open>option\<close>, \<open>None\<close>
  being \<open>NULL\<close>; function pointers and callback contexts are values of the type variables
  \<open>'cb\<close> and \<open>'ctx\<close>.  The abstract state of the array is \<open>subs\<close>, the set of its
  (filter, callback, context) triples; the locale \<open>subscription_store\<close> states what the
  tasks rely on, and the interpretation at the end shows that the code provides it.
\<close>

section \<open>Data\<close>

record ('cb, 'ctx) SubscriptionElement =
  pxIncomingPublishCallback :: "'cb option"
  pvIncomingPublishCallbackContext :: "'ctx option"
  usFilterStringLength :: u16
  pcSubscriptionFilterString :: "string option"

definition SUBSCRIPTION_MANAGER_MAX_SUBSCRIPTIONS :: nat where
  "SUBSCRIPTION_MANAGER_MAX_SUBSCRIPTIONS = 10"

text \<open>The element that \<open>memset (.., 0x00, ..)\<close> leaves, and the zero-initialised array.\<close>

definition zero_element :: "('cb, 'ctx) SubscriptionElement" where
  "zero_element = \<lparr>pxIncomingPublishCallback = None, pvIncomingPublishCallbackContext = None,
     usFilterStringLength = 0, pcSubscriptionFilterString = None\<rparr>"

definition empty_list :: "('cb, 'ctx) SubscriptionElement list" where
  "empty_list = replicate SUBSCRIPTION_MANAGER_MAX_SUBSCRIPTIONS zero_element"

section \<open>addSubscription\<close>

text \<open>
  The scan of \<open>addSubscription\<close>: \<open>lIndex\<close> runs from the end of the array down to 0
  (the argument is \<open>lIndex + 1\<close>), \<open>avail\<close> is \<open>xAvailableIndex\<close>.  The result is
  \<open>(xAvailableIndex, xReturnStatus)\<close> at the end of the loop or at the \<open>break\<close>.
\<close>

fun add_scan ::
  "('cb, 'ctx) SubscriptionElement list \<Rightarrow> string \<Rightarrow> u16 \<Rightarrow> 'cb \<Rightarrow> 'ctx option
   \<Rightarrow> nat \<Rightarrow> nat \<Rightarrow> (nat \<times> bool) option" where
  "add_scan l f len cb ctx 0 avail = Some (avail, False)"
| "add_scan l f len cb ctx (Suc i) avail = do {
     e \<leftarrow> arr_get l i;
     if usFilterStringLength e = 0 then add_scan l f len cb ctx i i
     else if usFilterStringLength e = len then do {
       s \<leftarrow> pcSubscriptionFilterString e;
       if strncmp f s (unat len) = 0
          \<and> pxIncomingPublishCallback e = Some cb
          \<and> pvIncomingPublishCallbackContext e = ctx
       then Some (SUBSCRIPTION_MANAGER_MAX_SUBSCRIPTIONS, True)
       else add_scan l f len cb ctx i avail
     }
     else add_scan l f len cb ctx i avail
   }"

definition addSubscription ::
  "('cb, 'ctx) SubscriptionElement list option \<Rightarrow> string option \<Rightarrow> u16 \<Rightarrow> 'cb option
   \<Rightarrow> 'ctx option \<Rightarrow> (bool \<times> ('cb, 'ctx) SubscriptionElement list option) option" where
  "addSubscription pl pf len pcb ctx =
     (case (pl, pf, pcb) of
        (Some l, Some f, Some cb) \<Rightarrow>
          if len = 0 then Some (False, pl)
          else do {
            (avail, found) \<leftarrow> add_scan l f len cb ctx
               SUBSCRIPTION_MANAGER_MAX_SUBSCRIPTIONS SUBSCRIPTION_MANAGER_MAX_SUBSCRIPTIONS;
            if avail < SUBSCRIPTION_MANAGER_MAX_SUBSCRIPTIONS then do {
              e \<leftarrow> arr_get l avail;
              l' \<leftarrow> arr_set l avail
                 (e\<lparr>pcSubscriptionFilterString := Some f, usFilterStringLength := len,
                    pxIncomingPublishCallback := Some cb,
                    pvIncomingPublishCallbackContext := ctx\<rparr>);
              Some (True, Some l')
            }
            else Some (found, pl)
          }
      | _ \<Rightarrow> Some (False, pl))"

section \<open>removeSubscription\<close>

text \<open>The loop over the array from \<open>ulIndex = i\<close>, with \<open>n\<close> elements left.\<close>

fun remove_scan ::
  "('cb, 'ctx) SubscriptionElement list \<Rightarrow> string \<Rightarrow> u16 \<Rightarrow> nat \<Rightarrow> nat
   \<Rightarrow> ('cb, 'ctx) SubscriptionElement list option" where
  "remove_scan l f len i 0 = Some l"
| "remove_scan l f len i (Suc n) = do {
     e \<leftarrow> arr_get l i;
     l' \<leftarrow> (if usFilterStringLength e = len then do {
              s \<leftarrow> pcSubscriptionFilterString e;
              if strncmp s f (unat len) = 0 then arr_set l i zero_element else Some l
            }
            else Some l);
     remove_scan l' f len (Suc i) n
   }"

definition removeSubscription ::
  "('cb, 'ctx) SubscriptionElement list option \<Rightarrow> string option \<Rightarrow> u16
   \<Rightarrow> ('cb, 'ctx) SubscriptionElement list option option" where
  "removeSubscription pl pf len =
     (case (pl, pf) of
        (Some l, Some f) \<Rightarrow>
          if len = 0 then Some pl
          else map_option Some (remove_scan l f len 0 SUBSCRIPTION_MANAGER_MAX_SUBSCRIPTIONS)
      | _ \<Rightarrow> Some pl)"

section \<open>handleIncomingPublishes\<close>

text \<open>
  \<open>MQTTPublishInfo_t\<close> of the coreMQTT library, as far as the program reads it.
\<close>

record MQTTPublishInfo =
  pub_qos :: nat
  pTopicName :: string
  topicNameLength :: u16
  pPayload :: "string option"
  payloadLength :: nat

text \<open>
  \<open>MQTT_MatchTopic\<close> belongs to coreMQTT and is a parameter: \<open>Some b\<close> when it writes
  \<open>b\<close> to \<open>*pIsMatch\<close>, \<open>None\<close> when it rejects its arguments and leaves it unwritten.
  \<open>invoke\<close> runs a callback on the world \<open>'w\<close> of the callbacks.
\<close>

type_synonym match_topic = "string \<Rightarrow> u16 \<Rightarrow> string \<Rightarrow> u16 \<Rightarrow> bool option"
type_synonym ('cb, 'ctx, 'w) invoke =
  "'cb \<Rightarrow> 'ctx option \<Rightarrow> MQTTPublishInfo \<Rightarrow> 'w \<Rightarrow> 'w option"

fun handle_scan ::
  "match_topic \<Rightarrow> ('cb, 'ctx, 'w) invoke \<Rightarrow> ('cb, 'ctx) SubscriptionElement list
   \<Rightarrow> MQTTPublishInfo \<Rightarrow> nat \<Rightarrow> nat \<Rightarrow> bool \<Rightarrow> bool \<Rightarrow> 'w \<Rightarrow> (bool \<times> 'w) option" where
  "handle_scan match invoke l p i 0 isMatched handled w = Some (handled, w)"
| "handle_scan match invoke l p i (Suc n) isMatched handled w = do {
     e \<leftarrow> arr_get l i;
     if 0 < usFilterStringLength e then do {
       s \<leftarrow> pcSubscriptionFilterString e;
       let isMatched' =
         (case match (pTopicName p) (topicNameLength p) s (usFilterStringLength e) of
            Some b \<Rightarrow> b | None \<Rightarrow> isMatched);
       if isMatched' then do {
         cb \<leftarrow> pxIncomingPublishCallback e;
         w' \<leftarrow> invoke cb (pvIncomingPublishCallbackContext e) p w;
         handle_scan match invoke l p (Suc i) n isMatched' True w'
       }
       else handle_scan match invoke l p (Suc i) n isMatched' handled w
     }
     else handle_scan match invoke l p (Suc i) n isMatched handled w
   }"

definition handleIncomingPublishes ::
  "match_topic \<Rightarrow> ('cb, 'ctx, 'w) invoke \<Rightarrow> ('cb, 'ctx) SubscriptionElement list option
   \<Rightarrow> MQTTPublishInfo option \<Rightarrow> 'w \<Rightarrow> (bool \<times> 'w) option" where
  "handleIncomingPublishes match invoke pl pp w =
     (case (pl, pp) of
        (Some l, Some p) \<Rightarrow>
          handle_scan match invoke l p 0 SUBSCRIPTION_MANAGER_MAX_SUBSCRIPTIONS False False w
      | _ \<Rightarrow> Some (False, w))"

section \<open>Invariant and abstract state\<close>

abbreviation used :: "('cb, 'ctx) SubscriptionElement \<Rightarrow> bool" where
  "used e \<equiv> usFilterStringLength e \<noteq> 0"

definition elem_ok :: "('cb, 'ctx) SubscriptionElement \<Rightarrow> bool" where
  "elem_ok e \<longleftrightarrow>
     used e \<longrightarrow> (\<exists>s cb. pcSubscriptionFilterString e = Some s
                   \<and> str_prefix_ok (unat (usFilterStringLength e)) s
                   \<and> pxIncomingPublishCallback e = Some cb)"

definition sub_key :: "('cb, 'ctx) SubscriptionElement \<Rightarrow> string \<times> 'cb \<times> 'ctx option" where
  "sub_key e =
     (take (unat (usFilterStringLength e)) (the (pcSubscriptionFilterString e)),
      the (pxIncomingPublishCallback e), pvIncomingPublishCallbackContext e)"

definition subs ::
  "('cb, 'ctx) SubscriptionElement list \<Rightarrow> (string \<times> 'cb \<times> 'ctx option) set" where
  "subs l = sub_key ` {e \<in> set l. used e}"

definition list_ok :: "('cb, 'ctx) SubscriptionElement list \<Rightarrow> bool" where
  "list_ok l \<longleftrightarrow>
     length l = SUBSCRIPTION_MANAGER_MAX_SUBSCRIPTIONS
     \<and> (\<forall>e \<in> set l. elem_ok e)
     \<and> (\<forall>i < length l. \<forall>j < length l. used (l ! i) \<longrightarrow> used (l ! j) \<longrightarrow>
          sub_key (l ! i) = sub_key (l ! j) \<longrightarrow> i = j)"

text \<open>A filter argument that the operations accept: not empty, no NUL inside.\<close>

definition filter_arg_ok :: "string \<Rightarrow> u16 \<Rightarrow> bool" where
  "filter_arg_ok f len \<longleftrightarrow> len \<noteq> 0 \<and> str_prefix_ok (unat len) f"

lemma zero_element_unused [simp]: "\<not> used zero_element"
  by (simp add: zero_element_def)

lemma elem_ok_zero [simp]: "elem_ok zero_element"
  by (simp add: elem_ok_def)

lemma list_ok_empty: "list_ok empty_list" and subs_empty: "subs empty_list = {}"
  by (auto simp: list_ok_def empty_list_def subs_def zero_element_def elem_ok_def)

lemma list_ok_length: "list_ok l \<Longrightarrow> length l = SUBSCRIPTION_MANAGER_MAX_SUBSCRIPTIONS"
  by (simp add: list_ok_def)

lemma list_ok_nth: "list_ok l \<Longrightarrow> i < length l \<Longrightarrow> elem_ok (l ! i)"
  by (simp add: list_ok_def)

lemma elem_okE:
  assumes "elem_ok e" and "used e"
  obtains s cb where "pcSubscriptionFilterString e = Some s"
    and "str_prefix_ok (unat (usFilterStringLength e)) s"
    and "pxIncomingPublishCallback e = Some cb"
    and "sub_key e = (take (unat (usFilterStringLength e)) s, cb,
                      pvIncomingPublishCallbackContext e)"
  using assms by (auto simp: elem_ok_def sub_key_def)

text \<open>Equality of filters as the code compares them: lengths first, then \<open>strncmp\<close>.\<close>

lemma filter_eq_iff:
  assumes "str_prefix_ok (unat n) s" and "str_prefix_ok (unat m) t"
  shows "n = m \<and> strncmp s t (unat m) = 0 \<longleftrightarrow> take (unat n) s = take (unat m) t"
proof
  assume "n = m \<and> strncmp s t (unat m) = 0"
  with assms show "take (unat n) s = take (unat m) t"
    using strncmp_eq_0_iff [of "unat m" s t] by simp
next
  assume eq: "take (unat n) s = take (unat m) t"
  then have "length (take (unat n) s) = length (take (unat m) t)" by simp
  with assms have "unat n = unat m" by (simp add: str_prefix_ok_def)
  then have "n = m" by (simp only: word_unat_eq_iff)
  with eq assms show "n = m \<and> strncmp s t (unat m) = 0"
    using strncmp_eq_0_iff [of "unat m" s t] by simp
qed

lemma strncmp_sym_0:
  "str_prefix_ok n s \<Longrightarrow> str_prefix_ok n t \<Longrightarrow> strncmp s t n = 0 \<longleftrightarrow> strncmp t s n = 0"
  by (auto simp: strncmp_eq_0_iff)

text \<open>One step of the scan of \<open>addSubscription\<close>, over the abstract keys.\<close>

lemma add_scan_step:
  assumes "list_ok l" and "filter_arg_ok f len"
    and "i < SUBSCRIPTION_MANAGER_MAX_SUBSCRIPTIONS"
  shows "add_scan l f len cb ctx (Suc i) avail =
    (if \<not> used (l ! i) then add_scan l f len cb ctx i i
     else if sub_key (l ! i) = (take (unat len) f, cb, ctx)
     then Some (SUBSCRIPTION_MANAGER_MAX_SUBSCRIPTIONS, True)
     else add_scan l f len cb ctx i avail)"
proof -
  from assms(1,3) have i: "i < length l" by (simp add: list_ok_length)
  show ?thesis
  proof (cases "used (l ! i)")
    case False
    with i show ?thesis by simp
  next
    case True
    with assms(1) i obtain s cb' where e: "pcSubscriptionFilterString (l ! i) = Some s"
      "str_prefix_ok (unat (usFilterStringLength (l ! i))) s"
      "pxIncomingPublishCallback (l ! i) = Some cb'"
      "sub_key (l ! i) = (take (unat (usFilterStringLength (l ! i))) s, cb',
         pvIncomingPublishCallbackContext (l ! i))"
      using elem_okE list_ok_nth by metis
    have "usFilterStringLength (l ! i) = len \<and> strncmp f s (unat len) = 0
      \<longleftrightarrow> take (unat (usFilterStringLength (l ! i))) s = take (unat len) f"
      using filter_eq_iff [of "usFilterStringLength (l ! i)" s len f] e(2) assms(2)
        strncmp_sym_0 [of "unat len" s f]
      by (auto simp: filter_arg_ok_def)
    with True i e show ?thesis by auto
  qed
qed

declare add_scan.simps(2) [simp del]

lemma add_scan_found:
  assumes "list_ok l" and "filter_arg_ok f len"
  shows "i \<le> SUBSCRIPTION_MANAGER_MAX_SUBSCRIPTIONS \<Longrightarrow>
    j < i \<Longrightarrow> used (l ! j) \<Longrightarrow> sub_key (l ! j) = (take (unat len) f, cb, ctx) \<Longrightarrow>
    add_scan l f len cb ctx i avail = Some (SUBSCRIPTION_MANAGER_MAX_SUBSCRIPTIONS, True)"
proof (induction i arbitrary: avail)
  case 0
  then show ?case by simp
next
  case (Suc i)
  then show ?case
    using add_scan_step [OF assms, of i cb ctx avail] by (cases "j = i") auto
qed

lemma add_scan_new:
  assumes "list_ok l" and "filter_arg_ok f len"
  shows "i \<le> SUBSCRIPTION_MANAGER_MAX_SUBSCRIPTIONS \<Longrightarrow>
    \<forall>j < i. used (l ! j) \<longrightarrow> sub_key (l ! j) \<noteq> (take (unat len) f, cb, ctx) \<Longrightarrow>
    \<exists>a. add_scan l f len cb ctx i avail = Some (a, False)
      \<and> ((\<forall>j < i. used (l ! j)) \<and> a = avail
         \<or> a < i \<and> \<not> used (l ! a) \<and> (\<forall>j < a. used (l ! j)))"
proof (induction i arbitrary: avail)
  case 0
  then show ?case by simp
next
  case (Suc i)
  then have i: "i < SUBSCRIPTION_MANAGER_MAX_SUBSCRIPTIONS"
    and new: "\<forall>j < i. used (l ! j) \<longrightarrow> sub_key (l ! j) \<noteq> (take (unat len) f, cb, ctx)" by auto
  note step = add_scan_step [OF assms i, of cb ctx avail]
  show ?case
  proof (cases "used (l ! i)")
    case False
    obtain a where "add_scan l f len cb ctx i i = Some (a, False)"
      and "(\<forall>j < i. used (l ! j)) \<and> a = i \<or> a < i \<and> \<not> used (l ! a) \<and> (\<forall>j < a. used (l ! j))"
      using Suc.IH [of i] i new by auto
    with False step show ?thesis by (auto simp: less_Suc_eq)
  next
    case True
    with Suc.prems have "sub_key (l ! i) \<noteq> (take (unat len) f, cb, ctx)" by simp
    moreover obtain a where "add_scan l f len cb ctx i avail = Some (a, False)"
      and "(\<forall>j < i. used (l ! j)) \<and> a = avail
         \<or> a < i \<and> \<not> used (l ! a) \<and> (\<forall>j < a. used (l ! j))"
      using Suc.IH [of avail] i new by auto
    ultimately show ?thesis using True step by (auto simp: less_Suc_eq)
  qed
qed

section \<open>What addSubscription does to a well-formed array\<close>

lemma subs_iff:
  "k \<in> subs l \<longleftrightarrow> (\<exists>i < length l. used (l ! i) \<and> sub_key (l ! i) = k)"
  by (auto simp: subs_def in_set_conv_nth)

lemma addSubscription_known:
  assumes "list_ok l" and "filter_arg_ok f len" and "(take (unat len) f, cb, ctx) \<in> subs l"
  shows "addSubscription (Some l) (Some f) len (Some cb) ctx = Some (True, Some l)"
proof -
  from assms(3) obtain j where "j < length l" "used (l ! j)"
    "sub_key (l ! j) = (take (unat len) f, cb, ctx)" by (auto simp: subs_iff)
  with assms have "add_scan l f len cb ctx SUBSCRIPTION_MANAGER_MAX_SUBSCRIPTIONS
      SUBSCRIPTION_MANAGER_MAX_SUBSCRIPTIONS = Some (SUBSCRIPTION_MANAGER_MAX_SUBSCRIPTIONS, True)"
    using add_scan_found [of l f len SUBSCRIPTION_MANAGER_MAX_SUBSCRIPTIONS j cb ctx]
    by (simp add: list_ok_length)
  with assms(2) show ?thesis by (simp add: addSubscription_def filter_arg_ok_def)
qed

text \<open>The element that \<open>addSubscription\<close> writes over the free element \<open>e\<close>.\<close>

abbreviation new_element where
  "new_element e f len cb ctx \<equiv>
     e\<lparr>pcSubscriptionFilterString := Some f, usFilterStringLength := len,
       pxIncomingPublishCallback := Some cb, pvIncomingPublishCallbackContext := ctx\<rparr>"

lemma sub_key_new [simp]:
  "sub_key (new_element e f len cb ctx) = (take (unat len) f, cb, ctx)"
  by (simp add: sub_key_def)

lemma addSubscription_new:
  assumes "list_ok l" and "filter_arg_ok f len" and "(take (unat len) f, cb, ctx) \<notin> subs l"
  shows "(\<forall>e \<in> set l. used e)
           \<and> addSubscription (Some l) (Some f) len (Some cb) ctx = Some (False, Some l)
       \<or> (\<exists>a < length l. \<not> used (l ! a) \<and> (\<forall>j < a. used (l ! j))
           \<and> addSubscription (Some l) (Some f) len (Some cb) ctx =
               Some (True, Some (l[a := new_element (l ! a) f len cb ctx])))"
proof -
  let ?n = SUBSCRIPTION_MANAGER_MAX_SUBSCRIPTIONS
  have len: "length l = ?n" using assms(1) by (rule list_ok_length)
  with assms(3) have "\<forall>j < ?n. used (l ! j) \<longrightarrow> sub_key (l ! j) \<noteq> (take (unat len) f, cb, ctx)"
    by (auto simp: subs_iff)
  then obtain a where scan: "add_scan l f len cb ctx ?n ?n = Some (a, False)"
    and a: "(\<forall>j < ?n. used (l ! j)) \<and> a = ?n
       \<or> a < ?n \<and> \<not> used (l ! a) \<and> (\<forall>j < a. used (l ! j))"
    using add_scan_new [OF assms(1,2), of ?n cb ctx ?n] by auto
  from assms(2) have nz: "len \<noteq> 0" by (simp add: filter_arg_ok_def)
  from a show ?thesis
  proof
    assume full: "(\<forall>j < ?n. used (l ! j)) \<and> a = ?n"
    with scan nz len show ?thesis by (auto simp: addSubscription_def in_set_conv_nth)
  next
    assume "a < ?n \<and> \<not> used (l ! a) \<and> (\<forall>j < a. used (l ! j))"
    with scan nz len show ?thesis by (auto simp: addSubscription_def)
  qed
qed

lemma list_ok_update:
  assumes "list_ok l" and "a < length l" and "\<not> used (l ! a)" and "elem_ok e"
    and "sub_key e \<notin> subs l"
  shows "list_ok (l[a := e])"
  unfolding list_ok_def
proof (intro conjI allI impI ballI)
  show "length (l[a := e]) = SUBSCRIPTION_MANAGER_MAX_SUBSCRIPTIONS"
    using assms(1) by (simp add: list_ok_length)
next
  fix x assume "x \<in> set (l[a := e])"
  then have "x \<in> insert e (set l)" using set_update_subset_insert by fastforce
  with assms show "elem_ok x" by (auto simp: list_ok_def)
next
  fix i j
  assume "i < length (l[a := e])" "j < length (l[a := e])"
    "used (l[a := e] ! i)" "used (l[a := e] ! j)"
    "sub_key (l[a := e] ! i) = sub_key (l[a := e] ! j)"
  with assms show "i = j"
    by (cases "i = a"; cases "j = a") (auto simp: list_ok_def subs_iff)
qed

lemma subs_update:
  assumes "a < length l" and "\<not> used (l ! a)" and "used e"
  shows "subs (l[a := e]) = insert (sub_key e) (subs l)"
proof
  show "subs (l[a := e]) \<subseteq> insert (sub_key e) (subs l)"
    using assms by (auto simp: subs_iff nth_list_update split: if_splits)
next
  show "insert (sub_key e) (subs l) \<subseteq> subs (l[a := e])"
  proof
    fix k assume "k \<in> insert (sub_key e) (subs l)"
    then show "k \<in> subs (l[a := e])"
    proof
      assume "k = sub_key e"
      with assms show ?thesis by (auto simp: subs_iff intro!: exI [of _ a])
    next
      assume "k \<in> subs l"
      then obtain i where i: "i < length l" "used (l ! i)" "sub_key (l ! i) = k"
        by (auto simp: subs_iff)
      with assms have "i \<noteq> a" by auto
      with i show ?thesis by (auto simp: subs_iff intro!: exI [of _ i])
    qed
  qed
qed

lemma elem_ok_new: "filter_arg_ok f len \<Longrightarrow> elem_ok (new_element e f len cb ctx)"
  by (simp add: elem_ok_def filter_arg_ok_def)

text \<open>The contract of \<open>addSubscription\<close> over the abstract state.\<close>

lemma addSubscription_contract:
  assumes "list_ok l" and "filter_arg_ok f len"
  shows "\<exists>ok l'. addSubscription (Some l) (Some f) len (Some cb) ctx = Some (ok, Some l')
    \<and> list_ok l'
    \<and> (ok \<longrightarrow> subs l' = insert (take (unat len) f, cb, ctx) (subs l))
    \<and> (\<not> ok \<longrightarrow> l' = l \<and> (\<forall>e \<in> set l. used e) \<and> (take (unat len) f, cb, ctx) \<notin> subs l)"
proof (cases "(take (unat len) f, cb, ctx) \<in> subs l")
  case True
  with assms show ?thesis by (auto simp: addSubscription_known)
next
  case False
  from addSubscription_new [OF assms this] show ?thesis
  proof
    assume "(\<forall>e \<in> set l. used e)
      \<and> addSubscription (Some l) (Some f) len (Some cb) ctx = Some (False, Some l)"
    with assms False show ?thesis by auto
  next
    assume "\<exists>a < length l. \<not> used (l ! a) \<and> (\<forall>j < a. used (l ! j))
      \<and> addSubscription (Some l) (Some f) len (Some cb) ctx =
          Some (True, Some (l[a := new_element (l ! a) f len cb ctx]))"
    then obtain a where a: "a < length l" "\<not> used (l ! a)"
      and r: "addSubscription (Some l) (Some f) len (Some cb) ctx =
          Some (True, Some (l[a := new_element (l ! a) f len cb ctx]))" by blast
    from assms(2) have "used (new_element (l ! a) f len cb ctx)"
      by (simp add: filter_arg_ok_def)
    with a have "subs (l[a := new_element (l ! a) f len cb ctx]) =
        insert (take (unat len) f, cb, ctx) (subs l)"
      by (simp add: subs_update)
    moreover have "list_ok (l[a := new_element (l ! a) f len cb ctx])"
      using assms a False by (simp add: list_ok_update elem_ok_new)
    ultimately show ?thesis using r by auto
  qed
qed

section \<open>What removeSubscription does to a well-formed array\<close>

definition has_filter :: "string \<Rightarrow> ('cb, 'ctx) SubscriptionElement \<Rightarrow> bool" where
  "has_filter flt e \<longleftrightarrow> used e \<and> fst (sub_key e) = flt"

text \<open>The reference: clear every element with the given filter, keep the others.\<close>

definition clear_filter ::
  "string \<Rightarrow> ('cb, 'ctx) SubscriptionElement \<Rightarrow> ('cb, 'ctx) SubscriptionElement" where
  "clear_filter flt e = (if has_filter flt e then zero_element else e)"

lemma remove_elem:
  assumes "elem_ok e" and "filter_arg_ok f len"
  shows "(if usFilterStringLength e = len then do {
            s \<leftarrow> pcSubscriptionFilterString e;
            if strncmp s f (unat len) = 0 then Some zero_element else Some e
          }
          else Some e) = Some (clear_filter (take (unat len) f) e)"
proof (cases "used e")
  case False
  with assms(2) show ?thesis by (auto simp: clear_filter_def has_filter_def filter_arg_ok_def)
next
  case True
  with assms(1) obtain s cb where s: "pcSubscriptionFilterString e = Some s"
    "str_prefix_ok (unat (usFilterStringLength e)) s"
    "sub_key e = (take (unat (usFilterStringLength e)) s, cb, pvIncomingPublishCallbackContext e)"
    using elem_okE by metis
  have "usFilterStringLength e = len \<and> strncmp s f (unat len) = 0 \<longleftrightarrow>
      take (unat (usFilterStringLength e)) s = take (unat len) f"
    using filter_eq_iff [of "usFilterStringLength e" s len f] s assms(2)
    by (simp add: filter_arg_ok_def)
  with True s show ?thesis by (auto simp: clear_filter_def has_filter_def)
qed

lemma remove_scan_eq:
  assumes "filter_arg_ok f len"
  shows "\<forall>e \<in> set l. elem_ok e \<Longrightarrow> i + n \<le> length l \<Longrightarrow>
    remove_scan l f len i n =
      Some (take i l @ map (clear_filter (take (unat len) f)) (take n (drop i l)) @ drop (i + n) l)"
proof (induction n arbitrary: l i)
  case 0
  then show ?case by simp
next
  case (Suc n)
  let ?c = "clear_filter (take (unat len) f)"
  from Suc.prems have i: "i < length l" and ok: "elem_ok (l ! i)" by auto
  let ?l = "l[i := ?c (l ! i)]"
  have step: "(if usFilterStringLength (l ! i) = len then do {
            s \<leftarrow> pcSubscriptionFilterString (l ! i);
            if strncmp s f (unat len) = 0 then arr_set l i zero_element else Some l
          }
          else Some l) = Some ?l" (is "?lhs = _")
  proof -
    have "?lhs = map_option (\<lambda>e. l[i := e])
       (if usFilterStringLength (l ! i) = len then do {
          s \<leftarrow> pcSubscriptionFilterString (l ! i);
          if strncmp s f (unat len) = 0 then Some zero_element else Some (l ! i)
        }
        else Some (l ! i))"
      using i by (cases "pcSubscriptionFilterString (l ! i)") simp_all
    then show ?thesis by (simp only: remove_elem [OF ok assms] option.map)
  qed
  have "\<forall>e \<in> set ?l. elem_ok e"
  proof
    fix e assume "e \<in> set ?l"
    then have "e \<in> insert (?c (l ! i)) (set l)" using set_update_subset_insert by fastforce
    with Suc.prems ok show "elem_ok e" by (auto simp: clear_filter_def)
  qed
  with Suc.IH [of ?l "Suc i"] Suc.prems
  have "remove_scan ?l f len (Suc i) n =
      Some (take (Suc i) ?l @ map ?c (take n (drop (Suc i) ?l)) @ drop (Suc i + n) ?l)" by simp
  moreover have "take (Suc i) ?l = take i l @ [?c (l ! i)]"
    using i by (simp add: take_Suc_conv_app_nth)
  moreover have "take (Suc n) (drop i l) = l ! i # take n (drop (Suc i) l)"
    using i by (simp add: Cons_nth_drop_Suc [symmetric])
  ultimately show ?case using step i by simp
qed

lemma removeSubscription_eq:
  assumes "list_ok l" and "filter_arg_ok f len"
  shows "removeSubscription (Some l) (Some f) len =
    Some (Some (map (clear_filter (take (unat len) f)) l))"
proof -
  have "remove_scan l f len 0 SUBSCRIPTION_MANAGER_MAX_SUBSCRIPTIONS =
      Some (map (clear_filter (take (unat len) f)) l)"
    using remove_scan_eq [OF assms(2), of l 0 SUBSCRIPTION_MANAGER_MAX_SUBSCRIPTIONS]
      list_ok_length [OF assms(1)] assms(1)
    by (simp add: list_ok_def)
  with assms(2) show ?thesis by (simp add: removeSubscription_def filter_arg_ok_def)
qed

lemma used_clear: "used (clear_filter flt e) \<longleftrightarrow> used e \<and> \<not> has_filter flt e"
  by (simp add: clear_filter_def)

lemma list_ok_clear:
  assumes "list_ok l"
  shows "list_ok (map (clear_filter flt) l)"
  using assms unfolding list_ok_def by (auto simp: clear_filter_def)

lemma subs_clear: "subs (map (clear_filter flt) l) = {k \<in> subs l. fst k \<noteq> flt}"
proof (intro set_eqI iffI)
  fix k assume "k \<in> subs (map (clear_filter flt) l)"
  then show "k \<in> {k \<in> subs l. fst k \<noteq> flt}"
    by (auto simp: subs_iff used_clear) (auto simp: clear_filter_def has_filter_def)
next
  fix k assume "k \<in> {k \<in> subs l. fst k \<noteq> flt}"
  then show "k \<in> subs (map (clear_filter flt) l)"
    by (auto simp: subs_iff clear_filter_def has_filter_def)
qed

section \<open>What handleIncomingPublishes does\<close>

text \<open>The reference fan-out: the matching elements, in array order.\<close>

fun invoke_all ::
  "('cb, 'ctx, 'w) invoke \<Rightarrow> MQTTPublishInfo \<Rightarrow> ('cb, 'ctx) SubscriptionElement list
   \<Rightarrow> 'w \<Rightarrow> 'w option" where
  "invoke_all invoke p [] w = Some w"
| "invoke_all invoke p (e # es) w = do {
     cb \<leftarrow> pxIncomingPublishCallback e;
     w' \<leftarrow> invoke cb (pvIncomingPublishCallbackContext e) p w;
     invoke_all invoke p es w'
   }"

definition matching ::
  "(string \<Rightarrow> u16 \<Rightarrow> string \<Rightarrow> u16 \<Rightarrow> bool) \<Rightarrow> MQTTPublishInfo
   \<Rightarrow> ('cb, 'ctx) SubscriptionElement list \<Rightarrow> ('cb, 'ctx) SubscriptionElement list" where
  "matching m p l = filter (\<lambda>e. used e \<and>
     m (pTopicName p) (topicNameLength p) (the (pcSubscriptionFilterString e))
       (usFilterStringLength e)) l"

declare handle_scan.simps(2) [simp del]

lemma handle_scan_eq:
  assumes "\<forall>e \<in> set l. elem_ok e"
  shows "i + n \<le> length l \<Longrightarrow>
    handle_scan (\<lambda>tn tl s sl. Some (m tn tl s sl)) invoke l p i n im handled w =
      map_option (\<lambda>w'. (handled \<or> matching m p (take n (drop i l)) \<noteq> [], w'))
        (invoke_all invoke p (matching m p (take n (drop i l))) w)"
proof (induction n arbitrary: i im handled w)
  case 0
  then show ?case by (simp add: matching_def)
next
  case (Suc n)
  then have i: "i < length l" and ok: "elem_ok (l ! i)" using assms by auto
  have split: "take (Suc n) (drop i l) = l ! i # take n (drop (Suc i) l)"
    using i by (simp add: Cons_nth_drop_Suc [symmetric])
  note IH = Suc.IH [of "Suc i"]
  let ?match = "\<lambda>tn tl s sl. Some (m tn tl s sl)"
  note step = handle_scan.simps(2) [of ?match invoke l p i n im handled w]
  show ?case
  proof (cases "used (l ! i)")
    case False
    with Suc.prems i split IH step show ?thesis by (simp add: matching_def)
  next
    case True
    with ok obtain s cb where s: "pcSubscriptionFilterString (l ! i) = Some s"
      "pxIncomingPublishCallback (l ! i) = Some cb" using elem_okE by metis
    from True have pos: "0 < usFilterStringLength (l ! i)" by (simp add: word_gt_0)
    show ?thesis
    proof (cases "m (pTopicName p) (topicNameLength p) s (usFilterStringLength (l ! i))")
      case False
      with Suc.prems i split IH step s pos show ?thesis by (simp add: matching_def)
    next
      case match: True
      show ?thesis
      proof (cases "invoke cb (pvIncomingPublishCallbackContext (l ! i)) p w")
        case None
        with True match i split step s pos show ?thesis by (simp add: matching_def)
      next
        case (Some w')
        with True match Suc.prems i split IH step s pos show ?thesis by (simp add: matching_def)
      qed
    qed
  qed
qed

lemma handleIncomingPublishes_eq:
  assumes "list_ok l"
  shows "handleIncomingPublishes (\<lambda>tn tl s sl. Some (m tn tl s sl)) invoke (Some l) (Some p) w =
    map_option (\<lambda>w'. (matching m p l \<noteq> [], w')) (invoke_all invoke p (matching m p l) w)"
  using handle_scan_eq [of l 0 SUBSCRIPTION_MANAGER_MAX_SUBSCRIPTIONS m invoke p False False w]
    assms list_ok_length [OF assms]
  by (simp add: handleIncomingPublishes_def list_ok_def)

section \<open>The interface the tasks use\<close>

text \<open>
  A store of subscriptions with the two operations the tasks call; \<open>view\<close> is its abstract
  content.  The laws are the contract of subscription_manager.h: adding returns whether the
  triple is present afterwards and changes nothing on failure, a triple that is already
  present is not added twice, removing takes away every triple of the filter and no other.
\<close>

locale subscription_store =
  fixes add :: "'s \<Rightarrow> string \<Rightarrow> u16 \<Rightarrow> 'cb \<Rightarrow> 'ctx option \<Rightarrow> (bool \<times> 's) option"
    and remove :: "'s \<Rightarrow> string \<Rightarrow> u16 \<Rightarrow> 's option"
    and view :: "'s \<Rightarrow> (string \<times> 'cb \<times> 'ctx option) set"
    and invar :: "'s \<Rightarrow> bool"
  assumes add_returns: "invar s \<Longrightarrow> filter_arg_ok f n \<Longrightarrow>
      \<exists>ok s'. add s f n cb ctx = Some (ok, s') \<and> invar s'"
    and add_view: "invar s \<Longrightarrow> filter_arg_ok f n \<Longrightarrow> add s f n cb ctx = Some (ok, s') \<Longrightarrow>
      view s' = (if ok then insert (take (unat n) f, cb, ctx) (view s) else view s)"
    and add_known: "invar s \<Longrightarrow> filter_arg_ok f n \<Longrightarrow> (take (unat n) f, cb, ctx) \<in> view s \<Longrightarrow>
      add s f n cb ctx = Some (True, s)"
    and remove_returns: "invar s \<Longrightarrow> filter_arg_ok f n \<Longrightarrow>
      \<exists>s'. remove s f n = Some s' \<and> invar s' \<and> view s' = {k \<in> view s. fst k \<noteq> take (unat n) f}"
begin

lemma add_invar:
  "invar s \<Longrightarrow> filter_arg_ok f n \<Longrightarrow> add s f n cb ctx = Some (ok, s') \<Longrightarrow> invar s'"
  using add_returns [of s f n cb ctx] by auto

lemma add_success_present:
  "invar s \<Longrightarrow> filter_arg_ok f n \<Longrightarrow> add s f n cb ctx = Some (True, s') \<Longrightarrow>
   (take (unat n) f, cb, ctx) \<in> view s'"
  by (simp add: add_view)

lemma add_again:
  assumes "invar s" and "filter_arg_ok f n" and "add s f n cb ctx = Some (True, s')"
  shows "add s' f n cb ctx = Some (True, s')"
  using assms by (meson add_invar add_known add_success_present)

lemma add_then_remove:
  assumes "invar s" and "filter_arg_ok f n" and "add s f n cb ctx = Some (ok, s')"
  shows "\<exists>s''. remove s' f n = Some s'' \<and> invar s''
    \<and> view s'' = {k \<in> view s. fst k \<noteq> take (unat n) f}"
proof -
  from assms have "invar s'" by (rule add_invar)
  then obtain s'' where "remove s' f n = Some s''" "invar s''"
    "view s'' = {k \<in> view s'. fst k \<noteq> take (unat n) f}"
    using remove_returns assms(2) by blast
  moreover have "view s' = (if ok then insert (take (unat n) f, cb, ctx) (view s) else view s)"
    using assms by (rule add_view)
  ultimately show ?thesis by auto
qed

text \<open>What was subscribed for another filter survives both operations.\<close>

lemma add_keeps: "invar s \<Longrightarrow> filter_arg_ok f n \<Longrightarrow> add s f n cb ctx = Some (ok, s') \<Longrightarrow>
    k \<in> view s \<Longrightarrow> k \<in> view s'"
  by (auto simp: add_view)

end

definition store_ok :: "('cb, 'ctx) SubscriptionElement list option \<Rightarrow> bool" where
  "store_ok pl \<longleftrightarrow> (case pl of Some l \<Rightarrow> list_ok l | None \<Rightarrow> False)"

definition store_subs ::
  "('cb, 'ctx) SubscriptionElement list option \<Rightarrow> (string \<times> 'cb \<times> 'ctx option) set" where
  "store_subs pl = (case pl of Some l \<Rightarrow> subs l | None \<Rightarrow> {})"

interpretation manager: subscription_store
  "\<lambda>pl f n cb ctx. addSubscription pl (Some f) n (Some cb) ctx"
  "\<lambda>pl f n. removeSubscription pl (Some f) n"
  store_subs store_ok
proof (unfold_locales, goal_cases)
  case (1 s f n cb ctx)
  then obtain l where "s = Some l" "list_ok l" by (auto simp: store_ok_def split: option.splits)
  with 1 show ?case
    using addSubscription_contract [of l f n cb ctx] by (auto simp: store_ok_def)
next
  case (2 s f n cb ctx ok s')
  then obtain l where "s = Some l" "list_ok l" by (auto simp: store_ok_def split: option.splits)
  with 2 show ?case
    using addSubscription_contract [of l f n cb ctx] by (auto simp: store_subs_def)
next
  case (3 s f n cb ctx)
  then obtain l where "s = Some l" "list_ok l" by (auto simp: store_ok_def split: option.splits)
  with 3 show ?case
    by (auto simp: store_subs_def addSubscription_known)
next
  case (4 s f n)
  then obtain l where "s = Some l" "list_ok l" by (auto simp: store_ok_def split: option.splits)
  with 4 show ?case
    by (auto simp: store_subs_def store_ok_def removeSubscription_eq list_ok_clear subs_clear)
qed

section \<open>Properties\<close>

text \<open>
  C1. addSubscription refines insertion into a bounded set of (filter, callback, context)
  triples.  On a well-formed array and a valid filter it never faults, keeps the array
  well-formed, and returns true exactly when the triple is present afterwards, in which case
  the abstract set has grown by just that triple; it returns false only when the triple is
  not in the array and every element is in use, and then the array is unchanged.
\<close>

theorem addSubscription_refines_insert:
  assumes "list_ok l" and "filter_arg_ok f len"
  shows "\<exists>ok l'. addSubscription (Some l) (Some f) len (Some cb) ctx = Some (ok, Some l')
    \<and> list_ok l'
    \<and> (ok \<longleftrightarrow> (take (unat len) f, cb, ctx) \<in> subs l')
    \<and> (ok \<longrightarrow> subs l' = insert (take (unat len) f, cb, ctx) (subs l))
    \<and> (\<not> ok \<longleftrightarrow> (\<forall>e \<in> set l. used e) \<and> (take (unat len) f, cb, ctx) \<notin> subs l)
    \<and> (\<not> ok \<longrightarrow> l' = l)"
proof -
  have "(\<forall>e \<in> set l. used e) \<Longrightarrow> (take (unat len) f, cb, ctx) \<notin> subs l \<Longrightarrow>
      addSubscription (Some l) (Some f) len (Some cb) ctx = Some (False, Some l)"
    using addSubscription_new [OF assms, of cb ctx] by auto
  with addSubscription_contract [OF assms, of cb ctx] show ?thesis by auto
qed

definition demo_filter :: string where
  "demo_filter = ''/filter/a''"

lemma empty_list_cons: "empty_list = zero_element # replicate 9 zero_element"
  by (simp add: empty_list_def SUBSCRIPTION_MANAGER_MAX_SUBSCRIPTIONS_def numeral_eq_Suc)

lemma demo_filter_ok: "filter_arg_ok demo_filter 9"
  by (simp add: filter_arg_ok_def str_prefix_ok_def demo_filter_def)

theorem addSubscription_refines_insert_witness:
  "\<exists>ok l'. addSubscription (Some (empty_list :: (nat, nat) SubscriptionElement list))
      (Some demo_filter) 9 (Some 7) (Some 1) = Some (ok, Some l')
    \<and> list_ok l' \<and> ok \<and> subs l' = {(demo_filter, 7, Some 1)}"
proof -
  have "\<not> (\<forall>e \<in> set (empty_list :: (nat, nat) SubscriptionElement list). used e)"
    by (simp add: empty_list_def SUBSCRIPTION_MANAGER_MAX_SUBSCRIPTIONS_def)
  with addSubscription_refines_insert [OF list_ok_empty demo_filter_ok, of 7 "Some 1"]
  show ?thesis by (auto simp: subs_empty demo_filter_def)
qed

text \<open>
  A new subscription goes into the first free element: addSubscription scans from the end
  of the array, but the element it writes has only used elements in front of it, and no other
  element changes.
\<close>

theorem addSubscription_first_free:
  assumes "list_ok l" and "filter_arg_ok f len"
    and "(take (unat len) f, cb, ctx) \<notin> subs l" and "\<exists>e \<in> set l. \<not> used e"
  shows "\<exists>a < length l. \<not> used (l ! a) \<and> (\<forall>j < a. used (l ! j))
    \<and> addSubscription (Some l) (Some f) len (Some cb) ctx =
        Some (True, Some (l[a := \<lparr>pxIncomingPublishCallback = Some cb,
          pvIncomingPublishCallbackContext = ctx, usFilterStringLength = len,
          pcSubscriptionFilterString = Some f\<rparr>]))"
proof -
  have "new_element e f len cb ctx = \<lparr>pxIncomingPublishCallback = Some cb,
      pvIncomingPublishCallbackContext = ctx, usFilterStringLength = len,
      pcSubscriptionFilterString = Some f\<rparr>" for e :: "('a, 'b) SubscriptionElement"
    by (cases e) simp
  with addSubscription_new [OF assms(1-3)] assms(4) show ?thesis by auto
qed

theorem addSubscription_first_free_witness:
  "\<exists>a < length (empty_list :: (nat, nat) SubscriptionElement list).
     addSubscription (Some empty_list) (Some demo_filter) 9 (Some 7) (Some 1) =
       Some (True, Some ((empty_list :: (nat, nat) SubscriptionElement list)
         [a := \<lparr>pxIncomingPublishCallback = Some 7,
          pvIncomingPublishCallbackContext = Some 1, usFilterStringLength = 9,
          pcSubscriptionFilterString = Some demo_filter\<rparr>]))"
proof -
  have "\<exists>e \<in> set (empty_list :: (nat, nat) SubscriptionElement list). \<not> used e"
    by (simp add: empty_list_def SUBSCRIPTION_MANAGER_MAX_SUBSCRIPTIONS_def)
  moreover have "(take (unat (9 :: u16)) demo_filter, 7, Some 1)
      \<notin> subs (empty_list :: (nat, nat) SubscriptionElement list)"
    by (simp add: subs_empty)
  ultimately obtain a where "a < length (empty_list :: (nat, nat) SubscriptionElement list)"
    and "addSubscription (Some (empty_list :: (nat, nat) SubscriptionElement list))
       (Some demo_filter) 9 (Some 7) (Some 1) =
       Some (True, Some ((empty_list :: (nat, nat) SubscriptionElement list)
         [a := \<lparr>pxIncomingPublishCallback = Some 7,
          pvIncomingPublishCallbackContext = Some 1, usFilterStringLength = 9,
          pcSubscriptionFilterString = Some demo_filter\<rparr>]))"
    using addSubscription_first_free [OF list_ok_empty demo_filter_ok] by metis
  then show ?thesis by blast
qed

text \<open>
  C31. removeSubscription clears exactly the elements whose filter is the given one, for every
  callback and context, leaves every other element in its place, keeps the array well-formed
  and never faults.
\<close>

theorem removeSubscription_removes_filter:
  assumes "list_ok l" and "filter_arg_ok f len"
  shows "\<exists>l'. removeSubscription (Some l) (Some f) len = Some (Some l')
    \<and> list_ok l'
    \<and> subs l' = {k \<in> subs l. fst k \<noteq> take (unat len) f}
    \<and> (\<forall>i < length l. l' ! i =
        (if used (l ! i) \<and> fst (sub_key (l ! i)) = take (unat len) f
         then zero_element else l ! i))"
  using assms
  by (simp add: removeSubscription_eq list_ok_clear subs_clear clear_filter_def has_filter_def)

theorem removeSubscription_removes_filter_witness:
  "\<exists>l'. removeSubscription (Some (empty_list :: (nat, nat) SubscriptionElement list))
      (Some demo_filter) 9 = Some (Some l') \<and> list_ok l' \<and> subs l' = {}"
  using removeSubscription_removes_filter [OF list_ok_empty demo_filter_ok]
  by (fastforce simp: subs_empty)

text \<open>
  C30. Subscribing and then unsubscribing a filter restores the abstract content, less whatever
  else was subscribed to that filter; and repeating a successful subscription changes nothing.
\<close>

theorem add_remove_roundtrip:
  assumes "list_ok l" and "filter_arg_ok f len"
    and "addSubscription (Some l) (Some f) len (Some cb) ctx = Some (ok, pl)"
  shows "(ok \<longrightarrow> addSubscription pl (Some f) len (Some cb) ctx = Some (True, pl))
    \<and> (\<exists>l'. removeSubscription pl (Some f) len = Some (Some l') \<and> list_ok l'
         \<and> subs l' = {k \<in> subs l. fst k \<noteq> take (unat len) f})"
proof -
  have inv: "store_ok (Some l)" using assms(1) by (simp add: store_ok_def)
  have "ok \<Longrightarrow> addSubscription pl (Some f) len (Some cb) ctx = Some (True, pl)"
    using manager.add_again [OF inv assms(2), of cb ctx pl] assms(3) by simp
  moreover obtain pl' where "removeSubscription pl (Some f) len = Some pl'" "store_ok pl'"
    "store_subs pl' = {k \<in> store_subs (Some l). fst k \<noteq> take (unat len) f}"
    using manager.add_then_remove [OF inv assms(2,3)] by blast
  ultimately show ?thesis
    by (cases pl') (auto simp: store_ok_def store_subs_def)
qed

theorem add_remove_roundtrip_witness:
  "\<exists>pl l'. addSubscription (Some (empty_list :: (nat, nat) SubscriptionElement list))
       (Some demo_filter) 9 (Some 7) None = Some (True, pl)
     \<and> removeSubscription pl (Some demo_filter) 9 = Some (Some l') \<and> subs l' = {}"
proof -
  have "\<not> (\<forall>e \<in> set (empty_list :: (nat, nat) SubscriptionElement list). used e)"
    by (simp add: empty_list_def SUBSCRIPTION_MANAGER_MAX_SUBSCRIPTIONS_def)
  then obtain l1 where
    l1: "addSubscription (Some (empty_list :: (nat, nat) SubscriptionElement list))
       (Some demo_filter) 9 (Some 7) None = Some (True, Some l1)"
    using addSubscription_contract [OF list_ok_empty demo_filter_ok, of 7 None] by auto
  from add_remove_roundtrip [OF list_ok_empty demo_filter_ok l1] l1 show ?thesis
    by (auto simp: subs_empty)
qed

text \<open>
  C12. handleIncomingPublishes calls exactly the callbacks of the matching subscriptions, each
  once with its own context, in array order, and returns true exactly when there is one.
  Assumed of MQTT_MatchTopic: it accepts the topic and the stored filters, so that it always
  writes its verdict.  The result holds for every effect the callbacks have on the world.
\<close>

theorem handleIncomingPublishes_fan_out:
  assumes "list_ok l" and "\<And>tn tl s sl. mt tn tl s sl = Some (m tn tl s sl)"
  shows "handleIncomingPublishes mt invoke (Some l) (Some p) w =
    map_option (\<lambda>w'. (matching m p l \<noteq> [], w')) (invoke_all invoke p (matching m p l) w)"
proof -
  have "mt = (\<lambda>tn tl s sl. Some (m tn tl s sl))" by (intro ext) (rule assms(2))
  then show ?thesis using handleIncomingPublishes_eq [OF assms(1)] by simp
qed

theorem handleIncomingPublishes_fan_out_witness:
  "handleIncomingPublishes (\<lambda>tn tl s sl. Some (take (unat sl) s = take (unat tl) tn))
     (\<lambda>cb ctx p w. Some (w @ [(cb, ctx)]))
     (Some ((empty_list :: (nat, nat) SubscriptionElement list)
        [0 := \<lparr>pxIncomingPublishCallback = Some 7, pvIncomingPublishCallbackContext = Some 1,
               usFilterStringLength = 9, pcSubscriptionFilterString = Some demo_filter\<rparr>]))
     (Some \<lparr>pub_qos = 1, pTopicName = demo_filter, topicNameLength = 9,
            pPayload = None, payloadLength = 0\<rparr>) []
   = Some (True, [(7, Some 1)])"
proof -
  let ?l = "(empty_list :: (nat, nat) SubscriptionElement list)
        [0 := \<lparr>pxIncomingPublishCallback = Some 7, pvIncomingPublishCallbackContext = Some 1,
               usFilterStringLength = 9, pcSubscriptionFilterString = Some demo_filter\<rparr>]"
  have len: "0 < length (empty_list :: (nat, nat) SubscriptionElement list)"
    and unused: "\<not> used ((empty_list :: (nat, nat) SubscriptionElement list) ! 0)"
    by (simp_all add: empty_list_def SUBSCRIPTION_MANAGER_MAX_SUBSCRIPTIONS_def)
  have "list_ok ?l"
    by (rule list_ok_update [OF list_ok_empty len unused])
       (simp_all add: elem_ok_def subs_empty str_prefix_ok_def demo_filter_def)
  moreover have "matching (\<lambda>tn tl s sl. take (unat sl) s = take (unat tl) tn)
      \<lparr>pub_qos = 1, pTopicName = demo_filter, topicNameLength = 9,
       pPayload = None, payloadLength = 0\<rparr> ?l = [?l ! 0]"
    by (simp add: matching_def empty_list_cons)
  ultimately show ?thesis
    using len by (subst handleIncomingPublishes_fan_out [OF _ refl]) simp_all
qed

end
