(* ===== verification/Command_Pool.thy ===== *)
theory Command_Pool
  imports Prelude
begin

text \<open>
  lib/FreeRTOS/mqtt-agent-interface: the message functions that the MQTT agent uses to pass
  command pointers between tasks (freertos_agent_message.c), and the pool of command
  structures built on them (freertos_command_pool.c).

  The FreeRTOS queue is kernel code and enters as the record \<open>queue_api\<close>; the locale
  \<open>rtos_queue\<close> states its documented behaviour, a bounded first-in first-out queue.  A
  kernel call is one atomic step at the moment it completes: a task that blocks on an empty
  queue and is then served is the receive taking place after the send that served it, and a
  receive on a queue that is still empty is one that timed out.

  A pointer is its address, 0 being \<open>NULL\<close>.
\<close>

section \<open>The kernel interface\<close>

record 'q queue_api =
  xQueueCreateStatic :: "nat \<Rightarrow> 'q option"
  xQueueSendToBack :: "'q \<Rightarrow> nat \<Rightarrow> u32 \<Rightarrow> bool \<times> 'q"
  xQueueReceive :: "'q \<Rightarrow> u32 \<Rightarrow> nat option \<times> 'q"
  pdMS_TO_TICKS :: "u32 \<Rightarrow> u32"

locale rtos_queue =
  fixes api :: "'q queue_api"
    and items :: "'q \<Rightarrow> nat list"
    and cap :: "'q \<Rightarrow> nat"
  assumes create: "0 < n \<Longrightarrow>
      \<exists>q. xQueueCreateStatic api n = Some q \<and> items q = [] \<and> cap q = n"
    and send_room: "length (items q) < cap q \<Longrightarrow>
      \<exists>q'. xQueueSendToBack api q x t = (True, q') \<and> items q' = items q @ [x] \<and> cap q' = cap q"
    and send_full: "cap q \<le> length (items q) \<Longrightarrow>
      \<exists>q'. xQueueSendToBack api q x t = (False, q') \<and> items q' = items q \<and> cap q' = cap q"
    and receive_item: "items q = x # xs \<Longrightarrow>
      \<exists>q'. xQueueReceive api q t = (Some x, q') \<and> items q' = xs \<and> cap q' = cap q"
    and receive_empty: "items q = [] \<Longrightarrow>
      \<exists>q'. xQueueReceive api q t = (None, q') \<and> items q' = [] \<and> cap q' = cap q"

text \<open>A queue that satisfies the laws: its length and the items in it.\<close>

definition fifo_api :: "(nat \<times> nat list) queue_api" where
  "fifo_api = \<lparr>
     xQueueCreateStatic = (\<lambda>n. if n = 0 then None else Some (n, [])),
     xQueueSendToBack = (\<lambda>(n, xs) x t.
        if length xs < n then (True, (n, xs @ [x])) else (False, (n, xs))),
     xQueueReceive = (\<lambda>(n, xs) t.
        case xs of [] \<Rightarrow> (None, (n, [])) | x # xs' \<Rightarrow> (Some x, (n, xs'))),
     pdMS_TO_TICKS = (\<lambda>ms. ms)\<rparr>"

interpretation fifo: rtos_queue fifo_api snd fst
  by unfold_locales (auto simp: fifo_api_def)

section \<open>freertos_agent_message.c\<close>

record 'q MQTTAgentMessageContext =
  queue :: "'q option"

definition Agent_MessageSend ::
  "'q queue_api \<Rightarrow> 'q MQTTAgentMessageContext option \<Rightarrow> nat option \<Rightarrow> u32
   \<Rightarrow> (bool \<times> 'q MQTTAgentMessageContext option) option" where
  "Agent_MessageSend api pMsgCtx pCommandToSend blockTimeMs =
     (case (pMsgCtx, pCommandToSend) of
        (Some ctx, Some cmd) \<Rightarrow> do {
          q \<leftarrow> queue ctx;
          let (queueStatus, q') = xQueueSendToBack api q cmd (pdMS_TO_TICKS api blockTimeMs);
          Some (queueStatus, Some (ctx\<lparr>queue := Some q'\<rparr>))
        }
      | _ \<Rightarrow> Some (False, pMsgCtx))"

text \<open>
  \<open>pReceivedCommand\<close> is \<open>Some v\<close> when it points to a variable that holds the command
  pointer \<open>v\<close>; the variable keeps its value when nothing is received.
\<close>

definition Agent_MessageReceive ::
  "'q queue_api \<Rightarrow> 'q MQTTAgentMessageContext option \<Rightarrow> nat option \<Rightarrow> u32
   \<Rightarrow> (bool \<times> nat option \<times> 'q MQTTAgentMessageContext option) option" where
  "Agent_MessageReceive api pMsgCtx pReceivedCommand blockTimeMs =
     (case (pMsgCtx, pReceivedCommand) of
        (Some ctx, Some v) \<Rightarrow> do {
          q \<leftarrow> queue ctx;
          let (r, q') = xQueueReceive api q (pdMS_TO_TICKS api blockTimeMs);
          Some (r \<noteq> None, Some (case r of Some x \<Rightarrow> x | None \<Rightarrow> v),
                Some (ctx\<lparr>queue := Some q'\<rparr>))
        }
      | _ \<Rightarrow> Some (False, pReceivedCommand, pMsgCtx))"

section \<open>freertos_command_pool.c\<close>

definition MQTT_COMMAND_CONTEXTS_POOL_SIZE :: nat where
  "MQTT_COMMAND_CONTEXTS_POOL_SIZE = 10"

definition QUEUE_NOT_INITIALIZED :: u8 where
  "QUEUE_NOT_INITIALIZED = 0"

definition QUEUE_INITIALIZED :: u8 where
  "QUEUE_INITIALIZED = 1"

text \<open>The file's static variables, and what the linker and the compiler fix.\<close>

record ('q, 'c) pool_state =
  commandStructurePool :: "'c list"
  commandStructMessageCtx :: "'q MQTTAgentMessageContext"
  initStatus :: u8

record 'c pool_layout =
  pool_addr :: nat
  cmd_size :: nat
  zero_cmd :: 'c

definition pool_ptr :: "'c pool_layout \<Rightarrow> nat \<Rightarrow> nat" where
  "pool_ptr lay i = pool_addr lay + i * cmd_size lay"

fun populate ::
  "'q queue_api \<Rightarrow> 'c pool_layout \<Rightarrow> nat \<Rightarrow> nat \<Rightarrow> ('q, 'c) pool_state
   \<Rightarrow> ('q, 'c) pool_state option" where
  "populate api lay i 0 s = Some s"
| "populate api lay i (Suc n) s = do {
     (commandAdded, ctx) \<leftarrow>
       Agent_MessageSend api (Some (commandStructMessageCtx s)) (Some (pool_ptr lay i)) 0;
     _ \<leftarrow> configASSERT commandAdded;
     ctx' \<leftarrow> ctx;
     populate api lay (Suc i) n (s\<lparr>commandStructMessageCtx := ctx'\<rparr>)
   }"

definition Agent_InitializePool ::
  "'q queue_api \<Rightarrow> 'c pool_layout \<Rightarrow> ('q, 'c) pool_state \<Rightarrow> ('q, 'c) pool_state option" where
  "Agent_InitializePool api lay s =
     (if initStatus s = QUEUE_NOT_INITIALIZED then do {
        let s1 = s\<lparr>commandStructurePool :=
                     replicate MQTT_COMMAND_CONTEXTS_POOL_SIZE (zero_cmd lay)\<rparr>;
        let s2 = s1\<lparr>commandStructMessageCtx :=
                      \<lparr>queue = xQueueCreateStatic api MQTT_COMMAND_CONTEXTS_POOL_SIZE\<rparr>\<rparr>;
        _ \<leftarrow> configASSERT (queue (commandStructMessageCtx s2) \<noteq> None);
        s3 \<leftarrow> populate api lay 0 MQTT_COMMAND_CONTEXTS_POOL_SIZE s2;
        Some (s3\<lparr>initStatus := QUEUE_INITIALIZED\<rparr>)
      }
      else Some s)"

definition Agent_GetCommand ::
  "'q queue_api \<Rightarrow> ('q, 'c) pool_state \<Rightarrow> u32 \<Rightarrow> (nat \<times> ('q, 'c) pool_state) option" where
  "Agent_GetCommand api s blockTimeMs = do {
     _ \<leftarrow> configASSERT (initStatus s = QUEUE_INITIALIZED);
     (structRetrieved, structToUse, ctx) \<leftarrow>
       Agent_MessageReceive api (Some (commandStructMessageCtx s)) (Some 0) blockTimeMs;
     v \<leftarrow> structToUse;
     ctx' \<leftarrow> ctx;
     Some (v, s\<lparr>commandStructMessageCtx := ctx'\<rparr>)
   }"

definition Agent_ReleaseCommand ::
  "'q queue_api \<Rightarrow> 'c pool_layout \<Rightarrow> ('q, 'c) pool_state \<Rightarrow> nat
   \<Rightarrow> (bool \<times> ('q, 'c) pool_state) option" where
  "Agent_ReleaseCommand api lay s pCommandToRelease = do {
     _ \<leftarrow> configASSERT (initStatus s = QUEUE_INITIALIZED);
     if pool_addr lay \<le> pCommandToRelease
        \<and> pCommandToRelease < pool_ptr lay MQTT_COMMAND_CONTEXTS_POOL_SIZE
     then do {
       (structReturned, ctx) \<leftarrow>
         Agent_MessageSend api (Some (commandStructMessageCtx s)) (Some pCommandToRelease) 0;
       _ \<leftarrow> configASSERT structReturned;
       ctx' \<leftarrow> ctx;
       Some (structReturned, s\<lparr>commandStructMessageCtx := ctx'\<rparr>)
     }
     else Some (False, s)
   }"

section \<open>The tasks and the pool as a transition system\<close>

text \<open>
  The state is the pool and the command structures that tasks hold.  A task may obtain a
  structure (or \<open>NULL\<close>, when the pool is empty and the wait times out), release one it
  holds, or try to release a pointer that is not into the pool.
\<close>

inductive pool_step ::
  "'q queue_api \<Rightarrow> 'c pool_layout \<Rightarrow> ('q, 'c) pool_state \<times> nat list
   \<Rightarrow> ('q, 'c) pool_state \<times> nat list \<Rightarrow> bool"
  for api lay where
  get: "Agent_GetCommand api s blockTimeMs = Some (p, s') \<Longrightarrow> p \<noteq> 0 \<Longrightarrow>
    pool_step api lay (s, held) (s', p # held)"
| get_null: "Agent_GetCommand api s blockTimeMs = Some (0, s') \<Longrightarrow>
    pool_step api lay (s, held) (s', held)"
| release: "p \<in> set held \<Longrightarrow> Agent_ReleaseCommand api lay s p = Some (ok, s') \<Longrightarrow>
    pool_step api lay (s, held) (s', remove1 p held)"
| release_foreign: "\<not> (pool_addr lay \<le> p \<and> p < pool_ptr lay MQTT_COMMAND_CONTEXTS_POOL_SIZE) \<Longrightarrow>
    Agent_ReleaseCommand api lay s p = Some (ok, s') \<Longrightarrow>
    pool_step api lay (s, held) (s', held)"

inductive pool_reachable ::
  "'q queue_api \<Rightarrow> 'c pool_layout \<Rightarrow> ('q, 'c) pool_state \<times> nat list \<Rightarrow> bool"
  for api lay where
  init: "initStatus s0 = QUEUE_NOT_INITIALIZED \<Longrightarrow> Agent_InitializePool api lay s0 = Some s \<Longrightarrow>
    pool_reachable api lay (s, [])"
| step: "pool_reachable api lay c \<Longrightarrow> pool_step api lay c c' \<Longrightarrow> pool_reachable api lay c'"

inductive_cases pool_stepE: "pool_step api lay (s, held) c"

section \<open>Invariant\<close>

definition pool_ptrs :: "'c pool_layout \<Rightarrow> nat list" where
  "pool_ptrs lay = map (pool_ptr lay) [0..<MQTT_COMMAND_CONTEXTS_POOL_SIZE]"

definition layout_ok :: "'c pool_layout \<Rightarrow> bool" where
  "layout_ok lay \<longleftrightarrow> 0 < pool_addr lay \<and> 0 < cmd_size lay"

text \<open>
  Every structure of the pool is either in the queue or held by a task, and in one place only.
\<close>

definition pool_inv ::
  "('q \<Rightarrow> nat list) \<Rightarrow> ('q \<Rightarrow> nat) \<Rightarrow> 'c pool_layout \<Rightarrow> ('q, 'c) pool_state \<Rightarrow> nat list \<Rightarrow> bool" where
  "pool_inv items cap lay s held \<longleftrightarrow>
     initStatus s = QUEUE_INITIALIZED
     \<and> (\<exists>q. queue (commandStructMessageCtx s) = Some q
          \<and> cap q = MQTT_COMMAND_CONTEXTS_POOL_SIZE
          \<and> distinct (items q @ held) \<and> set (items q @ held) = set (pool_ptrs lay))"

lemma pool_ptrs_distinct: "layout_ok lay \<Longrightarrow> distinct (pool_ptrs lay)"
  by (auto simp: pool_ptrs_def layout_ok_def distinct_map inj_on_def pool_ptr_def)

lemma length_pool_ptrs [simp]: "length (pool_ptrs lay) = MQTT_COMMAND_CONTEXTS_POOL_SIZE"
  by (simp add: pool_ptrs_def)

lemma pool_ptrs_range:
  assumes "layout_ok lay" and "p \<in> set (pool_ptrs lay)"
  shows "pool_addr lay \<le> p" and "p < pool_ptr lay MQTT_COMMAND_CONTEXTS_POOL_SIZE" and "p \<noteq> 0"
  using assms by (auto simp: pool_ptrs_def layout_ok_def pool_ptr_def)

lemma distinct_same_length:
  "distinct xs \<Longrightarrow> distinct ys \<Longrightarrow> set xs = set ys \<Longrightarrow> length xs = length ys"
  by (metis distinct_card)

lemma pool_inv_lengths:
  assumes "layout_ok lay" and "distinct (xs @ held)" and "set (xs @ held) = set (pool_ptrs lay)"
  shows "length xs + length held = MQTT_COMMAND_CONTEXTS_POOL_SIZE"
  using distinct_same_length [OF assms(2) pool_ptrs_distinct [OF assms(1)] assms(3)] by simp

context rtos_queue
begin

lemma message_send_room:
  assumes "queue ctx = Some q" and "length (items q) < cap q"
  shows "\<exists>q'. Agent_MessageSend api (Some ctx) (Some p) t = Some (True, Some (ctx\<lparr>queue := Some q'\<rparr>))
    \<and> items q' = items q @ [p] \<and> cap q' = cap q"
  using assms send_room [of q p "pdMS_TO_TICKS api t"] by (auto simp: Agent_MessageSend_def)

lemma message_send_full:
  assumes "queue ctx = Some q" and "cap q \<le> length (items q)"
  shows "\<exists>q'. Agent_MessageSend api (Some ctx) (Some p) t = Some (False, Some (ctx\<lparr>queue := Some q'\<rparr>))
    \<and> items q' = items q \<and> cap q' = cap q"
  using assms send_full [of q p "pdMS_TO_TICKS api t"] by (auto simp: Agent_MessageSend_def)

lemma message_receive_item:
  assumes "queue ctx = Some q" and "items q = x # xs"
  shows "\<exists>q'. Agent_MessageReceive api (Some ctx) (Some v) t =
      Some (True, Some x, Some (ctx\<lparr>queue := Some q'\<rparr>))
    \<and> items q' = xs \<and> cap q' = cap q"
  using assms receive_item [of q x xs "pdMS_TO_TICKS api t"]
  by (auto simp: Agent_MessageReceive_def)

lemma message_receive_empty:
  assumes "queue ctx = Some q" and "items q = []"
  shows "\<exists>q'. Agent_MessageReceive api (Some ctx) (Some v) t =
      Some (False, Some v, Some (ctx\<lparr>queue := Some q'\<rparr>))
    \<and> items q' = [] \<and> cap q' = cap q"
  using assms receive_empty [of q "pdMS_TO_TICKS api t"]
  by (auto simp: Agent_MessageReceive_def)

lemma populate_ok:
  "queue (commandStructMessageCtx s) = Some q \<Longrightarrow> length (items q) + n \<le> cap q \<Longrightarrow>
   \<exists>s' q'. populate api lay i n s = Some s'
     \<and> queue (commandStructMessageCtx s') = Some q'
     \<and> items q' = items q @ map (pool_ptr lay) [i..<i + n] \<and> cap q' = cap q
     \<and> initStatus s' = initStatus s"
proof (induction n arbitrary: i s q)
  case 0
  then show ?case by auto
next
  case (Suc n)
  then have "length (items q) < cap q" by simp
  with Suc.prems(1) obtain q1 where
    send: "Agent_MessageSend api (Some (commandStructMessageCtx s)) (Some (pool_ptr lay i)) 0 =
        Some (True, Some ((commandStructMessageCtx s)\<lparr>queue := Some q1\<rparr>))"
    and q1: "items q1 = items q @ [pool_ptr lay i]" "cap q1 = cap q"
    using message_send_room by blast
  let ?s = "s\<lparr>commandStructMessageCtx := (commandStructMessageCtx s)\<lparr>queue := Some q1\<rparr>\<rparr>"
  have "queue (commandStructMessageCtx ?s) = Some q1" by simp
  moreover have "length (items q1) + n \<le> cap q1" using Suc.prems(2) q1 by simp
  ultimately obtain s' q' where "populate api lay (Suc i) n ?s = Some s'"
    "queue (commandStructMessageCtx s') = Some q'"
    "items q' = items q1 @ map (pool_ptr lay) [Suc i..<Suc i + n]" "cap q' = cap q1"
    "initStatus s' = initStatus ?s"
    using Suc.IH [of ?s q1 "Suc i"] by blast
  moreover have "[i..<i + Suc n] = i # [Suc i..<Suc i + n]" by (simp add: upt_rec)
  ultimately show ?case using send q1 by simp
qed

lemma initialize_inv:
  assumes "layout_ok lay" and "initStatus s0 = QUEUE_NOT_INITIALIZED"
  shows "\<exists>s. Agent_InitializePool api lay s0 = Some s \<and> pool_inv items cap lay s []"
proof -
  obtain q where q: "xQueueCreateStatic api MQTT_COMMAND_CONTEXTS_POOL_SIZE = Some q"
    "items q = []" "cap q = MQTT_COMMAND_CONTEXTS_POOL_SIZE"
    using create [of MQTT_COMMAND_CONTEXTS_POOL_SIZE]
    by (auto simp: MQTT_COMMAND_CONTEXTS_POOL_SIZE_def)
  let ?s = "s0\<lparr>commandStructurePool := replicate MQTT_COMMAND_CONTEXTS_POOL_SIZE (zero_cmd lay),
               commandStructMessageCtx := \<lparr>queue = Some q\<rparr>\<rparr>"
  obtain s' q' where "populate api lay 0 MQTT_COMMAND_CONTEXTS_POOL_SIZE ?s = Some s'"
    "queue (commandStructMessageCtx s') = Some q'" "items q' = pool_ptrs lay" "cap q' = cap q"
    using populate_ok [of ?s q MQTT_COMMAND_CONTEXTS_POOL_SIZE lay 0] q
    by (auto simp: pool_ptrs_def)
  with assms q pool_ptrs_distinct [OF assms(1)] show ?thesis
    by (auto simp: Agent_InitializePool_def pool_inv_def)
qed

lemma get_inv:
  assumes "layout_ok lay" and "pool_inv items cap lay s held"
  shows "\<exists>p s'. Agent_GetCommand api s t = Some (p, s')
    \<and> (length held = MQTT_COMMAND_CONTEXTS_POOL_SIZE \<and> p = 0 \<and> pool_inv items cap lay s' held
       \<or> length held < MQTT_COMMAND_CONTEXTS_POOL_SIZE \<and> p \<noteq> 0 \<and> p \<notin> set held
         \<and> pool_inv items cap lay s' (p # held))"
proof -
  from assms(2) obtain q where i: "initStatus s = QUEUE_INITIALIZED"
    and q: "queue (commandStructMessageCtx s) = Some q" "cap q = MQTT_COMMAND_CONTEXTS_POOL_SIZE"
    and d: "distinct (items q @ held)" and e: "set (items q @ held) = set (pool_ptrs lay)"
    by (auto simp: pool_inv_def)
  from assms(1) d e have len: "length (items q) + length held = MQTT_COMMAND_CONTEXTS_POOL_SIZE"
    by (rule pool_inv_lengths)
  show ?thesis
  proof (cases "items q")
    case Nil
    then obtain q' where "Agent_MessageReceive api (Some (commandStructMessageCtx s)) (Some 0) t =
        Some (False, Some 0, Some ((commandStructMessageCtx s)\<lparr>queue := Some q'\<rparr>))"
      "items q' = []" "cap q' = cap q"
      using message_receive_empty [OF q(1)] by blast
    with i q d e len Nil show ?thesis by (auto simp: Agent_GetCommand_def pool_inv_def)
  next
    case (Cons x xs)
    then obtain q' where "Agent_MessageReceive api (Some (commandStructMessageCtx s)) (Some 0) t =
        Some (True, Some x, Some ((commandStructMessageCtx s)\<lparr>queue := Some q'\<rparr>))"
      "items q' = xs" "cap q' = cap q"
      using message_receive_item [OF q(1)] by blast
    moreover have "x \<noteq> 0" using pool_ptrs_range(3) [OF assms(1), of x] e Cons by auto
    ultimately show ?thesis using i q d e len Cons
      by (auto simp: Agent_GetCommand_def pool_inv_def)
  qed
qed

lemma release_inv:
  assumes "layout_ok lay" and "pool_inv items cap lay s held" and "p \<in> set held"
  shows "\<exists>s'. Agent_ReleaseCommand api lay s p = Some (True, s')
    \<and> pool_inv items cap lay s' (remove1 p held)"
proof -
  from assms(2) obtain q where i: "initStatus s = QUEUE_INITIALIZED"
    and q: "queue (commandStructMessageCtx s) = Some q" "cap q = MQTT_COMMAND_CONTEXTS_POOL_SIZE"
    and d: "distinct (items q @ held)" and e: "set (items q @ held) = set (pool_ptrs lay)"
    by (auto simp: pool_inv_def)
  from assms(1) d e have len: "length (items q) + length held = MQTT_COMMAND_CONTEXTS_POOL_SIZE"
    by (rule pool_inv_lengths)
  from assms(3) len q have "length (items q) < cap q"
    by (cases held) auto
  then obtain q' where "Agent_MessageSend api (Some (commandStructMessageCtx s)) (Some p) 0 =
      Some (True, Some ((commandStructMessageCtx s)\<lparr>queue := Some q'\<rparr>))"
    "items q' = items q @ [p]" "cap q' = cap q"
    using message_send_room [OF q(1)] by blast
  moreover from assms(3) e have "p \<in> set (pool_ptrs lay)" by auto
  ultimately show ?thesis
    using i q d e assms(3) pool_ptrs_range [OF assms(1)]
    by (auto simp: Agent_ReleaseCommand_def pool_inv_def)
qed

lemma release_foreign_inv:
  assumes "pool_inv items cap lay s held"
    and "\<not> (pool_addr lay \<le> p \<and> p < pool_ptr lay MQTT_COMMAND_CONTEXTS_POOL_SIZE)"
  shows "Agent_ReleaseCommand api lay s p = Some (False, s)"
  using assms by (auto simp: Agent_ReleaseCommand_def pool_inv_def)

lemma step_inv:
  assumes "layout_ok lay" and "pool_inv items cap lay s held"
    and "pool_step api lay (s, held) (s', held')"
  shows "pool_inv items cap lay s' held'"
  using assms(3)
proof (cases rule: pool_step.cases)
  case (get t p)
  with get_inv [OF assms(1,2), of t] show ?thesis by auto
next
  case (get_null t)
  with get_inv [OF assms(1,2), of t] show ?thesis by auto
next
  case (release p ok)
  with release_inv [OF assms(1,2), of p] show ?thesis by auto
next
  case (release_foreign p ok)
  with release_foreign_inv [OF assms(2), of p] assms(2) show ?thesis by auto
qed

lemma reachable_inv:
  assumes "layout_ok lay"
  shows "pool_reachable api lay c \<Longrightarrow> pool_inv items cap lay (fst c) (snd c)"
proof (induction rule: pool_reachable.induct)
  case (init s0 s)
  with initialize_inv [OF assms init(1)] show ?case by auto
next
  case (step c c')
  then show ?case using step_inv [OF assms, of "fst c" "snd c" "fst c'" "snd c'"] by simp
qed

end

section \<open>The message interface of the agent\<close>

text \<open>
  What the MQTT agent and the pool rely on: a channel to which pointers are sent and from
  which they are received in order.  \<open>is_open\<close> says that the channel's queue exists.
\<close>

locale message_channel =
  fixes send :: "'m \<Rightarrow> nat \<Rightarrow> u32 \<Rightarrow> (bool \<times> 'm) option"
    and receive :: "'m \<Rightarrow> u32 \<Rightarrow> (nat option \<times> 'm) option"
    and contents :: "'m \<Rightarrow> nat list"
    and capacity :: "'m \<Rightarrow> nat"
    and is_open :: "'m \<Rightarrow> bool"
  assumes send_law: "is_open m \<Longrightarrow> \<exists>m'. is_open m' \<and> capacity m' = capacity m
      \<and> (if length (contents m) < capacity m
         then send m p t = Some (True, m') \<and> contents m' = contents m @ [p]
         else send m p t = Some (False, m') \<and> contents m' = contents m)"
    and receive_law: "is_open m \<Longrightarrow> \<exists>m'. is_open m' \<and> capacity m' = capacity m
      \<and> (case contents m of
           [] \<Rightarrow> receive m t = Some (None, m') \<and> contents m' = []
         | p # ps \<Rightarrow> receive m t = Some (Some p, m') \<and> contents m' = ps)"

fun send_all ::
  "('m \<Rightarrow> nat \<Rightarrow> u32 \<Rightarrow> (bool \<times> 'm) option) \<Rightarrow> u32 \<Rightarrow> nat list \<Rightarrow> 'm \<Rightarrow> (bool list \<times> 'm) option" where
  "send_all send t [] m = Some ([], m)"
| "send_all send t (p # ps) m = do {
     (b, m') \<leftarrow> send m p t;
     (bs, m'') \<leftarrow> send_all send t ps m';
     Some (b # bs, m'')
   }"

fun receive_many ::
  "('m \<Rightarrow> u32 \<Rightarrow> (nat option \<times> 'm) option) \<Rightarrow> u32 \<Rightarrow> nat \<Rightarrow> 'm \<Rightarrow> (nat option list \<times> 'm) option" where
  "receive_many receive t 0 m = Some ([], m)"
| "receive_many receive t (Suc n) m = do {
     (p, m') \<leftarrow> receive m t;
     (ps, m'') \<leftarrow> receive_many receive t n m';
     Some (p # ps, m'')
   }"

context message_channel
begin

lemma send_all_room:
  "is_open m \<Longrightarrow> length (contents m) + length ps \<le> capacity m \<Longrightarrow>
   \<exists>m'. send_all send t ps m = Some (replicate (length ps) True, m') \<and> is_open m'
     \<and> contents m' = contents m @ ps \<and> capacity m' = capacity m"
proof (induction ps arbitrary: m)
  case Nil
  then show ?case by auto
next
  case (Cons p ps)
  then obtain m1 where m1: "send m p t = Some (True, m1)" "is_open m1"
    "contents m1 = contents m @ [p]" "capacity m1 = capacity m"
    using send_law [of m p t] by auto
  with Cons.prems(2) have "length (contents m1) + length ps \<le> capacity m1" by simp
  with Cons.IH [OF m1(2)] m1 show ?case by fastforce
qed

lemma receive_many_all:
  "is_open m \<Longrightarrow> contents m = ps \<Longrightarrow>
   \<exists>m'. receive_many receive t (length ps) m = Some (map Some ps, m') \<and> is_open m'
     \<and> contents m' = [] \<and> capacity m' = capacity m"
proof (induction ps arbitrary: m)
  case Nil
  then show ?case by auto
next
  case (Cons p ps)
  then obtain m1 where m1: "receive m t = Some (Some p, m1)" "is_open m1"
    "contents m1 = ps" "capacity m1 = capacity m"
    using receive_law [of m t] by auto
  with Cons.IH [OF m1(2,3)] show ?case by fastforce
qed

lemma fifo_roundtrip:
  assumes "is_open m" and "contents m = []" and "length ps \<le> capacity m"
  shows "\<exists>m' m''. send_all send t ps m = Some (replicate (length ps) True, m')
    \<and> receive_many receive u (length ps) m' = Some (map Some ps, m'') \<and> contents m'' = []"
proof -
  from assms obtain m' where "send_all send t ps m = Some (replicate (length ps) True, m')"
    "is_open m'" "contents m' = ps" using send_all_room [of m ps t] by auto
  with receive_many_all [of m' ps u] show ?thesis by blast
qed

end

definition agent_send ::
  "'q queue_api \<Rightarrow> 'q MQTTAgentMessageContext \<Rightarrow> nat \<Rightarrow> u32
   \<Rightarrow> (bool \<times> 'q MQTTAgentMessageContext) option" where
  "agent_send api ctx p t = do {
     (b, ctx') \<leftarrow> Agent_MessageSend api (Some ctx) (Some p) t;
     map_option (Pair b) ctx'
   }"

definition agent_receive ::
  "'q queue_api \<Rightarrow> 'q MQTTAgentMessageContext \<Rightarrow> u32
   \<Rightarrow> (nat option \<times> 'q MQTTAgentMessageContext) option" where
  "agent_receive api ctx t = do {
     (b, v, ctx') \<leftarrow> Agent_MessageReceive api (Some ctx) (Some 0) t;
     map_option (Pair (if b then v else None)) ctx'
   }"

sublocale rtos_queue \<subseteq> chan: message_channel "agent_send api" "agent_receive api"
  "\<lambda>ctx. items (the (queue ctx))" "\<lambda>ctx. cap (the (queue ctx))" "\<lambda>ctx. queue ctx \<noteq> None"
proof (unfold_locales, goal_cases)
  case (1 ctx p t)
  then obtain q where q: "queue ctx = Some q" by auto
  show ?case
  proof (cases "length (items q) < cap q")
    case True
    then obtain q' where
      "Agent_MessageSend api (Some ctx) (Some p) t = Some (True, Some (ctx\<lparr>queue := Some q'\<rparr>))"
      "items q' = items q @ [p]" "cap q' = cap q" using message_send_room [OF q] by blast
    with True q show ?thesis
      by (intro exI [of _ "ctx\<lparr>queue := Some q'\<rparr>"]) (simp add: agent_send_def)
  next
    case False
    then obtain q' where
      "Agent_MessageSend api (Some ctx) (Some p) t = Some (False, Some (ctx\<lparr>queue := Some q'\<rparr>))"
      "items q' = items q" "cap q' = cap q" using message_send_full [OF q] by force
    with False q show ?thesis
      by (intro exI [of _ "ctx\<lparr>queue := Some q'\<rparr>"]) (simp add: agent_send_def)
  qed
next
  case (2 ctx t)
  then obtain q where q: "queue ctx = Some q" by auto
  show ?case
  proof (cases "items q")
    case Nil
    then obtain q' where
      "Agent_MessageReceive api (Some ctx) (Some 0) t = Some (False, Some 0, Some (ctx\<lparr>queue := Some q'\<rparr>))"
      "items q' = []" "cap q' = cap q" using message_receive_empty [OF q] by blast
    with Nil q show ?thesis
      by (intro exI [of _ "ctx\<lparr>queue := Some q'\<rparr>"]) (simp add: agent_receive_def)
  next
    case (Cons x xs)
    then obtain q' where
      "Agent_MessageReceive api (Some ctx) (Some 0) t = Some (True, Some x, Some (ctx\<lparr>queue := Some q'\<rparr>))"
      "items q' = xs" "cap q' = cap q" using message_receive_item [OF q] by blast
    with Cons q show ?thesis
      by (intro exI [of _ "ctx\<lparr>queue := Some q'\<rparr>"]) (simp add: agent_receive_def)
  qed
qed

context rtos_queue
begin

lemma channel_fifo:
  assumes "queue ctx = Some q" and "items q = []" and "length ps \<le> cap q"
  shows "\<exists>ctx' ctx''. send_all (agent_send api) t ps ctx = Some (replicate (length ps) True, ctx')
    \<and> receive_many (agent_receive api) u (length ps) ctx' = Some (map Some ps, ctx'')"
  using chan.fifo_roundtrip [of ctx ps t u] assms by auto

end

section \<open>Properties\<close>

text \<open>
  The message functions pass command pointers in order and lose none: what is sent with
  Agent_MessageSend into an empty queue with room for it is received with
  Agent_MessageReceive in the order of the sends, whatever the block times.
\<close>

theorem message_fifo_roundtrip:
  assumes "rtos_queue api items cap" and "queue ctx = Some q" and "items q = []"
    and "length ps \<le> cap q"
  shows "\<exists>ctx' ctx''. send_all (agent_send api) t ps ctx = Some (replicate (length ps) True, ctx')
    \<and> receive_many (agent_receive api) u (length ps) ctx' = Some (map Some ps, ctx'')"
  using rtos_queue.channel_fifo [OF assms] .

theorem message_fifo_roundtrip_witness:
  "\<exists>ctx' ctx''. send_all (agent_send fifo_api) 0 [11, 12] \<lparr>queue = Some (10, [])\<rparr> =
      Some ([True, True], ctx')
    \<and> receive_many (agent_receive fifo_api) 5 2 ctx' = Some ([Some 11, Some 12], ctx'')"
  using message_fifo_roundtrip [OF fifo.rtos_queue_axioms, of "\<lparr>queue = Some (10, [])\<rparr>"
      "(10, [])" "[11, 12]" 0 5]
  by (simp add: numeral_eq_Suc)

text \<open>
  C7. In every reachable state the command structures that tasks hold are pairwise different
  structures of the pool; Agent_GetCommand then either returns a structure that nobody holds,
  or returns NULL, which happens exactly when all of them are held.
\<close>

theorem pool_exclusive:
  assumes "rtos_queue api items cap" and "layout_ok lay"
    and "pool_reachable api lay (s, held)"
  shows "distinct held \<and> set held \<subseteq> set (pool_ptrs lay)
    \<and> (\<exists>p s'. Agent_GetCommand api s t = Some (p, s')
         \<and> (p = 0 \<longleftrightarrow> length held = MQTT_COMMAND_CONTEXTS_POOL_SIZE)
         \<and> (p \<noteq> 0 \<longrightarrow> p \<in> set (pool_ptrs lay) \<and> p \<notin> set held))"
proof -
  have inv: "pool_inv items cap lay s held"
    using rtos_queue.reachable_inv [OF assms] by simp
  from rtos_queue.get_inv [OF assms(1,2) inv, of t] inv show ?thesis
    by (fastforce simp: pool_inv_def)
qed

definition demo_layout :: "nat pool_layout" where
  "demo_layout = \<lparr>pool_addr = 1000, cmd_size = 40, zero_cmd = 0\<rparr>"

definition fresh_pool :: "(nat \<times> nat list, nat) pool_state" where
  "fresh_pool = \<lparr>commandStructurePool = [], commandStructMessageCtx = \<lparr>queue = None\<rparr>,
     initStatus = QUEUE_NOT_INITIALIZED\<rparr>"

lemma demo_layout_ok: "layout_ok demo_layout"
  by (simp add: layout_ok_def demo_layout_def)

lemma demo_pool_start:
  "\<exists>s. Agent_InitializePool fifo_api demo_layout fresh_pool = Some s
     \<and> pool_reachable fifo_api demo_layout (s, [])"
proof -
  have fresh: "initStatus fresh_pool = QUEUE_NOT_INITIALIZED" by (simp add: fresh_pool_def)
  with fifo.initialize_inv [OF demo_layout_ok, of fresh_pool] show ?thesis
    by (auto intro: pool_reachable.init)
qed

theorem pool_exclusive_witness:
  "\<exists>s p s'. Agent_InitializePool fifo_api demo_layout fresh_pool = Some s
     \<and> Agent_GetCommand fifo_api s 0 = Some (p, s') \<and> p \<noteq> 0 \<and> p \<in> set (pool_ptrs demo_layout)"
proof -
  obtain s where s: "Agent_InitializePool fifo_api demo_layout fresh_pool = Some s"
    "pool_reachable fifo_api demo_layout (s, [])" using demo_pool_start by blast
  from pool_exclusive [OF fifo.rtos_queue_axioms demo_layout_ok s(2), of 0] s(1) show ?thesis
    by (auto simp: MQTT_COMMAND_CONTEXTS_POOL_SIZE_def)
qed

text \<open>
  Releasing a command structure that a task holds always succeeds in a reachable state:
  Agent_ReleaseCommand returns true, so none of its assertions fails, and the structure is
  available again; a pointer that is not into the pool is refused and changes nothing.
\<close>

theorem release_held_succeeds:
  assumes "rtos_queue api items cap" and "layout_ok lay"
    and "pool_reachable api lay (s, held)"
  shows "(p \<in> set held \<longrightarrow> (\<exists>s'. Agent_ReleaseCommand api lay s p = Some (True, s')
            \<and> pool_reachable api lay (s', remove1 p held)))
    \<and> (p < pool_addr lay \<or> pool_ptr lay MQTT_COMMAND_CONTEXTS_POOL_SIZE \<le> p \<longrightarrow>
         Agent_ReleaseCommand api lay s p = Some (False, s))"
proof -
  have inv: "pool_inv items cap lay s held"
    using rtos_queue.reachable_inv [OF assms] by simp
  have "\<exists>s'. Agent_ReleaseCommand api lay s p = Some (True, s')
      \<and> pool_reachable api lay (s', remove1 p held)" if "p \<in> set held"
    using rtos_queue.release_inv [OF assms(1,2) inv that] assms(3) that
    by (blast intro: pool_reachable.step pool_step.release)
  moreover have "Agent_ReleaseCommand api lay s p = Some (False, s)"
    if "p < pool_addr lay \<or> pool_ptr lay MQTT_COMMAND_CONTEXTS_POOL_SIZE \<le> p"
    using rtos_queue.release_foreign_inv [OF assms(1) inv, of p] that by auto
  ultimately show ?thesis by blast
qed

theorem release_held_succeeds_witness:
  "\<exists>s p s' s''. Agent_InitializePool fifo_api demo_layout fresh_pool = Some s
     \<and> Agent_GetCommand fifo_api s 0 = Some (p, s')
     \<and> Agent_ReleaseCommand fifo_api demo_layout s' p = Some (True, s'')
     \<and> Agent_ReleaseCommand fifo_api demo_layout s' 0 = Some (False, s')"
proof -
  obtain s where s: "Agent_InitializePool fifo_api demo_layout fresh_pool = Some s"
    "pool_reachable fifo_api demo_layout (s, [])" using demo_pool_start by blast
  then have "pool_inv snd fst demo_layout s []"
    using fifo.reachable_inv [OF demo_layout_ok] by fastforce
  then obtain p s' where get: "Agent_GetCommand fifo_api s 0 = Some (p, s')" "p \<noteq> 0"
    using fifo.get_inv [OF demo_layout_ok, of s "[]" 0]
    by (auto simp: MQTT_COMMAND_CONTEXTS_POOL_SIZE_def)
  with s(2) have r: "pool_reachable fifo_api demo_layout (s', [p])"
    by (blast intro: pool_reachable.step pool_step.get)
  from release_held_succeeds [OF fifo.rtos_queue_axioms demo_layout_ok r, of p]
    release_held_succeeds [OF fifo.rtos_queue_axioms demo_layout_ok r, of 0] s(1) get(1)
  show ?thesis by (auto simp: demo_layout_def)
qed

text \<open>
  Releasing the same structure twice while another one is outstanding is not refused,
  although the header says that a release without a matching Agent_GetCommand has no effect:
  the pool then hands one structure to two callers.
\<close>

theorem double_release_aliases:
  assumes "rtos_queue api items cap" and "queue (commandStructMessageCtx s) = Some q"
    and "initStatus s = QUEUE_INITIALIZED" and "items q = []" and "2 \<le> cap q"
    and "pool_addr lay \<le> p" and "p < pool_ptr lay MQTT_COMMAND_CONTEXTS_POOL_SIZE"
  shows "\<exists>s1 s2 s3 s4. Agent_ReleaseCommand api lay s p = Some (True, s1)
    \<and> Agent_ReleaseCommand api lay s1 p = Some (True, s2)
    \<and> Agent_GetCommand api s2 t = Some (p, s3) \<and> Agent_GetCommand api s3 t = Some (p, s4)"
proof -
  note room = rtos_queue.message_send_room [OF assms(1)]
  note item = rtos_queue.message_receive_item [OF assms(1)]
  obtain q1 where q1: "Agent_MessageSend api (Some (commandStructMessageCtx s)) (Some p) 0 =
      Some (True, Some ((commandStructMessageCtx s)\<lparr>queue := Some q1\<rparr>))"
    "items q1 = [p]" "cap q1 = cap q"
    using room [OF assms(2), of p 0] assms(4,5) by auto
  let ?c = "\<lambda>q. (commandStructMessageCtx s)\<lparr>queue := Some q\<rparr>"
  obtain q2 where q2: "Agent_MessageSend api (Some (?c q1)) (Some p) 0 = Some (True, Some (?c q2))"
    "items q2 = [p, p]"
    using room [of "?c q1" q1 p 0] q1 assms(5) by auto
  obtain q3 where q3: "Agent_MessageReceive api (Some (?c q2)) (Some 0) t =
      Some (True, Some p, Some (?c q3))" "items q3 = [p]"
    using item [of "?c q2" q2 p "[p]" 0 t] q2 by auto
  obtain q4 where q4: "Agent_MessageReceive api (Some (?c q3)) (Some 0) t =
      Some (True, Some p, Some (?c q4))"
    using item [of "?c q3" q3 p "[]" 0 t] q3 by auto
  show ?thesis
    using assms(3,6,7) q1 q2 q3 q4
    by (simp add: Agent_ReleaseCommand_def Agent_GetCommand_def)
qed

theorem double_release_aliases_witness:
  "\<exists>s1 s2 s3 s4. Agent_ReleaseCommand fifo_api demo_layout
       \<lparr>commandStructurePool = [], commandStructMessageCtx = \<lparr>queue = Some (10, [])\<rparr>,
        initStatus = QUEUE_INITIALIZED\<rparr> 1040 = Some (True, s1)
    \<and> Agent_ReleaseCommand fifo_api demo_layout s1 1040 = Some (True, s2)
    \<and> Agent_GetCommand fifo_api s2 0 = Some (1040, s3)
    \<and> Agent_GetCommand fifo_api s3 0 = Some (1040, s4)"
  by (rule double_release_aliases [OF fifo.rtos_queue_axioms, where q = "(10, [])"])
     (simp_all add: demo_layout_def pool_ptr_def MQTT_COMMAND_CONTEXTS_POOL_SIZE_def)

end
