(* ===== verification/Metrics_Collector.thy ===== *)
theory Metrics_Collector
  imports Prelude
begin

text \<open>
  source/defender-tools/metrics_collector.c: the four functions that read the network
  statistics, open ports and connections for the Device Defender report.

  The tcp_netstat utility of FreeRTOS+TCP (\<open>vGetMetrics\<close>) and \<open>FreeRTOS_GetIPAddress\<close> are
  parameters; \<open>MetricsType_t\<close> is what \<open>vGetMetrics\<close> fills in, its count fields apart from
  its arrays, so that a count larger than the array is a read outside it.  An output array is
  an \<open>option\<close>, \<open>None\<close> being \<open>NULL\<close>; an output variable likewise.
\<close>

section \<open>Data\<close>

datatype eMetricsCollectorStatus =
    eMetricsCollectorSuccess
  | eMetricsCollectorBadParameter
  | eMetricsCollectorCollectionFailed

record NetworkStats =
  ulBytesReceived :: u32
  ulBytesSent :: u32
  ulPacketsReceived :: u32
  ulPacketsSent :: u32

record Connection =
  ulLocalIp :: u32
  ulRemoteIp :: u32
  usLocalPort :: u16
  usRemotePort :: u16

text \<open>The part of \<open>MetricsType_t\<close> that the code reads.\<close>

record TCPSocket =
  sock_usLocalPort :: u16
  sock_ulRemoteIP :: u32
  sock_usRemotePort :: u16

record MetricsType =
  xInput_uxByteCount :: u32
  xInput_uxPacketCount :: u32
  xOutput_uxByteCount :: u32
  xOutput_uxPacketCount :: u32
  xTCPPortList_uxCount :: u32
  usTCPPortList :: "u16 list"
  xUDPPortList_uxCount :: u32
  usUDPPortList :: "u16 list"
  xTCPSocketList_uxCount :: u32
  xTCPList :: "TCPSocket list"

text \<open>\<open>vGetMetrics\<close>: its status, 0 for success, and the metrics it filled in.\<close>

type_synonym netstat = "int \<times> MetricsType"

section \<open>Operations\<close>

definition zero_stats :: NetworkStats where
  "zero_stats = \<lparr>ulBytesReceived = 0, ulBytesSent = 0, ulPacketsReceived = 0, ulPacketsSent = 0\<rparr>"

definition eGetNetworkStats ::
  "netstat \<Rightarrow> NetworkStats option \<Rightarrow> (eMetricsCollectorStatus \<times> NetworkStats option) option" where
  "eGetNetworkStats vGetMetrics pxOutNetworkStats = do {
     _ \<leftarrow> configASSERT (pxOutNetworkStats \<noteq> None);
     let out = zero_stats;
     let (xMetricsStatus, xMetrics) = vGetMetrics;
     let eStatus = (if xMetricsStatus \<noteq> 0 then eMetricsCollectorCollectionFailed
                    else eMetricsCollectorSuccess);
     if eStatus = eMetricsCollectorSuccess
     then Some (eStatus, Some (out\<lparr>
            ulBytesReceived := xInput_uxByteCount xMetrics,
            ulPacketsReceived := xInput_uxPacketCount xMetrics,
            ulBytesSent := xOutput_uxByteCount xMetrics,
            ulPacketsSent := xOutput_uxPacketCount xMetrics\<rparr>))
     else Some (eStatus, Some out)
   }"

definition eGetOpenTcpPorts ::
  "netstat \<Rightarrow> u16 list option \<Rightarrow> u32 \<Rightarrow> u32 option
   \<Rightarrow> (eMetricsCollectorStatus \<times> u16 list option \<times> u32 option) option" where
  "eGetOpenTcpPorts vGetMetrics pusOutTcpPortsArray ulTcpPortsArrayLength pulOutNumTcpOpenPorts = do {
     _ \<leftarrow> configASSERT (pulOutNumTcpOpenPorts \<noteq> None);
     let (xMetricsStatus, xMetrics) = vGetMetrics;
     let eStatus = (if xMetricsStatus \<noteq> 0 then eMetricsCollectorCollectionFailed
                    else eMetricsCollectorSuccess);
     if eStatus = eMetricsCollectorSuccess
     then (case pusOutTcpPortsArray of
             Some arr \<Rightarrow> do {
               let ulCopyAmount =
                 (if ulTcpPortsArrayLength < xTCPPortList_uxCount xMetrics
                  then ulTcpPortsArrayLength else xTCPPortList_uxCount xMetrics);
               ports \<leftarrow> mem_read (usTCPPortList xMetrics) 0 (unat ulCopyAmount);
               arr' \<leftarrow> mem_write arr 0 ports;
               Some (eStatus, Some arr', Some ulCopyAmount)
             }
           | None \<Rightarrow> Some (eStatus, None, Some (xTCPPortList_uxCount xMetrics)))
     else Some (eStatus, pusOutTcpPortsArray, pulOutNumTcpOpenPorts)
   }"

definition eGetOpenUdpPorts ::
  "netstat \<Rightarrow> u16 list option \<Rightarrow> u32 \<Rightarrow> u32 option
   \<Rightarrow> (eMetricsCollectorStatus \<times> u16 list option \<times> u32 option) option" where
  "eGetOpenUdpPorts vGetMetrics pusOutUdpPortsArray ulUdpPortsArrayLength pulOutNumUdpOpenPorts = do {
     _ \<leftarrow> configASSERT (pulOutNumUdpOpenPorts \<noteq> None);
     let (xMetricsStatus, xMetrics) = vGetMetrics;
     let eStatus = (if xMetricsStatus \<noteq> 0 then eMetricsCollectorCollectionFailed
                    else eMetricsCollectorSuccess);
     if eStatus = eMetricsCollectorSuccess
     then (case pusOutUdpPortsArray of
             Some arr \<Rightarrow> do {
               let ulCopyAmount =
                 (if ulUdpPortsArrayLength < xUDPPortList_uxCount xMetrics
                  then ulUdpPortsArrayLength else xUDPPortList_uxCount xMetrics);
               ports \<leftarrow> mem_read (usUDPPortList xMetrics) 0 (unat ulCopyAmount);
               arr' \<leftarrow> mem_write arr 0 ports;
               Some (eStatus, Some arr', Some ulCopyAmount)
             }
           | None \<Rightarrow> Some (eStatus, None, Some (xUDPPortList_uxCount xMetrics)))
     else Some (eStatus, pusOutUdpPortsArray, pulOutNumUdpOpenPorts)
   }"

text \<open>The copy loop of \<open>eGetEstablishedConnections\<close>; \<open>n\<close> iterations are left.\<close>

fun copy_connections ::
  "MetricsType \<Rightarrow> u32 \<Rightarrow> nat \<Rightarrow> nat \<Rightarrow> Connection list \<Rightarrow> Connection list option" where
  "copy_connections xMetrics localIp i 0 out = Some out"
| "copy_connections xMetrics localIp i (Suc n) out = do {
     sck \<leftarrow> arr_get (xTCPList xMetrics) i;
     c \<leftarrow> arr_get out i;
     out' \<leftarrow> arr_set out i (c\<lparr>
       ulLocalIp := localIp,
       usLocalPort := sock_usLocalPort sck,
       ulRemoteIp := sock_ulRemoteIP sck,
       usRemotePort := sock_usRemotePort sck\<rparr>);
     copy_connections xMetrics localIp (Suc i) n out'
   }"

definition eGetEstablishedConnections ::
  "netstat \<Rightarrow> u32 \<Rightarrow> Connection list option \<Rightarrow> u32 \<Rightarrow> u32 option
   \<Rightarrow> (eMetricsCollectorStatus \<times> Connection list option \<times> u32 option) option" where
  "eGetEstablishedConnections vGetMetrics FreeRTOS_GetIPAddress
     pxOutConnectionsArray ulConnectionsArrayLength pulOutNumEstablishedConnections = do {
     _ \<leftarrow> configASSERT (pulOutNumEstablishedConnections \<noteq> None);
     let (xMetricsStatus, xMetrics) = vGetMetrics;
     let eStatus = (if xMetricsStatus \<noteq> 0 then eMetricsCollectorCollectionFailed
                    else eMetricsCollectorSuccess);
     if eStatus = eMetricsCollectorSuccess
     then (case pxOutConnectionsArray of
             Some arr \<Rightarrow> do {
               let localIp = FreeRTOS_GetIPAddress;
               let ulCopyAmount =
                 (if ulConnectionsArrayLength < xTCPSocketList_uxCount xMetrics
                  then ulConnectionsArrayLength else xTCPSocketList_uxCount xMetrics);
               arr' \<leftarrow> copy_connections xMetrics localIp 0 (unat ulCopyAmount) arr;
               Some (eStatus, Some arr', Some ulCopyAmount)
             }
           | None \<Rightarrow> Some (eStatus, None, Some (xTCPSocketList_uxCount xMetrics)))
     else Some (eStatus, pxOutConnectionsArray, pulOutNumEstablishedConnections)
   }"

section \<open>The contract the three list queries share\<close>

text \<open>
  \<open>entries mt\<close> is what tcp_netstat lists.  A query with an array stores as many entries as
  fit and reports that number; a query with \<open>NULL\<close> reports how many there are; a failing
  \<open>vGetMetrics\<close> leaves every output alone.
\<close>

locale netstat_query =
  fixes query :: "netstat \<Rightarrow> 'a list option \<Rightarrow> u32 \<Rightarrow> u32 option
    \<Rightarrow> (eMetricsCollectorStatus \<times> 'a list option \<times> u32 option) option"
    and ok :: "MetricsType \<Rightarrow> bool"
    and entries :: "MetricsType \<Rightarrow> 'a list"
  assumes few: "ok mt \<Longrightarrow> length (entries mt) < 2 ^ 32"
    and query_array: "ok mt \<Longrightarrow> unat n \<le> length arr \<Longrightarrow>
      query (0, mt) (Some arr) n (Some out) =
        (let k = min (unat n) (length (entries mt)) in
         Some (eMetricsCollectorSuccess, Some (take k (entries mt) @ drop k arr), Some (of_nat k)))"
    and query_count: "ok mt \<Longrightarrow>
      query (0, mt) None n (Some out) =
         Some (eMetricsCollectorSuccess, None, Some (of_nat (length (entries mt))))"
    and query_failed: "st \<noteq> 0 \<Longrightarrow>
      query (st, mt) parr n (Some out) =
         Some (eMetricsCollectorCollectionFailed, parr, Some out)"
begin

lemma query_bounded:
  assumes "ok mt" and "unat n \<le> length arr"
  shows "\<exists>arr' k. query (0, mt) (Some arr) n (Some out) =
       Some (eMetricsCollectorSuccess, Some arr', Some k)
     \<and> length arr' = length arr \<and> unat k = min (unat n) (length (entries mt))
     \<and> take (unat k) arr' = take (unat k) (entries mt)
     \<and> drop (unat k) arr' = drop (unat k) arr"
proof -
  let ?k = "min (unat n) (length (entries mt))"
  have "unat (of_nat ?k :: u32) = ?k"
    using few [OF assms(1)] by (simp add: unat_of_nat32)
  then show ?thesis
    using assms by (intro exI conjI) (rule query_array [unfolded Let_def], auto simp: min_def)
qed

text \<open>Asking for the count first and then passing an array of that size returns everything.\<close>

lemma query_all:
  assumes "ok mt" and "query (0, mt) None m (Some out) = Some (st, none, Some n)"
    and "unat n \<le> length arr"
  shows "query (0, mt) (Some arr) n (Some out') =
     Some (eMetricsCollectorSuccess,
       Some (entries mt @ drop (length (entries mt)) arr), Some n)"
proof -
  from assms(1,2) have n: "n = of_nat (length (entries mt))" by (simp add: query_count)
  then have "unat n = length (entries mt)"
    using few [OF assms(1)] by (simp add: unat_of_nat32)
  then show ?thesis using query_array [OF assms(1,3)] n by (simp add: Let_def)
qed

end

section \<open>The code provides it\<close>

text \<open>What tcp_netstat promises: the counts are those of the arrays.\<close>

definition netstat_ok :: "MetricsType \<Rightarrow> bool" where
  "netstat_ok mt \<longleftrightarrow>
     unat (xTCPPortList_uxCount mt) = length (usTCPPortList mt)
     \<and> unat (xUDPPortList_uxCount mt) = length (usUDPPortList mt)
     \<and> unat (xTCPSocketList_uxCount mt) = length (xTCPList mt)"

definition connection_of :: "u32 \<Rightarrow> TCPSocket \<Rightarrow> Connection" where
  "connection_of localIp s = \<lparr>ulLocalIp = localIp, ulRemoteIp = sock_ulRemoteIP s,
     usLocalPort = sock_usLocalPort s, usRemotePort = sock_usRemotePort s\<rparr>"

lemma copy_connections_eq:
  "i + n \<le> length (xTCPList mt) \<Longrightarrow> i + n \<le> length out \<Longrightarrow>
   copy_connections mt ip i n out =
     Some (take i out @ map (connection_of ip) (take n (drop i (xTCPList mt))) @ drop (i + n) out)"
proof (induction n arbitrary: i out)
  case 0
  then show ?case by simp
next
  case (Suc n)
  let ?c = "connection_of ip (xTCPList mt ! i)"
  have "(out ! i)\<lparr>ulLocalIp := ip, usLocalPort := sock_usLocalPort (xTCPList mt ! i),
      ulRemoteIp := sock_ulRemoteIP (xTCPList mt ! i),
      usRemotePort := sock_usRemotePort (xTCPList mt ! i)\<rparr> = ?c"
    by (cases "out ! i") (simp add: connection_of_def)
  then have "copy_connections mt ip i (Suc n) out =
      copy_connections mt ip (Suc i) n (out[i := ?c])"
    using Suc.prems by simp
  also have "\<dots> = Some (take (Suc i) (out[i := ?c])
      @ map (connection_of ip) (take n (drop (Suc i) (xTCPList mt)))
      @ drop (Suc i + n) (out[i := ?c]))"
    using Suc.prems by (subst Suc.IH) simp_all
  also have "take (Suc i) (out[i := ?c]) = take i out @ [?c]"
    using Suc.prems by (simp add: take_Suc_conv_app_nth)
  also have "drop (Suc i + n) (out[i := ?c]) = drop (i + Suc n) out"
    by simp
  also have "take (Suc n) (drop i (xTCPList mt)) =
      xTCPList mt ! i # take n (drop (Suc i) (xTCPList mt))"
    using Suc.prems by (simp add: Cons_nth_drop_Suc [symmetric])
  ultimately show ?case by simp
qed

lemma copy_amount:
  assumes "unat (m :: u32) = k"
  shows "(if n < m then n else m) = of_nat (min (unat n) k)"
    and "unat (if n < m then n else m) = min (unat n) k"
  using assms by (auto simp: word_less_nat_alt min_def of_nat_unat_word)

lemma count_small: "unat (m :: u32) = k \<Longrightarrow> k < 4294967296"
  using unsigned_less [of m, where 'a = nat] by auto

lemma count_word: "unat (m :: u32) = k \<Longrightarrow> m = of_nat k"
  by (auto simp: of_nat_unat_word)

interpretation tcp: netstat_query eGetOpenTcpPorts netstat_ok usTCPPortList
proof (unfold_locales, goal_cases)
  case (1 mt)
  then show ?case by (simp add: netstat_ok_def) (metis count_small)
next
  case (2 mt n arr out)
  then have "unat (xTCPPortList_uxCount mt) = length (usTCPPortList mt)"
    by (simp add: netstat_ok_def)
  from copy_amount [OF this, of n] 2 show ?case
    by (simp add: eGetOpenTcpPorts_def Let_def)
next
  case (3 mt n out)
  then show ?case by (simp add: eGetOpenTcpPorts_def netstat_ok_def count_word)
next
  case (4 st mt parr n out)
  then show ?case by (simp add: eGetOpenTcpPorts_def)
qed

interpretation udp: netstat_query eGetOpenUdpPorts netstat_ok usUDPPortList
proof (unfold_locales, goal_cases)
  case (1 mt)
  then show ?case by (simp add: netstat_ok_def) (metis count_small)
next
  case (2 mt n arr out)
  then have "unat (xUDPPortList_uxCount mt) = length (usUDPPortList mt)"
    by (simp add: netstat_ok_def)
  from copy_amount [OF this, of n] 2 show ?case
    by (simp add: eGetOpenUdpPorts_def Let_def)
next
  case (3 mt n out)
  then show ?case by (simp add: eGetOpenUdpPorts_def netstat_ok_def count_word)
next
  case (4 st mt parr n out)
  then show ?case by (simp add: eGetOpenUdpPorts_def)
qed

definition connections :: "u32 \<Rightarrow> MetricsType \<Rightarrow> Connection list" where
  "connections ip mt = map (connection_of ip) (xTCPList mt)"

interpretation tcp_conn: netstat_query
  "\<lambda>ns. eGetEstablishedConnections ns ip" netstat_ok "connections ip" for ip
proof (unfold_locales, goal_cases)
  case (1 mt)
  then show ?case by (simp add: netstat_ok_def connections_def) (metis count_small)
next
  case (2 mt n arr out)
  then have "unat (xTCPSocketList_uxCount mt) = length (xTCPList mt)"
    by (simp add: netstat_ok_def)
  from copy_amount [OF this, of n] 2 show ?case
    by (simp add: eGetEstablishedConnections_def Let_def copy_connections_eq connections_def
        take_map)
next
  case (3 mt n out)
  then show ?case
    by (simp add: eGetEstablishedConnections_def netstat_ok_def connections_def count_word)
next
  case (4 st mt parr n out)
  then show ?case by (simp add: eGetEstablishedConnections_def)
qed

section \<open>Properties\<close>

text \<open>
  Each of the three list queries stores exactly min(array length, number of entries)
  entries at the start of the array, leaves the rest of the array untouched, never accesses
  memory outside either array, and reports the number it stored.
\<close>

theorem metrics_queries_bounded:
  assumes "netstat_ok mt" and "unat n \<le> length ports" and "unat n \<le> length conns"
  shows "(\<exists>arr k. eGetOpenTcpPorts (0, mt) (Some ports) n (Some out) =
        Some (eMetricsCollectorSuccess, Some arr, Some k)
      \<and> length arr = length ports \<and> unat k = min (unat n) (length (usTCPPortList mt))
      \<and> take (unat k) arr = take (unat k) (usTCPPortList mt)
      \<and> drop (unat k) arr = drop (unat k) ports)
    \<and> (\<exists>arr k. eGetOpenUdpPorts (0, mt) (Some ports) n (Some out) =
        Some (eMetricsCollectorSuccess, Some arr, Some k)
      \<and> length arr = length ports \<and> unat k = min (unat n) (length (usUDPPortList mt))
      \<and> take (unat k) arr = take (unat k) (usUDPPortList mt)
      \<and> drop (unat k) arr = drop (unat k) ports)
    \<and> (\<exists>arr k. eGetEstablishedConnections (0, mt) ip (Some conns) n (Some out) =
        Some (eMetricsCollectorSuccess, Some arr, Some k)
      \<and> length arr = length conns \<and> unat k = min (unat n) (length (xTCPList mt))
      \<and> take (unat k) arr = map (connection_of ip) (take (unat k) (xTCPList mt))
      \<and> drop (unat k) arr = drop (unat k) conns)"
  using tcp.query_bounded [OF assms(1,2), of out] udp.query_bounded [OF assms(1,2), of out]
    tcp_conn.query_bounded [OF assms(1,3), of ip out]
  by (simp add: connections_def take_map)

definition demo_metrics :: MetricsType where
  "demo_metrics = \<lparr>xInput_uxByteCount = 5, xInput_uxPacketCount = 1, xOutput_uxByteCount = 7,
     xOutput_uxPacketCount = 2, xTCPPortList_uxCount = 3, usTCPPortList = [80, 443, 8883],
     xUDPPortList_uxCount = 1, usUDPPortList = [53], xTCPSocketList_uxCount = 1,
     xTCPList = [\<lparr>sock_usLocalPort = 40000, sock_ulRemoteIP = 0x0A000001,
                   sock_usRemotePort = 8883\<rparr>]\<rparr>"

theorem metrics_queries_bounded_witness:
  "\<exists>arr k. eGetOpenTcpPorts (0, demo_metrics) (Some [1, 2]) 2 (Some 0) =
       Some (eMetricsCollectorSuccess, Some arr, Some k)
     \<and> length arr = 2 \<and> unat k = 2 \<and> take (unat k) arr = [80, 443]"
proof -
  have ok: "netstat_ok demo_metrics" by (simp add: netstat_ok_def demo_metrics_def)
  have "unat (2 :: u32) \<le> length [1 :: u16, 2]"
    "unat (2 :: u32) \<le> length (replicate 2 (connection_of 0 (xTCPList demo_metrics ! 0)))"
    by simp_all
  from metrics_queries_bounded [OF ok this, of 0] show ?thesis
    by (fastforce simp: demo_metrics_def)
qed

end
