(* ===== verification/Report_Builder.thy ===== *)
theory Report_Builder
  imports Metrics_Collector
begin

unbundle bit_operations_syntax

text \<open>
  source/defender-tools/report_builder.c: the writer of the Device Defender JSON report.

  The report buffer is a list of characters; \<open>pcCurrentWritePos\<close> is an index into it.  The
  local variables that every function of the file threads through its steps are the record
  \<open>writer\<close>.  The key macros of the Device Defender library are the record
  \<open>defender_keys\<close>.  The specification is \<open>json_show\<close>, a printer of JSON values, and
  \<open>report_json\<close>, the report as a JSON value: \<open>emits\<close> states that a step appends a text
  to the buffer or reports that it does not fit.
\<close>

section \<open>Data\<close>

datatype eReportBuilderStatus =
    eReportBuilderSuccess
  | eReportBuilderBadParameter
  | eReportBuilderBufferTooSmall

record ReportMetrics =
  pxNetworkStats :: "NetworkStats option"
  pusOpenTcpPortsArray :: "u16 list option"
  ulOpenTcpPortsArrayLength :: u32
  pusOpenUdpPortsArray :: "u16 list option"
  ulOpenUdpPortsArrayLength :: u32
  pxEstablishedConnectionsArray :: "Connection list option"
  ulEstablishedConnectionsArrayLength :: u32
  ulStackHighWaterMark :: u32
  pulTaskIdsArray :: "u32 list option"
  ulTaskIdsArrayLength :: u32

record defender_keys =
  DEFENDER_REPORT_HEADER_KEY :: string
  DEFENDER_REPORT_ID_KEY :: string
  DEFENDER_REPORT_VERSION_KEY :: string
  DEFENDER_REPORT_METRICS_KEY :: string
  DEFENDER_REPORT_TCP_LISTENING_PORTS_KEY :: string
  DEFENDER_REPORT_PORTS_KEY :: string
  DEFENDER_REPORT_PORT_KEY :: string
  DEFENDER_REPORT_TOTAL_KEY :: string
  DEFENDER_REPORT_UDP_LISTENING_PORTS_KEY :: string
  DEFENDER_REPORT_NETWORK_STATS_KEY :: string
  DEFENDER_REPORT_BYTES_IN_KEY :: string
  DEFENDER_REPORT_BYTES_OUT_KEY :: string
  DEFENDER_REPORT_PKTS_IN_KEY :: string
  DEFENDER_REPORT_PKTS_OUT_KEY :: string
  DEFENDER_REPORT_TCP_CONNECTIONS_KEY :: string
  DEFENDER_REPORT_ESTABLISHED_CONNECTIONS_KEY :: string
  DEFENDER_REPORT_CONNECTIONS_KEY :: string
  DEFENDER_REPORT_LOCAL_PORT_KEY :: string
  DEFENDER_REPORT_REMOTE_ADDR_KEY :: string
  DEFENDER_REPORT_CUSTOM_METRICS_KEY :: string
  DEFENDER_REPORT_NUMBER_KEY :: string
  DEFENDER_REPORT_NUMBER_LIST_KEY :: string

section \<open>Formats\<close>

definition reportbuilderSNPRINTF_SUCCESS :: "int \<Rightarrow> u32 \<Rightarrow> bool" where
  "reportbuilderSNPRINTF_SUCCESS retVal bufLen \<longleftrightarrow> retVal > 0 \<and> (of_int retVal :: u32) < bufLen"

definition reportbuilderJSON_PORT_OBJECT_FORMAT :: string where
  \<open>reportbuilderJSON_PORT_OBJECT_FORMAT = ''{"%s": %u},''\<close>

definition reportbuilderJSON_CONNECTION_OBJECT_FORMAT :: string where
  \<open>reportbuilderJSON_CONNECTION_OBJECT_FORMAT =
     ''{"%s": %hu,"%s": "%lu.%lu.%lu.%lu:%hu"},''\<close>

definition task_id_format :: string where
  "task_id_format = ''%lu,''"

definition reportbuilderJSON_REPORT_FORMAT_PART1 :: string where
  \<open>reportbuilderJSON_REPORT_FORMAT_PART1 =
     ''{"%s": {"%s": %lu,"%s": "%lu.%lu"},"%s": {"%s": {"%s": ''\<close>

definition reportbuilderJSON_REPORT_FORMAT_PART2 :: string where
  \<open>reportbuilderJSON_REPORT_FORMAT_PART2 = '',"%s": %lu},"%s": {"%s": ''\<close>

definition reportbuilderJSON_REPORT_FORMAT_PART3 :: string where
  \<open>reportbuilderJSON_REPORT_FORMAT_PART3 =
     '',"%s": %lu},"%s": {"%s": %lu,"%s": %lu,"%s": %lu,"%s": %lu},"%s": {"%s": {"%s": ''\<close>

definition reportbuilderJSON_REPORT_FORMAT_PART4 :: string where
  \<open>reportbuilderJSON_REPORT_FORMAT_PART4 =
     '',"%s": %lu}}},"%s": {"stack_high_water_mark": [{"%s": %lu}],"task_numbers": [{"%s": ''\<close>

definition reportbuilderJSON_REPORT_FORMAT_PART5 :: string where
  \<open>reportbuilderJSON_REPORT_FORMAT_PART5 = ''}]}}''\<close>

section \<open>Writing into the buffer\<close>

text \<open>
  \<open>eStatus\<close>, the buffer, \<open>pcCurrentWritePos\<close> and \<open>ulRemainingBufferLength\<close>.
\<close>

record writer =
  w_status :: eReportBuilderStatus
  w_buf :: string
  w_pos :: nat
  w_rem :: u32

text \<open>The \<open>snprintf\<close> of a formatted text and the status check that follows each of them.\<close>

definition write_formatted :: "string \<Rightarrow> writer \<Rightarrow> writer option" where
  "write_formatted txt w = do {
     (lCharactersWritten, buf) \<leftarrow> snprintf (w_buf w) (w_pos w) (w_rem w) txt;
     if \<not> reportbuilderSNPRINTF_SUCCESS lCharactersWritten (w_rem w)
     then Some (w\<lparr>w_buf := buf, w_status := eReportBuilderBufferTooSmall\<rparr>)
     else Some (w\<lparr>w_buf := buf, w_rem := w_rem w - of_int lCharactersWritten,
                   w_pos := w_pos w + nat lCharactersWritten\<rparr>)
   }"

text \<open>Writing one of the array markers.\<close>

definition write_marker :: "char \<Rightarrow> writer \<Rightarrow> writer option" where
  "write_marker c w =
     (if w_rem w > 1 then do {
        buf \<leftarrow> arr_set (w_buf w) (w_pos w) c;
        Some (w\<lparr>w_buf := buf, w_rem := w_rem w - 1, w_pos := w_pos w + 1\<rparr>)
      }
      else Some (w\<lparr>w_status := eReportBuilderBufferTooSmall\<rparr>))"

text \<open>
  The closing part of the three array functions: step back over the last comma, write the
  closing marker, report the number of characters written.
\<close>

definition close_array :: "u32 \<Rightarrow> writer \<Rightarrow> writer option" where
  "close_array cnt w =
     (if w_status w = eReportBuilderSuccess then do {
        let w' = (if cnt > 0 then w\<lparr>w_pos := w_pos w - 1, w_rem := w_rem w + 1\<rparr> else w);
        write_marker (CHR '']'') w'
      }
      else Some w)"

definition array_result ::
  "u32 \<Rightarrow> u32 option \<Rightarrow> writer \<Rightarrow> (eReportBuilderStatus \<times> string \<times> u32 option) option" where
  "array_result ulBufferLength pulOutCharsWritten w =
     (if w_status w = eReportBuilderSuccess
      then Some (w_status w, w_buf w, Some (ulBufferLength - w_rem w))
      else Some (w_status w, w_buf w, pulOutCharsWritten))"

section \<open>The array writers\<close>

fun ports_loop :: "defender_keys \<Rightarrow> u16 list \<Rightarrow> nat \<Rightarrow> nat \<Rightarrow> writer \<Rightarrow> writer option" where
  "ports_loop keys ports i 0 w = Some w"
| "ports_loop keys ports i (Suc n) w =
     (if w_status w = eReportBuilderSuccess then do {
        port \<leftarrow> arr_get ports i;
        w' \<leftarrow> write_formatted (c_format reportbuilderJSON_PORT_OBJECT_FORMAT
               [Fmt_str (DEFENDER_REPORT_PORT_KEY keys), Fmt_uint (unat port)]) w;
        ports_loop keys ports (Suc i) n w'
      }
      else Some w)"

definition prvWritePortsArray ::
  "defender_keys \<Rightarrow> string option \<Rightarrow> nat \<Rightarrow> u32 \<Rightarrow> u16 list option \<Rightarrow> u32 \<Rightarrow> u32 option
   \<Rightarrow> (eReportBuilderStatus \<times> string \<times> u32 option) option" where
  "prvWritePortsArray keys pcBuffer pos ulBufferLength pusOpenPortsArray ulOpenPortsArrayLength
     pulOutCharsWritten = do {
     _ \<leftarrow> configASSERT (pcBuffer \<noteq> None);
     _ \<leftarrow> configASSERT (pusOpenPortsArray \<noteq> None);
     _ \<leftarrow> configASSERT (pulOutCharsWritten \<noteq> None);
     buf \<leftarrow> pcBuffer;
     ports \<leftarrow> pusOpenPortsArray;
     w1 \<leftarrow> write_marker (CHR ''['') \<lparr>w_status = eReportBuilderSuccess, w_buf = buf,
            w_pos = pos, w_rem = ulBufferLength\<rparr>;
     w2 \<leftarrow> ports_loop keys ports 0 (unat ulOpenPortsArrayLength) w1;
     w3 \<leftarrow> close_array ulOpenPortsArrayLength w2;
     array_result ulBufferLength pulOutCharsWritten w3
   }"

fun connections_loop ::
  "defender_keys \<Rightarrow> Connection list \<Rightarrow> nat \<Rightarrow> nat \<Rightarrow> writer \<Rightarrow> writer option" where
  "connections_loop keys conns i 0 w = Some w"
| "connections_loop keys conns i (Suc n) w =
     (if w_status w = eReportBuilderSuccess then do {
        c \<leftarrow> arr_get conns i;
        w' \<leftarrow> write_formatted (c_format reportbuilderJSON_CONNECTION_OBJECT_FORMAT
               [Fmt_str (DEFENDER_REPORT_LOCAL_PORT_KEY keys),
                Fmt_uint (unat (usLocalPort c)),
                Fmt_str (DEFENDER_REPORT_REMOTE_ADDR_KEY keys),
                Fmt_uint (unat (drop_bit 24 (ulRemoteIp c) AND 0xFF)),
                Fmt_uint (unat (drop_bit 16 (ulRemoteIp c) AND 0xFF)),
                Fmt_uint (unat (drop_bit 8 (ulRemoteIp c) AND 0xFF)),
                Fmt_uint (unat (ulRemoteIp c AND 0xFF)),
                Fmt_uint (unat (usRemotePort c))]) w;
        connections_loop keys conns (Suc i) n w'
      }
      else Some w)"

definition prvWriteConnectionsArray ::
  "defender_keys \<Rightarrow> string option \<Rightarrow> nat \<Rightarrow> u32 \<Rightarrow> Connection list option \<Rightarrow> u32 \<Rightarrow> u32 option
   \<Rightarrow> (eReportBuilderStatus \<times> string \<times> u32 option) option" where
  "prvWriteConnectionsArray keys pcBuffer pos ulBufferLength pxConnectionsArray
     ulConnectionsArrayLength pulOutCharsWritten = do {
     _ \<leftarrow> configASSERT (pcBuffer \<noteq> None);
     _ \<leftarrow> configASSERT (pxConnectionsArray \<noteq> None);
     _ \<leftarrow> configASSERT (pulOutCharsWritten \<noteq> None);
     buf \<leftarrow> pcBuffer;
     conns \<leftarrow> pxConnectionsArray;
     w1 \<leftarrow> write_marker (CHR ''['') \<lparr>w_status = eReportBuilderSuccess, w_buf = buf,
            w_pos = pos, w_rem = ulBufferLength\<rparr>;
     w2 \<leftarrow> connections_loop keys conns 0 (unat ulConnectionsArrayLength) w1;
     w3 \<leftarrow> close_array ulConnectionsArrayLength w2;
     array_result ulBufferLength pulOutCharsWritten w3
   }"

fun task_ids_loop :: "u32 list \<Rightarrow> nat \<Rightarrow> nat \<Rightarrow> writer \<Rightarrow> writer option" where
  "task_ids_loop ids i 0 w = Some w"
| "task_ids_loop ids i (Suc n) w =
     (if w_status w = eReportBuilderSuccess then do {
        tid \<leftarrow> arr_get ids i;
        w' \<leftarrow> write_formatted (c_format task_id_format [Fmt_uint (unat tid)]) w;
        task_ids_loop ids (Suc i) n w'
      }
      else Some w)"

definition prvWriteTaskIdsArray ::
  "string option \<Rightarrow> nat \<Rightarrow> u32 \<Rightarrow> u32 list option \<Rightarrow> u32 \<Rightarrow> u32 option
   \<Rightarrow> (eReportBuilderStatus \<times> string \<times> u32 option) option" where
  "prvWriteTaskIdsArray pcBuffer pos ulBufferLength idsArray idsArrayLength
     pulOutCharsWritten = do {
     _ \<leftarrow> configASSERT (pcBuffer \<noteq> None);
     _ \<leftarrow> configASSERT (idsArray \<noteq> None);
     _ \<leftarrow> configASSERT (pulOutCharsWritten \<noteq> None);
     buf \<leftarrow> pcBuffer;
     ids \<leftarrow> idsArray;
     w1 \<leftarrow> write_marker (CHR ''['') \<lparr>w_status = eReportBuilderSuccess, w_buf = buf,
            w_pos = pos, w_rem = ulBufferLength\<rparr>;
     w2 \<leftarrow> task_ids_loop ids 0 (unat idsArrayLength) w1;
     w3 \<leftarrow> close_array idsArrayLength w2;
     array_result ulBufferLength pulOutCharsWritten w3
   }"

section \<open>eGenerateJsonReport\<close>

text \<open>One \<open>if( eStatus == eReportBuilderSuccess )\<close> block with an \<open>snprintf\<close>.\<close>

definition report_part :: "string \<Rightarrow> writer \<Rightarrow> writer option" where
  "report_part txt w =
     (if w_status w = eReportBuilderSuccess then write_formatted txt w else Some w)"

text \<open>One such block with a call of an array writer; \<open>bufferWritten\<close> is its output variable.\<close>

definition report_array ::
  "(string option \<Rightarrow> nat \<Rightarrow> u32 \<Rightarrow> u32 option
     \<Rightarrow> (eReportBuilderStatus \<times> string \<times> u32 option) option)
   \<Rightarrow> writer \<Rightarrow> writer option" where
  "report_array prvWrite w =
     (if w_status w = eReportBuilderSuccess then do {
        (eStatus, buf, out) \<leftarrow> prvWrite (Some (w_buf w)) (w_pos w) (w_rem w) (Some 0);
        bufferWritten \<leftarrow> out;
        if eStatus = eReportBuilderSuccess
        then Some (w\<lparr>w_buf := buf, w_pos := w_pos w + unat bufferWritten,
                      w_rem := w_rem w - bufferWritten\<rparr>)
        else Some (w\<lparr>w_buf := buf, w_status := eStatus\<rparr>)
      }
      else Some w)"

text \<open>The header and the listening ports, up to the array of UDP ports.\<close>

definition report_ports ::
  "defender_keys \<Rightarrow> ReportMetrics \<Rightarrow> u32 \<Rightarrow> u32 \<Rightarrow> u32 \<Rightarrow> writer \<Rightarrow> writer option" where
  "report_ports keys m ulMajorReportVersion ulMinorReportVersion ulReportId w = do {
     w1 \<leftarrow> report_part (c_format reportbuilderJSON_REPORT_FORMAT_PART1
            [Fmt_str (DEFENDER_REPORT_HEADER_KEY keys),
             Fmt_str (DEFENDER_REPORT_ID_KEY keys), Fmt_uint (unat ulReportId),
             Fmt_str (DEFENDER_REPORT_VERSION_KEY keys), Fmt_uint (unat ulMajorReportVersion),
             Fmt_uint (unat ulMinorReportVersion),
             Fmt_str (DEFENDER_REPORT_METRICS_KEY keys),
             Fmt_str (DEFENDER_REPORT_TCP_LISTENING_PORTS_KEY keys),
             Fmt_str (DEFENDER_REPORT_PORTS_KEY keys)]) w;
     w2 \<leftarrow> report_array (\<lambda>b p n. prvWritePortsArray keys b p n
            (pusOpenTcpPortsArray m) (ulOpenTcpPortsArrayLength m)) w1;
     w3 \<leftarrow> report_part (c_format reportbuilderJSON_REPORT_FORMAT_PART2
            [Fmt_str (DEFENDER_REPORT_TOTAL_KEY keys),
             Fmt_uint (unat (ulOpenTcpPortsArrayLength m)),
             Fmt_str (DEFENDER_REPORT_UDP_LISTENING_PORTS_KEY keys),
             Fmt_str (DEFENDER_REPORT_PORTS_KEY keys)]) w2;
     report_array (\<lambda>b p n. prvWritePortsArray keys b p n
            (pusOpenUdpPortsArray m) (ulOpenUdpPortsArrayLength m)) w3
   }"

text \<open>The network statistics, the connections and the custom metrics.\<close>

definition report_network :: "defender_keys \<Rightarrow> ReportMetrics \<Rightarrow> writer \<Rightarrow> writer option" where
  "report_network keys m w = do {
     stats \<leftarrow> (if w_status w = eReportBuilderSuccess then pxNetworkStats m
               else Some zero_stats);
     w1 \<leftarrow> report_part (c_format reportbuilderJSON_REPORT_FORMAT_PART3
            [Fmt_str (DEFENDER_REPORT_TOTAL_KEY keys),
             Fmt_uint (unat (ulOpenUdpPortsArrayLength m)),
             Fmt_str (DEFENDER_REPORT_NETWORK_STATS_KEY keys),
             Fmt_str (DEFENDER_REPORT_BYTES_IN_KEY keys),
             Fmt_uint (unat (ulBytesReceived stats)),
             Fmt_str (DEFENDER_REPORT_BYTES_OUT_KEY keys),
             Fmt_uint (unat (ulBytesSent stats)),
             Fmt_str (DEFENDER_REPORT_PKTS_IN_KEY keys),
             Fmt_uint (unat (ulPacketsReceived stats)),
             Fmt_str (DEFENDER_REPORT_PKTS_OUT_KEY keys),
             Fmt_uint (unat (ulPacketsSent stats)),
             Fmt_str (DEFENDER_REPORT_TCP_CONNECTIONS_KEY keys),
             Fmt_str (DEFENDER_REPORT_ESTABLISHED_CONNECTIONS_KEY keys),
             Fmt_str (DEFENDER_REPORT_CONNECTIONS_KEY keys)]) w;
     w2 \<leftarrow> report_array (\<lambda>b p n. prvWriteConnectionsArray keys b p n
            (pxEstablishedConnectionsArray m) (ulEstablishedConnectionsArrayLength m)) w1;
     w3 \<leftarrow> report_part (c_format reportbuilderJSON_REPORT_FORMAT_PART4
            [Fmt_str (DEFENDER_REPORT_TOTAL_KEY keys),
             Fmt_uint (unat (ulEstablishedConnectionsArrayLength m)),
             Fmt_str (DEFENDER_REPORT_CUSTOM_METRICS_KEY keys),
             Fmt_str (DEFENDER_REPORT_NUMBER_KEY keys),
             Fmt_uint (unat (ulStackHighWaterMark m)),
             Fmt_str (DEFENDER_REPORT_NUMBER_LIST_KEY keys)]) w2;
     w4 \<leftarrow> report_array (\<lambda>b p n. prvWriteTaskIdsArray b p n
            (pulTaskIdsArray m) (ulTaskIdsArrayLength m)) w3;
     report_part (c_format reportbuilderJSON_REPORT_FORMAT_PART5 []) w4
   }"

definition eGenerateJsonReport ::
  "defender_keys \<Rightarrow> string option \<Rightarrow> u32 \<Rightarrow> ReportMetrics option \<Rightarrow> u32 \<Rightarrow> u32 \<Rightarrow> u32 \<Rightarrow> u32 option
   \<Rightarrow> (eReportBuilderStatus \<times> string option \<times> u32 option) option" where
  "eGenerateJsonReport keys pcBuffer ulBufferLength pxMetrics ulMajorReportVersion
     ulMinorReportVersion ulReportId pulOutReportLength = do {
     _ \<leftarrow> configASSERT (pcBuffer \<noteq> None);
     _ \<leftarrow> configASSERT (pxMetrics \<noteq> None);
     _ \<leftarrow> configASSERT (pulOutReportLength \<noteq> None);
     _ \<leftarrow> configASSERT (ulBufferLength \<noteq> 0);
     if pcBuffer = None \<or> ulBufferLength = 0 \<or> pxMetrics = None \<or> pulOutReportLength = None
     then Some (eReportBuilderBadParameter, pcBuffer, pulOutReportLength)
     else do {
       buf \<leftarrow> pcBuffer;
       m \<leftarrow> pxMetrics;
       let w0 = \<lparr>w_status = eReportBuilderSuccess, w_buf = buf, w_pos = 0,
                 w_rem = ulBufferLength\<rparr>;
       w1 \<leftarrow> report_ports keys m ulMajorReportVersion ulMinorReportVersion ulReportId w0;
       w2 \<leftarrow> report_network keys m w1;
       if w_status w2 = eReportBuilderSuccess
       then Some (w_status w2, Some (w_buf w2), Some (ulBufferLength - w_rem w2))
       else Some (w_status w2, Some (w_buf w2), pulOutReportLength)
     }
   }"

section \<open>Specification: the report as a JSON value\<close>

datatype json =
    JNum nat
  | JStr string
  | JArr "json list"
  | JObj "(string \<times> json) list"

fun commas :: "string list \<Rightarrow> string" where
  "commas [] = []"
| "commas [x] = x"
| "commas (x # y # zs) = x @ '','' @ commas (y # zs)"

definition show_member :: "string \<times> string \<Rightarrow> string" where
  \<open>show_member = (\<lambda>(k, v). ''"'' @ k @ ''": '' @ v)\<close>

primrec json_show :: "json \<Rightarrow> string" where
  "json_show (JNum n) = dec n"
| \<open>json_show (JStr s) = ''"'' @ s @ ''"''\<close>
| "json_show (JArr xs) = ''['' @ commas (map json_show xs) @ '']''"
| "json_show (JObj kvs) =
     ''{'' @ commas (map show_member (map (map_prod (\<lambda>k. k) json_show) kvs)) @ ''}''"

definition num_word :: "'a :: len word \<Rightarrow> json" where
  "num_word w = JNum (unat w)"

definition port_json :: "defender_keys \<Rightarrow> u16 \<Rightarrow> json" where
  "port_json keys port = JObj [(DEFENDER_REPORT_PORT_KEY keys, num_word port)]"

text \<open>The remote address of a connection, \<open>a.b.c.d:port\<close>.\<close>

definition show_address :: "u32 \<Rightarrow> u16 \<Rightarrow> string" where
  "show_address ip port =
     dec (unat (drop_bit 24 ip AND 0xFF)) @ ''.'' @ dec (unat (drop_bit 16 ip AND 0xFF)) @ ''.''
     @ dec (unat (drop_bit 8 ip AND 0xFF)) @ ''.'' @ dec (unat (ip AND 0xFF)) @ '':''
     @ dec (unat port)"

definition connection_json :: "defender_keys \<Rightarrow> Connection \<Rightarrow> json" where
  "connection_json keys c = JObj [
     (DEFENDER_REPORT_LOCAL_PORT_KEY keys, num_word (usLocalPort c)),
     (DEFENDER_REPORT_REMOTE_ADDR_KEY keys, JStr (show_address (ulRemoteIp c) (usRemotePort c)))]"

definition ports_json :: "defender_keys \<Rightarrow> u16 list \<Rightarrow> json" where
  "ports_json keys ports = JObj [
     (DEFENDER_REPORT_PORTS_KEY keys, JArr (map (port_json keys) ports)),
     (DEFENDER_REPORT_TOTAL_KEY keys, JNum (length ports))]"

definition stats_json :: "defender_keys \<Rightarrow> NetworkStats \<Rightarrow> json" where
  "stats_json keys st = JObj [
     (DEFENDER_REPORT_BYTES_IN_KEY keys, num_word (ulBytesReceived st)),
     (DEFENDER_REPORT_BYTES_OUT_KEY keys, num_word (ulBytesSent st)),
     (DEFENDER_REPORT_PKTS_IN_KEY keys, num_word (ulPacketsReceived st)),
     (DEFENDER_REPORT_PKTS_OUT_KEY keys, num_word (ulPacketsSent st))]"

definition header_json :: "defender_keys \<Rightarrow> u32 \<Rightarrow> u32 \<Rightarrow> u32 \<Rightarrow> json" where
  "header_json keys major minor rid = JObj [
     (DEFENDER_REPORT_ID_KEY keys, num_word rid),
     (DEFENDER_REPORT_VERSION_KEY keys, JStr (dec (unat major) @ ''.'' @ dec (unat minor)))]"

text \<open>
  The report for open TCP and UDP ports, statistics, connections, the stack high water mark
  and the task numbers.
\<close>

definition report_json ::
  "defender_keys \<Rightarrow> u32 \<Rightarrow> u32 \<Rightarrow> u32 \<Rightarrow> u16 list \<Rightarrow> u16 list \<Rightarrow> NetworkStats \<Rightarrow> Connection list
   \<Rightarrow> u32 \<Rightarrow> u32 list \<Rightarrow> json" where
  "report_json keys major minor rid tcp udp stats conns hwm ids = JObj [
     (DEFENDER_REPORT_HEADER_KEY keys, header_json keys major minor rid),
     (DEFENDER_REPORT_METRICS_KEY keys, JObj [
        (DEFENDER_REPORT_TCP_LISTENING_PORTS_KEY keys, ports_json keys tcp),
        (DEFENDER_REPORT_UDP_LISTENING_PORTS_KEY keys, ports_json keys udp),
        (DEFENDER_REPORT_NETWORK_STATS_KEY keys, stats_json keys stats),
        (DEFENDER_REPORT_TCP_CONNECTIONS_KEY keys, JObj [
           (DEFENDER_REPORT_ESTABLISHED_CONNECTIONS_KEY keys, JObj [
              (DEFENDER_REPORT_CONNECTIONS_KEY keys, JArr (map (connection_json keys) conns)),
              (DEFENDER_REPORT_TOTAL_KEY keys, JNum (length conns))])])]),
     (DEFENDER_REPORT_CUSTOM_METRICS_KEY keys, JObj [
        (''stack_high_water_mark'', JArr [JObj [(DEFENDER_REPORT_NUMBER_KEY keys, num_word hwm)]]),
        (''task_numbers'',
           JArr [JObj [(DEFENDER_REPORT_NUMBER_LIST_KEY keys, JArr (map num_word ids))]])])]"

section \<open>What a writing step does\<close>

definition frame :: "string \<Rightarrow> nat \<Rightarrow> nat \<Rightarrow> string \<Rightarrow> bool" where
  "frame b0 p n b \<longleftrightarrow>
     length b = length b0 \<and> take p b = take p b0 \<and> drop (p + n) b = drop (p + n) b0"

definition holds_text :: "nat \<Rightarrow> string \<Rightarrow> string \<Rightarrow> bool" where
  "holds_text p txt b \<longleftrightarrow> take (length txt) (drop p b) = txt"

text \<open>A change in the rest of a window, behind the text it holds.\<close>

lemma frame_inside:
  assumes "frame b0 p n b" and "l + k = n" and "frame b (p + l) k b'"
  shows "frame b0 p n b'"
proof -
  have "take p b' = take p (take (p + l) b')" by simp
  also have "\<dots> = take p (take (p + l) b)" using assms(3) by (simp only: frame_def)
  finally have "take p b' = take p b" by simp
  moreover have "p + l + k = p + n" using assms(2) by simp
  ultimately show ?thesis using assms(1,3) by (simp only: frame_def)
qed

lemma holds_text_append:
  assumes "holds_text p s b" and "frame b (p + length s) k b'" and "holds_text (p + length s) u b'"
  shows "holds_text p (s @ u) b'"
proof -
  have "take (length s) (drop p b') = drop p (take (p + length s) b')"
    by (simp add: take_drop add.commute)
  also have "\<dots> = drop p (take (p + length s) b)" using assms(2) by (simp only: frame_def)
  also have "\<dots> = s" using assms(1) by (simp add: holds_text_def take_drop add.commute)
  finally have "take (length s) (drop p b') = s" .
  then show ?thesis using assms(3) by (simp add: holds_text_def take_add add.commute)
qed

text \<open>
  \<open>wrote b0 p n txt w\<close>: starting from the buffer \<open>b0\<close>, with \<open>n\<close> characters available at
  \<open>p\<close>, the text \<open>txt\<close> has been written and nothing outside the window has changed.
\<close>

definition wrote :: "string \<Rightarrow> nat \<Rightarrow> nat \<Rightarrow> string \<Rightarrow> writer \<Rightarrow> bool" where
  "wrote b0 p n txt w \<longleftrightarrow>
     w_status w = eReportBuilderSuccess \<and> frame b0 p n (w_buf w) \<and> holds_text p txt (w_buf w)
     \<and> w_pos w = p + length txt \<and> length txt + unat (w_rem w) = n"

definition too_small :: "string \<Rightarrow> nat \<Rightarrow> nat \<Rightarrow> writer \<Rightarrow> bool" where
  "too_small b0 p n w \<longleftrightarrow> w_status w = eReportBuilderBufferTooSmall \<and> frame b0 p n (w_buf w)"

definition window_ok :: "string \<Rightarrow> nat \<Rightarrow> nat \<Rightarrow> bool" where
  "window_ok b0 p n \<longleftrightarrow> p + n \<le> length b0 \<and> n < 2 ^ 31"

definition emits :: "(writer \<Rightarrow> writer option) \<Rightarrow> string \<Rightarrow> bool" where
  "emits f t \<longleftrightarrow> (\<forall>b0 p n txt w. window_ok b0 p n \<longrightarrow> wrote b0 p n txt w \<longrightarrow>
     (\<exists>w'. f w = Some w' \<and> (if length txt + length t < n then wrote b0 p n (txt @ t) w'
                           else too_small b0 p n w')))"

definition skips :: "(writer \<Rightarrow> writer option) \<Rightarrow> bool" where
  "skips f \<longleftrightarrow> (\<forall>w. w_status w \<noteq> eReportBuilderSuccess \<longrightarrow> f w = Some w)"

lemma emitsD:
  assumes "emits f t" and "window_ok b0 p n" and "wrote b0 p n txt w"
  obtains w' where "f w = Some w'" "length txt + length t < n" "wrote b0 p n (txt @ t) w'"
    | w' where "f w = Some w'" "n \<le> length txt + length t" "too_small b0 p n w'"
proof -
  from assms obtain w' where "f w = Some w'"
    "if length txt + length t < n then wrote b0 p n (txt @ t) w' else too_small b0 p n w'"
    unfolding emits_def by blast
  then show ?thesis using that by (cases "length txt + length t < n") auto
qed

lemma emitsI:
  assumes "\<And>b0 p n txt w. window_ok b0 p n \<Longrightarrow> wrote b0 p n txt w \<Longrightarrow>
     \<exists>w'. f w = Some w' \<and> (if length txt + length t < n then wrote b0 p n (txt @ t) w'
                          else too_small b0 p n w')"
  shows "emits f t"
  unfolding emits_def by (intro allI impI) (rule assms)

lemma skipsD: "skips f \<Longrightarrow> too_small b0 p n w \<Longrightarrow> f w = Some w"
  by (simp add: skips_def too_small_def)

lemma skips_seq: "skips f \<Longrightarrow> skips g \<Longrightarrow> skips (\<lambda>w. Option.bind (f w) g)"
  by (simp add: skips_def)

lemma emits_seq:
  assumes f: "emits f t" and g: "emits g u" "skips g"
  shows "emits (\<lambda>w. Option.bind (f w) g) (t @ u)"
proof (rule emitsI, goal_cases)
  case (1 b0 p n s w)
  from f 1 show ?case
  proof (cases rule: emitsD)
    case fits: (1 w1)
    from g(1) 1(1) fits(3) show ?thesis
      by (cases rule: emitsD) (use fits in auto)
  next
    case (2 w1)
    with skipsD [OF g(2) 2(3)] show ?thesis by auto
  qed
qed

lemma window_write:
  assumes win: "window_ok b0 p n" and fr: "frame b0 p n b" and ho: "holds_text p s b"
    and fit: "length s + length vs \<le> n" and pre: "length t \<le> length vs" "take (length t) vs = t"
  shows "\<exists>b'. mem_write b (p + length s) vs = Some b' \<and> frame b0 p n b' \<and> holds_text p (s @ t) b'"
proof -
  let ?i = "p + length s"
  let ?b = "take ?i b @ vs @ drop (?i + length vs) b"
  have len: "?i + length vs \<le> length b"
    using win fr fit by (simp add: window_ok_def frame_def)
  have "frame b0 p n ?b"
    using len fr fit by (auto simp: frame_def min_def add.commute [of p n])
  moreover have "holds_text p (s @ t) ?b"
    using len ho pre by (simp add: holds_text_def drop_take)
  ultimately show ?thesis using len by simp
qed

lemma wrote_pos: "wrote b0 p n s w \<Longrightarrow> w_pos w = p + length s"
  by (simp add: wrote_def)

lemma snprintf_success:
  "reportbuilderSNPRINTF_SUCCESS (if k < 2 ^ 31 then int k else - 1) r \<longleftrightarrow>
     0 < k \<and> k < 2 ^ 31 \<and> k < unat r"
proof (cases "k < 2 ^ 31")
  case True
  then have "unat (of_nat k :: u32) = k" by (simp add: unat_of_nat32)
  with True show ?thesis
    by (simp add: reportbuilderSNPRINTF_SUCCESS_def word_less_nat_alt)
next
  case False
  then show ?thesis by (simp add: reportbuilderSNPRINTF_SUCCESS_def)
qed

lemma unat_rem_diff:
  "k < unat (r :: u32) \<Longrightarrow> unat (r - of_nat k) = unat r - k"
proof -
  assume k: "k < unat r"
  then have u: "unat (of_nat k :: u32) = k"
    using unsigned_less [of r, where 'a = nat] by (simp add: unat_of_nat32)
  with k have "(of_nat k :: u32) \<le> r" by (simp add: word_le_nat_alt)
  then show ?thesis using u by (simp add: unat_sub)
qed

lemma emits_write_formatted:
  assumes "t \<noteq> []"
  shows "emits (write_formatted t) t"
proof (rule emitsI, goal_cases)
  case (1 b0 p n s w)
  define r where "r = unat (w_rem w)"
  from 1(2) have r: "length s + r = n" and fr: "frame b0 p n (w_buf w)"
    and ho: "holds_text p s (w_buf w)" and pos: "w_pos w = p + length s"
    and st: "w_status w = eReportBuilderSuccess"
    by (simp_all add: wrote_def r_def)
  have n: "n < 2 ^ 31" using 1(1) by (simp add: window_ok_def)
  show ?case
  proof (cases "r = 0")
    case True
    then have "w_rem w = 0" by (simp add: r_def unsigned_eq_0_iff)
    then show ?thesis
      using True fr r
      by (simp add: write_formatted_def snprintf_def Let_def too_small_def
          reportbuilderSNPRINTF_SUCCESS_def)
  next
    case False
    let ?vs = "take (r - 1) t @ [CHR 0x00]"
    have nz: "w_rem w \<noteq> 0" using False by (auto simp: r_def)
    show ?thesis
    proof (cases "length t < r")
      case True
      have "\<exists>b'. mem_write (w_buf w) (p + length s) ?vs = Some b' \<and> frame b0 p n b'
          \<and> holds_text p (s @ t) b'"
        by (rule window_write [OF 1(1) fr ho]) (use True r in auto)
      then obtain b' where b': "mem_write (w_buf w) (p + length s) ?vs = Some b'"
        "frame b0 p n b'" "holds_text p (s @ t) b'" by blast
      have small: "length t < 2 ^ 31" using True r n by simp
      have ok: "reportbuilderSNPRINTF_SUCCESS (if length t < 2 ^ 31 then int (length t) else - 1)
          (w_rem w)"
        unfolding snprintf_success using True assms small by (simp add: r_def)
      have "unat (w_rem w - of_nat (length t)) = r - length t"
        using True by (simp add: unat_rem_diff r_def)
      then show ?thesis
        using True r nz b' small ok st pos
        by (simp add: write_formatted_def snprintf_def Let_def wrote_def r_def [symmetric])
    next
      case big: False
      have "\<exists>b'. mem_write (w_buf w) (p + length s) ?vs = Some b' \<and> frame b0 p n b'
          \<and> holds_text p (s @ []) b'"
        by (rule window_write [OF 1(1) fr ho]) (use False r in auto)
      then obtain b' where b': "mem_write (w_buf w) (p + length s) ?vs = Some b'"
        "frame b0 p n b'" by blast
      have "\<not> reportbuilderSNPRINTF_SUCCESS (if length t < 2 ^ 31 then int (length t) else - 1)
          (w_rem w)"
        unfolding snprintf_success using big by (simp add: r_def)
      then show ?thesis
        using big r nz b' pos
        by (simp add: write_formatted_def snprintf_def Let_def too_small_def r_def [symmetric])
    qed
  qed
qed

lemma arr_set_mem_write: "arr_set xs i v = mem_write xs i [v]"
  by (auto simp: arr_set_def mem_write_def upd_conv_take_nth_drop)

lemma emits_write_marker: "emits (write_marker c) [c]"
proof (rule emitsI, goal_cases)
  case (1 b0 p n s w)
  from 1(2) have r: "length s + unat (w_rem w) = n" and fr: "frame b0 p n (w_buf w)"
    and ho: "holds_text p s (w_buf w)" and pos: "w_pos w = p + length s"
    and st: "w_status w = eReportBuilderSuccess"
    by (simp_all add: wrote_def)
  show ?case
  proof (cases "w_rem w > 1")
    case True
    then have gt: "1 < unat (w_rem w)" by (simp add: word_less_nat_alt)
    have "\<exists>b'. mem_write (w_buf w) (p + length s) [c] = Some b' \<and> frame b0 p n b'
        \<and> holds_text p (s @ [c]) b'"
      by (rule window_write [OF 1(1) fr ho]) (use gt r in auto)
    then obtain b' where b': "arr_set (w_buf w) (p + length s) c = Some b'" "frame b0 p n b'"
      "holds_text p (s @ [c]) b'"
      by (auto simp: arr_set_mem_write)
    have "unat (w_rem w - 1) = unat (w_rem w) - 1"
      using unat_rem_diff [of 1 "w_rem w"] gt by simp
    then show ?thesis
      using True gt r b' pos st by (simp add: write_marker_def wrote_def)
  next
    case False
    then have "unat (w_rem w) \<le> 1" by (simp add: word_less_nat_alt)
    then show ?thesis
      using False r fr by (simp add: write_marker_def too_small_def)
  qed
qed

section \<open>The contract of the array writers\<close>

definition show_array :: "('a \<Rightarrow> string) \<Rightarrow> 'a list \<Rightarrow> string" where
  "show_array item xs = ''['' @ commas (map item xs) @ '']''"

lemma concat_commas:
  "xs \<noteq> [] \<Longrightarrow> concat (map (\<lambda>x. item x @ '','') xs) = commas (map item xs) @ '',''"
proof (induction xs rule: induct_list012)
  case (3 x y zs)
  then show ?case by simp
qed simp_all

text \<open>
  An array writer appends the whole array when it and the terminating NUL fit in the
  remaining buffer, and then reports the number of characters; otherwise it reports
  \<open>BufferTooSmall\<close> and leaves its output variable alone.  Either way it stays inside the
  remaining buffer.
\<close>

locale json_array =
  fixes prvWrite :: "string option \<Rightarrow> nat \<Rightarrow> u32 \<Rightarrow> 'a list option \<Rightarrow> u32 \<Rightarrow> u32 option
      \<Rightarrow> (eReportBuilderStatus \<times> string \<times> u32 option) option"
    and item :: "'a \<Rightarrow> string"
  assumes array_fits:
      "window_ok b p (unat n) \<Longrightarrow> unat cnt \<le> length xs \<Longrightarrow>
       length (show_array item (take (unat cnt) xs)) < unat n \<Longrightarrow>
       \<exists>b'. prvWrite (Some b) p n (Some xs) cnt (Some out) =
             Some (eReportBuilderSuccess, b',
                   Some (of_nat (length (show_array item (take (unat cnt) xs)))))
           \<and> frame b p (unat n) b' \<and> holds_text p (show_array item (take (unat cnt) xs)) b'"
    and array_too_long:
      "window_ok b p (unat n) \<Longrightarrow> unat cnt \<le> length xs \<Longrightarrow>
       unat n \<le> length (show_array item (take (unat cnt) xs)) \<Longrightarrow>
       \<exists>b'. prvWrite (Some b) p n (Some xs) cnt (Some out) =
             Some (eReportBuilderBufferTooSmall, b', Some out) \<and> frame b p (unat n) b'"
begin

lemma report_array_skips: "skips (report_array (\<lambda>b p n. prvWrite b p n pxs cnt))"
  by (simp add: skips_def report_array_def)

lemma report_array_emits:
  assumes "pxs = Some xs" and "unat cnt \<le> length xs"
  shows "emits (report_array (\<lambda>b p n. prvWrite b p n pxs cnt))
     (show_array item (take (unat cnt) xs))"
proof (rule emitsI, goal_cases)
  case (1 b0 p n s w)
  let ?t = "show_array item (take (unat cnt) xs)"
  from 1(2) have r: "length s + unat (w_rem w) = n" and fr: "frame b0 p n (w_buf w)"
    and ho: "holds_text p s (w_buf w)" and pos: "w_pos w = p + length s"
    and st: "w_status w = eReportBuilderSuccess"
    by (simp_all add: wrote_def)
  have win: "window_ok (w_buf w) (p + length s) (unat (w_rem w))"
    using 1(1) r fr by (auto simp: window_ok_def frame_def)
  note outer = frame_inside [OF fr r]
  note keep = holds_text_append [OF ho]
  show ?case
  proof (cases "length ?t < unat (w_rem w)")
    case True
    then have small: "length ?t < 2 ^ 32"
      using unsigned_less [of "w_rem w", where 'a = nat] by simp
    from array_fits [OF win assms(2) True, of 0] obtain b' where
      b': "prvWrite (Some (w_buf w)) (p + length s) (w_rem w) (Some xs) cnt (Some 0) =
         Some (eReportBuilderSuccess, b', Some (of_nat (length ?t)))"
      "frame (w_buf w) (p + length s) (unat (w_rem w)) b'"
      "holds_text (p + length s) ?t b'" by blast
    have "unat (w_rem w - of_nat (length ?t)) = unat (w_rem w) - length ?t"
      using True by (rule unat_rem_diff)
    moreover have "unat (of_nat (length ?t) :: u32) = length ?t"
      using small by (rule unat_of_nat32)
    ultimately show ?thesis
      using True r st pos b'(1) outer [OF b'(2)] keep [OF b'(2,3)] assms(1)
      by (simp add: report_array_def wrote_def)
  next
    case False
    then have "unat (w_rem w) \<le> length ?t" by simp
    from array_too_long [OF win assms(2) this, of 0] obtain b' where
      b': "prvWrite (Some (w_buf w)) (p + length s) (w_rem w) (Some xs) cnt (Some 0) =
         Some (eReportBuilderBufferTooSmall, b', Some 0)"
      "frame (w_buf w) (p + length s) (unat (w_rem w)) b'" by blast
    then show ?thesis
      using False r st pos outer assms(1)
      by (auto simp: report_array_def too_small_def)
  qed
qed

end

lemma bind_assoc_option:
  "Option.bind (Option.bind m f) g = Option.bind m (\<lambda>x. Option.bind (f x) g)"
  by (cases m) auto

lemma close_skips: "skips (close_array cnt)"
  by (simp add: skips_def close_array_def)

lemma close_emits_0: "emits (close_array 0) '']''"
  using emits_write_marker [of "CHR '']''"] by (simp add: emits_def wrote_def close_array_def)

lemma holds_prefix: "holds_text p (s @ t) b \<Longrightarrow> holds_text p s b"
proof -
  assume A: "holds_text p (s @ t) b"
  have "take (length s) (drop p b) = take (length s) (take (length (s @ t)) (drop p b))"
    by simp
  also have "take (length (s @ t)) (drop p b) = s @ t"
    using A by (simp only: holds_text_def)
  finally show ?thesis by (simp add: holds_text_def)
qed

lemma close_after_comma:
  assumes win: "window_ok b p n" and w: "wrote b p n (s @ '','') w"
    and fit: "length (s @ '','') < n" and cnt: "cnt \<noteq> 0"
  shows "\<exists>w'. close_array cnt w = Some w' \<and> wrote b p n (s @ '']'') w'"
proof -
  let ?w = "w\<lparr>w_pos := w_pos w - 1, w_rem := w_rem w + 1\<rparr>"
  from w have rem: "Suc (length s) + unat (w_rem w) = n" by (simp add: wrote_def)
  with win have "unat (w_rem w) + 1 < 2 ^ 32" by (simp add: window_ok_def)
  then have "unat (w_rem w + 1) = unat (w_rem w) + 1"
    by (simp add: unat_word_ariths)
  moreover have "holds_text p s (w_buf w)"
    using w by (auto simp only: wrote_def intro: holds_prefix)
  ultimately have stepped: "wrote b p n s ?w"
    using w by (auto simp: wrote_def)
  have "0 < cnt" using cnt by (simp add: word_gt_0)
  then have "close_array cnt w = write_marker (CHR '']'') ?w"
    using w by (simp add: close_array_def wrote_def)
  with emits_write_marker win stepped fit show ?thesis
    by (fastforce simp: emits_def)
qed

lemma wrote_start:
  "wrote b p (unat n) [] \<lparr>w_status = eReportBuilderSuccess, w_buf = b, w_pos = p, w_rem = n\<rparr>"
  by (simp add: wrote_def frame_def holds_text_def)

lemma rem_diff: "k + unat (r :: u32) = unat n \<Longrightarrow> n - r = of_nat k"
  by (metis add_diff_cancel_right' of_nat_add of_nat_unat_word)

lemma array_result_wrote:
  "wrote b p (unat n) t w \<Longrightarrow>
   \<exists>b'. array_result n out w = Some (eReportBuilderSuccess, b', Some (of_nat (length t)))
     \<and> frame b p (unat n) b' \<and> holds_text p t b'"
  by (auto simp: array_result_def wrote_def rem_diff)

lemma array_result_too_small:
  "too_small b p (unat n) w \<Longrightarrow>
   \<exists>b'. array_result n out w = Some (eReportBuilderBufferTooSmall, b', out)
     \<and> frame b p (unat n) b'"
  by (auto simp: array_result_def too_small_def)

text \<open>
  The common shape of the three functions: a loop that writes each element with a trailing
  comma between the two markers.
\<close>

locale array_loop =
  fixes loop :: "'a list \<Rightarrow> nat \<Rightarrow> nat \<Rightarrow> writer \<Rightarrow> writer option"
    and prvWrite :: "string option \<Rightarrow> nat \<Rightarrow> u32 \<Rightarrow> 'a list option \<Rightarrow> u32 \<Rightarrow> u32 option
      \<Rightarrow> (eReportBuilderStatus \<times> string \<times> u32 option) option"
    and item :: "'a \<Rightarrow> string"
  assumes loop_0: "loop xs i 0 w = Some w"
    and loop_Suc: "i < length xs \<Longrightarrow> loop xs i (Suc k) w =
       (if w_status w = eReportBuilderSuccess
        then Option.bind (write_formatted (item (xs ! i) @ '','') w) (loop xs (Suc i) k)
        else Some w)"
    and prvWrite_eq: "prvWrite (Some b) p n (Some xs) cnt (Some out) =
       Option.bind (write_marker (CHR ''['') \<lparr>w_status = eReportBuilderSuccess, w_buf = b,
           w_pos = p, w_rem = n\<rparr>)
         (\<lambda>w1. Option.bind (loop xs 0 (unat cnt) w1)
           (\<lambda>w2. Option.bind (close_array cnt w2) (array_result n (Some out))))"
begin

lemma loop_skips: "i + k \<le> length xs \<Longrightarrow> skips (loop xs i k)"
  by (cases k) (simp_all add: skips_def loop_0 loop_Suc)

lemma loop_emits:
  "i + k \<le> length xs \<Longrightarrow> 0 < k \<Longrightarrow>
   emits (loop xs i k) (concat (map (\<lambda>x. item x @ '','') (take k (drop i xs))))"
proof (induction k arbitrary: i)
  case (Suc k)
  then have i: "i < length xs" by simp
  let ?step = "write_formatted (item (xs ! i) @ '','')"
  have eq: "w_status w = eReportBuilderSuccess \<Longrightarrow>
      loop xs i (Suc k) w = Option.bind (?step w) (loop xs (Suc i) k)" for w
    using i by (simp add: loop_Suc)
  have step: "emits ?step (item (xs ! i) @ '','')"
    by (rule emits_write_formatted) simp
  have rest: "concat (map (\<lambda>x. item x @ '','') (take (Suc k) (drop i xs))) =
      (item (xs ! i) @ '','') @ concat (map (\<lambda>x. item x @ '','') (take k (drop (Suc i) xs)))"
    using i by (simp add: Cons_nth_drop_Suc [symmetric])
  show ?case
  proof (cases "k = 0")
    case True
    then have "emits (\<lambda>w. Option.bind (?step w) (loop xs (Suc i) k)) (item (xs ! i) @ '','')"
      using step by (simp add: loop_0 [abs_def])
    then show ?thesis
      using True rest eq by (simp add: emits_def wrote_def)
  next
    case False
    with Suc have "emits (loop xs (Suc i) k)
        (concat (map (\<lambda>x. item x @ '','') (take k (drop (Suc i) xs))))" by simp
    from emits_seq [OF step this loop_skips] Suc.prems rest eq show ?thesis
      by (simp add: emits_def wrote_def)
  qed
qed simp

lemma prvWrite_body:
  "prvWrite (Some b) p n (Some xs) cnt (Some out) =
     Option.bind
       (Option.bind (write_marker (CHR ''['')
          \<lparr>w_status = eReportBuilderSuccess, w_buf = b, w_pos = p, w_rem = n\<rparr>)
          (\<lambda>w1. Option.bind (loop xs 0 (unat cnt) w1) (close_array cnt)))
       (array_result n (Some out))"
  by (simp only: prvWrite_eq bind_assoc_option)

lemma body_eq:
  assumes win: "window_ok b p n" and cnt: "unat cnt \<le> length xs"
    and w: "wrote b p n [] w"
  shows "\<exists>w'. Option.bind (write_marker (CHR ''['') w)
      (\<lambda>w1. Option.bind (loop xs 0 (unat cnt) w1) (close_array cnt)) = Some w'
    \<and> (if length (show_array item (take (unat cnt) xs)) < n
        then wrote b p n (show_array item (take (unat cnt) xs)) w' else too_small b p n w')"
proof (cases "cnt = 0")
  case True
  have "emits (\<lambda>w. Option.bind (write_marker (CHR ''['') w) (close_array 0)) (''['' @ '']'')"
    using emits_write_marker close_emits_0 close_skips by (rule emits_seq)
  with win w True show ?thesis
    by (fastforce simp: emits_def loop_0 show_array_def)
next
  case False
  then have pos: "0 < unat cnt" using unat_gt_0 by blast
  let ?s = "''['' @ commas (map item (take (unat cnt) xs))"
  have items: "concat (map (\<lambda>x. item x @ '','') (take (unat cnt) (drop 0 xs))) =
      commas (map item (take (unat cnt) xs)) @ '',''"
    using concat_commas [of "take (unat cnt) xs" item] pos cnt by fastforce
  have "emits (\<lambda>w. Option.bind (write_marker (CHR ''['') w) (loop xs 0 (unat cnt)))
      (''['' @ commas (map item (take (unat cnt) xs)) @ '','')"
    unfolding items [symmetric]
    by (intro emits_seq emits_write_marker loop_emits loop_skips) (use cnt pos in auto)
  from this win w show ?thesis
  proof (cases rule: emitsD)
    case (1 w2)
    then have "wrote b p n (?s @ '','') w2" "length (?s @ '','') < n" by simp_all
    from close_after_comma [OF win this, of cnt] 1 False show ?thesis
      by (auto simp: show_array_def bind_assoc_option)
  next
    case (2 w2)
    with skipsD [OF close_skips 2(3)] show ?thesis
      by (auto simp: show_array_def bind_assoc_option)
  qed
qed

end

sublocale array_loop \<subseteq> arr: json_array prvWrite item
proof (unfold_locales, goal_cases)
  case (1 b p n cnt xs out)
  let ?w = "\<lparr>w_status = eReportBuilderSuccess, w_buf = b, w_pos = p, w_rem = n\<rparr>"
  from body_eq [OF 1(1,2), of ?w] 1(3) obtain w' where
    "Option.bind (write_marker (CHR ''['') ?w)
      (\<lambda>w1. Option.bind (loop xs 0 (unat cnt) w1) (close_array cnt)) = Some w'"
    "wrote b p (unat n) (show_array item (take (unat cnt) xs)) w'"
    by (auto simp: wrote_start)
  then show ?case
    by (simp only: prvWrite_body bind.bind_lunit array_result_wrote)
next
  case (2 b p n cnt xs out)
  let ?w = "\<lparr>w_status = eReportBuilderSuccess, w_buf = b, w_pos = p, w_rem = n\<rparr>"
  from body_eq [OF 2(1,2), of ?w] 2(3) obtain w' where
    "Option.bind (write_marker (CHR ''['') ?w)
      (\<lambda>w1. Option.bind (loop xs 0 (unat cnt) w1) (close_array cnt)) = Some w'"
    "too_small b p (unat n) w'"
    by (auto simp: wrote_start)
  then show ?case
    by (simp only: prvWrite_body bind.bind_lunit array_result_too_small)
qed

section \<open>The three writers provide it\<close>

lemmas json_defs = port_json_def connection_json_def ports_json_def stats_json_def header_json_def
  report_json_def num_word_def show_member_def show_address_def

lemma format_port:
  "c_format reportbuilderJSON_PORT_OBJECT_FORMAT
     [Fmt_str (DEFENDER_REPORT_PORT_KEY keys), Fmt_uint (unat port)]
   = json_show (port_json keys port) @ '',''"
  by (simp add: reportbuilderJSON_PORT_OBJECT_FORMAT_def json_defs format_rules del: c_format.simps(2))

lemma format_connection:
  "c_format reportbuilderJSON_CONNECTION_OBJECT_FORMAT
     [Fmt_str (DEFENDER_REPORT_LOCAL_PORT_KEY keys), Fmt_uint (unat (usLocalPort c)),
      Fmt_str (DEFENDER_REPORT_REMOTE_ADDR_KEY keys),
      Fmt_uint (unat (drop_bit 24 (ulRemoteIp c) AND 0xFF)),
      Fmt_uint (unat (drop_bit 16 (ulRemoteIp c) AND 0xFF)),
      Fmt_uint (unat (drop_bit 8 (ulRemoteIp c) AND 0xFF)),
      Fmt_uint (unat (ulRemoteIp c AND 0xFF)),
      Fmt_uint (unat (usRemotePort c))]
   = json_show (connection_json keys c) @ '',''"
  by (simp add: reportbuilderJSON_CONNECTION_OBJECT_FORMAT_def json_defs format_rules del: c_format.simps(2))

lemma format_task_id:
  "c_format task_id_format [Fmt_uint (unat tid)] = json_show (num_word tid) @ '',''"
  by (simp add: task_id_format_def json_defs format_rules del: c_format.simps(2))

interpretation ports: array_loop "ports_loop keys" "prvWritePortsArray keys"
  "\<lambda>port. json_show (port_json keys port)" for keys
  by unfold_locales (simp_all add: prvWritePortsArray_def format_port)

interpretation conns: array_loop "connections_loop keys" "prvWriteConnectionsArray keys"
  "\<lambda>c. json_show (connection_json keys c)" for keys
  by unfold_locales (simp_all add: prvWriteConnectionsArray_def format_connection)

interpretation task_ids: array_loop task_ids_loop prvWriteTaskIdsArray
  "\<lambda>tid. json_show (num_word tid)"
  by unfold_locales (simp_all add: prvWriteTaskIdsArray_def format_task_id)

lemma show_array_json: "show_array (\<lambda>x. json_show (f x)) xs = json_show (JArr (map f xs))"
  by (simp add: show_array_def o_def)

section \<open>The whole report\<close>

definition array_ok :: "'a list option \<Rightarrow> u32 \<Rightarrow> bool" where
  "array_ok pxs cnt \<longleftrightarrow> (case pxs of Some xs \<Rightarrow> unat cnt \<le> length xs | None \<Rightarrow> False)"

definition live :: "'a list option \<Rightarrow> u32 \<Rightarrow> 'a list" where
  "live pxs cnt = (case pxs of Some xs \<Rightarrow> take (unat cnt) xs | None \<Rightarrow> [])"

text \<open>The metrics structure points to arrays with at least the stated number of elements.\<close>

definition metrics_ok :: "ReportMetrics \<Rightarrow> bool" where
  "metrics_ok m \<longleftrightarrow>
     pxNetworkStats m \<noteq> None
     \<and> array_ok (pusOpenTcpPortsArray m) (ulOpenTcpPortsArrayLength m)
     \<and> array_ok (pusOpenUdpPortsArray m) (ulOpenUdpPortsArrayLength m)
     \<and> array_ok (pxEstablishedConnectionsArray m) (ulEstablishedConnectionsArrayLength m)
     \<and> array_ok (pulTaskIdsArray m) (ulTaskIdsArrayLength m)"

definition report_of :: "defender_keys \<Rightarrow> ReportMetrics \<Rightarrow> u32 \<Rightarrow> u32 \<Rightarrow> u32 \<Rightarrow> json" where
  "report_of keys m major minor rid =
     report_json keys major minor rid
       (live (pusOpenTcpPortsArray m) (ulOpenTcpPortsArrayLength m))
       (live (pusOpenUdpPortsArray m) (ulOpenUdpPortsArrayLength m))
       (case pxNetworkStats m of Some st \<Rightarrow> st | None \<Rightarrow> zero_stats)
       (live (pxEstablishedConnectionsArray m) (ulEstablishedConnectionsArrayLength m))
       (ulStackHighWaterMark m)
       (live (pulTaskIdsArray m) (ulTaskIdsArrayLength m))"

lemma array_okE:
  assumes "array_ok pxs cnt"
  obtains xs where "pxs = Some xs" "unat cnt \<le> length xs" "live pxs cnt = take (unat cnt) xs"
    "length (live pxs cnt) = unat cnt"
  using assms by (auto simp: array_ok_def live_def split: option.splits)

lemma report_part_skips: "skips (report_part t)"
  by (simp add: skips_def report_part_def)

lemma report_part_emits: "t \<noteq> [] \<Longrightarrow> emits (report_part t) t"
  using emits_write_formatted [of t] by (simp add: emits_def wrote_def report_part_def)

lemma report_tcp_udp_emits:
  "array_ok pxs cnt \<Longrightarrow>
   emits (report_array (\<lambda>b p n. prvWritePortsArray keys b p n pxs cnt))
     (json_show (JArr (map (port_json keys) (live pxs cnt))))"
  using ports.arr.report_array_emits [of pxs _ cnt keys]
  by (auto elim!: array_okE simp: show_array_json)

lemma report_conns_emits:
  "array_ok pxs cnt \<Longrightarrow>
   emits (report_array (\<lambda>b p n. prvWriteConnectionsArray keys b p n pxs cnt))
     (json_show (JArr (map (connection_json keys) (live pxs cnt))))"
  using conns.arr.report_array_emits [of pxs _ cnt keys]
  by (auto elim!: array_okE simp: show_array_json)

lemma report_task_ids_emits:
  "array_ok pxs cnt \<Longrightarrow>
   emits (report_array (\<lambda>b p n. prvWriteTaskIdsArray b p n pxs cnt))
     (json_show (JArr (map num_word (live pxs cnt))))"
  using task_ids.arr.report_array_emits [of pxs _ cnt]
  by (auto elim!: array_okE simp: show_array_json)

lemmas report_skips = report_part_skips ports.arr.report_array_skips
  conns.arr.report_array_skips task_ids.arr.report_array_skips skips_seq

lemmas format_defs = reportbuilderJSON_REPORT_FORMAT_PART1_def
  reportbuilderJSON_REPORT_FORMAT_PART2_def reportbuilderJSON_REPORT_FORMAT_PART3_def
  reportbuilderJSON_REPORT_FORMAT_PART4_def reportbuilderJSON_REPORT_FORMAT_PART5_def

text \<open>The constant texts between the arrays, as the formats render them.\<close>

definition part1 :: "defender_keys \<Rightarrow> u32 \<Rightarrow> u32 \<Rightarrow> u32 \<Rightarrow> string" where
  "part1 keys major minor rid = c_format reportbuilderJSON_REPORT_FORMAT_PART1
     [Fmt_str (DEFENDER_REPORT_HEADER_KEY keys),
      Fmt_str (DEFENDER_REPORT_ID_KEY keys), Fmt_uint (unat rid),
      Fmt_str (DEFENDER_REPORT_VERSION_KEY keys), Fmt_uint (unat major),
      Fmt_uint (unat minor),
      Fmt_str (DEFENDER_REPORT_METRICS_KEY keys),
      Fmt_str (DEFENDER_REPORT_TCP_LISTENING_PORTS_KEY keys),
      Fmt_str (DEFENDER_REPORT_PORTS_KEY keys)]"

definition part2 :: "defender_keys \<Rightarrow> u32 \<Rightarrow> string" where
  "part2 keys cnt = c_format reportbuilderJSON_REPORT_FORMAT_PART2
     [Fmt_str (DEFENDER_REPORT_TOTAL_KEY keys), Fmt_uint (unat cnt),
      Fmt_str (DEFENDER_REPORT_UDP_LISTENING_PORTS_KEY keys),
      Fmt_str (DEFENDER_REPORT_PORTS_KEY keys)]"

definition part3 :: "defender_keys \<Rightarrow> u32 \<Rightarrow> NetworkStats \<Rightarrow> string" where
  "part3 keys cnt stats = c_format reportbuilderJSON_REPORT_FORMAT_PART3
     [Fmt_str (DEFENDER_REPORT_TOTAL_KEY keys), Fmt_uint (unat cnt),
      Fmt_str (DEFENDER_REPORT_NETWORK_STATS_KEY keys),
      Fmt_str (DEFENDER_REPORT_BYTES_IN_KEY keys), Fmt_uint (unat (ulBytesReceived stats)),
      Fmt_str (DEFENDER_REPORT_BYTES_OUT_KEY keys), Fmt_uint (unat (ulBytesSent stats)),
      Fmt_str (DEFENDER_REPORT_PKTS_IN_KEY keys), Fmt_uint (unat (ulPacketsReceived stats)),
      Fmt_str (DEFENDER_REPORT_PKTS_OUT_KEY keys), Fmt_uint (unat (ulPacketsSent stats)),
      Fmt_str (DEFENDER_REPORT_TCP_CONNECTIONS_KEY keys),
      Fmt_str (DEFENDER_REPORT_ESTABLISHED_CONNECTIONS_KEY keys),
      Fmt_str (DEFENDER_REPORT_CONNECTIONS_KEY keys)]"

definition part4 :: "defender_keys \<Rightarrow> u32 \<Rightarrow> u32 \<Rightarrow> string" where
  "part4 keys cnt hwm = c_format reportbuilderJSON_REPORT_FORMAT_PART4
     [Fmt_str (DEFENDER_REPORT_TOTAL_KEY keys), Fmt_uint (unat cnt),
      Fmt_str (DEFENDER_REPORT_CUSTOM_METRICS_KEY keys),
      Fmt_str (DEFENDER_REPORT_NUMBER_KEY keys), Fmt_uint (unat hwm),
      Fmt_str (DEFENDER_REPORT_NUMBER_LIST_KEY keys)]"

definition part5 :: string where
  "part5 = c_format reportbuilderJSON_REPORT_FORMAT_PART5 []"

lemmas part_defs = part1_def part2_def part3_def part4_def part5_def

lemma part_nonempty:
  "part1 keys a b c \<noteq> []" "part2 keys d \<noteq> []" "part3 keys d st \<noteq> []" "part4 keys d e \<noteq> []"
  "part5 \<noteq> []"
  by (simp_all add: part_defs format_defs format_rules del: c_format.simps(2))

lemma report_text:
  "part1 keys major minor rid @ json_show (JArr (map (port_json keys) tcp))
   @ part2 keys ntcp @ json_show (JArr (map (port_json keys) udp))
   @ part3 keys nudp stats @ json_show (JArr (map (connection_json keys) conns))
   @ part4 keys nconns hwm @ json_show (JArr (map num_word ids)) @ part5
   = json_show (report_json keys major minor rid tcp udp stats conns hwm ids)"
  if "unat ntcp = length tcp" "unat nudp = length udp" "unat nconns = length conns"
  using that
  by (simp add: part_defs format_defs format_rules report_json_def ports_json_def header_json_def
      stats_json_def show_member_def num_word_def del: c_format.simps(2))

lemma report_ports_emits:
  assumes "metrics_ok m"
  shows "emits (report_ports keys m major minor rid)
    (part1 keys major minor rid
     @ json_show (JArr (map (port_json keys) (live (pusOpenTcpPortsArray m) (ulOpenTcpPortsArrayLength m))))
     @ part2 keys (ulOpenTcpPortsArrayLength m)
     @ json_show (JArr (map (port_json keys) (live (pusOpenUdpPortsArray m) (ulOpenUdpPortsArrayLength m)))))"
  unfolding report_ports_def part1_def [symmetric] part2_def [symmetric]
  by (intro emits_seq report_part_emits report_tcp_udp_emits report_skips part_nonempty)
     (use assms in \<open>simp_all add: metrics_ok_def\<close>)

lemma report_network_emits:
  assumes "metrics_ok m" and stats: "pxNetworkStats m = Some stats"
  shows "emits (report_network keys m)
    (part3 keys (ulOpenUdpPortsArrayLength m) stats
     @ json_show (JArr (map (connection_json keys)
         (live (pxEstablishedConnectionsArray m) (ulEstablishedConnectionsArrayLength m))))
     @ part4 keys (ulEstablishedConnectionsArrayLength m) (ulStackHighWaterMark m)
     @ json_show (JArr (map num_word (live (pulTaskIdsArray m) (ulTaskIdsArrayLength m))))
     @ part5)" (is "emits _ ?t")
proof -
  have "emits (\<lambda>w. do {
       w1 \<leftarrow> report_part (part3 keys (ulOpenUdpPortsArrayLength m) stats) w;
       w2 \<leftarrow> report_array (\<lambda>b p n. prvWriteConnectionsArray keys b p n
              (pxEstablishedConnectionsArray m) (ulEstablishedConnectionsArrayLength m)) w1;
       w3 \<leftarrow> report_part (part4 keys (ulEstablishedConnectionsArrayLength m) (ulStackHighWaterMark m)) w2;
       w4 \<leftarrow> report_array (\<lambda>b p n. prvWriteTaskIdsArray b p n
              (pulTaskIdsArray m) (ulTaskIdsArrayLength m)) w3;
       report_part part5 w4 }) ?t"
    by (intro emits_seq report_part_emits report_conns_emits report_task_ids_emits report_skips
        part_nonempty)
       (use assms in \<open>simp_all add: metrics_ok_def\<close>)
  then show ?thesis
    using stats by (simp add: emits_def report_network_def wrote_def part_defs)
qed

lemma report_network_skips: "skips (report_network keys m)"
  by (simp add: skips_def report_network_def report_part_def report_array_def)

lemma report_emits:
  assumes "metrics_ok m"
  shows "emits (\<lambda>w. Option.bind (report_ports keys m major minor rid w) (report_network keys m))
    (json_show (report_of keys m major minor rid))"
proof -
  from assms obtain stats where stats: "pxNetworkStats m = Some stats"
    by (auto simp: metrics_ok_def)
  have "unat (ulOpenTcpPortsArrayLength m) =
      length (live (pusOpenTcpPortsArray m) (ulOpenTcpPortsArrayLength m))"
    "unat (ulOpenUdpPortsArrayLength m) =
      length (live (pusOpenUdpPortsArray m) (ulOpenUdpPortsArrayLength m))"
    "unat (ulEstablishedConnectionsArrayLength m) =
      length (live (pxEstablishedConnectionsArray m) (ulEstablishedConnectionsArrayLength m))"
    using assms by (auto simp: metrics_ok_def elim!: array_okE)
  from report_text [OF this, of keys major minor rid stats "ulStackHighWaterMark m"]
    emits_seq [OF report_ports_emits [OF assms] report_network_emits [OF assms stats]
      report_network_skips, of keys major minor rid keys]
  show ?thesis by (simp add: report_of_def stats)
qed

section \<open>Properties\<close>

lemma json_report_contract:
  assumes "metrics_ok m" and "unat n \<le> length buf" and "0 < n" and "unat n < 2 ^ 31"
  shows "\<exists>buf'. let r = json_show (report_of keys m major minor rid) in
    eGenerateJsonReport keys (Some buf) n (Some m) major minor rid (Some out) =
      Some (if length r < unat n
            then (eReportBuilderSuccess, Some buf', Some (of_nat (length r)))
            else (eReportBuilderBufferTooSmall, Some buf', Some out))
    \<and> (length r < unat n \<longrightarrow> take (length r) buf' = r)
    \<and> length buf' = length buf \<and> drop (unat n) buf' = drop (unat n) buf"
proof -
  let ?r = "json_show (report_of keys m major minor rid)"
  let ?w = "\<lparr>w_status = eReportBuilderSuccess, w_buf = buf, w_pos = 0, w_rem = n\<rparr>"
  have win: "window_ok buf 0 (unat n)" using assms by (simp add: window_ok_def)
  have run: "eGenerateJsonReport keys (Some buf) n (Some m) major minor rid (Some out) =
      Option.bind (Option.bind (report_ports keys m major minor rid ?w) (report_network keys m))
        (\<lambda>w. if w_status w = eReportBuilderSuccess
             then Some (w_status w, Some (w_buf w), Some (n - w_rem w))
             else Some (w_status w, Some (w_buf w), Some out))"
    using assms(3) by (simp add: eGenerateJsonReport_def bind_assoc_option word_gt_0)
  from report_emits [OF assms(1), of keys major minor rid] win wrote_start [of buf 0 n]
  show ?thesis
  proof (cases rule: emitsD)
    case (1 w')
    then show ?thesis
      unfolding run 1(1) Let_def bind.bind_lunit
      by (intro exI [of _ "w_buf w'"]) (simp add: wrote_def frame_def holds_text_def rem_diff)
  next
    case (2 w')
    then show ?thesis
      unfolding run 2(1) Let_def bind.bind_lunit
      by (intro exI [of _ "w_buf w'"]) (simp add: too_small_def frame_def)
  qed
qed

text \<open>
  C6. eGenerateJsonReport refines the JSON printer: for well-formed metrics it never faults,
  it succeeds exactly when the printed report and a terminating NUL fit in the buffer, it then
  leaves the printed report at the start of the buffer and reports its length, it otherwise
  returns BufferTooSmall and leaves the output length alone, and it never writes past the
  length it was given.
\<close>

theorem eGenerateJsonReport_prints_json:
  assumes "metrics_ok m" and "unat n \<le> length buf" and "0 < n" and "unat n < 2 ^ 31"
  shows "\<exists>buf'. let r = json_show (report_of keys m major minor rid) in
    eGenerateJsonReport keys (Some buf) n (Some m) major minor rid (Some out) =
      Some (if length r < unat n
            then (eReportBuilderSuccess, Some buf', Some (of_nat (length r)))
            else (eReportBuilderBufferTooSmall, Some buf', Some out))
    \<and> (length r < unat n \<longrightarrow> take (length r) buf' = r)
    \<and> length buf' = length buf \<and> drop (unat n) buf' = drop (unat n) buf"
  using assms by (rule json_report_contract)

definition demo_keys :: defender_keys where
  "demo_keys = \<lparr>
     DEFENDER_REPORT_HEADER_KEY = ''hed'', DEFENDER_REPORT_ID_KEY = ''rid'',
     DEFENDER_REPORT_VERSION_KEY = ''v'', DEFENDER_REPORT_METRICS_KEY = ''met'',
     DEFENDER_REPORT_TCP_LISTENING_PORTS_KEY = ''tp'', DEFENDER_REPORT_PORTS_KEY = ''pts'',
     DEFENDER_REPORT_PORT_KEY = ''pt'', DEFENDER_REPORT_TOTAL_KEY = ''t'',
     DEFENDER_REPORT_UDP_LISTENING_PORTS_KEY = ''up'',
     DEFENDER_REPORT_NETWORK_STATS_KEY = ''ns'', DEFENDER_REPORT_BYTES_IN_KEY = ''bi'',
     DEFENDER_REPORT_BYTES_OUT_KEY = ''bo'', DEFENDER_REPORT_PKTS_IN_KEY = ''pi'',
     DEFENDER_REPORT_PKTS_OUT_KEY = ''po'', DEFENDER_REPORT_TCP_CONNECTIONS_KEY = ''tc'',
     DEFENDER_REPORT_ESTABLISHED_CONNECTIONS_KEY = ''ec'',
     DEFENDER_REPORT_CONNECTIONS_KEY = ''cs'', DEFENDER_REPORT_LOCAL_PORT_KEY = ''lp'',
     DEFENDER_REPORT_REMOTE_ADDR_KEY = ''rad'', DEFENDER_REPORT_CUSTOM_METRICS_KEY = ''cmet'',
     DEFENDER_REPORT_NUMBER_KEY = ''number'',
     DEFENDER_REPORT_NUMBER_LIST_KEY = ''number_list''\<rparr>"

definition demo_report_metrics :: ReportMetrics where
  "demo_report_metrics = \<lparr>pxNetworkStats = Some zero_stats,
     pusOpenTcpPortsArray = Some [443, 8883], ulOpenTcpPortsArrayLength = 2,
     pusOpenUdpPortsArray = Some [53], ulOpenUdpPortsArrayLength = 0,
     pxEstablishedConnectionsArray = Some [], ulEstablishedConnectionsArrayLength = 0,
     ulStackHighWaterMark = 100, pulTaskIdsArray = Some [1], ulTaskIdsArrayLength = 1\<rparr>"

lemma demo_report_length:
  "length (json_show (report_of demo_keys demo_report_metrics 1 0 7)) = 277"
  by (simp add: report_of_def json_defs demo_keys_def demo_report_metrics_def live_def
      zero_stats_def dec.simps)

theorem eGenerateJsonReport_prints_json_witness:
  "\<exists>buf'. eGenerateJsonReport demo_keys (Some (replicate 1000 CHR ''x'')) 1000
      (Some demo_report_metrics) 1 0 7 (Some 9) = Some (eReportBuilderSuccess, Some buf', Some 277)
    \<and> take 277 buf' = json_show (report_of demo_keys demo_report_metrics 1 0 7)"
proof -
  have "metrics_ok demo_report_metrics"
    by (simp add: metrics_ok_def demo_report_metrics_def array_ok_def)
  then obtain buf' where "eGenerateJsonReport demo_keys (Some (replicate 1000 CHR ''x'')) 1000
      (Some demo_report_metrics) 1 0 7 (Some 9) = Some (eReportBuilderSuccess, Some buf', Some 277)
    \<and> take 277 buf' = json_show (report_of demo_keys demo_report_metrics 1 0 7)"
    using eGenerateJsonReport_prints_json [of demo_report_metrics 1000
        "replicate 1000 CHR ''x''" demo_keys 1 0 7 9]
    by (auto simp: Let_def demo_report_length)
  then show ?thesis by blast
qed

end
