(* ===== verification/Network_Calls.thy ===== *)
theory Network_Calls
  imports Prelude
begin

text \<open>
  The calls that the transports and the MQTT agent task make to FreeRTOS+TCP, mbedTLS,
  corePKCS11, the coreMQTT agent library and the kernel, none of which is part of the
  repository.

  A call is a value of \<open>net_call\<close>, with its arguments.  The environment is a function that
  answers a call given every call made before it, so that it can behave in any way, its
  answers depending on the whole history; the model keeps that history in the state.  A
  statement that holds for every environment holds for every network and every library.
\<close>

section \<open>Calls\<close>

text \<open>\<open>Socket_t\<close> is a pointer of the 32-bit targets.\<close>

type_synonym Socket = u32

datatype sockopt = FREERTOS_SO_RCVTIMEO | FREERTOS_SO_SNDTIMEO | FREERTOS_SO_WAKEUP_CALLBACK

text \<open>The fields of coreMQTT's connect and subscribe arguments that the code fills in.\<close>

record MQTTConnectInfo =
  cleanSession :: bool
  pClientIdentifier :: string
  clientIdentifierLength :: u16
  keepAliveSeconds :: u16
  pUserName :: "string option"
  userNameLength :: u16
  pPassword :: "string option"
  passwordLength :: u16

record MQTTSubscribeInfo =
  sub_qos :: nat
  pTopicFilter :: "string option"
  topicFilterLength :: u16

text \<open>The members of \<open>SSLContext_t\<close>, which only mbedTLS looks into.\<close>

datatype ssl_object =
    Obj_config | Obj_context | Obj_rootCa | Obj_clientCert | Obj_privKey | Obj_entropy
  | Obj_ctr_drbg

text \<open>
  Constants of the PKCS #11 interface.  An attribute is queried into the key type of the
  context, or into the block at an address, which is 0 when only the length is asked for.
\<close>

datatype p11_class = CKO_CERTIFICATE | CKO_PRIVATE_KEY

datatype p11_attribute = CKA_KEY_TYPE | CKA_VALUE u32 u32

datatype p11_mechanism = CKM_RSA_PKCS | CKM_ECDSA

text \<open>The calls of mbedTLS, of corePKCS11 and the heap, and of the MQTT agent library and the kernel.\<close>

datatype mbedtls_call =
    call_mbedtls_init ssl_object
  | call_mbedtls_free ssl_object
  | call_mbedtls_conf_dbg
  | call_mbedtls_debug_set_threshold
  | call_mbedtls_ssl_config_defaults
  | call_mbedtls_ssl_conf_authmode_required
  | call_mbedtls_ssl_conf_rng
  | call_mbedtls_ssl_conf_cert_profile
  | call_mbedtls_x509_crt_parse ssl_object "u8 list" nat
  | call_mbedtls_ssl_conf_ca_chain
  | call_mbedtls_pk_parse_key "u8 list" nat
  | call_mbedtls_ssl_conf_own_cert
  | call_mbedtls_ssl_conf_alpn_protocols "string list"
  | call_mbedtls_ssl_set_hostname string
  | call_mbedtls_ssl_conf_max_frag_len
  | call_mbedtls_ssl_setup
  | call_mbedtls_ssl_set_bio Socket
  | call_mbedtls_ssl_handshake
  | call_mbedtls_threading_set_alt
  | call_mbedtls_threading_free_alt
  | call_mbedtls_entropy_add_source
  | call_mbedtls_ctr_drbg_seed
  | call_mbedtls_ssl_close_notify
  | call_mbedtls_ssl_read nat
  | call_mbedtls_ssl_write "u8 list"

datatype pkcs11_call =
    call_xInitializePkcs11Session
  | call_C_GetFunctionList
  | call_C_CloseSession u32
  | call_C_GenerateRandom u32 nat
  | call_C_GetSlotList u32
  | call_C_Login u32 string
  | call_xFindObjectWithLabelAndClass u32 string p11_class
  | call_C_GetAttributeValue u32 u32 p11_attribute
  | call_C_SignInit u32 p11_mechanism u32
  | call_C_Sign u32 "u8 list"
  | call_pvPortMalloc_call u32
  | call_vPortFree_call u32

datatype agent_call =
    call_MQTTAgent_Init
  | call_MQTT_Connect MQTTConnectInfo u32
  | call_MQTTAgent_ResumeSession bool
  | call_MQTTAgent_Subscribe "MQTTSubscribeInfo list"
  | call_MQTTAgent_CommandLoop
  | call_MQTTAgent_ProcessLoop
  | call_set_connectStatus_MQTTNotConnected
  | call_uxQueueMessagesWaiting
  | call_uxRand_call
  | call_vTaskDelay u32
  | call_xTaskGetTickCount
  | call_vSuspendOTACodeSigningDemo
  | call_vResumeOTACodeSigningDemo

text \<open>A call of FreeRTOS+TCP, or of one of the three libraries above.\<close>

datatype net_call =
    FreeRTOS_socket
  | FreeRTOS_gethostbyname string
  | FreeRTOS_connect Socket u32 u16
  | FreeRTOS_setsockopt Socket sockopt u32
  | FreeRTOS_closesocket Socket
  | FreeRTOS_shutdown Socket
  | FreeRTOS_recv Socket nat
  | FreeRTOS_recvcount Socket
  | FreeRTOS_send Socket "u8 list"
  | Mbedtls mbedtls_call
  | Pkcs11 pkcs11_call
  | Agent agent_call

text \<open>The calls of the libraries by their names.\<close>

abbreviation "mbedtls_init a1 \<equiv> Mbedtls (call_mbedtls_init a1)"
abbreviation "mbedtls_free a1 \<equiv> Mbedtls (call_mbedtls_free a1)"
abbreviation "mbedtls_conf_dbg \<equiv> Mbedtls call_mbedtls_conf_dbg"
abbreviation "mbedtls_debug_set_threshold \<equiv> Mbedtls call_mbedtls_debug_set_threshold"
abbreviation "mbedtls_ssl_config_defaults \<equiv> Mbedtls call_mbedtls_ssl_config_defaults"
abbreviation "mbedtls_ssl_conf_authmode_required \<equiv> Mbedtls call_mbedtls_ssl_conf_authmode_required"
abbreviation "mbedtls_ssl_conf_rng \<equiv> Mbedtls call_mbedtls_ssl_conf_rng"
abbreviation "mbedtls_ssl_conf_cert_profile \<equiv> Mbedtls call_mbedtls_ssl_conf_cert_profile"
abbreviation "mbedtls_x509_crt_parse a1 a2 a3 \<equiv> Mbedtls (call_mbedtls_x509_crt_parse a1 a2 a3)"
abbreviation "mbedtls_ssl_conf_ca_chain \<equiv> Mbedtls call_mbedtls_ssl_conf_ca_chain"
abbreviation "mbedtls_pk_parse_key a1 a2 \<equiv> Mbedtls (call_mbedtls_pk_parse_key a1 a2)"
abbreviation "mbedtls_ssl_conf_own_cert \<equiv> Mbedtls call_mbedtls_ssl_conf_own_cert"
abbreviation "mbedtls_ssl_conf_alpn_protocols a1 \<equiv> Mbedtls (call_mbedtls_ssl_conf_alpn_protocols a1)"
abbreviation "mbedtls_ssl_set_hostname a1 \<equiv> Mbedtls (call_mbedtls_ssl_set_hostname a1)"
abbreviation "mbedtls_ssl_conf_max_frag_len \<equiv> Mbedtls call_mbedtls_ssl_conf_max_frag_len"
abbreviation "mbedtls_ssl_setup \<equiv> Mbedtls call_mbedtls_ssl_setup"
abbreviation "mbedtls_ssl_set_bio a1 \<equiv> Mbedtls (call_mbedtls_ssl_set_bio a1)"
abbreviation "mbedtls_ssl_handshake \<equiv> Mbedtls call_mbedtls_ssl_handshake"
abbreviation "mbedtls_threading_set_alt \<equiv> Mbedtls call_mbedtls_threading_set_alt"
abbreviation "mbedtls_threading_free_alt \<equiv> Mbedtls call_mbedtls_threading_free_alt"
abbreviation "mbedtls_entropy_add_source \<equiv> Mbedtls call_mbedtls_entropy_add_source"
abbreviation "mbedtls_ctr_drbg_seed \<equiv> Mbedtls call_mbedtls_ctr_drbg_seed"
abbreviation "mbedtls_ssl_close_notify \<equiv> Mbedtls call_mbedtls_ssl_close_notify"
abbreviation "mbedtls_ssl_read a1 \<equiv> Mbedtls (call_mbedtls_ssl_read a1)"
abbreviation "mbedtls_ssl_write a1 \<equiv> Mbedtls (call_mbedtls_ssl_write a1)"
abbreviation "xInitializePkcs11Session \<equiv> Pkcs11 call_xInitializePkcs11Session"
abbreviation "C_GetFunctionList \<equiv> Pkcs11 call_C_GetFunctionList"
abbreviation "C_CloseSession a1 \<equiv> Pkcs11 (call_C_CloseSession a1)"
abbreviation "C_GenerateRandom a1 a2 \<equiv> Pkcs11 (call_C_GenerateRandom a1 a2)"
abbreviation "C_GetSlotList a1 \<equiv> Pkcs11 (call_C_GetSlotList a1)"
abbreviation "C_Login a1 a2 \<equiv> Pkcs11 (call_C_Login a1 a2)"
abbreviation "xFindObjectWithLabelAndClass a1 a2 a3 \<equiv> Pkcs11 (call_xFindObjectWithLabelAndClass a1 a2 a3)"
abbreviation "C_GetAttributeValue a1 a2 a3 \<equiv> Pkcs11 (call_C_GetAttributeValue a1 a2 a3)"
abbreviation "C_SignInit a1 a2 a3 \<equiv> Pkcs11 (call_C_SignInit a1 a2 a3)"
abbreviation "C_Sign a1 a2 \<equiv> Pkcs11 (call_C_Sign a1 a2)"
abbreviation "pvPortMalloc_call a1 \<equiv> Pkcs11 (call_pvPortMalloc_call a1)"
abbreviation "vPortFree_call a1 \<equiv> Pkcs11 (call_vPortFree_call a1)"
abbreviation "MQTTAgent_Init \<equiv> Agent call_MQTTAgent_Init"
abbreviation "MQTT_Connect a1 a2 \<equiv> Agent (call_MQTT_Connect a1 a2)"
abbreviation "MQTTAgent_ResumeSession a1 \<equiv> Agent (call_MQTTAgent_ResumeSession a1)"
abbreviation "MQTTAgent_Subscribe a1 \<equiv> Agent (call_MQTTAgent_Subscribe a1)"
abbreviation "MQTTAgent_CommandLoop \<equiv> Agent call_MQTTAgent_CommandLoop"
abbreviation "MQTTAgent_ProcessLoop \<equiv> Agent call_MQTTAgent_ProcessLoop"
abbreviation "set_connectStatus_MQTTNotConnected \<equiv> Agent call_set_connectStatus_MQTTNotConnected"
abbreviation "uxQueueMessagesWaiting \<equiv> Agent call_uxQueueMessagesWaiting"
abbreviation "uxRand_call \<equiv> Agent call_uxRand_call"
abbreviation "vTaskDelay a1 \<equiv> Agent (call_vTaskDelay a1)"
abbreviation "xTaskGetTickCount \<equiv> Agent call_xTaskGetTickCount"
abbreviation "vSuspendOTACodeSigningDemo \<equiv> Agent call_vSuspendOTACodeSigningDemo"
abbreviation "vResumeOTACodeSigningDemo \<equiv> Agent call_vResumeOTACodeSigningDemo"

text \<open>
  The environment: the answers, the macros of the two libraries' headers that the code uses,
  and the kernel's \<open>pdMS_TO_TICKS\<close>.
\<close>

record net_env =
  answer :: "net_call list \<Rightarrow> net_call \<Rightarrow> int"
  FREERTOS_INVALID_SOCKET :: Socket
  FreeRTOS_htons :: "u16 \<Rightarrow> u16"
  ms_to_ticks :: "u32 \<Rightarrow> u32"
  pdFREERTOS_ERRNO_ENOSPC :: int
  MBEDTLS_ERR_SSL_WANT_READ :: int
  MBEDTLS_ERR_SSL_WANT_WRITE :: int
  MBEDTLS_ERR_SSL_TIMEOUT :: int

record net_state =
  calls :: "net_call list"

definition do_call :: "net_env \<Rightarrow> net_call \<Rightarrow> 'x net_state_scheme \<Rightarrow> int \<times> 'x net_state_scheme" where
  "do_call env c s = (answer env (calls s) c, s\<lparr>calls := calls s @ [c]\<rparr>)"

text \<open>Calls whose results the code does not look at.\<close>

definition do_calls :: "net_call list \<Rightarrow> 'x net_state_scheme \<Rightarrow> 'x net_state_scheme" where
  "do_calls cs s = s\<lparr>calls := calls s @ cs\<rparr>"

lemma do_calls_simps [simp]:
  "do_calls [] s = s"
  "calls (do_calls cs s) = calls s @ cs"
  "do_calls ds (do_calls cs s) = do_calls (cs @ ds) s"
  by (simp_all add: do_calls_def)

lemma do_call_calls: "do_call env c s = (answer env (calls s) c, do_calls [c] s)"
  by (simp add: do_call_def do_calls_def)

text \<open>Evaluation of a sequence of calls, to be used alone before the other rules.\<close>

lemmas step_simps = Let_def prod.case fst_conv snd_conv if_True if_False simp_thms

text \<open>The calls a piece of code made: those after the history it started with.\<close>

definition new_calls :: "'x net_state_scheme \<Rightarrow> 'y net_state_scheme \<Rightarrow> net_call list" where
  "new_calls s s' = drop (length (calls s)) (calls s')"

definition count_calls :: "net_call \<Rightarrow> net_call list \<Rightarrow> nat" where
  "count_calls c cs = length (filter (\<lambda>c'. c' = c) cs)"

lemma count_calls_simps [simp]:
  "count_calls c [] = 0"
  "count_calls c (d # cs) = (if d = c then Suc (count_calls c cs) else count_calls c cs)"
  "count_calls c (cs @ ds) = count_calls c cs + count_calls c ds"
  by (simp_all add: count_calls_def)

lemma count_calls_0 [simp]: "c \<notin> set cs \<Longrightarrow> count_calls c cs = 0"
  by (induction cs) (auto split: if_splits)

section \<open>Sockets opened and closed\<close>

text \<open>
  The sockets that the calls \<open>cs\<close>, made after the history \<open>h\<close>, obtained from
  \<open>FreeRTOS_socket\<close>, and the sockets they passed to \<open>FreeRTOS_closesocket\<close>.
\<close>

fun opened :: "net_env \<Rightarrow> net_call list \<Rightarrow> net_call list \<Rightarrow> Socket list" where
  "opened env h [] = []"
| "opened env h (c # cs) =
     (if c = FreeRTOS_socket \<and> of_int (answer env h c) \<noteq> FREERTOS_INVALID_SOCKET env
      then [of_int (answer env h c)] else []) @ opened env (h @ [c]) cs"

definition closes_of :: "net_call \<Rightarrow> Socket list" where
  "closes_of c = (case c of FreeRTOS_closesocket k \<Rightarrow> [k] | _ \<Rightarrow> [])"

definition closed :: "net_call list \<Rightarrow> Socket list" where
  "closed cs = concat (map closes_of cs)"

lemma opened_append: "opened env h (cs @ ds) = opened env h cs @ opened env (h @ cs) ds"
  by (induction cs arbitrary: h) simp_all

lemma closed_simps [simp]:
  "closed [] = []" "closed (c # cs) = closes_of c @ closed cs" "closed (cs @ ds) = closed cs @ closed ds"
  by (simp_all add: closed_def)

lemma closes_of_simps [simp]: "closes_of (FreeRTOS_closesocket k) = [k]"
  by (simp add: closes_of_def)

text \<open>The calls that the transports make, and those of them that neither open nor close a socket.\<close>

definition transport_call :: "net_call \<Rightarrow> bool" where
  "transport_call c = (case c of Agent _ \<Rightarrow> False | _ \<Rightarrow> True)"

definition neutral :: "net_call \<Rightarrow> bool" where
  "neutral c \<longleftrightarrow> transport_call c \<and> c \<noteq> FreeRTOS_socket \<and> closes_of c = []"

definition transport_calls :: "net_call list \<Rightarrow> bool" where
  "transport_calls cs \<longleftrightarrow> (\<forall>c \<in> set cs. transport_call c)"

lemma transport_calls_simps [simp]:
  "transport_calls []"
  "transport_calls (c # cs) \<longleftrightarrow> transport_call c \<and> transport_calls cs"
  "transport_calls (cs @ ds) \<longleftrightarrow> transport_calls cs \<and> transport_calls ds"
  by (auto simp: transport_calls_def)

lemma neutral_calls:
  "\<forall>c \<in> set cs. neutral c \<Longrightarrow> opened env h cs = [] \<and> closed cs = []"
  by (induction cs arbitrary: h) (auto simp: neutral_def)

lemma neutral_simps [simp]:
  "neutral (FreeRTOS_gethostbyname host)" "neutral (FreeRTOS_connect k a p)"
  "neutral (FreeRTOS_setsockopt k opt v)" "neutral (FreeRTOS_shutdown k)"
  "neutral (FreeRTOS_recv k n)"
  by (simp_all add: neutral_def closes_of_def transport_call_def)

lemma transport_call_simps [simp]:
  "transport_call FreeRTOS_socket" "transport_call (FreeRTOS_closesocket k)"
  by (simp_all add: transport_call_def)

lemma neutral_transport: "neutral c \<Longrightarrow> transport_call c"
  by (simp add: neutral_def)

lemma neutral_list:
  "\<forall>c \<in> set cs. neutral c \<Longrightarrow> transport_calls cs \<and> count_calls FreeRTOS_socket cs = 0"
  by (auto simp: transport_calls_def neutral_def count_calls_def filter_empty_conv)

text \<open>\<open>made s s' cs\<close>: the code went from \<open>s\<close> to \<open>s'\<close> making the calls \<open>cs\<close>.\<close>

definition made :: "'x net_state_scheme \<Rightarrow> 'x net_state_scheme \<Rightarrow> net_call list \<Rightarrow> bool" where
  "made s s' cs \<longleftrightarrow> calls s' = calls s @ cs"

lemma made_refl [simp]: "made s s []"
  by (simp add: made_def)

lemma made_trans: "made s s1 cs \<Longrightarrow> made s1 s2 ds \<Longrightarrow> made s s2 (cs @ ds)"
  by (simp add: made_def)

lemma made_call: "made s (snd (do_call env c s)) [c]"
  by (simp add: made_def do_call_def)

section \<open>The contract of a transport, as far as sockets go\<close>

text \<open>
  \<open>idle\<close> is what a context must satisfy for a failing connect to keep the balance.
\<close>

locale transport_sockets =
  fixes connect :: "net_env \<Rightarrow> 'p \<Rightarrow> 'c \<Rightarrow> net_state \<Rightarrow> (bool \<times> 'c \<times> net_state) option"
    and disconnect :: "net_env \<Rightarrow> 'c \<Rightarrow> net_state \<Rightarrow> net_state option"
    and sock :: "'c \<Rightarrow> Socket"
    and idle :: "net_env \<Rightarrow> 'c \<Rightarrow> bool"
  assumes connect_fail: "idle env c \<Longrightarrow> connect env p c s = Some (False, c', s') \<Longrightarrow>
      \<exists>cs. made s s' cs \<and> opened env (calls s) cs = closed cs"
    and connect_ok: "connect env p c s = Some (True, c', s') \<Longrightarrow>
      sock c' \<noteq> FREERTOS_INVALID_SOCKET env
      \<and> (\<exists>cs. made s s' cs \<and> opened env (calls s) cs = [sock c'] \<and> closed cs = [])"
    and disconnect_closes: "sock c \<noteq> FREERTOS_INVALID_SOCKET env \<Longrightarrow>
      disconnect env c s = Some s' \<Longrightarrow>
      \<exists>cs. made s s' cs \<and> opened env (calls s) cs = [] \<and> closed cs = [sock c]"
begin

text \<open>A whole session leaves no socket open and closes none that it did not open.\<close>

lemma session_balanced:
  assumes "connect env p c s = Some (True, c1, s1)" and "disconnect env c1 s1 = Some s2"
  shows "\<exists>cs. made s s2 cs \<and> opened env (calls s) cs = closed cs \<and> closed cs = [sock c1]"
proof -
  from connect_ok [OF assms(1)] obtain cs where
    cs: "made s s1 cs" "opened env (calls s) cs = [sock c1]" "closed cs = []"
    and nz: "sock c1 \<noteq> FREERTOS_INVALID_SOCKET env" by blast
  from disconnect_closes [OF nz assms(2)] obtain ds where
    ds: "made s1 s2 ds" "opened env (calls s1) ds = []" "closed ds = [sock c1]" by blast
  have "calls s1 = calls s @ cs" using cs(1) by (simp add: made_def)
  then show ?thesis
    using made_trans [OF cs(1) ds(1)] cs ds by (auto simp: opened_append)
qed

text \<open>So does any attempt, successful or not, that starts from an idle context.\<close>

lemma attempt_balanced:
  assumes "idle env c" and "connect env p c s = Some (ok, c1, s1)"
  shows "\<exists>cs. made s s1 cs \<and> opened env (calls s) cs = closed cs @ (if ok then [sock c1] else [])"
  using assms connect_fail [of env c p s c1 s1] connect_ok [of env p c s c1 s1]
  by (cases ok) auto

end

end
