(* ===== verification/Sockets_Wrapper.thy ===== *)
theory Sockets_Wrapper
  imports Network_Calls
begin

text \<open>
  lib/FreeRTOS/network_transport/freertos_plus_tcp: sockets_wrapper.c (opening and closing a
  TCP connection) and using_plaintext/using_plaintext.c (the plaintext transport).

  The state of the code is the socket in the caller's variable or network context; all
  other state is behind the calls.
\<close>

section \<open>sockets_wrapper.c\<close>

definition FREERTOS_SOCKETS_WRAPPER_SHUTDOWN_LOOPS :: int where
  "FREERTOS_SOCKETS_WRAPPER_SHUTDOWN_LOOPS = 3"

definition FREERTOS_SOCKETS_WRAPPER_NETWORK_ERROR :: int where
  "FREERTOS_SOCKETS_WRAPPER_NETWORK_ERROR = - 1"

text \<open>\<open>old\<close> is the value of \<open>*pTcpSocket\<close>; the result holds its new value.\<close>

definition Sockets_Connect ::
  "net_env \<Rightarrow> Socket \<Rightarrow> string \<Rightarrow> u16 \<Rightarrow> u32 \<Rightarrow> u32 \<Rightarrow> 'x net_state_scheme
   \<Rightarrow> int \<times> Socket \<times> 'x net_state_scheme" where
  "Sockets_Connect env old pHostName port receiveTimeoutMs sendTimeoutMs s0 =
     (let (r1, s1) = do_call env FreeRTOS_socket s0;
          tcpSocket = of_int r1;
          (socketStatus, sin_addr, s2) =
            (if tcpSocket = FREERTOS_INVALID_SOCKET env
             then (FREERTOS_SOCKETS_WRAPPER_NETWORK_ERROR, 0, s1)
             else let (r2, s2) = do_call env (FreeRTOS_gethostbyname pHostName) s1;
                      sin_addr = (of_int r2 :: u32)
                  in (if sin_addr = 0 then FREERTOS_SOCKETS_WRAPPER_NETWORK_ERROR else 0,
                      sin_addr, s2));
          (socketStatus, s3) =
            (if socketStatus = 0
             then do_call env (FreeRTOS_connect tcpSocket sin_addr (FreeRTOS_htons env port)) s2
             else (socketStatus, s2));
          s4 =
            (if socketStatus = 0
             then let (_, sa) = do_call env (FreeRTOS_setsockopt tcpSocket FREERTOS_SO_RCVTIMEO
                                  (ms_to_ticks env receiveTimeoutMs)) s3;
                      (_, sb) = do_call env (FreeRTOS_setsockopt tcpSocket FREERTOS_SO_SNDTIMEO
                                  (ms_to_ticks env sendTimeoutMs)) sa
                  in sb
             else s3)
      in if socketStatus \<noteq> 0
         then if tcpSocket \<noteq> FREERTOS_INVALID_SOCKET env
              then (socketStatus, old, snd (do_call env (FreeRTOS_closesocket tcpSocket) s4))
              else (socketStatus, old, s4)
         else (socketStatus, tcpSocket, s4))"

text \<open>
  The loop of \<open>Sockets_Disconnect\<close>.  \<open>waitForShutdownLoopCount\<close> is a \<open>BaseType_t\<close> that
  counts up to the constant, so an \<open>int\<close> never leaves its range.
\<close>

function drain_loop :: "net_env \<Rightarrow> Socket \<Rightarrow> int \<Rightarrow> 'x net_state_scheme \<Rightarrow> 'x net_state_scheme" where
  "drain_loop env tcpSocket waitForShutdownLoopCount s =
     (let (r, s1) = do_call env (FreeRTOS_recv tcpSocket 2) s in
      if r \<ge> 0
      then let n = waitForShutdownLoopCount + 1 in
           if n \<ge> FREERTOS_SOCKETS_WRAPPER_SHUTDOWN_LOOPS then s1
           else drain_loop env tcpSocket n s1
      else s1)"
  by pat_completeness auto
termination
  by (relation "measure (\<lambda>(env, tcpSocket, n, s). nat (FREERTOS_SOCKETS_WRAPPER_SHUTDOWN_LOOPS - n))")
     auto

declare drain_loop.simps [simp del]

definition Sockets_Disconnect :: "net_env \<Rightarrow> Socket \<Rightarrow> 'x net_state_scheme \<Rightarrow> 'x net_state_scheme" where
  "Sockets_Disconnect env tcpSocket s =
     (if tcpSocket \<noteq> FREERTOS_INVALID_SOCKET env
      then let (_, s1) = do_call env (FreeRTOS_shutdown tcpSocket) s;
               s2 = drain_loop env tcpSocket 0 s1
           in snd (do_call env (FreeRTOS_closesocket tcpSocket) s2)
      else s)"

section \<open>using_plaintext.c\<close>

datatype PlaintextTransportStatus =
    PLAINTEXT_TRANSPORT_SUCCESS
  | PLAINTEXT_TRANSPORT_INVALID_PARAMETER
  | PLAINTEXT_TRANSPORT_CONNECT_FAILURE

text \<open>The \<open>NetworkContext\<close> of the plaintext transport; \<open>None\<close> is a \<open>NULL\<close> pointer.\<close>

record Plaintext_Context =
  pt_tcpSocket :: Socket

definition Plaintext_FreeRTOS_Connect ::
  "net_env \<Rightarrow> Plaintext_Context option \<Rightarrow> string option \<Rightarrow> u16 \<Rightarrow> u32 \<Rightarrow> u32 \<Rightarrow> 'x net_state_scheme
   \<Rightarrow> PlaintextTransportStatus \<times> Plaintext_Context option \<times> 'x net_state_scheme" where
  "Plaintext_FreeRTOS_Connect env pNetworkContext pHostName port receiveTimeoutMs sendTimeoutMs s =
     (case (pNetworkContext, pHostName) of
        (Some ctx, Some host) \<Rightarrow>
          let (socketStatus, sock, s') =
                Sockets_Connect env (pt_tcpSocket ctx) host port receiveTimeoutMs sendTimeoutMs s
          in (if socketStatus \<noteq> 0 then PLAINTEXT_TRANSPORT_CONNECT_FAILURE
              else PLAINTEXT_TRANSPORT_SUCCESS,
              Some (ctx\<lparr>pt_tcpSocket := sock\<rparr>), s')
      | _ \<Rightarrow> (PLAINTEXT_TRANSPORT_INVALID_PARAMETER, pNetworkContext, s))"

definition Plaintext_FreeRTOS_Disconnect ::
  "net_env \<Rightarrow> Plaintext_Context option \<Rightarrow> 'x net_state_scheme
   \<Rightarrow> PlaintextTransportStatus \<times> 'x net_state_scheme" where
  "Plaintext_FreeRTOS_Disconnect env pNetworkContext s =
     (case pNetworkContext of
        None \<Rightarrow> (PLAINTEXT_TRANSPORT_INVALID_PARAMETER, s)
      | Some ctx \<Rightarrow>
          if pt_tcpSocket ctx = FREERTOS_INVALID_SOCKET env
          then (PLAINTEXT_TRANSPORT_INVALID_PARAMETER, s)
          else (PLAINTEXT_TRANSPORT_SUCCESS, Sockets_Disconnect env (pt_tcpSocket ctx) s))"

text \<open>The received bytes go from FreeRTOS+TCP to the caller's buffer unseen.\<close>

definition Plaintext_FreeRTOS_recv ::
  "net_env \<Rightarrow> Plaintext_Context \<Rightarrow> nat \<Rightarrow> 'x net_state_scheme \<Rightarrow> int \<times> 'x net_state_scheme" where
  "Plaintext_FreeRTOS_recv env ctx bytesToRecv s =
     (let (ready, s1) =
        (if bytesToRecv > 1 then (True, s)
         else let (r, s1) = do_call env (FreeRTOS_recvcount (pt_tcpSocket ctx)) s in (r > 0, s1))
      in if ready then do_call env (FreeRTOS_recv (pt_tcpSocket ctx) bytesToRecv) s1
         else (0, s1))"

definition Plaintext_FreeRTOS_send ::
  "net_env \<Rightarrow> Plaintext_Context \<Rightarrow> u8 list \<Rightarrow> 'x net_state_scheme \<Rightarrow> int \<times> 'x net_state_scheme" where
  "Plaintext_FreeRTOS_send env ctx bytes s =
     (let (socketStatus, s1) = do_call env (FreeRTOS_send (pt_tcpSocket ctx) bytes) s in
      (if socketStatus = - pdFREERTOS_ERRNO_ENOSPC env then 0 else socketStatus, s1))"

section \<open>What the socket functions do\<close>

text \<open>The four outcomes of \<open>Sockets_Connect\<close>, with the answers that lead to each.\<close>

definition new_socket :: "net_env \<Rightarrow> 'x net_state_scheme \<Rightarrow> Socket" where
  "new_socket env s = of_int (answer env (calls s) FreeRTOS_socket)"

definition host_address :: "net_env \<Rightarrow> string \<Rightarrow> 'x net_state_scheme \<Rightarrow> u32" where
  "host_address env host s =
     of_int (answer env (calls s @ [FreeRTOS_socket]) (FreeRTOS_gethostbyname host))"

definition connect_call :: "net_env \<Rightarrow> string \<Rightarrow> u16 \<Rightarrow> 'x net_state_scheme \<Rightarrow> net_call" where
  "connect_call env host port s =
     FreeRTOS_connect (new_socket env s) (host_address env host s) (FreeRTOS_htons env port)"

definition connect_answer :: "net_env \<Rightarrow> string \<Rightarrow> u16 \<Rightarrow> 'x net_state_scheme \<Rightarrow> int" where
  "connect_answer env host port s =
     answer env (calls s @ [FreeRTOS_socket, FreeRTOS_gethostbyname host])
       (connect_call env host port s)"

lemmas connect_defs = new_socket_def host_address_def connect_call_def connect_answer_def

lemma Sockets_Connect_no_socket:
  "new_socket env s = FREERTOS_INVALID_SOCKET env \<Longrightarrow>
   Sockets_Connect env old host port rt st s = (- 1, old, s\<lparr>calls := calls s @ [FreeRTOS_socket]\<rparr>)"
  unfolding Sockets_Connect_def do_call_def connect_defs FREERTOS_SOCKETS_WRAPPER_NETWORK_ERROR_def
  by (simp only: step_simps) simp

lemma Sockets_Connect_no_address:
  "new_socket env s \<noteq> FREERTOS_INVALID_SOCKET env \<Longrightarrow> host_address env host s = 0 \<Longrightarrow>
   Sockets_Connect env old host port rt st s =
     (- 1, old, s\<lparr>calls := calls s @ [FreeRTOS_socket, FreeRTOS_gethostbyname host,
        FreeRTOS_closesocket (new_socket env s)]\<rparr>)"
  unfolding Sockets_Connect_def do_call_def connect_defs FREERTOS_SOCKETS_WRAPPER_NETWORK_ERROR_def
  by (simp only: step_simps) simp

lemma Sockets_Connect_refused:
  "new_socket env s \<noteq> FREERTOS_INVALID_SOCKET env \<Longrightarrow> host_address env host s \<noteq> 0 \<Longrightarrow>
   connect_answer env host port s \<noteq> 0 \<Longrightarrow>
   Sockets_Connect env old host port rt st s =
     (connect_answer env host port s, old,
      s\<lparr>calls := calls s @ [FreeRTOS_socket, FreeRTOS_gethostbyname host,
        connect_call env host port s, FreeRTOS_closesocket (new_socket env s)]\<rparr>)"
  unfolding Sockets_Connect_def do_call_def connect_defs FREERTOS_SOCKETS_WRAPPER_NETWORK_ERROR_def
  by (simp only: step_simps) simp

lemma Sockets_Connect_connected:
  "new_socket env s \<noteq> FREERTOS_INVALID_SOCKET env \<Longrightarrow> host_address env host s \<noteq> 0 \<Longrightarrow>
   connect_answer env host port s = 0 \<Longrightarrow>
   Sockets_Connect env old host port rt st s =
     (0, new_socket env s,
      s\<lparr>calls := calls s @ [FreeRTOS_socket, FreeRTOS_gethostbyname host,
        connect_call env host port s,
        FreeRTOS_setsockopt (new_socket env s) FREERTOS_SO_RCVTIMEO (ms_to_ticks env rt),
        FreeRTOS_setsockopt (new_socket env s) FREERTOS_SO_SNDTIMEO (ms_to_ticks env st)]\<rparr>)"
  unfolding Sockets_Connect_def do_call_def connect_defs FREERTOS_SOCKETS_WRAPPER_NETWORK_ERROR_def
  by (simp only: step_simps) simp

definition connects :: "net_env \<Rightarrow> string \<Rightarrow> u16 \<Rightarrow> 'x net_state_scheme \<Rightarrow> bool" where
  "connects env host port s \<longleftrightarrow>
     new_socket env s \<noteq> FREERTOS_INVALID_SOCKET env \<and> host_address env host s \<noteq> 0
     \<and> connect_answer env host port s = 0"

lemmas Sockets_Connect_outcomes = Sockets_Connect_no_socket Sockets_Connect_no_address
  Sockets_Connect_refused Sockets_Connect_connected

lemma opened_socket:
  "opened env (calls s) (FreeRTOS_socket # cs) =
     (if new_socket env s \<noteq> FREERTOS_INVALID_SOCKET env then [new_socket env s] else [])
     @ opened env (calls s @ [FreeRTOS_socket]) cs"
  by (simp add: new_socket_def)

lemma closes_of_other [simp]:
  "closes_of FreeRTOS_socket = []" "closes_of (FreeRTOS_gethostbyname host) = []"
  "closes_of (connect_call env host port s) = []" "closes_of (FreeRTOS_setsockopt k opt v) = []"
  "closes_of (FreeRTOS_shutdown k) = []" "closes_of (FreeRTOS_recv k n) = []"
  by (simp_all add: closes_of_def connect_call_def)

lemma connect_call_transport [simp]:
  "connect_call env host port s \<noteq> FreeRTOS_socket" "transport_call (connect_call env host port s)"
  "transport_call (FreeRTOS_gethostbyname host)" "transport_call (FreeRTOS_setsockopt k opt v)"
  "transport_call (FreeRTOS_shutdown k)" "transport_call (FreeRTOS_recv k n)"
  by (simp_all add: connect_call_def transport_call_def)

lemma Sockets_Connect_fail:
  assumes "\<not> connects env host port s"
  shows "\<exists>r s' cs. Sockets_Connect env old host port rt st s = (r, old, s') \<and> r \<noteq> 0
    \<and> s' = do_calls cs s \<and> opened env (calls s) cs = closed cs
    \<and> transport_calls cs \<and> count_calls FreeRTOS_socket cs = 1"
proof -
  consider "new_socket env s = FREERTOS_INVALID_SOCKET env"
    | "new_socket env s \<noteq> FREERTOS_INVALID_SOCKET env" "host_address env host s = 0"
    | "new_socket env s \<noteq> FREERTOS_INVALID_SOCKET env" "host_address env host s \<noteq> 0"
      "connect_answer env host port s \<noteq> 0"
    using assms by (auto simp: connects_def)
  then show ?thesis
  proof cases
    case 1
    then show ?thesis
      by (intro exI [of _ "- 1"] exI [of _ "do_calls [FreeRTOS_socket] s"]
          exI [of _ "[FreeRTOS_socket]"])
         (simp add: Sockets_Connect_outcomes do_calls_def opened_socket del: opened.simps(2))
  next
    case 2
    let ?cs = "[FreeRTOS_socket, FreeRTOS_gethostbyname host, FreeRTOS_closesocket (new_socket env s)]"
    from 2 show ?thesis
      by (intro exI [of _ "- 1"] exI [of _ "do_calls ?cs s"] exI [of _ ?cs])
         (simp add: Sockets_Connect_outcomes do_calls_def opened_socket del: opened.simps(2), simp)
  next
    case 3
    let ?cs = "[FreeRTOS_socket, FreeRTOS_gethostbyname host, connect_call env host port s,
      FreeRTOS_closesocket (new_socket env s)]"
    from 3 show ?thesis
      by (intro exI [of _ "connect_answer env host port s"] exI [of _ "do_calls ?cs s"]
          exI [of _ ?cs])
         (simp add: Sockets_Connect_outcomes do_calls_def opened_socket del: opened.simps(2), simp)
  qed
qed

lemma Sockets_Connect_success:
  assumes "connects env host port s"
  shows "\<exists>s' cs. Sockets_Connect env old host port rt st s = (0, new_socket env s, s')
    \<and> new_socket env s \<noteq> FREERTOS_INVALID_SOCKET env
    \<and> made s s' cs \<and> opened env (calls s) cs = [new_socket env s] \<and> closed cs = []"
  using assms
  by (simp add: connects_def Sockets_Connect_outcomes made_def opened_socket del: opened.simps(2))
     simp

lemma drain_loop_step:
  "drain_loop env k n s =
     (let s1 = s\<lparr>calls := calls s @ [FreeRTOS_recv k 2]\<rparr> in
      if answer env (calls s) (FreeRTOS_recv k 2) \<ge> 0 \<and> n + 1 < FREERTOS_SOCKETS_WRAPPER_SHUTDOWN_LOOPS
      then drain_loop env k (n + 1) s1 else s1)"
  unfolding drain_loop.simps [of env k n s] do_call_def
  by (simp only: step_simps not_less [symmetric]) (cases "0 \<le> answer env (calls s) (FreeRTOS_recv k 2)";
    cases "n + 1 < FREERTOS_SOCKETS_WRAPPER_SHUTDOWN_LOOPS"; simp)

lemma drain_loop_calls:
  "nat (FREERTOS_SOCKETS_WRAPPER_SHUTDOWN_LOOPS - n) = Suc d \<Longrightarrow>
   \<exists>m. 1 \<le> m \<and> m \<le> Suc d
     \<and> drain_loop env k n s = do_calls (replicate m (FreeRTOS_recv k 2)) s"
proof (induction d arbitrary: n s)
  case 0
  then have "\<not> n + 1 < FREERTOS_SOCKETS_WRAPPER_SHUTDOWN_LOOPS" by simp
  then show ?case
    by (intro exI [of _ 1]) (simp add: drain_loop_step [of env k n s] do_calls_def Let_def)
next
  case (Suc d)
  let ?s1 = "do_calls [FreeRTOS_recv k 2] s"
  from Suc.prems have "nat (FREERTOS_SOCKETS_WRAPPER_SHUTDOWN_LOOPS - (n + 1)) = Suc d" by simp
  from Suc.IH [OF this, of ?s1] obtain m where m: "1 \<le> m" "m \<le> Suc d"
    "drain_loop env k (n + 1) ?s1 = do_calls (replicate m (FreeRTOS_recv k 2)) ?s1" by blast
  show ?case
  proof (cases "answer env (calls s) (FreeRTOS_recv k 2) \<ge> 0
      \<and> n + 1 < FREERTOS_SOCKETS_WRAPPER_SHUTDOWN_LOOPS")
    case True
    then have "drain_loop env k n s = drain_loop env k (n + 1) ?s1"
      by (simp add: drain_loop_step [of env k n s] do_calls_def)
    with m show ?thesis
      by (intro exI [of _ "Suc m"]) simp
  next
    case False
    then have "drain_loop env k n s = ?s1"
      by (subst drain_loop_step) (simp only: Let_def if_False do_calls_def)
    then show ?thesis by (intro exI [of _ 1]) simp
  qed
qed

lemma Sockets_Disconnect_calls:
  assumes "k \<noteq> FREERTOS_INVALID_SOCKET env"
  shows "\<exists>m. 1 \<le> m \<and> m \<le> 3
    \<and> Sockets_Disconnect env k s = do_calls
        ([FreeRTOS_shutdown k] @ replicate m (FreeRTOS_recv k 2) @ [FreeRTOS_closesocket k]) s"
proof -
  let ?s1 = "do_calls [FreeRTOS_shutdown k] s"
  have "nat (FREERTOS_SOCKETS_WRAPPER_SHUTDOWN_LOOPS - 0) = Suc 2"
    by (simp add: FREERTOS_SOCKETS_WRAPPER_SHUTDOWN_LOOPS_def)
  from drain_loop_calls [OF this, of env k ?s1] obtain m where m: "1 \<le> m" "m \<le> 3"
    "drain_loop env k 0 ?s1 = do_calls (replicate m (FreeRTOS_recv k 2)) ?s1" by auto
  have "Sockets_Disconnect env k s =
      do_calls [FreeRTOS_closesocket k] (drain_loop env k 0 ?s1)"
    using assms by (simp add: Sockets_Disconnect_def do_call_calls)
  with m show ?thesis by (intro exI [of _ m]) simp
qed

lemma Sockets_Disconnect_frame:
  "\<exists>cs. Sockets_Disconnect env k s = do_calls cs s \<and> transport_calls cs
     \<and> count_calls FreeRTOS_socket cs = 0"
proof (cases "k = FREERTOS_INVALID_SOCKET env")
  case True
  then show ?thesis by (intro exI [of _ "[]"]) (simp add: Sockets_Disconnect_def)
next
  case False
  from Sockets_Disconnect_calls [OF this, of s] obtain m where m: "Sockets_Disconnect env k s =
    do_calls ([FreeRTOS_shutdown k] @ replicate m (FreeRTOS_recv k 2) @ [FreeRTOS_closesocket k]) s"
    by blast
  have "transport_calls (replicate m (FreeRTOS_recv k 2))
      \<and> count_calls FreeRTOS_socket (replicate m (FreeRTOS_recv k 2)) = 0"
    by (rule neutral_list) simp
  with m show ?thesis by (intro exI conjI) (assumption, simp_all)
qed

lemma Sockets_Disconnect_sockets:
  assumes "k \<noteq> FREERTOS_INVALID_SOCKET env"
  shows "\<exists>cs. made s (Sockets_Disconnect env k s) cs
    \<and> opened env (calls s) cs = [] \<and> closed cs = [k]"
proof -
  obtain m where m: "made s (Sockets_Disconnect env k s)
      ((FreeRTOS_shutdown k # replicate m (FreeRTOS_recv k 2)) @ [FreeRTOS_closesocket k])"
    using Sockets_Disconnect_calls [OF assms, of s] by (force simp: made_def)
  have "\<forall>c \<in> set (FreeRTOS_shutdown k # replicate m (FreeRTOS_recv k 2)). neutral c" by simp
  from neutral_calls [OF this] have
    "opened env h (FreeRTOS_shutdown k # replicate m (FreeRTOS_recv k 2)) = []"
    "closed (FreeRTOS_shutdown k # replicate m (FreeRTOS_recv k 2)) = []" for h by blast+
  then show ?thesis using m by (intro exI conjI) (assumption, simp_all only: opened_append, simp_all)
qed

section \<open>The plaintext transport provides the socket contract\<close>

definition plaintext_connect ::
  "net_env \<Rightarrow> string \<times> u16 \<times> u32 \<times> u32 \<Rightarrow> Plaintext_Context \<Rightarrow> net_state
   \<Rightarrow> (bool \<times> Plaintext_Context \<times> net_state) option" where
  "plaintext_connect env p c s =
     (case p of (host, port, rt, st) \<Rightarrow>
        case Plaintext_FreeRTOS_Connect env (Some c) (Some host) port rt st s of
          (status, Some c', s') \<Rightarrow> Some (status = PLAINTEXT_TRANSPORT_SUCCESS, c', s')
        | _ \<Rightarrow> None)"

definition plaintext_disconnect ::
  "net_env \<Rightarrow> Plaintext_Context \<Rightarrow> net_state \<Rightarrow> net_state option" where
  "plaintext_disconnect env c s = Some (snd (Plaintext_FreeRTOS_Disconnect env (Some c) s))"

lemma plaintext_connect_outcome:
  assumes "plaintext_connect env (host, port, rt, st) c s = Some (ok, c', s')"
  shows "\<exists>cs. made s s' cs \<and>
       (if ok then pt_tcpSocket c' \<noteq> FREERTOS_INVALID_SOCKET env
                \<and> opened env (calls s) cs = [pt_tcpSocket c'] \<and> closed cs = []
        else opened env (calls s) cs = closed cs)"
proof (cases "connects env host port s")
  case True
  from Sockets_Connect_success [OF this, of "pt_tcpSocket c" rt st] obtain s1 cs where
    "Sockets_Connect env (pt_tcpSocket c) host port rt st s = (0, new_socket env s, s1)"
    "new_socket env s \<noteq> FREERTOS_INVALID_SOCKET env" "made s s1 cs"
    "opened env (calls s) cs = [new_socket env s]" "closed cs = []" by blast
  then show ?thesis
    using assms
    by (intro exI [of _ cs]) (auto simp: plaintext_connect_def Plaintext_FreeRTOS_Connect_def)
next
  case False
  from Sockets_Connect_fail [OF this, of "pt_tcpSocket c" rt st] obtain r s1 cs where
    "Sockets_Connect env (pt_tcpSocket c) host port rt st s = (r, pt_tcpSocket c, s1)"
    "r \<noteq> 0" "s1 = do_calls cs s" "opened env (calls s) cs = closed cs" by blast
  then show ?thesis
    using assms
    by (intro exI [of _ cs]) (auto simp: made_def plaintext_connect_def Plaintext_FreeRTOS_Connect_def)
qed

interpretation plaintext: transport_sockets plaintext_connect plaintext_disconnect pt_tcpSocket
  "\<lambda>_ _. True"
proof (unfold_locales, goal_cases)
  case (1 env c p s c' s')
  then show ?case
    by (cases p) (use plaintext_connect_outcome in fastforce)
next
  case (2 env p c s c' s')
  then show ?case
    by (cases p) (use plaintext_connect_outcome in fastforce)
next
  case (3 c env s s')
  then show ?case
    using Sockets_Disconnect_sockets [of "pt_tcpSocket c" env s]
    by (simp add: plaintext_disconnect_def Plaintext_FreeRTOS_Disconnect_def)
qed

section \<open>Properties\<close>

text \<open>
  Sockets_Connect is all or nothing, whatever the network answers.  It returns 0 exactly
  when a socket was created, the host name resolved and the connection accepted; it has then
  made exactly these three calls and set the two timeouts in milliseconds converted to ticks,
  and stored the new socket.  Otherwise the caller's variable keeps its value and every socket
  that was opened, at most one, has been closed.
\<close>

theorem Sockets_Connect_all_or_nothing:
  "\<exists>r k s' cs. Sockets_Connect env old host port rt st s = (r, k, s') \<and> made s s' cs
     \<and> (r = 0 \<longleftrightarrow> connects env host port s)
     \<and> (if r = 0
         then k = new_socket env s
            \<and> cs = [FreeRTOS_socket, FreeRTOS_gethostbyname host,
               FreeRTOS_connect k (host_address env host s) (FreeRTOS_htons env port),
               FreeRTOS_setsockopt k FREERTOS_SO_RCVTIMEO (ms_to_ticks env rt),
               FreeRTOS_setsockopt k FREERTOS_SO_SNDTIMEO (ms_to_ticks env st)]
         else k = old \<and> opened env (calls s) cs = closed cs)"
proof (cases "connects env host port s")
  case True
  then show ?thesis
    by (simp add: Sockets_Connect_connected connects_def made_def connect_call_def)
next
  case False
  from Sockets_Connect_fail [OF False, of old rt st] show ?thesis
    using False by (fastforce simp: made_def)
qed

text \<open>
  Sockets_Disconnect ends, whatever the peer sends: on a valid socket it makes one
  shutdown, between one and FREERTOS_SOCKETS_WRAPPER_SHUTDOWN_LOOPS receives and one close of
  that socket, in this order, and nothing else; on the invalid socket it does nothing.
\<close>

theorem Sockets_Disconnect_bounded:
  "if k = FREERTOS_INVALID_SOCKET env then Sockets_Disconnect env k s = s
   else \<exists>m. 1 \<le> m \<and> int m \<le> FREERTOS_SOCKETS_WRAPPER_SHUTDOWN_LOOPS
     \<and> calls (Sockets_Disconnect env k s) =
         calls s @ [FreeRTOS_shutdown k] @ replicate m (FreeRTOS_recv k 2) @ [FreeRTOS_closesocket k]"
proof (cases "k = FREERTOS_INVALID_SOCKET env")
  case True
  then show ?thesis by (simp add: Sockets_Disconnect_def)
next
  case False
  with Sockets_Disconnect_calls [OF this, of s] show ?thesis
    by (auto simp: made_def FREERTOS_SOCKETS_WRAPPER_SHUTDOWN_LOOPS_def)
qed

text \<open>
  The plaintext transport leaks no socket and closes none that is not its own: over a
  session of a successful connect and the disconnect of the resulting context, the sockets
  opened are exactly the sockets closed.
\<close>

theorem plaintext_session_balanced:
  assumes "Plaintext_FreeRTOS_Connect env (Some c) (Some host) port rt st (s :: net_state) =
      (PLAINTEXT_TRANSPORT_SUCCESS, Some c1, s1)"
    and "Plaintext_FreeRTOS_Disconnect env (Some c1) s1 = (status, s2)"
  shows "status = PLAINTEXT_TRANSPORT_SUCCESS
    \<and> (\<exists>cs. made s s2 cs \<and> closed cs = [pt_tcpSocket c1]
          \<and> opened env (calls s) cs = [pt_tcpSocket c1])"
proof -
  have con: "plaintext_connect env (host, port, rt, st) c s = Some (True, c1, s1)"
    using assms(1) by (simp add: plaintext_connect_def)
  have dis: "plaintext_disconnect env c1 s1 = Some s2"
    using assms(2) by (simp add: plaintext_disconnect_def)
  have "pt_tcpSocket c1 \<noteq> FREERTOS_INVALID_SOCKET env"
    using plaintext.connect_ok [OF con] by blast
  then have "status = PLAINTEXT_TRANSPORT_SUCCESS"
    using assms(2) by (simp add: Plaintext_FreeRTOS_Disconnect_def)
  then show ?thesis using plaintext.session_balanced [OF con dis] by auto
qed

text \<open>An environment in which everything works: socket 5, and a peer that has closed.\<close>

definition good_env :: net_env where
  "good_env = \<lparr>
     answer = (\<lambda>h c. case c of FreeRTOS_socket \<Rightarrow> 5 | FreeRTOS_gethostbyname _ \<Rightarrow> 1
        | FreeRTOS_recv _ _ \<Rightarrow> - 1 | _ \<Rightarrow> 0),
     FREERTOS_INVALID_SOCKET = - 1, FreeRTOS_htons = (\<lambda>p. p), ms_to_ticks = (\<lambda>m. m),
     pdFREERTOS_ERRNO_ENOSPC = 28, MBEDTLS_ERR_SSL_WANT_READ = - 0x6900,
     MBEDTLS_ERR_SSL_WANT_WRITE = - 0x6880, MBEDTLS_ERR_SSL_TIMEOUT = - 0x6800\<rparr>"

theorem plaintext_session_balanced_witness:
  "\<exists>s1 s2 cs. Plaintext_FreeRTOS_Connect good_env (Some \<lparr>pt_tcpSocket = 0\<rparr>) (Some ''broker'') 1883
       100 100 \<lparr>calls = []\<rparr> = (PLAINTEXT_TRANSPORT_SUCCESS, Some \<lparr>pt_tcpSocket = 5\<rparr>, s1)
     \<and> made \<lparr>calls = []\<rparr> s2 cs \<and> closed cs = [5] \<and> opened good_env [] cs = [5]"
proof -
  have "connects good_env ''broker'' 1883 \<lparr>calls = []\<rparr>"
    by (simp add: connects_def connect_defs good_env_def)
  then obtain s1 where con: "Plaintext_FreeRTOS_Connect good_env (Some \<lparr>pt_tcpSocket = 0\<rparr>)
      (Some ''broker'') 1883 100 100 \<lparr>calls = []\<rparr> =
      (PLAINTEXT_TRANSPORT_SUCCESS, Some \<lparr>pt_tcpSocket = 5\<rparr>, s1)"
    using Sockets_Connect_connected [of good_env "\<lparr>calls = []\<rparr>" "''broker''" 1883 0 100 100]
    by (simp add: connects_def Plaintext_FreeRTOS_Connect_def new_socket_def)
       (simp add: good_env_def)
  obtain status s2 where dis:
    "Plaintext_FreeRTOS_Disconnect good_env (Some \<lparr>pt_tcpSocket = 5\<rparr>) s1 = (status, s2)"
    by (cases "Plaintext_FreeRTOS_Disconnect good_env (Some \<lparr>pt_tcpSocket = 5\<rparr>) s1")
  from plaintext_session_balanced [OF con dis] con show ?thesis by auto
qed

end
