(* ===== verification/Tls_Transport.thy ===== *)
theory Tls_Transport
  imports Sockets_Wrapper
begin

text \<open>
  lib/FreeRTOS/network_transport/freertos_plus_tcp/using_mbedtls/using_mbedtls.c: the TLS
  transport over mbedTLS and FreeRTOS+TCP.

  \<open>SSLContext_t\<close> holds mbedTLS objects only, which the code passes on and never looks into,
  so their state is the history of the calls; of the network context the code keeps the
  socket.  The static functions are called with the address of a member of a context that is
  not \<open>NULL\<close>, so that their assertions on that address hold and are left out; the other
  assertions are there.  The handshake loop has no bound: it is a \<open>partial_function\<close> whose
  value is \<open>None\<close> when mbedTLS asks for another round for ever.
\<close>

section \<open>Data\<close>

datatype TlsTransportStatus =
    TLS_TRANSPORT_SUCCESS
  | TLS_TRANSPORT_INVALID_PARAMETER
  | TLS_TRANSPORT_INSUFFICIENT_MEMORY
  | TLS_TRANSPORT_INVALID_CREDENTIALS
  | TLS_TRANSPORT_HANDSHAKE_FAILED
  | TLS_TRANSPORT_INTERNAL_ERROR
  | TLS_TRANSPORT_CONNECT_FAILURE

record Tls_Context =
  tls_tcpSocket :: Socket

record NetworkCredentials =
  pAlpnProtos :: "string list option"
  disableSni :: int
  pRootCa :: "u8 list option"
  rootCaSize :: nat
  pClientCert :: "u8 list option"
  clientCertSize :: nat
  pPrivateKey :: "u8 list option"
  privateKeySize :: nat

section \<open>Setting up a TLS session\<close>

definition init_calls :: "net_call list" where
  "init_calls = [mbedtls_init Obj_config, mbedtls_init Obj_rootCa, mbedtls_init Obj_privKey,
     mbedtls_init Obj_clientCert, mbedtls_init Obj_context, mbedtls_conf_dbg,
     mbedtls_debug_set_threshold]"

definition sslContextInit :: "'x net_state_scheme \<Rightarrow> 'x net_state_scheme" where
  "sslContextInit s = do_calls init_calls s"

definition free_calls :: "net_call list" where
  "free_calls = [mbedtls_free Obj_context, mbedtls_free Obj_rootCa, mbedtls_free Obj_clientCert,
     mbedtls_free Obj_privKey, mbedtls_free Obj_entropy, mbedtls_free Obj_ctr_drbg,
     mbedtls_free Obj_config]"

definition sslContextFree :: "'x net_state_scheme \<Rightarrow> 'x net_state_scheme" where
  "sslContextFree s = do_calls free_calls s"

definition setRootCa ::
  "net_env \<Rightarrow> u8 list option \<Rightarrow> nat \<Rightarrow> 'x net_state_scheme \<Rightarrow> (int \<times> 'x net_state_scheme) option" where
  "setRootCa env pRoot len s = do {
     _ \<leftarrow> configASSERT (pRoot \<noteq> None);
     ca \<leftarrow> pRoot;
     let (mbedtlsError, s1) = do_call env (mbedtls_x509_crt_parse Obj_rootCa ca len) s;
     if mbedtlsError \<noteq> 0 then Some (mbedtlsError, s1)
     else Some (mbedtlsError, do_calls [mbedtls_ssl_conf_ca_chain] s1)
   }"

definition setClientCertificate ::
  "net_env \<Rightarrow> u8 list option \<Rightarrow> nat \<Rightarrow> 'x net_state_scheme \<Rightarrow> (int \<times> 'x net_state_scheme) option" where
  "setClientCertificate env pCert len s = do {
     _ \<leftarrow> configASSERT (pCert \<noteq> None);
     cert \<leftarrow> pCert;
     Some (do_call env (mbedtls_x509_crt_parse Obj_clientCert cert len) s)
   }"

definition setPrivateKey ::
  "net_env \<Rightarrow> u8 list option \<Rightarrow> nat \<Rightarrow> 'x net_state_scheme \<Rightarrow> (int \<times> 'x net_state_scheme) option" where
  "setPrivateKey env pKey len s = do {
     _ \<leftarrow> configASSERT (pKey \<noteq> None);
     key \<leftarrow> pKey;
     Some (do_call env (mbedtls_pk_parse_key key len) s)
   }"

definition setCredentials ::
  "net_env \<Rightarrow> NetworkCredentials \<Rightarrow> 'x net_state_scheme \<Rightarrow> (int \<times> 'x net_state_scheme) option" where
  "setCredentials env cr s = do {
     let s1 = do_calls [mbedtls_ssl_conf_authmode_required, mbedtls_ssl_conf_rng,
                        mbedtls_ssl_conf_cert_profile] s;
     (e1, s2) \<leftarrow> setRootCa env (pRootCa cr) (rootCaSize cr) s1;
     if pClientCert cr \<noteq> None \<and> pPrivateKey cr \<noteq> None
     then do {
       (e2, s3) \<leftarrow> (if e1 = 0 then setClientCertificate env (pClientCert cr) (clientCertSize cr) s2
                    else Some (e1, s2));
       (e3, s4) \<leftarrow> (if e2 = 0 then setPrivateKey env (pPrivateKey cr) (privateKeySize cr) s3
                    else Some (e2, s3));
       if e3 = 0 then Some (do_call env mbedtls_ssl_conf_own_cert s4) else Some (e3, s4)
     }
     else Some (e1, s2)
   }"

text \<open>The errors of the optional settings are logged and otherwise ignored.\<close>

definition setOptionalConfigurations ::
  "string option \<Rightarrow> NetworkCredentials \<Rightarrow> 'x net_state_scheme \<Rightarrow> 'x net_state_scheme option" where
  "setOptionalConfigurations pHostName cr s = do {
     _ \<leftarrow> configASSERT (pHostName \<noteq> None);
     host \<leftarrow> pHostName;
     let s1 = (case pAlpnProtos cr of
                 Some protos \<Rightarrow> do_calls [mbedtls_ssl_conf_alpn_protocols protos] s
               | None \<Rightarrow> s);
     let s2 = (if disableSni cr = 0 then do_calls [mbedtls_ssl_set_hostname host] s1 else s1);
     Some (do_calls [mbedtls_ssl_conf_max_frag_len] s2)
   }"

definition tlsSetup ::
  "net_env \<Rightarrow> string option \<Rightarrow> NetworkCredentials \<Rightarrow> 'x net_state_scheme
   \<Rightarrow> (TlsTransportStatus \<times> 'x net_state_scheme) option" where
  "tlsSetup env pHostName cr s = do {
     _ \<leftarrow> configASSERT (pHostName \<noteq> None);
     _ \<leftarrow> configASSERT (pRootCa cr \<noteq> None);
     let s1 = sslContextInit s;
     let (e1, s2) = do_call env mbedtls_ssl_config_defaults s1;
     if e1 \<noteq> 0 then Some (TLS_TRANSPORT_INSUFFICIENT_MEMORY, s2)
     else do {
       (e2, s3) \<leftarrow> setCredentials env cr s2;
       if e2 \<noteq> 0 then Some (TLS_TRANSPORT_INVALID_CREDENTIALS, s3)
       else do {
         s4 \<leftarrow> setOptionalConfigurations pHostName cr s3;
         Some (TLS_TRANSPORT_SUCCESS, s4)
       }
     }
   }"

partial_function (option) handshake_loop ::
  "net_env \<Rightarrow> 'x net_state_scheme \<Rightarrow> (int \<times> 'x net_state_scheme) option" where
  "handshake_loop env s =
     (let (mbedtlsError, s1) = do_call env mbedtls_ssl_handshake s in
      if mbedtlsError = MBEDTLS_ERR_SSL_WANT_READ env \<or> mbedtlsError = MBEDTLS_ERR_SSL_WANT_WRITE env
      then handshake_loop env s1
      else Some (mbedtlsError, s1))"

definition tlsHandshake ::
  "net_env \<Rightarrow> Tls_Context \<Rightarrow> 'x net_state_scheme
   \<Rightarrow> (TlsTransportStatus \<times> 'x net_state_scheme) option" where
  "tlsHandshake env ctx s = do {
     let (e1, s1) = do_call env mbedtls_ssl_setup s;
     if e1 \<noteq> 0 then Some (TLS_TRANSPORT_INTERNAL_ERROR, s1)
     else do {
       let s2 = do_calls [mbedtls_ssl_set_bio (tls_tcpSocket ctx)] s1;
       (e2, s3) \<leftarrow> handshake_loop env s2;
       if e2 \<noteq> 0 then Some (TLS_TRANSPORT_HANDSHAKE_FAILED, s3)
       else Some (TLS_TRANSPORT_SUCCESS, s3)
     }
   }"

definition initMbedtls ::
  "net_env \<Rightarrow> 'x net_state_scheme \<Rightarrow> TlsTransportStatus \<times> 'x net_state_scheme" where
  "initMbedtls env s =
     (let s1 = do_calls [mbedtls_threading_set_alt, mbedtls_init Obj_entropy,
                         mbedtls_init Obj_ctr_drbg] s;
          (e1, s2) = do_call env mbedtls_entropy_add_source s1
      in if e1 \<noteq> 0 then (TLS_TRANSPORT_INTERNAL_ERROR, s2)
         else let (e2, s3) = do_call env mbedtls_ctr_drbg_seed s2 in
              if e2 \<noteq> 0 then (TLS_TRANSPORT_INTERNAL_ERROR, s3)
              else (TLS_TRANSPORT_SUCCESS, s3))"

section \<open>The transport interface\<close>

definition TLS_FreeRTOS_Connect ::
  "net_env \<Rightarrow> Tls_Context option \<Rightarrow> string option \<Rightarrow> u16 \<Rightarrow> NetworkCredentials option \<Rightarrow> u32 \<Rightarrow> u32
   \<Rightarrow> 'x net_state_scheme
   \<Rightarrow> (TlsTransportStatus \<times> Tls_Context option \<times> 'x net_state_scheme) option" where
  "TLS_FreeRTOS_Connect env pNetworkContext pHostName port pNetworkCredentials
     receiveTimeoutMs sendTimeoutMs s0 = do {
     let st0 =
       (if pNetworkContext = None \<or> pHostName = None \<or> pNetworkCredentials = None
        then TLS_TRANSPORT_INVALID_PARAMETER
        else if pRootCa (the pNetworkCredentials) = None
        then TLS_TRANSPORT_INVALID_PARAMETER
        else TLS_TRANSPORT_SUCCESS);
     (st1, pctx, s1) \<leftarrow>
       (if st0 = TLS_TRANSPORT_SUCCESS then do {
          ctx \<leftarrow> pNetworkContext;
          host \<leftarrow> pHostName;
          let (socketStatus, sock, s1) = Sockets_Connect env (tls_tcpSocket ctx) host port
                receiveTimeoutMs sendTimeoutMs s0;
          Some (if socketStatus \<noteq> 0 then TLS_TRANSPORT_CONNECT_FAILURE else st0,
                Some (ctx\<lparr>tls_tcpSocket := sock\<rparr>), s1)
        }
        else Some (st0, pNetworkContext, s0));
     let (st2, s2) = (if st1 = TLS_TRANSPORT_SUCCESS then initMbedtls env s1 else (st1, s1));
     (st3, s3) \<leftarrow> (if st2 = TLS_TRANSPORT_SUCCESS
        then Option.bind pNetworkCredentials (\<lambda>cr. tlsSetup env pHostName cr s2)
        else Some (st2, s2));
     (st4, s4) \<leftarrow> (if st3 = TLS_TRANSPORT_SUCCESS
        then Option.bind pctx (\<lambda>ctx. tlsHandshake env ctx s3)
        else Some (st3, s3));
     if st4 \<noteq> TLS_TRANSPORT_SUCCESS
     then (case pctx of
             Some ctx \<Rightarrow>
               let s5 = sslContextFree s4 in
               Some (st4, pctx,
                 if tls_tcpSocket ctx \<noteq> FREERTOS_INVALID_SOCKET env
                 then do_calls [FreeRTOS_closesocket (tls_tcpSocket ctx)] s5 else s5)
           | None \<Rightarrow> Some (st4, pctx, s4))
     else Some (st4, pctx, s4)
   }"

text \<open>
  The answer of \<open>mbedtls_ssl_close_notify\<close> is logged only.  The function ends with
  \<open>mbedtls_threading_free_alt\<close> even for a \<open>NULL\<close> context.
\<close>

definition TLS_FreeRTOS_Disconnect ::
  "net_env \<Rightarrow> Tls_Context option \<Rightarrow> 'x net_state_scheme \<Rightarrow> 'x net_state_scheme" where
  "TLS_FreeRTOS_Disconnect env pNetworkContext s =
     (let s1 = (case pNetworkContext of
          Some ctx \<Rightarrow>
            let s2 = do_calls [mbedtls_ssl_close_notify] s;
                s3 = Sockets_Disconnect env (tls_tcpSocket ctx) s2
            in sslContextFree s3
        | None \<Rightarrow> s)
      in do_calls [mbedtls_threading_free_alt] s1)"

definition tls_status :: "net_env \<Rightarrow> int \<Rightarrow> int" where
  "tls_status env r =
     (if r = MBEDTLS_ERR_SSL_TIMEOUT env \<or> r = MBEDTLS_ERR_SSL_WANT_READ env
         \<or> r = MBEDTLS_ERR_SSL_WANT_WRITE env
      then 0 else r)"

definition TLS_FreeRTOS_recv ::
  "net_env \<Rightarrow> nat \<Rightarrow> 'x net_state_scheme \<Rightarrow> int \<times> 'x net_state_scheme" where
  "TLS_FreeRTOS_recv env bytesToRecv s =
     (let (r, s1) = do_call env (mbedtls_ssl_read bytesToRecv) s in (tls_status env r, s1))"

definition TLS_FreeRTOS_send ::
  "net_env \<Rightarrow> u8 list \<Rightarrow> 'x net_state_scheme \<Rightarrow> int \<times> 'x net_state_scheme" where
  "TLS_FreeRTOS_send env bytes s =
     (let (r, s1) = do_call env (mbedtls_ssl_write bytes) s in (tls_status env r, s1))"

section \<open>Stages that touch no socket\<close>

definition quiet :: "'x net_state_scheme \<Rightarrow> 'x net_state_scheme \<Rightarrow> bool" where
  "quiet s s' \<longleftrightarrow> (\<exists>cs. s' = do_calls cs s \<and> (\<forall>c \<in> set cs. neutral c))"

lemma quiet_refl [simp]: "quiet s s"
  unfolding quiet_def by (rule exI [of _ "[]"]) simp

lemma quiet_trans [trans]: "quiet s s1 \<Longrightarrow> quiet s1 s2 \<Longrightarrow> quiet s s2"
  unfolding quiet_def by (elim exE conjE, rule_tac x = "cs @ csa" in exI) auto

lemma quiet_calls: "\<forall>c \<in> set cs. neutral c \<Longrightarrow> quiet s (do_calls cs s)"
  unfolding quiet_def by blast

lemma quiet_call: "neutral c \<Longrightarrow> do_call env c s = (r, s') \<Longrightarrow> quiet s s'"
  by (auto simp: do_call_calls quiet_def)

lemma neutral_tls [simp]:
  "neutral (mbedtls_init x)" "neutral (mbedtls_free x)" "neutral mbedtls_conf_dbg"
  "neutral mbedtls_debug_set_threshold" "neutral mbedtls_ssl_config_defaults"
  "neutral mbedtls_ssl_conf_authmode_required" "neutral mbedtls_ssl_conf_rng"
  "neutral mbedtls_ssl_conf_cert_profile" "neutral (mbedtls_x509_crt_parse x b n)"
  "neutral mbedtls_ssl_conf_ca_chain" "neutral (mbedtls_pk_parse_key b n)"
  "neutral mbedtls_ssl_conf_own_cert" "neutral (mbedtls_ssl_conf_alpn_protocols ps)"
  "neutral (mbedtls_ssl_set_hostname h)" "neutral mbedtls_ssl_conf_max_frag_len"
  "neutral mbedtls_ssl_setup" "neutral (mbedtls_ssl_set_bio k)" "neutral mbedtls_ssl_handshake"
  "neutral mbedtls_threading_set_alt" "neutral mbedtls_threading_free_alt"
  "neutral mbedtls_entropy_add_source" "neutral mbedtls_ctr_drbg_seed"
  "neutral mbedtls_ssl_close_notify"
  by (simp_all add: neutral_def closes_of_def transport_call_def)

lemma quiet_free: "quiet s (sslContextFree s)"
  by (simp add: sslContextFree_def free_calls_def quiet_calls)

section \<open>The calls of a stage that succeeds\<close>

text \<open>The calls whose failure ends the connection attempt.\<close>

definition checked :: "net_call \<Rightarrow> bool" where
  "checked c = (case c of
      mbedtls_ssl_config_defaults \<Rightarrow> True | mbedtls_x509_crt_parse _ _ _ \<Rightarrow> True
    | mbedtls_pk_parse_key _ _ \<Rightarrow> True | mbedtls_ssl_conf_own_cert \<Rightarrow> True
    | mbedtls_ssl_setup \<Rightarrow> True | mbedtls_entropy_add_source \<Rightarrow> True
    | mbedtls_ctr_drbg_seed \<Rightarrow> True | _ \<Rightarrow> False)"

fun all_ok :: "net_env \<Rightarrow> net_call list \<Rightarrow> net_call list \<Rightarrow> bool" where
  "all_ok env h [] = True"
| "all_ok env h (c # cs) = ((checked c \<longrightarrow> answer env h c = 0) \<and> all_ok env (h @ [c]) cs)"

lemma all_ok_append: "all_ok env h (cs @ ds) \<longleftrightarrow> all_ok env h cs \<and> all_ok env (h @ cs) ds"
  by (induction cs arbitrary: h) simp_all

lemma all_ok_unchecked: "\<forall>c \<in> set cs. \<not> checked c \<Longrightarrow> all_ok env h cs"
  by (induction cs arbitrary: h) simp_all

definition tls_init_calls :: "net_call list" where
  "tls_init_calls = [mbedtls_threading_set_alt, mbedtls_init Obj_entropy,
     mbedtls_init Obj_ctr_drbg, mbedtls_entropy_add_source, mbedtls_ctr_drbg_seed]"

definition own_cert_calls :: "NetworkCredentials \<Rightarrow> net_call list" where
  "own_cert_calls cr = (case (pClientCert cr, pPrivateKey cr) of
     (Some cert, Some key) \<Rightarrow>
        [mbedtls_x509_crt_parse Obj_clientCert cert (clientCertSize cr),
         mbedtls_pk_parse_key key (privateKeySize cr), mbedtls_ssl_conf_own_cert]
   | _ \<Rightarrow> [])"

definition credential_calls :: "NetworkCredentials \<Rightarrow> u8 list \<Rightarrow> net_call list" where
  "credential_calls cr ca =
     [mbedtls_ssl_conf_authmode_required, mbedtls_ssl_conf_rng, mbedtls_ssl_conf_cert_profile,
      mbedtls_x509_crt_parse Obj_rootCa ca (rootCaSize cr), mbedtls_ssl_conf_ca_chain]
     @ own_cert_calls cr"

definition optional_calls :: "NetworkCredentials \<Rightarrow> string \<Rightarrow> net_call list" where
  "optional_calls cr host =
     (case pAlpnProtos cr of Some ps \<Rightarrow> [mbedtls_ssl_conf_alpn_protocols ps] | None \<Rightarrow> [])
     @ (if disableSni cr = 0 then [mbedtls_ssl_set_hostname host] else [])
     @ [mbedtls_ssl_conf_max_frag_len]"

definition setup_calls :: "NetworkCredentials \<Rightarrow> string \<Rightarrow> u8 list \<Rightarrow> net_call list" where
  "setup_calls cr host ca =
     init_calls @ [mbedtls_ssl_config_defaults] @ credential_calls cr ca @ optional_calls cr host"

lemma checked_simps [simp]:
  "\<not> checked (mbedtls_init x)" "\<not> checked mbedtls_threading_set_alt"
  "\<not> checked mbedtls_conf_dbg" "\<not> checked mbedtls_debug_set_threshold"
  "\<not> checked mbedtls_ssl_conf_authmode_required" "\<not> checked mbedtls_ssl_conf_rng"
  "\<not> checked mbedtls_ssl_conf_cert_profile" "\<not> checked mbedtls_ssl_conf_ca_chain"
  "\<not> checked (mbedtls_ssl_conf_alpn_protocols ps)" "\<not> checked (mbedtls_ssl_set_hostname n)"
  "\<not> checked mbedtls_ssl_conf_max_frag_len"
  "checked mbedtls_ssl_config_defaults" "checked (mbedtls_x509_crt_parse x b k)"
  "checked (mbedtls_pk_parse_key b k)" "checked mbedtls_ssl_conf_own_cert"
  "checked mbedtls_ssl_setup" "checked mbedtls_entropy_add_source" "checked mbedtls_ctr_drbg_seed"
  by (simp_all add: checked_def)

lemma initMbedtls_outcome:
  obtains "initMbedtls env s = (TLS_TRANSPORT_SUCCESS, do_calls tls_init_calls s)"
    "all_ok env (calls s) tls_init_calls"
  | s' where "initMbedtls env s = (TLS_TRANSPORT_INTERNAL_ERROR, s')" "quiet s s'"
proof -
  let ?cs = "[mbedtls_threading_set_alt, mbedtls_init Obj_entropy, mbedtls_init Obj_ctr_drbg]"
  let ?a1 = "answer env (calls s @ ?cs) mbedtls_entropy_add_source"
  let ?a2 = "answer env (calls s @ ?cs @ [mbedtls_entropy_add_source]) mbedtls_ctr_drbg_seed"
  consider "?a1 \<noteq> 0" | "?a1 = 0" "?a2 \<noteq> 0" | "?a1 = 0" "?a2 = 0" by blast
  then show ?thesis
  proof cases
    case 1
    then have "initMbedtls env s =
        (TLS_TRANSPORT_INTERNAL_ERROR, do_calls (?cs @ [mbedtls_entropy_add_source]) s)"
      by (simp add: initMbedtls_def do_call_calls Let_def)
    then show ?thesis by (rule that(2)) (simp add: quiet_calls)
  next
    case 2
    then have "initMbedtls env s = (TLS_TRANSPORT_INTERNAL_ERROR, do_calls tls_init_calls s)"
      by (simp add: initMbedtls_def do_call_calls Let_def tls_init_calls_def)
    then show ?thesis by (rule that(2)) (simp add: quiet_calls tls_init_calls_def)
  next
    case 3
    then show ?thesis
      by (intro that(1))
         (simp_all add: initMbedtls_def do_call_calls Let_def tls_init_calls_def)
  qed
qed

lemma setRootCa_eq:
  "setRootCa env (Some ca) n s =
     (let r = answer env (calls s) (mbedtls_x509_crt_parse Obj_rootCa ca n) in
      Some (r, do_calls (mbedtls_x509_crt_parse Obj_rootCa ca n
                         # (if r = 0 then [mbedtls_ssl_conf_ca_chain] else [])) s))"
  by (simp add: setRootCa_def do_call_calls Let_def)

lemma setClientCertificate_eq:
  "setClientCertificate env (Some b) n s =
     Some (do_call env (mbedtls_x509_crt_parse Obj_clientCert b n) s)"
  by (simp add: setClientCertificate_def)

lemma setPrivateKey_eq:
  "setPrivateKey env (Some b) n s = Some (do_call env (mbedtls_pk_parse_key b n) s)"
  by (simp add: setPrivateKey_def)

text \<open>With a root certificate that parses, the device certificate and its key come next.\<close>

abbreviation conf_calls :: "net_call list" where
  "conf_calls \<equiv> [mbedtls_ssl_conf_authmode_required, mbedtls_ssl_conf_rng, mbedtls_ssl_conf_cert_profile]"

lemma setCredentials_own:
  assumes "pRootCa cr = Some ca" and "pClientCert cr = Some cert" "pPrivateKey cr = Some key"
    and "answer env (calls s @ conf_calls) (mbedtls_x509_crt_parse Obj_rootCa ca (rootCaSize cr)) = 0"
  obtains (ok) "setCredentials env cr s = Some (0, do_calls (credential_calls cr ca) s)"
    "all_ok env (calls s) (credential_calls cr ca)"
  | (failed) e s' where "setCredentials env cr s = Some (e, s')" "e \<noteq> 0" "quiet s s'"
proof -
  let ?root = "mbedtls_x509_crt_parse Obj_rootCa ca (rootCaSize cr)"
  let ?c = "mbedtls_x509_crt_parse Obj_clientCert cert (clientCertSize cr)"
  let ?k = "mbedtls_pk_parse_key key (privateKeySize cr)"
  let ?s2 = "do_calls (conf_calls @ [?root, mbedtls_ssl_conf_ca_chain]) s"
  let ?h2 = "calls s @ conf_calls @ [?root, mbedtls_ssl_conf_ca_chain]"
  have base: "setRootCa env (pRootCa cr) (rootCaSize cr) (do_calls conf_calls s) = Some (0, ?s2)"
    using assms by (simp add: setRootCa_eq)
  have run: "setCredentials env cr s =
    (if answer env ?h2 ?c \<noteq> 0 then Some (answer env ?h2 ?c, do_calls [?c] ?s2)
     else if answer env (?h2 @ [?c]) ?k \<noteq> 0
     then Some (answer env (?h2 @ [?c]) ?k, do_calls [?c, ?k] ?s2)
     else Some (answer env (?h2 @ [?c, ?k]) mbedtls_ssl_conf_own_cert,
                do_calls [?c, ?k, mbedtls_ssl_conf_own_cert] ?s2))"
    using base assms(2,3)
    by (simp add: setCredentials_def setClientCertificate_eq setPrivateKey_eq do_call_calls)
  have calls: "credential_calls cr ca =
      conf_calls @ [?root, mbedtls_ssl_conf_ca_chain] @ [?c, ?k, mbedtls_ssl_conf_own_cert]"
    using assms(2,3) by (simp add: credential_calls_def own_cert_calls_def)
  consider "answer env ?h2 ?c \<noteq> 0"
    | "answer env ?h2 ?c = 0" "answer env (?h2 @ [?c]) ?k \<noteq> 0"
    | "answer env ?h2 ?c = 0" "answer env (?h2 @ [?c]) ?k = 0"
      "answer env (?h2 @ [?c, ?k]) mbedtls_ssl_conf_own_cert \<noteq> 0"
    | "answer env ?h2 ?c = 0" "answer env (?h2 @ [?c]) ?k = 0"
      "answer env (?h2 @ [?c, ?k]) mbedtls_ssl_conf_own_cert = 0"
    by blast
  then show ?thesis
  proof cases
    case 4
    with run calls assms(4) show ?thesis by (intro ok) simp_all
  qed (use run failed in \<open>simp_all add: quiet_calls\<close>)
qed

lemma setCredentials_outcome:
  assumes "pRootCa cr = Some ca"
  obtains "setCredentials env cr s = Some (0, do_calls (credential_calls cr ca) s)"
    "all_ok env (calls s) (credential_calls cr ca)"
  | e s' where "setCredentials env cr s = Some (e, s')" "e \<noteq> 0" "quiet s s'"
proof -
  let ?root = "mbedtls_x509_crt_parse Obj_rootCa ca (rootCaSize cr)"
  show ?thesis
  proof (cases "answer env (calls s @ conf_calls) ?root = 0")
    case False
    then have "setCredentials env cr s =
        Some (answer env (calls s @ conf_calls) ?root, do_calls (conf_calls @ [?root]) s)"
      using assms by (auto simp: setCredentials_def setRootCa_eq Let_def)
    then show ?thesis by (rule that(2)) (use False in simp, rule quiet_calls, simp)
  next
    case root: True
    show ?thesis
    proof (cases "pClientCert cr \<noteq> None \<and> pPrivateKey cr \<noteq> None")
      case False
      then have "own_cert_calls cr = []" by (auto simp: own_cert_calls_def split: option.splits)
      moreover have "setRootCa env (pRootCa cr) (rootCaSize cr) (do_calls conf_calls s) =
          Some (0, do_calls (conf_calls @ [?root, mbedtls_ssl_conf_ca_chain]) s)"
        using assms root by (simp add: setRootCa_eq)
      ultimately show ?thesis
        using False root by (intro that(1)) (auto simp: setCredentials_def credential_calls_def)
    next
      case True
      then obtain cert key where "pClientCert cr = Some cert" "pPrivateKey cr = Some key" by auto
      from setCredentials_own [OF assms this root] that show ?thesis by metis
    qed
  qed
qed

lemma setOptionalConfigurations_eq:
  "setOptionalConfigurations (Some host) cr s = Some (do_calls (optional_calls cr host) s)"
  by (simp add: setOptionalConfigurations_def optional_calls_def split: option.splits)

lemma optional_calls_unchecked: "all_ok env h (optional_calls cr host)"
  by (rule all_ok_unchecked) (auto simp: optional_calls_def split: option.splits)

lemma optional_calls_neutral: "\<forall>c \<in> set (optional_calls cr host). neutral c"
  by (auto simp: optional_calls_def split: option.splits)

lemma init_calls_unchecked: "all_ok env h init_calls"
  by (rule all_ok_unchecked) (simp add: init_calls_def)

lemma tlsSetup_outcome:
  assumes ca: "pRootCa cr = Some ca"
  obtains "tlsSetup env (Some host) cr s =
      Some (TLS_TRANSPORT_SUCCESS, do_calls (setup_calls cr host ca) s)"
    "all_ok env (calls s) (setup_calls cr host ca)"
  | st s' where "tlsSetup env (Some host) cr s = Some (st, s')" "st \<noteq> TLS_TRANSPORT_SUCCESS"
    "quiet s s'"
proof -
  let ?s1 = "do_calls init_calls s"
  let ?s2 = "do_calls (init_calls @ [mbedtls_ssl_config_defaults]) s"
  have q2: "quiet s ?s2" by (rule quiet_calls) (simp add: init_calls_def)
  show ?thesis
  proof (cases "answer env (calls ?s1) mbedtls_ssl_config_defaults = 0")
    case False
    then have "tlsSetup env (Some host) cr s = Some (TLS_TRANSPORT_INSUFFICIENT_MEMORY, ?s2)"
      using ca by (simp add: tlsSetup_def sslContextInit_def do_call_calls)
    then show ?thesis by (rule that(2)) (use q2 in simp_all)
  next
    case True
    then have run: "tlsSetup env (Some host) cr s = do {
        (e2, s3) \<leftarrow> setCredentials env cr ?s2;
        if e2 \<noteq> 0 then Some (TLS_TRANSPORT_INVALID_CREDENTIALS, s3)
        else do {
          s4 \<leftarrow> setOptionalConfigurations (Some host) cr s3;
          Some (TLS_TRANSPORT_SUCCESS, s4)
        } }"
      using ca by (simp add: tlsSetup_def sslContextInit_def do_call_calls)
    from ca show ?thesis
    proof (cases rule: setCredentials_outcome [of cr ca env ?s2])
      case 1
      then have ok: "all_ok env (calls s) (setup_calls cr host ca)"
        using True
        by (simp add: setup_calls_def all_ok_append init_calls_unchecked optional_calls_unchecked)
      have "tlsSetup env (Some host) cr s =
          Some (TLS_TRANSPORT_SUCCESS, do_calls (setup_calls cr host ca) s)"
        using run 1 by (simp add: setOptionalConfigurations_eq setup_calls_def)
      then show ?thesis using ok by (rule that(1))
    next
      case (2 e s')
      then have "tlsSetup env (Some host) cr s = Some (TLS_TRANSPORT_INVALID_CREDENTIALS, s')"
        using run by simp
      then show ?thesis by (rule that(2)) (use quiet_trans [OF q2 2(3)] in simp_all)
    qed
  qed
qed

section \<open>The handshake\<close>

definition want_more :: "net_env \<Rightarrow> int \<Rightarrow> bool" where
  "want_more env r \<longleftrightarrow> r = MBEDTLS_ERR_SSL_WANT_READ env \<or> r = MBEDTLS_ERR_SSL_WANT_WRITE env"

text \<open>The answer to the \<open>i\<close>-th handshake call from \<open>s\<close>, \<open>i\<close> counted from 0.\<close>

definition hs_answer :: "net_env \<Rightarrow> 'x net_state_scheme \<Rightarrow> nat \<Rightarrow> int" where
  "hs_answer env s i =
     answer env (calls s @ replicate i mbedtls_ssl_handshake) mbedtls_ssl_handshake"

lemma handshake_step:
  "handshake_loop env s =
     (if want_more env (hs_answer env s 0)
      then handshake_loop env (do_calls [mbedtls_ssl_handshake] s)
      else Some (hs_answer env s 0, do_calls [mbedtls_ssl_handshake] s))"
  by (subst handshake_loop.simps) (simp add: do_call_calls want_more_def hs_answer_def)

lemma hs_answer_Suc:
  "hs_answer env (do_calls [mbedtls_ssl_handshake] s) i = hs_answer env s (Suc i)"
  by (simp add: hs_answer_def)

lemma handshake_ends:
  "\<not> want_more env (hs_answer env s m) \<Longrightarrow> \<forall>i < m. want_more env (hs_answer env s i) \<Longrightarrow>
   handshake_loop env s =
     Some (hs_answer env s m, do_calls (replicate (Suc m) mbedtls_ssl_handshake) s)"
proof (induction m arbitrary: s)
  case 0
  then show ?case by (simp add: handshake_step [of env s])
next
  case (Suc m)
  let ?s = "do_calls [mbedtls_ssl_handshake] s"
  have "handshake_loop env ?s =
      Some (hs_answer env ?s m, do_calls (replicate (Suc m) mbedtls_ssl_handshake) ?s)"
    by (rule Suc.IH) (use Suc.prems in \<open>auto simp: hs_answer_Suc\<close>)
  moreover have "want_more env (hs_answer env s 0)" using Suc.prems(2) by blast
  ultimately show ?case by (simp add: handshake_step [of env s] hs_answer_Suc)
qed

lemma handshake_returns:
  assumes "handshake_loop env s = Some res"
  shows "\<exists>m. fst res = hs_answer env s m \<and> \<not> want_more env (fst res)
     \<and> (\<forall>i < m. want_more env (hs_answer env s i))
     \<and> snd res = do_calls (replicate (Suc m) mbedtls_ssl_handshake) s"
proof (rule handshake_loop.raw_induct [OF _ assms], goal_cases)
  case (1 loop env s res)
  show ?case
  proof (cases "want_more env (hs_answer env s 0)")
    case True
    then have "loop env (do_calls [mbedtls_ssl_handshake] s) = Some res"
      using 1(2) by (simp add: do_call_calls want_more_def hs_answer_def)
    from 1(1) [OF this] obtain m where m:
      "fst res = hs_answer env (do_calls [mbedtls_ssl_handshake] s) m" "\<not> want_more env (fst res)"
      "\<forall>i < m. want_more env (hs_answer env (do_calls [mbedtls_ssl_handshake] s) i)"
      "snd res = do_calls (replicate (Suc m) mbedtls_ssl_handshake)
         (do_calls [mbedtls_ssl_handshake] s)" by blast
    then show ?thesis
      using True by (intro exI [of _ "Suc m"]) (auto simp: hs_answer_Suc less_Suc_eq_0_disj)
  next
    case False
    then have "res = (hs_answer env s 0, do_calls [mbedtls_ssl_handshake] s)"
      using 1(2) by (auto simp: do_call_calls want_more_def hs_answer_def split: if_splits)
    then show ?thesis using False by (intro exI [of _ 0]) simp
  qed
qed

lemma tlsHandshake_outcome:
  assumes "tlsHandshake env ctx s = Some (st, s')"
  obtains m where "st = TLS_TRANSPORT_SUCCESS" "answer env (calls s) mbedtls_ssl_setup = 0"
    "s' = do_calls ([mbedtls_ssl_setup, mbedtls_ssl_set_bio (tls_tcpSocket ctx)]
            @ replicate (Suc m) mbedtls_ssl_handshake) s"
    "hs_answer env (do_calls [mbedtls_ssl_setup, mbedtls_ssl_set_bio (tls_tcpSocket ctx)] s) m = 0"
    "\<forall>i < m. want_more env
       (hs_answer env (do_calls [mbedtls_ssl_setup, mbedtls_ssl_set_bio (tls_tcpSocket ctx)] s) i)"
  | "st \<noteq> TLS_TRANSPORT_SUCCESS" "quiet s s'"
proof (cases "answer env (calls s) mbedtls_ssl_setup = 0")
  case False
  then have "st = TLS_TRANSPORT_INTERNAL_ERROR" "s' = do_calls [mbedtls_ssl_setup] s"
    using assms by (auto simp: tlsHandshake_def do_call_calls)
  then show ?thesis using that(2) by (simp add: quiet_calls)
next
  case True
  let ?s2 = "do_calls [mbedtls_ssl_setup, mbedtls_ssl_set_bio (tls_tcpSocket ctx)] s"
  from assms True obtain r where r: "handshake_loop env ?s2 = Some (r, s')"
    "st = (if r \<noteq> 0 then TLS_TRANSPORT_HANDSHAKE_FAILED else TLS_TRANSPORT_SUCCESS)"
    by (auto simp: tlsHandshake_def do_call_calls split: if_splits)
  from handshake_returns [OF r(1)] obtain m where m: "r = hs_answer env ?s2 m"
    "s' = do_calls (replicate (Suc m) mbedtls_ssl_handshake) ?s2"
    "\<forall>i < m. want_more env (hs_answer env ?s2 i)" by auto
  show ?thesis
  proof (cases "r = 0")
    case True
    with r m show ?thesis
      by (intro that(1) [of m]) (simp_all add: \<open>answer env (calls s) mbedtls_ssl_setup = 0\<close>)
  next
    case False
    with r m show ?thesis by (intro that(2)) (auto simp: quiet_calls)
  qed
qed

section \<open>The outcomes of TLS_FreeRTOS_Connect\<close>

definition cleanup :: "net_env \<Rightarrow> Socket \<Rightarrow> 'x net_state_scheme \<Rightarrow> 'x net_state_scheme" where
  "cleanup env k s =
     do_calls (free_calls
       @ (if k \<noteq> FREERTOS_INVALID_SOCKET env then [FreeRTOS_closesocket k] else [])) s"

definition tcp_calls :: "net_env \<Rightarrow> string \<Rightarrow> u16 \<Rightarrow> u32 \<Rightarrow> u32 \<Rightarrow> 'x net_state_scheme \<Rightarrow> net_call list" where
  "tcp_calls env host port rt st s =
     [FreeRTOS_socket, FreeRTOS_gethostbyname host, connect_call env host port s,
      FreeRTOS_setsockopt (new_socket env s) FREERTOS_SO_RCVTIMEO (ms_to_ticks env rt),
      FreeRTOS_setsockopt (new_socket env s) FREERTOS_SO_SNDTIMEO (ms_to_ticks env st)]"

lemma tls_connect_no_tcp:
  assumes "pRootCa cr = Some ca" and "\<not> connects env host port s"
  shows "\<exists>s1 cs. s1 = do_calls cs s \<and> opened env (calls s) cs = closed cs
    \<and> transport_calls cs \<and> count_calls FreeRTOS_socket cs = 1
    \<and> TLS_FreeRTOS_Connect env (Some ctx) (Some host) port (Some cr) rt st s =
        Some (TLS_TRANSPORT_CONNECT_FAILURE, Some ctx, cleanup env (tls_tcpSocket ctx) s1)"
proof -
  from Sockets_Connect_fail [OF assms(2)] obtain r s1 cs where
    "Sockets_Connect env (tls_tcpSocket ctx) host port rt st s = (r, tls_tcpSocket ctx, s1)"
    "r \<noteq> 0" "s1 = do_calls cs s" "opened env (calls s) cs = closed cs"
    "transport_calls cs" "count_calls FreeRTOS_socket cs = 1" by blast
  then show ?thesis
    using assms(1)
    by (intro exI [of _ s1] exI [of _ cs])
       (simp add: TLS_FreeRTOS_Connect_def sslContextFree_def cleanup_def)
qed

lemma Sockets_Connect_tcp:
  "connects env host port s \<Longrightarrow>
   Sockets_Connect env old host port rt st s =
     (0, new_socket env s, do_calls (tcp_calls env host port rt st s) s)"
  by (simp add: connects_def Sockets_Connect_connected tcp_calls_def do_calls_def)

lemma tls_connect_after_tcp:
  assumes "pRootCa cr = Some ca" and "connects env host port s"
  shows "TLS_FreeRTOS_Connect env (Some ctx) (Some host) port (Some cr) rt st s =
    (let k = new_socket env s;
         ctx' = ctx\<lparr>tls_tcpSocket := k\<rparr>;
         s1 = do_calls (tcp_calls env host port rt st s) s
     in do {
       let (st2, s2) = initMbedtls env s1;
       (st3, s3) \<leftarrow> (if st2 = TLS_TRANSPORT_SUCCESS then tlsSetup env (Some host) cr s2
                    else Some (st2, s2));
       (st4, s4) \<leftarrow> (if st3 = TLS_TRANSPORT_SUCCESS then tlsHandshake env ctx' s3
                    else Some (st3, s3));
       Some (st4, Some ctx',
             if st4 \<noteq> TLS_TRANSPORT_SUCCESS then cleanup env k s4 else s4)
     })"
  using assms
  by (auto simp: TLS_FreeRTOS_Connect_def Sockets_Connect_tcp Let_def sslContextFree_def
      cleanup_def connects_def intro!: arg_cong2 [where f = Option.bind] ext split: prod.splits)

text \<open>All calls of a connection that is established after \<open>m + 1\<close> handshake rounds.\<close>

definition tls_calls :: "net_env \<Rightarrow> string \<Rightarrow> NetworkCredentials \<Rightarrow> u8 list \<Rightarrow> Socket \<Rightarrow> net_call list" where
  "tls_calls env host cr ca k =
     tls_init_calls @ setup_calls cr host ca @ [mbedtls_ssl_setup, mbedtls_ssl_set_bio k]"

lemma tls_connect_outcome:
  assumes ca: "pRootCa cr = Some ca" and con: "connects env host port s"
    and run: "TLS_FreeRTOS_Connect env (Some ctx) (Some host) port (Some cr) rt st s =
      Some (status, pctx, s')"
  defines "s1 \<equiv> do_calls (tcp_calls env host port rt st s) s"
  obtains m where "status = TLS_TRANSPORT_SUCCESS"
      "pctx = Some (ctx\<lparr>tls_tcpSocket := new_socket env s\<rparr>)"
      "s' = do_calls (tls_calls env host cr ca (new_socket env s)
              @ replicate (Suc m) mbedtls_ssl_handshake) s1"
      "all_ok env (calls s1) (tls_calls env host cr ca (new_socket env s))"
      "hs_answer env (do_calls (tls_calls env host cr ca (new_socket env s)) s1) m = 0"
      "\<forall>i < m. want_more env (hs_answer env (do_calls (tls_calls env host cr ca (new_socket env s)) s1) i)"
  | s4 where "status \<noteq> TLS_TRANSPORT_SUCCESS"
      "pctx = Some (ctx\<lparr>tls_tcpSocket := new_socket env s\<rparr>)"
      "quiet s1 s4" "s' = cleanup env (new_socket env s) s4"
proof (cases rule: initMbedtls_outcome [of env s1])
  case init: 1
  let ?s2 = "do_calls tls_init_calls s1"
  have q2: "quiet s1 ?s2" by (rule quiet_calls) (simp add: tls_init_calls_def)
  from ca show ?thesis
  proof (cases rule: tlsSetup_outcome [of cr ca env host ?s2])
    case set: 1
    let ?s3 = "do_calls (setup_calls cr host ca) ?s2"
    let ?ctx = "ctx\<lparr>tls_tcpSocket := new_socket env s\<rparr>"
    have q3: "quiet s1 ?s3"
    proof -
      have "\<forall>c \<in> set (setup_calls cr host ca). neutral c"
        using optional_calls_neutral
        by (auto simp: setup_calls_def credential_calls_def own_cert_calls_def init_calls_def
            split: option.splits)
      then show ?thesis by (rule quiet_trans [OF q2 quiet_calls])
    qed
    from run init set obtain s4 where hs: "tlsHandshake env ?ctx ?s3 = Some (status, s4)"
      "pctx = Some ?ctx"
      "s' = (if status \<noteq> TLS_TRANSPORT_SUCCESS then cleanup env (new_socket env s) s4 else s4)"
      by (auto simp: tls_connect_after_tcp [OF ca con] Let_def s1_def)
    from hs(1) show ?thesis
    proof (cases rule: tlsHandshake_outcome)
      case (1 m)
      show ?thesis
        by (rule that(1) [of m])
           (use 1 hs(2,3) init(2) set(2) in \<open>simp_all add: tls_calls_def all_ok_append checked_def\<close>)
    next
      case 2
      show ?thesis
        by (rule that(2) [of s4]) (use 2 hs(2,3) quiet_trans [OF q3] in simp_all)
    qed
  next
    case (2 st3 s3)
    show ?thesis
      by (rule that(2) [of s3])
         (use run init 2 quiet_trans [OF q2 2(3)] in
          \<open>auto simp: tls_connect_after_tcp [OF ca con] Let_def s1_def\<close>)
  qed
next
  case (2 s2)
  show ?thesis
    by (rule that(2) [of s2])
       (use run 2 in \<open>auto simp: tls_connect_after_tcp [OF ca con] Let_def s1_def\<close>)
qed

section \<open>The TLS transport provides the socket contract\<close>

lemma tcp_calls_sockets:
  assumes "connects env host port s"
  shows "opened env (calls s) (tcp_calls env host port rt st s) = [new_socket env s]"
    and "closed (tcp_calls env host port rt st s) = []"
  using assms
  by (simp_all add: tcp_calls_def connects_def opened_socket del: opened.simps(2)) simp

lemma cleanup_calls:
  "calls (cleanup env k s) = calls s @ free_calls
     @ (if k \<noteq> FREERTOS_INVALID_SOCKET env then [FreeRTOS_closesocket k] else [])"
  by (simp add: cleanup_def)

lemma free_calls_sockets: "opened env h free_calls = []" "closed free_calls = []"
  using neutral_calls [of free_calls env h] by (simp_all add: free_calls_def)

lemma quiet_sockets:
  assumes "quiet s s'"
  obtains cs where "s' = do_calls cs s" "\<And>h. opened env h cs = []" "closed cs = []"
  using assms neutral_calls by (metis quiet_def)

lemma cleanup_sockets:
  "k \<noteq> FREERTOS_INVALID_SOCKET env \<Longrightarrow>
   \<exists>cs. made s (cleanup env k s) cs \<and> opened env h cs = [] \<and> closed cs = [k]"
  by (intro exI [of _ "free_calls @ [FreeRTOS_closesocket k]"])
     (simp add: made_def cleanup_calls opened_append free_calls_sockets)

text \<open>The calls of an attempt: transport calls only, and one socket.\<close>

lemma tls_connect_frame:
  assumes ca: "pRootCa cr = Some ca"
    and run: "TLS_FreeRTOS_Connect env (Some c) (Some host) port (Some cr) rt st s =
      Some (status, pctx, s')"
  obtains c' cs where "pctx = Some c'" "s' = do_calls cs s" "transport_calls cs"
    "count_calls FreeRTOS_socket cs = 1"
proof (cases "connects env host port s")
  case False
  let ?rest = "free_calls @ (if tls_tcpSocket c \<noteq> FREERTOS_INVALID_SOCKET env
      then [FreeRTOS_closesocket (tls_tcpSocket c)] else [])"
  have free: "transport_calls free_calls \<and> count_calls FreeRTOS_socket free_calls = 0"
    by (rule neutral_list) (simp add: free_calls_def)
  from tls_connect_no_tcp [OF ca False, of c rt st] run obtain cs where
    "pctx = Some c" "s' = do_calls (cs @ ?rest) s" "transport_calls cs"
    "count_calls FreeRTOS_socket cs = 1"
    by (auto simp: cleanup_def)
  then show ?thesis using free by (intro that [of c "cs @ ?rest"]) auto
next
  case con: True
  let ?k = "new_socket env s" and ?tcp = "tcp_calls env host port rt st s"
  let ?c = "c\<lparr>tls_tcpSocket := ?k\<rparr>"
  have tcp: "transport_calls ?tcp" "count_calls FreeRTOS_socket ?tcp = 1"
    by (simp_all add: tcp_calls_def)
  from ca con run show ?thesis
  proof (cases rule: tls_connect_outcome)
    case (1 m)
    define rest where "rest = tls_calls env host cr ca ?k @ replicate (Suc m) mbedtls_ssl_handshake"
    have "\<forall>x \<in> set rest. neutral x"
      using optional_calls_neutral
      by (auto simp: rest_def tls_calls_def tls_init_calls_def setup_calls_def
          credential_calls_def own_cert_calls_def init_calls_def split: option.splits)
    from neutral_list [OF this] show ?thesis
      by (intro that [of ?c "?tcp @ rest"]) (use 1 tcp rest_def in simp_all)
  next
    case (2 s4)
    from 2(3) obtain cs where cs: "s4 = do_calls cs (do_calls ?tcp s)" "\<forall>x \<in> set cs. neutral x"
      by (auto simp: quiet_def)
    let ?rest = "free_calls @ (if ?k \<noteq> FREERTOS_INVALID_SOCKET env
      then [FreeRTOS_closesocket ?k] else [])"
    have "transport_calls free_calls \<and> count_calls FreeRTOS_socket free_calls = 0"
      by (rule neutral_list) (simp add: free_calls_def)
    with neutral_list [OF cs(2)] show ?thesis
      by (intro that [of ?c "?tcp @ cs @ ?rest"]) (use 2 tcp cs(1) in \<open>simp_all add: cleanup_def\<close>)
  qed
qed

lemma tls_connect_returns:
  assumes ca: "pRootCa cr = Some ca"
    and ends: "\<And>h. \<exists>m. \<not> want_more env
      (answer env (h @ replicate m mbedtls_ssl_handshake) mbedtls_ssl_handshake)"
  shows "\<exists>res. TLS_FreeRTOS_Connect env (Some c) (Some host) port (Some cr) rt st s = Some res"
proof (cases "connects env host port s")
  case False
  from tls_connect_no_tcp [OF ca False] show ?thesis by blast
next
  case True
  have hs: "\<exists>res. tlsHandshake env ctx s' = Some res" for ctx s'
  proof -
    let ?s = "do_calls [mbedtls_ssl_setup, mbedtls_ssl_set_bio (tls_tcpSocket ctx)] s'"
    from ends [of "calls ?s"] have "\<exists>m. \<not> want_more env (hs_answer env ?s m)"
      by (simp add: hs_answer_def)
    then have "\<exists>res. handshake_loop env ?s = Some res"
      using handshake_ends [of env ?s "LEAST m. \<not> want_more env (hs_answer env ?s m)"]
      by (metis (mono_tags, lifting) LeastI_ex not_less_Least)
    then obtain r s2 where "handshake_loop env ?s = Some (r, s2)" by auto
    then show ?thesis
      by (cases "answer env (calls s') mbedtls_ssl_setup = 0")
         (auto simp: tlsHandshake_def do_call_calls)
  qed
  have su: "\<exists>res. tlsSetup env (Some host) cr s' = Some res" for s'
    by (rule tlsSetup_outcome [OF ca, of env host s']) auto
  let ?ctx = "c\<lparr>tls_tcpSocket := new_socket env s\<rparr>"
  obtain st2 s2 where i: "initMbedtls env (do_calls (tcp_calls env host port rt st s) s) = (st2, s2)"
    by (rule prod.exhaust)
  obtain st3 s3 where a: "(if st2 = TLS_TRANSPORT_SUCCESS then tlsSetup env (Some host) cr s2
      else Some (st2, s2)) = Some (st3, s3)"
    using su [of s2] by (cases "st2 = TLS_TRANSPORT_SUCCESS") auto
  obtain st4 s4 where b: "(if st3 = TLS_TRANSPORT_SUCCESS then tlsHandshake env ?ctx s3
      else Some (st3, s3)) = Some (st4, s4)"
    using hs [of ?ctx s3] by (cases "st3 = TLS_TRANSPORT_SUCCESS") auto
  show ?thesis
    by (subst tls_connect_after_tcp [OF ca True]) (simp only: Let_def i a b prod.case bind.bind_lunit, simp)
qed

lemma tls_disconnect_frame:
  "\<exists>cs. TLS_FreeRTOS_Disconnect env (Some c) s = do_calls cs s \<and> transport_calls cs
     \<and> count_calls FreeRTOS_socket cs = 0"
proof -
  let ?s1 = "do_calls [mbedtls_ssl_close_notify] s"
  from Sockets_Disconnect_frame [of env "tls_tcpSocket c" ?s1] obtain cs where
    cs: "Sockets_Disconnect env (tls_tcpSocket c) ?s1 = do_calls cs ?s1" "transport_calls cs"
      "count_calls FreeRTOS_socket cs = 0" by blast
  have n: "transport_calls [mbedtls_ssl_close_notify] \<and> count_calls FreeRTOS_socket [mbedtls_ssl_close_notify] = 0"
    "transport_calls (free_calls @ [mbedtls_threading_free_alt])
      \<and> count_calls FreeRTOS_socket (free_calls @ [mbedtls_threading_free_alt]) = 0"
    by (rule neutral_list, simp add: free_calls_def)+
  show ?thesis
    by (intro exI [of _ "[mbedtls_ssl_close_notify] @ cs @ free_calls @ [mbedtls_threading_free_alt]"])
       (use cs n in \<open>auto simp: TLS_FreeRTOS_Disconnect_def sslContextFree_def\<close>)
qed

definition tls_connect ::
  "net_env \<Rightarrow> string \<times> u16 \<times> NetworkCredentials \<times> u32 \<times> u32 \<Rightarrow> Tls_Context \<Rightarrow> net_state
   \<Rightarrow> (bool \<times> Tls_Context \<times> net_state) option" where
  "tls_connect env p c s =
     (case p of (host, port, cr, rt, st) \<Rightarrow>
        case TLS_FreeRTOS_Connect env (Some c) (Some host) port (Some cr) rt st s of
          Some (status, Some c', s') \<Rightarrow> Some (status = TLS_TRANSPORT_SUCCESS, c', s')
        | _ \<Rightarrow> None)"

definition tls_disconnect :: "net_env \<Rightarrow> Tls_Context \<Rightarrow> net_state \<Rightarrow> net_state option" where
  "tls_disconnect env c s = Some (TLS_FreeRTOS_Disconnect env (Some c) s)"

lemma tls_connect_no_ca:
  "pRootCa cr = None \<Longrightarrow>
   TLS_FreeRTOS_Connect env (Some c) (Some host) port (Some cr) rt st s =
     Some (TLS_TRANSPORT_INVALID_PARAMETER, Some c, cleanup env (tls_tcpSocket c) s)"
  by (simp add: TLS_FreeRTOS_Connect_def cleanup_def sslContextFree_def)

text \<open>The sockets of a connection attempt.\<close>

lemma tls_connect_sockets:
  assumes run: "TLS_FreeRTOS_Connect env (Some c) (Some host) port (Some cr) rt st s =
      Some (status, pctx, s')"
  obtains c' cs where "pctx = Some c'" "made s s' cs"
    "status = TLS_TRANSPORT_SUCCESS \<Longrightarrow>
       tls_tcpSocket c' \<noteq> FREERTOS_INVALID_SOCKET env
       \<and> opened env (calls s) cs = [tls_tcpSocket c'] \<and> closed cs = []"
    "status \<noteq> TLS_TRANSPORT_SUCCESS \<Longrightarrow>
       closed cs = opened env (calls s) cs
       \<or> tls_tcpSocket c \<noteq> FREERTOS_INVALID_SOCKET env
         \<and> closed cs = opened env (calls s) cs @ [tls_tcpSocket c]"
proof (cases "pRootCa cr")
  case None
  let ?cs = "free_calls @ (if tls_tcpSocket c \<noteq> FREERTOS_INVALID_SOCKET env
      then [FreeRTOS_closesocket (tls_tcpSocket c)] else [])"
  from run None show ?thesis
    by (intro that [of c ?cs])
       (auto simp: tls_connect_no_ca made_def cleanup_calls opened_append free_calls_sockets)
next
  case ca: (Some ca)
  show ?thesis
  proof (cases "connects env host port s")
    case False
    from tls_connect_no_tcp [OF ca False, of c rt st] run obtain s1 cs where
      s1: "s1 = do_calls cs s" "opened env (calls s) cs = closed cs"
      "status = TLS_TRANSPORT_CONNECT_FAILURE" "pctx = Some c"
      "s' = cleanup env (tls_tcpSocket c) s1" by auto
    let ?cs = "cs @ free_calls @ (if tls_tcpSocket c \<noteq> FREERTOS_INVALID_SOCKET env
      then [FreeRTOS_closesocket (tls_tcpSocket c)] else [])"
    show ?thesis
      by (rule that [of c ?cs])
         (use s1 in \<open>auto simp: made_def cleanup_calls opened_append free_calls_sockets\<close>)
  next
    case con: True
    let ?k = "new_socket env s" and ?tcp = "tcp_calls env host port rt st s"
    have k: "?k \<noteq> FREERTOS_INVALID_SOCKET env" using con by (simp add: connects_def)
    from ca con run show ?thesis
    proof (cases rule: tls_connect_outcome)
      case (1 m)
      define rest where "rest = tls_calls env host cr ca ?k @ replicate (Suc m) mbedtls_ssl_handshake"
      have "\<forall>x \<in> set rest. neutral x"
        using optional_calls_neutral
        by (auto simp: rest_def tls_calls_def tls_init_calls_def setup_calls_def
            credential_calls_def own_cert_calls_def init_calls_def split: option.splits)
      from neutral_calls [OF this] have n: "opened env h rest = []" "closed rest = []" for h
        by blast+
      have s': "s' = do_calls rest (do_calls ?tcp s)"
        using 1(3) by (simp only: rest_def)
      show ?thesis
        by (rule that [of "c\<lparr>tls_tcpSocket := ?k\<rparr>" "?tcp @ rest"])
           (use 1(1,2) s' k n tcp_calls_sockets [OF con] in
            \<open>simp_all add: made_def opened_append\<close>)
    next
      case (2 s4)
      from 2(3) obtain cs where cs: "s4 = do_calls cs (do_calls ?tcp s)"
        "\<And>h. opened env h cs = []" "closed cs = []" using quiet_sockets [of _ s4 env] by blast
      show ?thesis
        by (rule that [of "c\<lparr>tls_tcpSocket := ?k\<rparr>" "?tcp @ cs @ free_calls @ [FreeRTOS_closesocket ?k]"])
           (use 2 k cs tcp_calls_sockets [OF con] in
            \<open>simp_all add: made_def cleanup_calls opened_append free_calls_sockets\<close>)
    qed
  qed
qed

interpretation tls: transport_sockets tls_connect tls_disconnect tls_tcpSocket
  "\<lambda>env c. tls_tcpSocket c = FREERTOS_INVALID_SOCKET env"
proof (unfold_locales, goal_cases)
  case (1 env c p s c' s')
  then obtain host port cr rt st status where
    "TLS_FreeRTOS_Connect env (Some c) (Some host) port (Some cr) rt st s =
       Some (status, Some c', s')" "status \<noteq> TLS_TRANSPORT_SUCCESS"
    by (auto simp: tls_connect_def split: prod.splits option.splits)
  with 1(1) show ?case by (elim tls_connect_sockets) auto
next
  case (2 env p c s c' s')
  then obtain host port cr rt st where
    "TLS_FreeRTOS_Connect env (Some c) (Some host) port (Some cr) rt st s =
       Some (TLS_TRANSPORT_SUCCESS, Some c', s')"
    by (auto simp: tls_connect_def split: prod.splits option.splits)
  then show ?case by (elim tls_connect_sockets) auto
next
  case (3 c env s s')
  let ?s1 = "do_calls [mbedtls_ssl_close_notify] s"
  from Sockets_Disconnect_sockets [OF 3(1), of ?s1] obtain cs where
    cs: "made ?s1 (Sockets_Disconnect env (tls_tcpSocket c) ?s1) cs"
    "opened env (calls ?s1) cs = []" "closed cs = [tls_tcpSocket c]" by blast
  have n: "neutral mbedtls_ssl_close_notify" "neutral mbedtls_threading_free_alt" by simp_all
  have s': "s' = do_calls (free_calls @ [mbedtls_threading_free_alt])
      (Sockets_Disconnect env (tls_tcpSocket c) ?s1)"
    using 3(2) by (simp add: tls_disconnect_def TLS_FreeRTOS_Disconnect_def sslContextFree_def)
  show ?case
    by (intro exI [of _ "mbedtls_ssl_close_notify # cs @ free_calls @ [mbedtls_threading_free_alt]"])
       (use s' cs n in \<open>simp add: made_def opened_append free_calls_sockets neutral_def\<close>)
qed

section \<open>Properties\<close>

text \<open>
  C4. A TLS connection that TLS_FreeRTOS_Connect reports as established is an authenticated
  one.  The calls it made are exactly the connection of a fresh socket, the seeding of the
  random generator, the configuration of the session with server verification required, the
  caller's root certificate as the trust anchor, the client certificate and key when both are
  given and the host name unless SNI is disabled, the binding of that socket, and one or more
  rounds of the handshake; every call whose failure matters answered 0, so did the last round,
  and every round before it asked for more.
\<close>

theorem TLS_Connect_success_is_verified:
  assumes "TLS_FreeRTOS_Connect env (Some ctx) (Some host) port (Some cr) rt st s =
      Some (TLS_TRANSPORT_SUCCESS, pctx, s')"
  shows "\<exists>ca k m. pRootCa cr = Some ca \<and> k = new_socket env s
    \<and> k \<noteq> FREERTOS_INVALID_SOCKET env \<and> pctx = Some (ctx\<lparr>tls_tcpSocket := k\<rparr>)
    \<and> calls s' = calls s @ tcp_calls env host port rt st s
        @ tls_init_calls @ init_calls @ [mbedtls_ssl_config_defaults]
        @ [mbedtls_ssl_conf_authmode_required, mbedtls_ssl_conf_rng,
           mbedtls_ssl_conf_cert_profile,
           mbedtls_x509_crt_parse Obj_rootCa ca (rootCaSize cr), mbedtls_ssl_conf_ca_chain]
        @ own_cert_calls cr @ optional_calls cr host
        @ [mbedtls_ssl_setup, mbedtls_ssl_set_bio k] @ replicate (Suc m) mbedtls_ssl_handshake
    \<and> all_ok env (calls s @ tcp_calls env host port rt st s) (tls_calls env host cr ca k)
    \<and> answer env (calls s @ tcp_calls env host port rt st s @ tls_calls env host cr ca k
          @ replicate m mbedtls_ssl_handshake) mbedtls_ssl_handshake = 0
    \<and> (\<forall>i < m. want_more env (answer env (calls s @ tcp_calls env host port rt st s
          @ tls_calls env host cr ca k @ replicate i mbedtls_ssl_handshake) mbedtls_ssl_handshake))"
proof -
  have "pRootCa cr \<noteq> None"
  proof
    assume "pRootCa cr = None"
    from tls_connect_no_ca [OF this, of env ctx host port rt st s] assms show False by simp
  qed
  then obtain ca where ca: "pRootCa cr = Some ca" by auto
  have con: "connects env host port s"
  proof (rule ccontr)
    assume "\<not> connects env host port s"
    from tls_connect_no_tcp [OF ca this, of ctx rt st] assms show False by auto
  qed
  from ca con assms show ?thesis
  proof (cases rule: tls_connect_outcome)
    case (1 m)
    have "tls_calls env host cr ca (new_socket env s) = tls_init_calls @ init_calls
        @ [mbedtls_ssl_config_defaults]
        @ [mbedtls_ssl_conf_authmode_required, mbedtls_ssl_conf_rng,
           mbedtls_ssl_conf_cert_profile,
           mbedtls_x509_crt_parse Obj_rootCa ca (rootCaSize cr), mbedtls_ssl_conf_ca_chain]
        @ own_cert_calls cr @ optional_calls cr host
        @ [mbedtls_ssl_setup, mbedtls_ssl_set_bio (new_socket env s)]"
      by (simp add: tls_calls_def setup_calls_def credential_calls_def)
    with 1 ca con show ?thesis
      by (intro exI [of _ ca] exI [of _ "new_socket env s"] exI [of _ m])
         (simp add: hs_answer_def connects_def)
  qed simp
qed

definition demo_credentials :: NetworkCredentials where
  "demo_credentials = \<lparr>pAlpnProtos = None, disableSni = 0, pRootCa = Some [1, 2, 3],
     rootCaSize = 3, pClientCert = None, clientCertSize = 0, pPrivateKey = None,
     privateKeySize = 0\<rparr>"

lemma good_env_connects: "connects good_env host port s"
  by (simp add: connects_def connect_defs good_env_def)

lemma good_env_tls:
  "\<exists>s'. TLS_FreeRTOS_Connect good_env (Some c) (Some host) port (Some demo_credentials) rt st s =
     Some (TLS_TRANSPORT_SUCCESS, Some (c\<lparr>tls_tcpSocket := 5\<rparr>), s')"
proof -
  have zero: "answer good_env h mbedtls_entropy_add_source = 0"
    "answer good_env h mbedtls_ctr_drbg_seed = 0" "answer good_env h mbedtls_ssl_config_defaults = 0"
    "answer good_env h (mbedtls_x509_crt_parse ob b n) = 0"
    "answer good_env h mbedtls_ssl_setup = 0" "answer good_env h mbedtls_ssl_handshake = 0"
    for h ob b n
    by (simp_all add: good_env_def)
  have want: "MBEDTLS_ERR_SSL_WANT_READ good_env = - 0x6900"
    "MBEDTLS_ERR_SSL_WANT_WRITE good_env = - 0x6880"
    by (simp_all add: good_env_def)
  have k: "new_socket good_env s = 5" by (simp add: new_socket_def good_env_def)
  have ca: "pRootCa demo_credentials = Some [1, 2, 3]" by (simp add: demo_credentials_def)
  show ?thesis
    by (subst tls_connect_after_tcp [OF ca good_env_connects])
       (simp add: Let_def initMbedtls_def do_call_calls zero tlsSetup_def sslContextInit_def
        setCredentials_def setRootCa_def setOptionalConfigurations_def tlsHandshake_def
        handshake_step want_more_def hs_answer_def want k demo_credentials_def)
qed

theorem TLS_Connect_success_is_verified_witness:
  "\<exists>s'. TLS_FreeRTOS_Connect good_env (Some \<lparr>tls_tcpSocket = 0\<rparr>) (Some ''broker'') 8883
      (Some demo_credentials) 100 100 \<lparr>calls = []\<rparr> =
        Some (TLS_TRANSPORT_SUCCESS, Some \<lparr>tls_tcpSocket = 5\<rparr>, s')
    \<and> mbedtls_ssl_conf_authmode_required \<in> set (calls s')
    \<and> mbedtls_x509_crt_parse Obj_rootCa [1, 2, 3] 3 \<in> set (calls s')"
proof -
  obtain s' where s': "TLS_FreeRTOS_Connect good_env (Some \<lparr>tls_tcpSocket = 0\<rparr>) (Some ''broker'')
      8883 (Some demo_credentials) 100 100 \<lparr>calls = []\<rparr> =
        Some (TLS_TRANSPORT_SUCCESS, Some \<lparr>tls_tcpSocket = 5\<rparr>, s')"
    using good_env_tls [of "\<lparr>tls_tcpSocket = 0\<rparr>" "''broker''" 8883 100 100 "\<lparr>calls = []\<rparr>"]
    by auto
  from TLS_Connect_success_is_verified [OF s'] s' show ?thesis
    by (auto simp: demo_credentials_def)
qed

text \<open>
  C20. A failing TLS_FreeRTOS_Connect that starts from a context without a socket, and a whole
  session of a successful connect and a disconnect, open exactly the sockets they close.
\<close>

theorem TLS_sockets_balanced:
  assumes "TLS_FreeRTOS_Connect env (Some c) (Some host) port (Some cr) rt st (s :: net_state) =
      Some (status, Some c1, s1)"
    and "status \<noteq> TLS_TRANSPORT_SUCCESS \<Longrightarrow> tls_tcpSocket c = FREERTOS_INVALID_SOCKET env"
  shows "\<exists>cs. opened env (calls s) cs = closed cs
    \<and> (if status = TLS_TRANSPORT_SUCCESS then made s (TLS_FreeRTOS_Disconnect env (Some c1) s1) cs
       else made s s1 cs)"
proof -
  have con: "tls_connect env (host, port, cr, rt, st) c s =
      Some (status = TLS_TRANSPORT_SUCCESS, c1, s1)"
    using assms(1) by (simp add: tls_connect_def)
  show ?thesis
  proof (cases "status = TLS_TRANSPORT_SUCCESS")
    case True
    have "tls_disconnect env c1 s1 = Some (TLS_FreeRTOS_Disconnect env (Some c1) s1)"
      by (simp add: tls_disconnect_def)
    moreover have "tls_connect env (host, port, cr, rt, st) c s = Some (True, c1, s1)"
      using con True by simp
    ultimately show ?thesis using tls.session_balanced True by fastforce
  next
    case False
    with tls.attempt_balanced [OF assms(2) con] show ?thesis by auto
  qed
qed

theorem TLS_sockets_balanced_witness:
  "\<exists>s1 cs. TLS_FreeRTOS_Connect good_env (Some \<lparr>tls_tcpSocket = 0\<rparr>) (Some ''broker'') 8883
      (Some demo_credentials) 100 100 \<lparr>calls = []\<rparr> =
        Some (TLS_TRANSPORT_SUCCESS, Some \<lparr>tls_tcpSocket = 5\<rparr>, s1)
    \<and> made \<lparr>calls = []\<rparr> (TLS_FreeRTOS_Disconnect good_env (Some \<lparr>tls_tcpSocket = 5\<rparr>) s1) cs
    \<and> opened good_env [] cs = closed cs"
proof -
  obtain s1 where s1: "TLS_FreeRTOS_Connect good_env (Some \<lparr>tls_tcpSocket = 0\<rparr>) (Some ''broker'')
      8883 (Some demo_credentials) 100 100 \<lparr>calls = []\<rparr> =
        Some (TLS_TRANSPORT_SUCCESS, Some \<lparr>tls_tcpSocket = 5\<rparr>, s1)"
    using good_env_tls [of "\<lparr>tls_tcpSocket = 0\<rparr>" "''broker''" 8883 100 100 "\<lparr>calls = []\<rparr>"]
    by auto
  from TLS_sockets_balanced [OF s1] s1 show ?thesis by auto
qed

text \<open>
  TLS_FreeRTOS_Connect can close a socket twice.  When an attempt obtains a socket and then
  fails, the context keeps the closed socket; when the next attempt with that context does not
  reach the broker, it closes the same socket again, although it was opened only once and has
  already been closed.
\<close>

theorem TLS_Connect_closes_twice:
  assumes "pRootCa cr = Some ca" and "connects env host port s"
    and "TLS_FreeRTOS_Connect env (Some c) (Some host) port (Some cr) rt st s =
      Some (status, Some c1, s1)" and "status \<noteq> TLS_TRANSPORT_SUCCESS"
    and "\<not> connects env host port s1"
  shows "\<exists>s2 cs fresh. TLS_FreeRTOS_Connect env (Some c1) (Some host) port (Some cr) rt st s1 =
      Some (TLS_TRANSPORT_CONNECT_FAILURE, Some c1, s2)
    \<and> made s s2 cs
    \<and> opened env (calls s) cs = new_socket env s # fresh
    \<and> closed cs = new_socket env s # fresh @ [new_socket env s]"
proof -
  let ?k = "new_socket env s" and ?tcp = "tcp_calls env host port rt st s"
  have k: "?k \<noteq> FREERTOS_INVALID_SOCKET env" using assms(2) by (simp add: connects_def)
  from assms(1,2,3) obtain s4 where s4: "c1 = c\<lparr>tls_tcpSocket := ?k\<rparr>"
    "quiet (do_calls ?tcp s) s4" "s1 = cleanup env ?k s4"
    by (cases rule: tls_connect_outcome) (use assms(4) in auto)
  from quiet_sockets [OF s4(2), of env] obtain cs where cs: "s4 = do_calls cs (do_calls ?tcp s)"
    "\<And>h. opened env h cs = []" "closed cs = []" by blast
  have h1: "calls s1 = calls s @ ?tcp @ cs @ free_calls @ [FreeRTOS_closesocket ?k]"
    using k cs(1) s4(3) by (simp add: cleanup_calls)
  from tls_connect_no_tcp [OF assms(1,5), of c1 rt st] obtain s3 ds where
    ds: "s3 = do_calls ds s1" "opened env (calls s1) ds = closed ds"
    "TLS_FreeRTOS_Connect env (Some c1) (Some host) port (Some cr) rt st s1 =
       Some (TLS_TRANSPORT_CONNECT_FAILURE, Some c1, cleanup env ?k s3)"
    using s4(1) by auto
  let ?cs = "?tcp @ cs @ free_calls @ [FreeRTOS_closesocket ?k] @ ds @ free_calls
    @ [FreeRTOS_closesocket ?k]"
  have "made s (cleanup env ?k s3) ?cs"
    using k h1 ds(1) by (simp add: made_def cleanup_calls)
  moreover have "opened env (calls s) ?cs = ?k # closed ds"
    using tcp_calls_sockets [OF assms(2)] cs(2) ds(2) h1
    by (simp add: opened_append free_calls_sockets)
  moreover have "closed ?cs = ?k # closed ds @ [?k]"
    using tcp_calls_sockets [OF assms(2)] cs(3) by (simp add: free_calls_sockets)
  ultimately show ?thesis using ds(3) by blast
qed

text \<open>An environment whose handshake fails and which then has no more sockets.\<close>

definition bad_env :: net_env where
  "bad_env = good_env\<lparr>answer := (\<lambda>h c. case c of
     FreeRTOS_socket \<Rightarrow> if FreeRTOS_socket \<in> set h then - 1 else 5
   | FreeRTOS_gethostbyname _ \<Rightarrow> 1 | mbedtls_ssl_handshake \<Rightarrow> - 1 | _ \<Rightarrow> 0)\<rparr>"

theorem TLS_Connect_closes_twice_witness:
  "\<exists>s1 s2 cs. TLS_FreeRTOS_Connect bad_env (Some \<lparr>tls_tcpSocket = 0\<rparr>) (Some ''broker'') 8883
      (Some demo_credentials) 100 100 \<lparr>calls = []\<rparr> =
        Some (TLS_TRANSPORT_HANDSHAKE_FAILED, Some \<lparr>tls_tcpSocket = 5\<rparr>, s1)
    \<and> made \<lparr>calls = []\<rparr> s2 cs \<and> closed cs = opened bad_env [] cs @ [5]"
proof -
  have zero: "answer bad_env h mbedtls_entropy_add_source = 0"
    "answer bad_env h mbedtls_ctr_drbg_seed = 0" "answer bad_env h mbedtls_ssl_config_defaults = 0"
    "answer bad_env h (mbedtls_x509_crt_parse ob b n) = 0"
    "answer bad_env h mbedtls_ssl_setup = 0" "answer bad_env h mbedtls_ssl_handshake = - 1"
    for h ob b n
    by (simp_all add: bad_env_def)
  have want: "MBEDTLS_ERR_SSL_WANT_READ bad_env = - 0x6900"
    "MBEDTLS_ERR_SSL_WANT_WRITE bad_env = - 0x6880" "FREERTOS_INVALID_SOCKET bad_env = - 1"
    by (simp_all add: bad_env_def good_env_def)
  have k: "new_socket bad_env \<lparr>calls = []\<rparr> = 5" by (simp add: new_socket_def bad_env_def)
  have ca: "pRootCa demo_credentials = Some [1, 2, 3]" by (simp add: demo_credentials_def)
  have con: "connects bad_env ''broker'' 8883 \<lparr>calls = []\<rparr>"
    by (simp add: connects_def connect_defs bad_env_def good_env_def)
  have "\<exists>s1. TLS_FreeRTOS_Connect bad_env (Some \<lparr>tls_tcpSocket = 0\<rparr>) (Some ''broker'') 8883
      (Some demo_credentials) 100 100 \<lparr>calls = []\<rparr> =
        Some (TLS_TRANSPORT_HANDSHAKE_FAILED, Some \<lparr>tls_tcpSocket = 5\<rparr>, s1)
      \<and> FreeRTOS_socket \<in> set (calls s1)"
    by (subst tls_connect_after_tcp [OF ca con])
       (simp add: Let_def initMbedtls_def do_call_calls zero tlsSetup_def sslContextInit_def
        setCredentials_def setRootCa_def setOptionalConfigurations_def tlsHandshake_def
        handshake_step want_more_def hs_answer_def want k demo_credentials_def cleanup_calls
        tcp_calls_def)
  then obtain s1 where s1: "TLS_FreeRTOS_Connect bad_env (Some \<lparr>tls_tcpSocket = 0\<rparr>)
      (Some ''broker'') 8883 (Some demo_credentials) 100 100 \<lparr>calls = []\<rparr> =
        Some (TLS_TRANSPORT_HANDSHAKE_FAILED, Some \<lparr>tls_tcpSocket = 5\<rparr>, s1)"
    and again: "FreeRTOS_socket \<in> set (calls s1)" by blast
  from again have nocon: "new_socket bad_env s1 = FREERTOS_INVALID_SOCKET bad_env"
    by (simp add: new_socket_def want) (simp add: bad_env_def)
  then have "\<not> connects bad_env ''broker'' 8883 s1" by (simp add: connects_def)
  from TLS_Connect_closes_twice [OF ca con s1 _ this] k s1 show ?thesis by fastforce
qed

text \<open>
  The handshake, completely: a refused session setup is an internal error; otherwise the
  code repeats the handshake up to the first round that does not ask for another one and reports
  success exactly when that round answers 0.  When every round asks for another one it does not
  return; nothing in the code bounds the number of rounds.
\<close>

theorem tlsHandshake_rounds:
  "tlsHandshake env ctx s =
     (let s1 = do_calls [mbedtls_ssl_setup] s;
          s2 = do_calls [mbedtls_ssl_set_bio (tls_tcpSocket ctx)] s1;
          ends = (\<lambda>m. \<not> want_more env (hs_answer env s2 m));
          last = (LEAST m. ends m)
      in if answer env (calls s) mbedtls_ssl_setup \<noteq> 0 then Some (TLS_TRANSPORT_INTERNAL_ERROR, s1)
         else if \<exists>m. ends m
         then Some (if hs_answer env s2 last = 0 then TLS_TRANSPORT_SUCCESS
                    else TLS_TRANSPORT_HANDSHAKE_FAILED,
                    do_calls (replicate (Suc last) mbedtls_ssl_handshake) s2)
         else None)"
proof (cases "answer env (calls s) mbedtls_ssl_setup = 0")
  case False
  then show ?thesis by (simp add: tlsHandshake_def do_call_calls)
next
  case True
  let ?s = "do_calls [mbedtls_ssl_setup, mbedtls_ssl_set_bio (tls_tcpSocket ctx)] s"
  let ?ends = "\<lambda>m. \<not> want_more env (hs_answer env ?s m)"
  have run: "tlsHandshake env ctx s = Option.bind (handshake_loop env ?s)
      (\<lambda>(e2, s3). if e2 \<noteq> 0 then Some (TLS_TRANSPORT_HANDSHAKE_FAILED, s3)
                  else Some (TLS_TRANSPORT_SUCCESS, s3))"
    using True by (simp add: tlsHandshake_def do_call_calls)
  show ?thesis
  proof (cases "\<exists>m. ?ends m")
    case ends: True
    then have "handshake_loop env ?s = Some (hs_answer env ?s (LEAST m. ?ends m),
        do_calls (replicate (Suc (LEAST m. ?ends m)) mbedtls_ssl_handshake) ?s)"
      by (intro handshake_ends) (metis (mono_tags, lifting) LeastI_ex not_less_Least)+
    then show ?thesis using True ends by (simp add: run Let_def del: replicate_Suc)
  next
    case False
    then have "handshake_loop env ?s = None"
      using handshake_returns [of env ?s] by (cases "handshake_loop env ?s") metis+
    then show ?thesis using True False by (simp add: run Let_def)
  qed
qed

end
