(* ===== verification/Tls_Pkcs11.thy ===== *)
theory Tls_Pkcs11
  imports Tls_Transport
begin

text \<open>
  lib/FreeRTOS/network_transport/freertos_plus_tcp/using_mbedtls_pkcs11/using_mbedtls_pkcs11.c:
  the TLS transport whose private key and client certificate stay in a PKCS #11 module.

  mbedTLS, corePKCS11, FreeRTOS+TCP and the heap are calls answered by the environment, as in
  the other transport; what a call writes through its output pointer is a second answer.  The
  context keeps what the code reads again: the socket, the certificate profile's RSA bound,
  the session, the key and its type, the function list (an address, 0 for \<open>NULL\<close>; every other
  value is taken for the module's list) and whether \<open>privKey\<close> signs with the callback.
\<close>

section \<open>Data\<close>

datatype mbedtls_pk_type = MBEDTLS_PK_RSA | MBEDTLS_PK_ECKEY

record P11_Context =
  p11_tcpSocket :: Socket
  rsa_min_bitlen :: u32
  privKeyInfo :: "mbedtls_pk_type option"
  pxP11FunctionList :: u32
  xP11Session :: u32
  xP11PrivateKey :: u32
  xKeyType :: u32

record P11_Credentials =
  p11_pAlpnProtos :: "string list option"
  p11_disableSni :: int
  p11_pRootCa :: "u8 list option"
  p11_rootCaSize :: nat
  p11_pUserName :: "u8 list option"
  p11_userNameSize :: nat
  p11_pPassword :: "u8 list option"
  p11_passwordSize :: nat

text \<open>
  What the headers of corePKCS11 and mbedTLS and the application's PKCS #11 configuration
  provide.  \<open>p11_out\<close> is the word that a call stores through its output pointer, if it stores
  one; \<open>p11_bytes\<close> is what its output buffer holds after the call.
\<close>

record p11_env =
  p11_out :: "net_call list \<Rightarrow> net_call \<Rightarrow> u32 option"
  p11_bytes :: "net_call list \<Rightarrow> net_call \<Rightarrow> u8 list"
  CKR_OK :: u32
  CKR_HOST_MEMORY :: u32
  CKR_ARGUMENTS_BAD :: u32
  CKR_FUNCTION_FAILED :: u32
  CKR_ATTRIBUTE_VALUE_INVALID :: u32
  CKR_OBJECT_HANDLE_INVALID :: u32
  CK_INVALID_HANDLE :: u32
  CKK_RSA :: u32
  CKK_EC :: u32
  configPKCS11_DEFAULT_USER_PIN :: string
  pkcs11configLABEL_DEVICE_PRIVATE_KEY_FOR_TLS :: string
  pkcs11configLABEL_DEVICE_CERTIFICATE_FOR_TLS :: string
  pkcs11RSA_SIGNATURE_INPUT_LENGTH :: nat
  pkcs11ECDSA_P256_SIGNATURE_LENGTH :: u32
  default_rsa_min_bitlen :: u32
  mbedtls_pk_info_from_type :: "mbedtls_pk_type \<Rightarrow> bool"
  vAppendSHA256AlgorithmIdentifierSequence :: "u8 list \<Rightarrow> u32 \<times> u8 list"
  PKI_pkcs11SignatureTombedTLSSignature :: "u8 list \<Rightarrow> u8 list"

text \<open>The values that PKCS #11 fixes, as far as the code depends on them.\<close>

definition pkcs11_standard :: "p11_env \<Rightarrow> bool" where
  "pkcs11_standard p \<longleftrightarrow>
     CKR_OK p = 0 \<and> CK_INVALID_HANDLE p = 0 \<and> CKR_HOST_MEMORY p = 2 \<and> CKR_ARGUMENTS_BAD p = 7
     \<and> CKR_FUNCTION_FAILED p = 6 \<and> CKR_ATTRIBUTE_VALUE_INVALID p = 0x13
     \<and> CKR_OBJECT_HANDLE_INVALID p = 0x82 \<and> CKK_RSA p = 0 \<and> CKK_EC p = 3"

section \<open>Calls of the module and of the heap\<close>

text \<open>A call that returns a \<open>CK_RV\<close> or a pointer.\<close>

definition ck_call :: "net_env \<Rightarrow> net_call \<Rightarrow> 'x net_state_scheme \<Rightarrow> u32 \<times> 'x net_state_scheme" where
  "ck_call env c s = (let (r, s') = do_call env c s in (of_int r, s'))"

text \<open>A call through the function list, which must not be \<open>NULL\<close>.\<close>

definition list_call ::
  "net_env \<Rightarrow> P11_Context \<Rightarrow> net_call \<Rightarrow> 'x net_state_scheme \<Rightarrow> (u32 \<times> 'x net_state_scheme) option" where
  "list_call env ctx c s =
     (if pxP11FunctionList ctx = 0 then None else Some (ck_call env c s))"

text \<open>The value of an output variable after a call: the one before it when nothing is stored.\<close>

definition stored :: "p11_env \<Rightarrow> 'x net_state_scheme \<Rightarrow> net_call \<Rightarrow> u32 \<Rightarrow> u32" where
  "stored p s c old = (case p11_out p (calls s) c of Some v \<Rightarrow> v | None \<Rightarrow> old)"

section \<open>Context\<close>

text \<open>The results of the two PKCS #11 calls are ignored.\<close>

definition p11_init_calls :: "net_call list" where
  "p11_init_calls = [mbedtls_init Obj_config, mbedtls_init Obj_rootCa, mbedtls_init Obj_clientCert,
     mbedtls_init Obj_context]"

definition p11_sslContextInit ::
  "p11_env \<Rightarrow> P11_Context \<Rightarrow> 'x net_state_scheme \<Rightarrow> P11_Context \<times> 'x net_state_scheme" where
  "p11_sslContextInit p ctx s =
     (let s1 = do_calls p11_init_calls s;
          ctx1 = ctx\<lparr>xP11Session := stored p s1 xInitializePkcs11Session (xP11Session ctx)\<rparr>;
          s2 = do_calls [xInitializePkcs11Session] s1;
          ctx2 = ctx1\<lparr>pxP11FunctionList := stored p s2 C_GetFunctionList (pxP11FunctionList ctx1)\<rparr>
      in (ctx2, do_calls [C_GetFunctionList] s2))"

definition p11_free_calls :: "P11_Context \<Rightarrow> net_call list" where
  "p11_free_calls ctx = [mbedtls_free Obj_context, mbedtls_free Obj_rootCa,
     mbedtls_free Obj_clientCert, mbedtls_free Obj_config, C_CloseSession (xP11Session ctx)]"

definition p11_sslContextFree ::
  "P11_Context \<Rightarrow> 'x net_state_scheme \<Rightarrow> 'x net_state_scheme option" where
  "p11_sslContextFree ctx s =
     (if pxP11FunctionList ctx = 0 then None else Some (do_calls (p11_free_calls ctx) s))"

section \<open>Random bytes, certificate and key\<close>

text \<open>The result is a \<open>CK_RV\<close> read as an \<open>int32_t\<close>, with the bytes left in the buffer.\<close>

definition generateRandomBytes ::
  "net_env \<Rightarrow> p11_env \<Rightarrow> P11_Context \<Rightarrow> nat \<Rightarrow> 'x net_state_scheme
   \<Rightarrow> (int \<times> u8 list \<times> 'x net_state_scheme) option" where
  "generateRandomBytes env p ctx xRandomLength s = do {
     let c = C_GenerateRandom (xP11Session ctx) xRandomLength;
     (xResult, s1) \<leftarrow> list_call env ctx c s;
     Some (sint xResult, p11_bytes p (calls s) c, s1)
   }"

definition readCertificateIntoContext ::
  "net_env \<Rightarrow> p11_env \<Rightarrow> P11_Context \<Rightarrow> string \<Rightarrow> p11_class \<Rightarrow> ssl_object \<Rightarrow> 'x net_state_scheme
   \<Rightarrow> (u32 \<times> 'x net_state_scheme) option" where
  "readCertificateIntoContext env p ctx pcLabelName xClass pxCertificateContext s0 = do {
     let find = xFindObjectWithLabelAndClass (xP11Session ctx) pcLabelName xClass;
     let (x1, s1) = ck_call env find s0;
     let xCertObj = stored p s0 find 0;
     let x2 = (if x1 = CKR_OK p \<and> xCertObj = CK_INVALID_HANDLE p
               then CKR_OBJECT_HANDLE_INVALID p else x1);
     let get = C_GetAttributeValue (xP11Session ctx) xCertObj (CKA_VALUE 0 0);
     (x3, ulValueLen, s2) \<leftarrow>
       (if x2 = CKR_OK p
        then do { (x, s) \<leftarrow> list_call env ctx get s1; Some (x, stored p s1 get 0, s) }
        else Some (x2, 0, s1));
     let (x4, pValue, s3) =
       (if x3 = CKR_OK p
        then let (a, s) = ck_call env (pvPortMalloc_call ulValueLen) s2
             in (if a = 0 then CKR_HOST_MEMORY p else x3, a, s)
        else (x3, 0, s2));
     let export = C_GetAttributeValue (xP11Session ctx) xCertObj (CKA_VALUE pValue ulValueLen);
     (x5, len, s4) \<leftarrow>
       (if x4 = CKR_OK p
        then do { (x, s) \<leftarrow> list_call env ctx export s3; Some (x, stored p s3 export ulValueLen, s) }
        else Some (x4, ulValueLen, s3));
     let (x6, s5) =
       (if x5 = CKR_OK p
        then ck_call env (mbedtls_x509_crt_parse pxCertificateContext
               (p11_bytes p (calls s3) export) (unat len)) s4
        else (x5, s4));
     Some (x6, do_calls [vPortFree_call pValue] s5)
   }"

definition initializeClientKeys ::
  "net_env \<Rightarrow> p11_env \<Rightarrow> P11_Context \<Rightarrow> 'x net_state_scheme
   \<Rightarrow> (u32 \<times> P11_Context \<times> 'x net_state_scheme) option" where
  "initializeClientKeys env p ctx s0 = do {
     (x1, s1) \<leftarrow> list_call env ctx (C_GetSlotList 0) s0;
     let xCount = stored p s0 (C_GetSlotList 0) 0;
     let (x2, pxSlotIds, s2) =
       (if x1 = CKR_OK p
        then let (a, s) = ck_call env (pvPortMalloc_call (4 * xCount)) s1
             in (if a = 0 then CKR_HOST_MEMORY p else x1, a, s)
        else (x1, 0, s1));
     (x3, s3) \<leftarrow> (if x2 = CKR_OK p then list_call env ctx (C_GetSlotList pxSlotIds) s2
                  else Some (x2, s2));
     (x4, s4) \<leftarrow> (if x3 = CKR_OK p
                  then list_call env ctx (C_Login (xP11Session ctx) (configPKCS11_DEFAULT_USER_PIN p)) s3
                  else Some (x3, s3));
     let find = xFindObjectWithLabelAndClass (xP11Session ctx)
                  (pkcs11configLABEL_DEVICE_PRIVATE_KEY_FOR_TLS p) CKO_PRIVATE_KEY;
     let (x5, ctx5, s5) =
       (if x4 = CKR_OK p
        then let (x, s) = ck_call env find s4
             in (x, ctx\<lparr>xP11PrivateKey := stored p s4 find (xP11PrivateKey ctx)\<rparr>, s)
        else (x4, ctx, s4));
     let x6 = (if x5 = CKR_OK p \<and> xP11PrivateKey ctx5 = CK_INVALID_HANDLE p
               then CK_INVALID_HANDLE p else x5);
     let get = C_GetAttributeValue (xP11Session ctx5) (xP11PrivateKey ctx5) CKA_KEY_TYPE;
     (x7, ctx7, s7) \<leftarrow>
       (if x6 = CKR_OK p
        then do {
          (x, s) \<leftarrow> list_call env ctx5 get s5;
          Some (x, ctx5\<lparr>xKeyType := stored p s5 get (xKeyType ctx5)\<rparr>, s)
        }
        else Some (x6, ctx5, s5));
     let (x8, xKeyAlgo) =
       (if x7 = CKR_OK p
        then if xKeyType ctx7 = CKK_RSA p then (x7, Some MBEDTLS_PK_RSA)
             else if xKeyType ctx7 = CKK_EC p then (x7, Some MBEDTLS_PK_ECKEY)
             else (CKR_ATTRIBUTE_VALUE_INVALID p, None)
        else (x7, None));
     ctx8 \<leftarrow>
       (if x8 = CKR_OK p
        then do {
          algo \<leftarrow> xKeyAlgo;
          if mbedtls_pk_info_from_type p algo then Some (ctx7\<lparr>privKeyInfo := Some algo\<rparr>) else None
        }
        else Some ctx7);
     Some (x8, ctx8, do_calls [vPortFree_call pxSlotIds] s7)
   }"

section \<open>Signing\<close>

text \<open>
  \<open>pucSig\<close> and \<open>pxSigLen\<close> are the contents of mbedTLS's signature buffer and of its length
  variable, returned as the callback leaves them.  The local buffer has 256 bytes; copying
  more into it is outside the model.  \<open>xToBeSigned\<close> is the part of it that is written.
\<close>

definition xToBeSigned_size :: nat where
  "xToBeSigned_size = 256"

definition privateKeySigningCallback ::
  "net_env \<Rightarrow> p11_env \<Rightarrow> P11_Context \<Rightarrow> u8 list \<Rightarrow> u8 list \<Rightarrow> u32 \<Rightarrow> 'x net_state_scheme
   \<Rightarrow> (int \<times> u8 list \<times> u32 \<times> 'x net_state_scheme) option" where
  "privateKeySigningCallback env p ctx pucHash pucSig pxSigLen s0 = do {
     let lFinalResult = 0;
     let x0 = (if length pucHash > xToBeSigned_size then CKR_ARGUMENTS_BAD p else CKR_OK p);
     (x1, xMech, xToBeSigned) \<leftarrow>
       (if xKeyType ctx = CKK_RSA p
        then let (x, bytes) = vAppendSHA256AlgorithmIdentifierSequence p pucHash
             in Some (x, CKM_RSA_PKCS, take (pkcs11RSA_SIGNATURE_INPUT_LENGTH p) bytes)
        else if xKeyType ctx = CKK_EC p
        then if length pucHash > xToBeSigned_size then None
             else Some (x0, CKM_ECDSA, pucHash)
        else Some (CKR_ARGUMENTS_BAD p, CKM_RSA_PKCS, []));
     (x2, s2) \<leftarrow>
       (if x1 = CKR_OK p
        then list_call env ctx (C_SignInit (xP11Session ctx) xMech (xP11PrivateKey ctx)) s0
        else Some (x1, s0));
     let sign = C_Sign (xP11Session ctx) xToBeSigned;
     (x3, sig3, len3, s3) \<leftarrow>
       (if x2 = CKR_OK p
        then do {
          (x, s) \<leftarrow> list_call env ctx sign s2;
          Some (x, p11_bytes p (calls s2) sign,
                stored p s2 sign (of_nat xToBeSigned_size), s)
        }
        else Some (x2, pucSig, pxSigLen, s2));
     let (x4, sig4, len4) =
       (if x3 = CKR_OK p \<and> xKeyType ctx = CKK_EC p
        then if len3 \<noteq> pkcs11ECDSA_P256_SIGNATURE_LENGTH p
             then (CKR_FUNCTION_FAILED p, sig3, len3)
             else let asn1 = PKI_pkcs11SignatureTombedTLSSignature p sig3
                  in (x3, asn1, of_nat (length asn1))
        else (x3, sig3, len3));
     Some (lFinalResult, sig4, len4, s3)
   }"

section \<open>Setting up a TLS session\<close>

text \<open>A call that is made when nothing has failed yet, and whose own failure is \<open>err\<close>.\<close>

definition setup_call ::
  "net_env \<Rightarrow> net_call \<Rightarrow> TlsTransportStatus \<Rightarrow> TlsTransportStatus \<times> 'x net_state_scheme
   \<Rightarrow> TlsTransportStatus \<times> 'x net_state_scheme" where
  "setup_call env c err ss =
     (case ss of (st, s) \<Rightarrow>
        if st = TLS_TRANSPORT_SUCCESS
        then let (mbedtlsError, s') = do_call env c s
             in (if mbedtlsError \<noteq> 0 then err else st, s')
        else (st, s))"

definition after_success ::
  "net_call list \<Rightarrow> TlsTransportStatus \<times> 'x net_state_scheme \<Rightarrow> TlsTransportStatus \<times> 'x net_state_scheme"
  where
  "after_success cs ss =
     (case ss of (st, s) \<Rightarrow> (st, if st = TLS_TRANSPORT_SUCCESS then do_calls cs s else s))"

text \<open>The profile, the verification mode and the trust anchor.\<close>

definition test_broker :: string where
  "test_broker = ''test.mosquitto.org''"

definition setup_profile :: "p11_env \<Rightarrow> string \<Rightarrow> P11_Context \<Rightarrow> P11_Context" where
  "setup_profile p pHostName ctx =
     (let ctx' = ctx\<lparr>rsa_min_bitlen := default_rsa_min_bitlen p\<rparr>
      in if strncmp pHostName test_broker (length pHostName) = 0
         then ctx'\<lparr>rsa_min_bitlen := 1024\<rparr> else ctx')"

definition setup_trust ::
  "net_env \<Rightarrow> p11_env \<Rightarrow> string \<Rightarrow> u8 list \<Rightarrow> nat \<Rightarrow> P11_Context
   \<Rightarrow> TlsTransportStatus \<times> 'x net_state_scheme
   \<Rightarrow> P11_Context \<times> TlsTransportStatus \<times> 'x net_state_scheme" where
  "setup_trust env p pHostName ca caSize ctx ss =
     (if fst ss = TLS_TRANSPORT_SUCCESS
      then (setup_profile p pHostName ctx,
            after_success [mbedtls_ssl_conf_ca_chain]
              (setup_call env (mbedtls_x509_crt_parse Obj_rootCa ca caSize)
                 TLS_TRANSPORT_INVALID_CREDENTIALS
                 (after_success [mbedtls_ssl_conf_authmode_required, mbedtls_ssl_conf_rng,
                    mbedtls_ssl_conf_cert_profile] ss)))
      else (ctx, ss))"

definition setup_identity ::
  "net_env \<Rightarrow> p11_env \<Rightarrow> P11_Context \<times> TlsTransportStatus \<times> 'x net_state_scheme
   \<Rightarrow> (P11_Context \<times> TlsTransportStatus \<times> 'x net_state_scheme) option" where
  "setup_identity env p css =
     (case css of (ctx, st, s) \<Rightarrow>
        if st = TLS_TRANSPORT_SUCCESS
        then do {
          (xResult, ctx1, s1) \<leftarrow> initializeClientKeys env p ctx s;
          if xResult \<noteq> CKR_OK p then Some (ctx1, TLS_TRANSPORT_INVALID_CREDENTIALS, s1)
          else do {
            (xResult, s2) \<leftarrow> readCertificateIntoContext env p ctx1
               (pkcs11configLABEL_DEVICE_CERTIFICATE_FOR_TLS p) CKO_CERTIFICATE Obj_clientCert s1;
            if xResult \<noteq> CKR_OK p then Some (ctx1, TLS_TRANSPORT_INVALID_CREDENTIALS, s2)
            else Some (ctx1, st, do_calls [mbedtls_ssl_conf_own_cert] s2)
          }
        }
        else Some (ctx, st, s))"

definition setup_session ::
  "net_env \<Rightarrow> P11_Context \<Rightarrow> string \<Rightarrow> P11_Credentials \<Rightarrow> TlsTransportStatus \<times> 'x net_state_scheme
   \<Rightarrow> TlsTransportStatus \<times> 'x net_state_scheme" where
  "setup_session env ctx pHostName cr ss =
     (let ss1 = (case p11_pAlpnProtos cr of
                   Some protos \<Rightarrow> setup_call env (mbedtls_ssl_conf_alpn_protocols protos)
                                    TLS_TRANSPORT_INTERNAL_ERROR ss
                 | None \<Rightarrow> ss);
          ss2 = after_success [mbedtls_ssl_set_bio (p11_tcpSocket ctx)]
                  (setup_call env mbedtls_ssl_setup TLS_TRANSPORT_INTERNAL_ERROR ss1);
          ss3 = (if p11_disableSni cr = 0
                 then setup_call env (mbedtls_ssl_set_hostname pHostName)
                        TLS_TRANSPORT_INTERNAL_ERROR ss2
                 else ss2)
      in setup_call env mbedtls_ssl_conf_max_frag_len TLS_TRANSPORT_INTERNAL_ERROR ss3)"

definition setup_handshake ::
  "net_env \<Rightarrow> TlsTransportStatus \<times> 'x net_state_scheme
   \<Rightarrow> (TlsTransportStatus \<times> 'x net_state_scheme) option" where
  "setup_handshake env ss =
     (case ss of (st, s) \<Rightarrow>
        if st = TLS_TRANSPORT_SUCCESS
        then do {
          (mbedtlsError, s') \<leftarrow> handshake_loop env s;
          Some (if mbedtlsError \<noteq> 0 then TLS_TRANSPORT_HANDSHAKE_FAILED else st, s')
        }
        else Some (st, s))"

definition p11_tlsSetup ::
  "net_env \<Rightarrow> p11_env \<Rightarrow> P11_Context \<Rightarrow> string option \<Rightarrow> P11_Credentials \<Rightarrow> 'x net_state_scheme
   \<Rightarrow> (P11_Context \<times> TlsTransportStatus \<times> 'x net_state_scheme) option" where
  "p11_tlsSetup env p ctx pHostName cr s = do {
     _ \<leftarrow> configASSERT (pHostName \<noteq> None);
     host \<leftarrow> pHostName;
     _ \<leftarrow> configASSERT (p11_pRootCa cr \<noteq> None);
     ca \<leftarrow> p11_pRootCa cr;
     let (ctx1, s1) = p11_sslContextInit p ctx s;
     let ss2 = setup_call env mbedtls_ssl_config_defaults TLS_TRANSPORT_INSUFFICIENT_MEMORY
                 (TLS_TRANSPORT_SUCCESS, s1);
     (ctx3, ss3) \<leftarrow> setup_identity env p
                      (setup_trust env p host ca (p11_rootCaSize cr) ctx1 ss2);
     (st4, s4) \<leftarrow> setup_handshake env (setup_session env ctx3 host cr ss3);
     s5 \<leftarrow> (if st4 \<noteq> TLS_TRANSPORT_SUCCESS then p11_sslContextFree ctx3 s4 else Some s4);
     Some (ctx3, st4, s5)
   }"

definition p11_initMbedtls :: "'x net_state_scheme \<Rightarrow> TlsTransportStatus \<times> 'x net_state_scheme" where
  "p11_initMbedtls s = (TLS_TRANSPORT_SUCCESS, do_calls [mbedtls_threading_set_alt] s)"

section \<open>The transport interface\<close>

definition P11_FreeRTOS_Connect ::
  "net_env \<Rightarrow> p11_env \<Rightarrow> P11_Context option \<Rightarrow> string option \<Rightarrow> u16 \<Rightarrow> P11_Credentials option
   \<Rightarrow> u32 \<Rightarrow> u32 \<Rightarrow> 'x net_state_scheme
   \<Rightarrow> (TlsTransportStatus \<times> P11_Context option \<times> 'x net_state_scheme) option" where
  "P11_FreeRTOS_Connect env p pNetworkContext pHostName port pNetworkCredentials
     receiveTimeoutMs sendTimeoutMs s0 = do {
     let st0 =
       (if pNetworkContext = None \<or> pHostName = None \<or> pNetworkCredentials = None
        then TLS_TRANSPORT_INVALID_PARAMETER
        else if p11_pRootCa (the pNetworkCredentials) = None
        then TLS_TRANSPORT_INVALID_PARAMETER
        else TLS_TRANSPORT_SUCCESS);
     (pctx1, st1, s1) \<leftarrow>
       (if st0 = TLS_TRANSPORT_SUCCESS then do {
          ctx \<leftarrow> pNetworkContext;
          host \<leftarrow> pHostName;
          let (socketStatus, sock, s1) = Sockets_Connect env (p11_tcpSocket ctx) host port
                receiveTimeoutMs sendTimeoutMs s0;
          Some (Some (ctx\<lparr>p11_tcpSocket := sock\<rparr>),
                if socketStatus \<noteq> 0 then TLS_TRANSPORT_CONNECT_FAILURE else st0, s1)
        }
        else Some (pNetworkContext, st0, s0));
     let (st2, s2) = (if st1 = TLS_TRANSPORT_SUCCESS then p11_initMbedtls s1 else (st1, s1));
     (pctx3, st3, s3) \<leftarrow>
       (if st2 = TLS_TRANSPORT_SUCCESS then do {
          ctx \<leftarrow> pctx1;
          cr \<leftarrow> pNetworkCredentials;
          (ctx', st, s) \<leftarrow> p11_tlsSetup env p ctx pHostName cr s2;
          Some (Some ctx', st, s)
        }
        else Some (pctx1, st2, s2));
     Some (st3, pctx3,
       case pctx3 of
         Some ctx \<Rightarrow>
           if st3 \<noteq> TLS_TRANSPORT_SUCCESS \<and> p11_tcpSocket ctx \<noteq> FREERTOS_INVALID_SOCKET env
           then do_calls [FreeRTOS_closesocket (p11_tcpSocket ctx)] s3 else s3
       | None \<Rightarrow> s3)
   }"

definition P11_FreeRTOS_Disconnect ::
  "net_env \<Rightarrow> P11_Context option \<Rightarrow> 'x net_state_scheme \<Rightarrow> 'x net_state_scheme option" where
  "P11_FreeRTOS_Disconnect env pNetworkContext s = do {
     s1 \<leftarrow> (case pNetworkContext of
         Some ctx \<Rightarrow>
           p11_sslContextFree ctx
             (Sockets_Disconnect env (p11_tcpSocket ctx) (do_calls [mbedtls_ssl_close_notify] s))
       | None \<Rightarrow> Some s);
     Some (do_calls [mbedtls_threading_free_alt] s1)
   }"

definition P11_FreeRTOS_recv ::
  "net_env \<Rightarrow> nat \<Rightarrow> 'x net_state_scheme \<Rightarrow> int \<times> 'x net_state_scheme" where
  "P11_FreeRTOS_recv env bytesToRecv s =
     (let (r, s1) = do_call env (mbedtls_ssl_read bytesToRecv) s in (tls_status env r, s1))"

definition P11_FreeRTOS_send ::
  "net_env \<Rightarrow> u8 list \<Rightarrow> 'x net_state_scheme \<Rightarrow> int \<times> 'x net_state_scheme" where
  "P11_FreeRTOS_send env bytes s =
     (let (r, s1) = do_call env (mbedtls_ssl_write bytes) s in (tls_status env r, s1))"

section \<open>What the calls acquire and release\<close>

text \<open>
  The heap blocks that the calls \<open>cs\<close>, made after the history \<open>h\<close>, obtained, those they freed,
  the number of PKCS #11 sessions they asked for and the sessions they closed.
\<close>

fun allocated :: "net_env \<Rightarrow> net_call list \<Rightarrow> net_call list \<Rightarrow> u32 list" where
  "allocated env h [] = []"
| "allocated env h (c # cs) =
     (case c of
        pvPortMalloc_call n \<Rightarrow> if (of_int (answer env h c) :: u32) \<noteq> 0 then [of_int (answer env h c)] else []
      | _ \<Rightarrow> []) @ allocated env (h @ [c]) cs"

definition freed :: "net_call list \<Rightarrow> u32 list" where
  "freed cs = concat (map (\<lambda>c. case c of vPortFree_call a \<Rightarrow> if a \<noteq> 0 then [a] else [] | _ \<Rightarrow> []) cs)"

definition closed_sessions :: "net_call list \<Rightarrow> u32 list" where
  "closed_sessions cs = concat (map (\<lambda>c. case c of C_CloseSession h \<Rightarrow> [h] | _ \<Rightarrow> []) cs)"

lemma allocated_append:
  "allocated env h (cs @ ds) = allocated env h cs @ allocated env (h @ cs) ds"
  by (induction cs arbitrary: h) simp_all

lemma freed_simps [simp]:
  "freed [] = []"
  "freed (c # cs) = (case c of vPortFree_call a \<Rightarrow> if a \<noteq> 0 then [a] else [] | _ \<Rightarrow> []) @ freed cs"
  "freed (cs @ ds) = freed cs @ freed ds"
  by (simp_all add: freed_def)

lemma closed_sessions_simps [simp]:
  "closed_sessions [] = []"
  "closed_sessions (c # cs) = (case c of C_CloseSession h \<Rightarrow> [h] | _ \<Rightarrow> []) @ closed_sessions cs"
  "closed_sessions (cs @ ds) = closed_sessions cs @ closed_sessions ds"
  by (simp_all add: closed_sessions_def)

lemma neutral_p11 [simp]:
  "neutral xInitializePkcs11Session" "neutral C_GetFunctionList" "neutral (C_CloseSession h)"
  "neutral (C_GenerateRandom h k)" "neutral (C_GetSlotList a)" "neutral (C_Login h pin)"
  "neutral (xFindObjectWithLabelAndClass h l cl)" "neutral (C_GetAttributeValue h ob at)"
  "neutral (C_SignInit h m ob)" "neutral (C_Sign h bytes)" "neutral (pvPortMalloc_call m32)"
  "neutral (vPortFree_call a)"
  by (simp_all add: neutral_def closes_of_def transport_call_def)

text \<open>
  A tidy piece of code touches no socket and no session and frees every block it allocates.
\<close>

definition tidy_calls :: "net_env \<Rightarrow> net_call list \<Rightarrow> net_call list \<Rightarrow> bool" where
  "tidy_calls env h cs \<longleftrightarrow> (\<forall>c \<in> set cs. neutral c \<and> c \<noteq> xInitializePkcs11Session)
     \<and> allocated env h cs = freed cs \<and> closed_sessions cs = []"

definition tidy :: "net_env \<Rightarrow> 'x net_state_scheme \<Rightarrow> 'x net_state_scheme \<Rightarrow> bool" where
  "tidy env s s' \<longleftrightarrow> (\<exists>cs. s' = do_calls cs s \<and> tidy_calls env (calls s) cs)"

lemma tidy_refl [simp]: "tidy env s s"
  unfolding tidy_def by (rule exI [of _ "[]"]) (simp add: tidy_calls_def)

lemma tidy_do_calls: "tidy_calls env (calls s) cs \<Longrightarrow> tidy env s (do_calls cs s)"
  unfolding tidy_def by blast

lemma tidy_calls_append:
  "tidy_calls env h cs \<Longrightarrow> tidy_calls env (h @ cs) ds \<Longrightarrow> tidy_calls env h (cs @ ds)"
  by (auto simp: tidy_calls_def allocated_append)

lemma tidy_trans [trans]:
  assumes "tidy env s s1" and "tidy env s1 s2"
  shows "tidy env s s2"
proof -
  from assms(1) obtain cs where "s1 = do_calls cs s" "tidy_calls env (calls s) cs"
    by (auto simp: tidy_def)
  moreover from assms(2) obtain ds where "s2 = do_calls ds s1" "tidy_calls env (calls s1) ds"
    by (auto simp: tidy_def)
  ultimately show ?thesis
    unfolding tidy_def by (intro exI [of _ "cs @ ds"]) (simp add: tidy_calls_append)
qed

section \<open>The certificate and the key\<close>

text \<open>The call succeeded, as far as the code looks at its answer.\<close>

definition p11_good :: "net_call \<Rightarrow> int \<Rightarrow> bool" where
  "p11_good c r = (case c of
      mbedtls_ssl_config_defaults \<Rightarrow> r = 0 | mbedtls_x509_crt_parse ob _ _ \<Rightarrow>
        (if ob = Obj_rootCa then r = 0 else (of_int r :: u32) = 0)
    | mbedtls_ssl_conf_alpn_protocols _ \<Rightarrow> r = 0 | mbedtls_ssl_setup \<Rightarrow> r = 0
    | mbedtls_ssl_set_hostname _ \<Rightarrow> r = 0 | mbedtls_ssl_conf_max_frag_len \<Rightarrow> r = 0
    | C_GetSlotList _ \<Rightarrow> (of_int r :: u32) = 0 | C_Login _ _ \<Rightarrow> (of_int r :: u32) = 0
    | xFindObjectWithLabelAndClass _ _ _ \<Rightarrow> (of_int r :: u32) = 0
    | C_GetAttributeValue _ _ _ \<Rightarrow> (of_int r :: u32) = 0
    | pvPortMalloc_call _ \<Rightarrow> (of_int r :: u32) \<noteq> 0 | _ \<Rightarrow> True)"

fun all_good :: "net_env \<Rightarrow> net_call list \<Rightarrow> net_call list \<Rightarrow> bool" where
  "all_good env h [] = True"
| "all_good env h (c # cs) = (p11_good c (answer env h c) \<and> all_good env (h @ [c]) cs)"

lemma all_good_append: "all_good env h (cs @ ds) \<longleftrightarrow> all_good env h cs \<and> all_good env (h @ cs) ds"
  by (induction cs arbitrary: h) simp_all

lemmas p11_steps = list_call_def ck_call_def do_call_calls Let_def

lemma initializeClientKeys_tidy:
  assumes "initializeClientKeys env p ctx s = Some (x, ctx', s')"
  shows "tidy env s s' \<and> p11_tcpSocket ctx' = p11_tcpSocket ctx
    \<and> xP11Session ctx' = xP11Session ctx \<and> pxP11FunctionList ctx' = pxP11FunctionList ctx
    \<and> rsa_min_bitlen ctx' = rsa_min_bitlen ctx"
  using assms
  by (auto simp: initializeClientKeys_def p11_steps bind_eq_Some_conv
      split: if_splits intro!: tidy_do_calls simp: tidy_calls_def)

lemma readCertificateIntoContext_tidy:
  assumes "readCertificateIntoContext env p ctx l cl ob s = Some (x, s')"
  shows "tidy env s s'"
  using assms
  by (auto simp: readCertificateIntoContext_def p11_steps bind_eq_Some_conv
      split: if_splits intro!: tidy_do_calls simp: tidy_calls_def)

text \<open>The calls of a stage that succeeds.\<close>

definition key_calls :: "p11_env \<Rightarrow> P11_Context \<Rightarrow> u32 \<Rightarrow> u32 \<Rightarrow> net_call list" where
  "key_calls p ctx n a =
     [C_GetSlotList 0, pvPortMalloc_call (4 * n), C_GetSlotList a,
      C_Login (xP11Session ctx) (configPKCS11_DEFAULT_USER_PIN p),
      xFindObjectWithLabelAndClass (xP11Session ctx)
        (pkcs11configLABEL_DEVICE_PRIVATE_KEY_FOR_TLS p) CKO_PRIVATE_KEY,
      C_GetAttributeValue (xP11Session ctx) (xP11PrivateKey ctx) CKA_KEY_TYPE, vPortFree_call a]"

definition certificate_calls ::
  "p11_env \<Rightarrow> P11_Context \<Rightarrow> u32 \<Rightarrow> u32 \<Rightarrow> u32 \<Rightarrow> u8 list \<Rightarrow> u32 \<Rightarrow> net_call list" where
  "certificate_calls p ctx ob n a bytes m =
     [xFindObjectWithLabelAndClass (xP11Session ctx)
        (pkcs11configLABEL_DEVICE_CERTIFICATE_FOR_TLS p) CKO_CERTIFICATE,
      C_GetAttributeValue (xP11Session ctx) ob (CKA_VALUE 0 0), pvPortMalloc_call n,
      C_GetAttributeValue (xP11Session ctx) ob (CKA_VALUE a n),
      mbedtls_x509_crt_parse Obj_clientCert bytes (unat m), vPortFree_call a]"

text \<open>\<open>privKey\<close> signs with the callback, as the key's type requires.\<close>

definition key_installed :: "p11_env \<Rightarrow> P11_Context \<Rightarrow> bool" where
  "key_installed p ctx \<longleftrightarrow>
     (xKeyType ctx = CKK_RSA p \<and> privKeyInfo ctx = Some MBEDTLS_PK_RSA)
     \<or> (xKeyType ctx = CKK_EC p \<and> privKeyInfo ctx = Some MBEDTLS_PK_ECKEY)"

lemma initializeClientKeys_ok:
  assumes "pkcs11_standard p" and "initializeClientKeys env p ctx s = Some (0, ctx', s')"
  shows "\<exists>n a. s' = do_calls (key_calls p ctx' n a) s \<and> all_good env (calls s) (key_calls p ctx' n a)
    \<and> key_installed p ctx'"
  using assms
  by (fastforce simp: initializeClientKeys_def p11_steps pkcs11_standard_def bind_eq_Some_conv
      key_calls_def key_installed_def p11_good_def split: if_splits)

lemma readCertificateIntoContext_ok:
  assumes "pkcs11_standard p"
    and "readCertificateIntoContext env p ctx (pkcs11configLABEL_DEVICE_CERTIFICATE_FOR_TLS p)
      CKO_CERTIFICATE Obj_clientCert s = Some (0, s')"
  shows "\<exists>ob n a bytes m. s' = do_calls (certificate_calls p ctx ob n a bytes m) s
    \<and> all_good env (calls s) (certificate_calls p ctx ob n a bytes m) \<and> ob \<noteq> 0"
  using assms
  by (fastforce simp: readCertificateIntoContext_def p11_steps pkcs11_standard_def bind_eq_Some_conv
      certificate_calls_def p11_good_def split: if_splits)

section \<open>The stages of the setup\<close>

definition init_calls_p11 :: "net_call list" where
  "init_calls_p11 = p11_init_calls @ [xInitializePkcs11Session, C_GetFunctionList]"

definition trust_calls :: "u8 list \<Rightarrow> nat \<Rightarrow> net_call list" where
  "trust_calls ca n =
     [mbedtls_ssl_conf_authmode_required, mbedtls_ssl_conf_rng, mbedtls_ssl_conf_cert_profile,
      mbedtls_x509_crt_parse Obj_rootCa ca n, mbedtls_ssl_conf_ca_chain]"

definition session_calls :: "P11_Credentials \<Rightarrow> string \<Rightarrow> Socket \<Rightarrow> net_call list" where
  "session_calls cr host k =
     (case p11_pAlpnProtos cr of Some ps \<Rightarrow> [mbedtls_ssl_conf_alpn_protocols ps] | None \<Rightarrow> [])
     @ [mbedtls_ssl_setup, mbedtls_ssl_set_bio k]
     @ (if p11_disableSni cr = 0 then [mbedtls_ssl_set_hostname host] else [])
     @ [mbedtls_ssl_conf_max_frag_len]"

lemma p11_sslContextInit_calls [simp]:
  "snd (p11_sslContextInit p ctx s) = do_calls init_calls_p11 s"
  "p11_tcpSocket (fst (p11_sslContextInit p ctx s)) = p11_tcpSocket ctx"
  by (simp_all add: p11_sslContextInit_def init_calls_p11_def Let_def)

lemmas setup_steps = setup_call_def after_success_def do_call_calls Let_def

lemma setup_call_ok:
  assumes "setup_call env c err ss = (TLS_TRANSPORT_SUCCESS, s')" and "err \<noteq> TLS_TRANSPORT_SUCCESS"
  shows "\<exists>s. ss = (TLS_TRANSPORT_SUCCESS, s) \<and> s' = do_calls [c] s \<and> answer env (calls s) c = 0"
  using assms by (cases ss) (auto simp: setup_steps split: if_splits)

lemma after_success_ok:
  "after_success cs ss = (TLS_TRANSPORT_SUCCESS, s') \<Longrightarrow>
   \<exists>s. ss = (TLS_TRANSPORT_SUCCESS, s) \<and> s' = do_calls cs s"
  by (cases ss) (auto simp: after_success_def)

lemma setup_trust_ok:
  assumes "setup_trust env p host ca n ctx ss = (ctx', TLS_TRANSPORT_SUCCESS, s')"
  shows "\<exists>s. ss = (TLS_TRANSPORT_SUCCESS, s) \<and> ctx' = setup_profile p host ctx
    \<and> s' = do_calls (trust_calls ca n) s \<and> all_good env (calls s) (trust_calls ca n)"
  using assms
  by (auto simp: setup_trust_def trust_calls_def p11_good_def
      dest!: setup_call_ok after_success_ok split: if_splits)

lemma setup_session_ok:
  assumes "setup_session env ctx host cr ss = (TLS_TRANSPORT_SUCCESS, s')"
  shows "\<exists>s. ss = (TLS_TRANSPORT_SUCCESS, s)
    \<and> s' = do_calls (session_calls cr host (p11_tcpSocket ctx)) s
    \<and> all_good env (calls s) (session_calls cr host (p11_tcpSocket ctx))"
  using assms
  by (auto simp: setup_session_def Let_def session_calls_def p11_good_def
      dest!: setup_call_ok after_success_ok split: if_splits option.splits)

lemma setup_identity_ok:
  assumes "pkcs11_standard p"
    and "setup_identity env p (ctx, st, s) = Some (ctx', TLS_TRANSPORT_SUCCESS, s')"
  shows "st = TLS_TRANSPORT_SUCCESS \<and> key_installed p ctx'
    \<and> (\<exists>n a ob n2 a2 bytes m.
        let cs = key_calls p ctx' n a @ certificate_calls p ctx' ob n2 a2 bytes m
                 @ [mbedtls_ssl_conf_own_cert]
        in s' = do_calls cs s \<and> all_good env (calls s) cs)"
proof -
  have ok: "CKR_OK p = 0" using assms(1) by (simp add: pkcs11_standard_def)
  from assms(2) have st: "st = TLS_TRANSPORT_SUCCESS"
    by (auto simp: setup_identity_def split: if_splits)
  with assms(2) ok obtain s1 s2 where
    k: "initializeClientKeys env p ctx s = Some (0, ctx', s1)"
    and c: "readCertificateIntoContext env p ctx' (pkcs11configLABEL_DEVICE_CERTIFICATE_FOR_TLS p)
      CKO_CERTIFICATE Obj_clientCert s1 = Some (0, s2)"
    and s': "s' = do_calls [mbedtls_ssl_conf_own_cert] s2"
    by (auto simp: setup_identity_def bind_eq_Some_conv split: if_splits)
  from initializeClientKeys_ok [OF assms(1) k] obtain n a where
    "s1 = do_calls (key_calls p ctx' n a) s" "all_good env (calls s) (key_calls p ctx' n a)"
    "key_installed p ctx'" by blast
  moreover from readCertificateIntoContext_ok [OF assms(1) c] obtain ob n2 a2 bytes m where
    "s2 = do_calls (certificate_calls p ctx' ob n2 a2 bytes m) s1"
    "all_good env (calls s1) (certificate_calls p ctx' ob n2 a2 bytes m)" by blast
  ultimately show ?thesis
    using st s'
    by (intro conjI exI [of _ n] exI [of _ a] exI [of _ ob] exI [of _ n2] exI [of _ a2]
        exI [of _ bytes] exI [of _ m]) (simp_all add: Let_def all_good_append p11_good_def)
qed

text \<open>No stage leaves a block behind, and only the first one touches a session.\<close>

lemma tidy_call:
  "tidy env s (snd ss) \<Longrightarrow> (\<And>h. tidy_calls env h [c]) \<Longrightarrow> tidy env s (snd (setup_call env c e ss))"
  by (cases ss) (auto simp: setup_steps intro: tidy_trans tidy_do_calls)

lemma tidy_after:
  "tidy env s (snd ss) \<Longrightarrow> (\<And>h. tidy_calls env h cs) \<Longrightarrow> tidy env s (snd (after_success cs ss))"
  by (cases ss) (auto simp: setup_steps intro: tidy_trans tidy_do_calls)

lemma setup_trust_tidy:
  "tidy env s (snd ss) \<Longrightarrow> tidy env s (snd (snd (setup_trust env p host ca n ctx ss)))
   \<and> p11_tcpSocket (fst (setup_trust env p host ca n ctx ss)) = p11_tcpSocket ctx
   \<and> xP11Session (fst (setup_trust env p host ca n ctx ss)) = xP11Session ctx"
  by (simp add: setup_trust_def setup_profile_def Let_def tidy_call tidy_after tidy_calls_def)

lemma setup_session_tidy:
  "tidy env s (snd ss) \<Longrightarrow> tidy env s (snd (setup_session env ctx host cr ss))"
  by (simp add: setup_session_def Let_def tidy_call tidy_after tidy_calls_def split: option.split)

lemma setup_identity_tidy:
  assumes "setup_identity env p (ctx, st, s) = Some (ctx', st', s')"
  shows "tidy env s s' \<and> p11_tcpSocket ctx' = p11_tcpSocket ctx
    \<and> xP11Session ctx' = xP11Session ctx \<and> rsa_min_bitlen ctx' = rsa_min_bitlen ctx"
proof (cases "st = TLS_TRANSPORT_SUCCESS")
  case False
  with assms show ?thesis by (simp add: setup_identity_def)
next
  case True
  with assms obtain x s1 where
    k: "initializeClientKeys env p ctx s = Some (x, ctx', s1)"
    and rest: "s' = s1 \<or> (\<exists>y s2. readCertificateIntoContext env p ctx'
        (pkcs11configLABEL_DEVICE_CERTIFICATE_FOR_TLS p) CKO_CERTIFICATE Obj_clientCert s1 =
          Some (y, s2) \<and> (s' = s2 \<or> s' = do_calls [mbedtls_ssl_conf_own_cert] s2))"
    by (auto simp: setup_identity_def bind_eq_Some_conv split: if_splits)
  note t1 = initializeClientKeys_tidy [OF k]
  from rest have "tidy env s1 s'"
  proof (elim disjE exE conjE)
    fix y s2
    assume c: "readCertificateIntoContext env p ctx'
        (pkcs11configLABEL_DEVICE_CERTIFICATE_FOR_TLS p) CKO_CERTIFICATE Obj_clientCert s1 =
          Some (y, s2)" and s': "s' = do_calls [mbedtls_ssl_conf_own_cert] s2"
    have "tidy env s2 s'"
      unfolding s' by (rule tidy_do_calls) (simp add: tidy_calls_def)
    with readCertificateIntoContext_tidy [OF c] show ?thesis by (rule tidy_trans)
  qed (use readCertificateIntoContext_tidy in auto)
  with t1 show ?thesis using tidy_trans by blast
qed

lemma handshakes_tidy: "tidy_calls env h (replicate m mbedtls_ssl_handshake)"
  by (induction m arbitrary: h) (simp_all add: tidy_calls_def)

lemma setup_handshake_run:
  assumes "setup_handshake env (st, s) = Some (st', s')"
  shows "tidy env s s' \<and> (st' = TLS_TRANSPORT_SUCCESS \<longrightarrow> st = TLS_TRANSPORT_SUCCESS
    \<and> (\<exists>j. s' = do_calls (replicate (Suc j) mbedtls_ssl_handshake) s \<and> hs_answer env s j = 0))"
proof (cases "st = TLS_TRANSPORT_SUCCESS")
  case False
  with assms show ?thesis by (simp add: setup_handshake_def)
next
  case True
  with assms obtain r where r: "handshake_loop env s = Some (r, s')"
    "st' = (if r \<noteq> 0 then TLS_TRANSPORT_HANDSHAKE_FAILED else st)"
    by (auto simp: setup_handshake_def bind_eq_Some_conv split: if_splits)
  from handshake_returns [OF r(1)] obtain j where j: "r = hs_answer env s j"
    "s' = do_calls (replicate (Suc j) mbedtls_ssl_handshake) s" by auto
  have "tidy env s s'" unfolding j(2) by (rule tidy_do_calls [OF handshakes_tidy])
  with True r(2) j show ?thesis by auto
qed

text \<open>All calls of a successful setup in front of the handshake.\<close>

definition p11_setup_calls ::
  "net_call list \<Rightarrow> net_call list \<Rightarrow> P11_Credentials \<Rightarrow> string \<Rightarrow> u8 list \<Rightarrow> Socket \<Rightarrow> net_call list" where
  "p11_setup_calls key cert cr host ca k =
     init_calls_p11 @ [mbedtls_ssl_config_defaults] @ trust_calls ca (p11_rootCaSize cr)
     @ key @ cert @ [mbedtls_ssl_conf_own_cert] @ session_calls cr host k"

lemma p11_tlsSetup_run:
  assumes ca: "p11_pRootCa cr = Some ca"
    and run: "p11_tlsSetup env p ctx (Some host) cr s = Some (ctx', st, s')"
  obtains s4 where "tidy env (do_calls init_calls_p11 s) s4"
    "s' = (if st = TLS_TRANSPORT_SUCCESS then s4 else do_calls (p11_free_calls ctx') s4)"
    "p11_tcpSocket ctx' = p11_tcpSocket ctx"
    "xP11Session ctx' = xP11Session (fst (p11_sslContextInit p ctx s))"
proof -
  let ?s1 = "do_calls init_calls_p11 s"
  obtain ctx1 where init: "p11_sslContextInit p ctx s = (ctx1, ?s1)"
    by (metis p11_sslContextInit_calls(1) prod.collapse)
  let ?ss2 = "setup_call env mbedtls_ssl_config_defaults TLS_TRANSPORT_INSUFFICIENT_MEMORY
    (TLS_TRANSPORT_SUCCESS, ?s1)"
  obtain c2 st2 s2 where t: "setup_trust env p host ca (p11_rootCaSize cr) ctx1 ?ss2 = (c2, st2, s2)"
    by (rule prod_cases3)
  from run ca t obtain st3 s3 st4 s4 where
    i: "setup_identity env p (c2, st2, s2) = Some (ctx', st3, s3)"
    and h: "setup_handshake env (setup_session env ctx' host cr (st3, s3)) = Some (st, s4)"
    and s': "s' = (if st = TLS_TRANSPORT_SUCCESS then s4 else do_calls (p11_free_calls ctx') s4)"
    by (auto simp: p11_tlsSetup_def Let_def init bind_eq_Some_conv p11_sslContextFree_def
        split: if_splits)
  have "tidy env ?s1 (snd ?ss2)" by (rule tidy_call) (simp_all add: tidy_calls_def)
  from setup_trust_tidy [OF this, of p host ca "p11_rootCaSize cr" ctx1] t have
    t2: "tidy env ?s1 s2" "p11_tcpSocket c2 = p11_tcpSocket ctx" "xP11Session c2 = xP11Session ctx1"
    using p11_sslContextInit_calls(2) [of p ctx s] by (simp_all add: init)
  note t3 = setup_identity_tidy [OF i]
  then have "tidy env ?s1 s3" using t2(1) tidy_trans by blast
  then have "tidy env ?s1 (snd (setup_session env ctx' host cr (st3, s3)))"
    by (rule setup_session_tidy [of env ?s1 "(st3, s3)", simplified])
  moreover have "tidy env (snd (setup_session env ctx' host cr (st3, s3))) s4"
    using setup_handshake_run h by (metis prod.collapse)
  ultimately have "tidy env ?s1 s4" by (rule tidy_trans)
  then show ?thesis using that s' t2 t3 by (simp add: init)
qed

lemma p11_tlsSetup_ok:
  assumes std: "pkcs11_standard p" and ca: "p11_pRootCa cr = Some ca"
    and run: "p11_tlsSetup env p ctx (Some host) cr s = Some (ctx', TLS_TRANSPORT_SUCCESS, s')"
  obtains n a ob n2 a2 bytes m j cs where
    "cs = p11_setup_calls (key_calls p ctx' n a) (certificate_calls p ctx' ob n2 a2 bytes m)
            cr host ca (p11_tcpSocket ctx')"
    "s' = do_calls (cs @ replicate (Suc j) mbedtls_ssl_handshake) s" "all_good env (calls s) cs"
    "hs_answer env (do_calls cs s) j = 0" "key_installed p ctx'"
    "rsa_min_bitlen ctx' = rsa_min_bitlen (setup_profile p host ctx)"
proof -
  let ?s1 = "do_calls init_calls_p11 s"
  obtain ctx1 where init: "p11_sslContextInit p ctx s = (ctx1, ?s1)"
    by (metis p11_sslContextInit_calls(1) prod.collapse)
  let ?ss2 = "setup_call env mbedtls_ssl_config_defaults TLS_TRANSPORT_INSUFFICIENT_MEMORY
    (TLS_TRANSPORT_SUCCESS, ?s1)"
  obtain c2 st2 s2 where t: "setup_trust env p host ca (p11_rootCaSize cr) ctx1 ?ss2 = (c2, st2, s2)"
    by (rule prod_cases3)
  from run ca t obtain st3 s3 where
    i: "setup_identity env p (c2, st2, s2) = Some (ctx', st3, s3)"
    and h: "setup_handshake env (setup_session env ctx' host cr (st3, s3)) =
      Some (TLS_TRANSPORT_SUCCESS, s')"
    by (auto simp: p11_tlsSetup_def Let_def init bind_eq_Some_conv split: if_splits)
  obtain st4 s4 where e: "setup_session env ctx' host cr (st3, s3) = (st4, s4)"
    by (rule prod.exhaust)
  from h e setup_handshake_run [of env st4 s4 TLS_TRANSPORT_SUCCESS s'] obtain j where
    st4: "st4 = TLS_TRANSPORT_SUCCESS"
    and j: "s' = do_calls (replicate (Suc j) mbedtls_ssl_handshake) s4" "hs_answer env s4 j = 0"
    by auto
  from setup_session_ok [of env ctx' host cr "(st3, s3)" s4] e st4 have
    s4: "st3 = TLS_TRANSPORT_SUCCESS" "s4 = do_calls (session_calls cr host (p11_tcpSocket ctx')) s3"
    "all_good env (calls s3) (session_calls cr host (p11_tcpSocket ctx'))" by auto
  from i s4(1) setup_identity_ok [OF std, of env c2 st2 s2 ctx' s3] obtain n a ob n2 a2 bytes m cs3
    where st2: "st2 = TLS_TRANSPORT_SUCCESS" and k: "key_installed p ctx'"
      and cs3: "cs3 = key_calls p ctx' n a @ certificate_calls p ctx' ob n2 a2 bytes m
        @ [mbedtls_ssl_conf_own_cert]" "s3 = do_calls cs3 s2" "all_good env (calls s2) cs3"
    by (auto simp: Let_def)
  from t st2 obtain s0 where s0: "?ss2 = (TLS_TRANSPORT_SUCCESS, s0)"
    "s2 = do_calls (trust_calls ca (p11_rootCaSize cr)) s0"
    "all_good env (calls s0) (trust_calls ca (p11_rootCaSize cr))" "c2 = setup_profile p host ctx1"
    using setup_trust_ok by blast
  have bits: "rsa_min_bitlen ctx' = rsa_min_bitlen (setup_profile p host ctx)"
    using setup_identity_tidy [OF i] s0(4) by (simp add: setup_profile_def Let_def)
  from setup_call_ok [OF s0(1)] have d: "s0 = do_calls [mbedtls_ssl_config_defaults] ?s1"
    "answer env (calls ?s1) mbedtls_ssl_config_defaults = 0" by auto
  define cs where "cs = p11_setup_calls (key_calls p ctx' n a)
    (certificate_calls p ctx' ob n2 a2 bytes m) cr host ca (p11_tcpSocket ctx')"
  have s4': "s4 = do_calls cs s"
    using s4(2) cs3(1,2) s0(2) d(1) by (simp add: cs_def p11_setup_calls_def)
  have "all_good env (calls s) init_calls_p11"
    by (simp add: init_calls_p11_def p11_init_calls_def p11_good_def)
  then have "all_good env (calls s) cs"
    using s4 cs3 s0 d by (simp add: cs_def p11_setup_calls_def all_good_append p11_good_def)
  then show ?thesis
    using that [of cs n a ob n2 a2 bytes m j] cs_def s4' j k bits by simp
qed

section \<open>The outcomes of a connection attempt\<close>

definition p11_cleanup :: "net_env \<Rightarrow> Socket \<Rightarrow> 'x net_state_scheme \<Rightarrow> 'x net_state_scheme" where
  "p11_cleanup env k s =
     (if k \<noteq> FREERTOS_INVALID_SOCKET env then do_calls [FreeRTOS_closesocket k] s else s)"

lemma p11_connect_no_ca:
  "p11_pRootCa cr = None \<Longrightarrow>
   P11_FreeRTOS_Connect env p (Some c) (Some host) port (Some cr) rt st s =
     Some (TLS_TRANSPORT_INVALID_PARAMETER, Some c, p11_cleanup env (p11_tcpSocket c) s)"
  by (simp add: P11_FreeRTOS_Connect_def p11_cleanup_def)

lemma p11_connect_no_tcp:
  assumes "p11_pRootCa cr = Some ca" and "\<not> connects env host port s"
  shows "\<exists>s1 cs. s1 = do_calls cs s \<and> opened env (calls s) cs = closed cs
    \<and> transport_calls cs \<and> count_calls FreeRTOS_socket cs = 1
    \<and> P11_FreeRTOS_Connect env p (Some ctx) (Some host) port (Some cr) rt st s =
        Some (TLS_TRANSPORT_CONNECT_FAILURE, Some ctx, p11_cleanup env (p11_tcpSocket ctx) s1)"
proof -
  from Sockets_Connect_fail [OF assms(2)] obtain r s1 cs where
    "Sockets_Connect env (p11_tcpSocket ctx) host port rt st s = (r, p11_tcpSocket ctx, s1)"
    "r \<noteq> 0" "s1 = do_calls cs s" "opened env (calls s) cs = closed cs"
    "transport_calls cs" "count_calls FreeRTOS_socket cs = 1" by blast
  then show ?thesis
    using assms(1)
    by (intro exI [of _ s1] exI [of _ cs]) (simp add: P11_FreeRTOS_Connect_def p11_cleanup_def)
qed

lemma p11_connect_after_tcp:
  assumes "p11_pRootCa cr = Some ca" and "connects env host port s"
    and run: "P11_FreeRTOS_Connect env p (Some ctx) (Some host) port (Some cr) rt st s =
      Some (status, pctx, s')"
  obtains ctx' s3 where
    "p11_tlsSetup env p (ctx\<lparr>p11_tcpSocket := new_socket env s\<rparr>) (Some host) cr
       (do_calls (tcp_calls env host port rt st s @ [mbedtls_threading_set_alt]) s) =
         Some (ctx', status, s3)"
    "pctx = Some ctx'"
    "s' = (if status = TLS_TRANSPORT_SUCCESS then s3 else p11_cleanup env (p11_tcpSocket ctx') s3)"
  using assms
  by (auto simp: P11_FreeRTOS_Connect_def Sockets_Connect_tcp p11_initMbedtls_def p11_cleanup_def
      bind_eq_Some_conv)

text \<open>Every call of an attempt that gets a TCP connection.\<close>

lemma p11_connect_calls:
  assumes ca: "p11_pRootCa cr = Some ca" and con: "connects env host port s"
    and run: "P11_FreeRTOS_Connect env p (Some ctx) (Some host) port (Some cr) rt st s =
      Some (status, pctx, s')"
  obtains ctx' start cs where "pctx = Some ctx'" "p11_tcpSocket ctx' = new_socket env s"
    "start = tcp_calls env host port rt st s @ [mbedtls_threading_set_alt] @ init_calls_p11"
    "tidy_calls env (calls s @ start) cs"
    "s' = do_calls (start @ cs @ (if status = TLS_TRANSPORT_SUCCESS then []
            else p11_free_calls ctx' @ [FreeRTOS_closesocket (new_socket env s)])) s"
proof -
  let ?tcp = "tcp_calls env host port rt st s @ [mbedtls_threading_set_alt]"
  from p11_connect_after_tcp [OF ca con run] obtain ctx' s3 where
    t: "p11_tlsSetup env p (ctx\<lparr>p11_tcpSocket := new_socket env s\<rparr>) (Some host) cr
      (do_calls ?tcp s) = Some (ctx', status, s3)" and pctx: "pctx = Some ctx'"
    and s': "s' = (if status = TLS_TRANSPORT_SUCCESS then s3
      else p11_cleanup env (p11_tcpSocket ctx') s3)" .
  from p11_tlsSetup_run [OF ca t] obtain s4 where
    q: "tidy env (do_calls (?tcp @ init_calls_p11) s) s4"
    and s3: "s3 = (if status = TLS_TRANSPORT_SUCCESS then s4 else do_calls (p11_free_calls ctx') s4)"
    and k: "p11_tcpSocket ctx' = new_socket env s" by auto
  from q obtain cs where cs: "s4 = do_calls (?tcp @ init_calls_p11 @ cs) s"
    "tidy_calls env (calls s @ ?tcp @ init_calls_p11) cs" by (auto simp: tidy_def)
  have nz: "new_socket env s \<noteq> FREERTOS_INVALID_SOCKET env" using con by (simp add: connects_def)
  show ?thesis
    by (rule that [OF pctx k refl, of cs])
       (use cs s' s3 k nz in \<open>auto simp: p11_cleanup_def\<close>)
qed

section \<open>The transport provides the socket contract\<close>

lemma neutral_setup:
  "\<forall>c \<in> set (mbedtls_threading_set_alt # init_calls_p11). neutral c"
  "\<forall>c \<in> set (p11_free_calls ctx). neutral c"
  by (simp_all add: init_calls_p11_def p11_init_calls_def p11_free_calls_def)

lemma tidy_neutral: "tidy_calls env h cs \<Longrightarrow> \<forall>c \<in> set cs. neutral c"
  by (simp add: tidy_calls_def)

lemma p11_connect_sockets:
  assumes run: "P11_FreeRTOS_Connect env p (Some c) (Some host) port (Some cr) rt st s =
      Some (status, pctx, s')"
  obtains c' cs where "pctx = Some c'" "made s s' cs"
    "status = TLS_TRANSPORT_SUCCESS \<Longrightarrow>
       p11_tcpSocket c' \<noteq> FREERTOS_INVALID_SOCKET env
       \<and> opened env (calls s) cs = [p11_tcpSocket c'] \<and> closed cs = []"
    "status \<noteq> TLS_TRANSPORT_SUCCESS \<Longrightarrow> p11_tcpSocket c = FREERTOS_INVALID_SOCKET env \<Longrightarrow>
       closed cs = opened env (calls s) cs"
proof (cases "p11_pRootCa cr")
  case None
  from run p11_connect_no_ca [OF None, of env p c host port rt st s] show ?thesis
    by (intro that [of c "drop (length (calls s)) (calls s')"])
       (auto simp: p11_cleanup_def made_def)
next
  case ca: (Some ca)
  show ?thesis
  proof (cases "connects env host port s")
    case False
    from p11_connect_no_tcp [OF ca False, of p c rt st] run obtain cs where
      "opened env (calls s) cs = closed cs" "status = TLS_TRANSPORT_CONNECT_FAILURE"
      "pctx = Some c" "s' = p11_cleanup env (p11_tcpSocket c) (do_calls cs s)" by auto
    then show ?thesis
      by (intro that [of c "drop (length (calls s)) (calls s')"])
         (auto simp: p11_cleanup_def made_def)
  next
    case con: True
    let ?k = "new_socket env s" and ?tcp = "tcp_calls env host port rt st s"
    have k: "?k \<noteq> FREERTOS_INVALID_SOCKET env" using con by (simp add: connects_def)
    from p11_connect_calls [OF ca con run] obtain ctx' cs where r: "pctx = Some ctx'"
      "p11_tcpSocket ctx' = ?k"
      "tidy_calls env (calls s @ ?tcp @ [mbedtls_threading_set_alt] @ init_calls_p11) cs"
      "s' = do_calls ((?tcp @ [mbedtls_threading_set_alt] @ init_calls_p11) @ cs
         @ (if status = TLS_TRANSPORT_SUCCESS then []
            else p11_free_calls ctx' @ [FreeRTOS_closesocket ?k])) s" by metis
    define rest where "rest = (mbedtls_threading_set_alt # init_calls_p11) @ cs
      @ (if status = TLS_TRANSPORT_SUCCESS then [] else p11_free_calls ctx')"
    have "\<forall>x \<in> set rest. neutral x"
      using neutral_setup tidy_neutral [OF r(3)] by (auto simp: rest_def)
    from neutral_calls [OF this] have n: "opened env h rest = []" "closed rest = []" for h
      by blast+
    show ?thesis
      by (rule that [of ctx' "?tcp @ rest @ (if status = TLS_TRANSPORT_SUCCESS then []
            else [FreeRTOS_closesocket ?k])"])
         (use r k n tcp_calls_sockets [OF con, of rt st] in
          \<open>simp_all add: made_def opened_append, simp_all add: rest_def\<close>)
  qed
qed

definition p11_connect ::
  "net_env \<Rightarrow> p11_env \<times> string \<times> u16 \<times> P11_Credentials \<times> u32 \<times> u32 \<Rightarrow> P11_Context \<Rightarrow> net_state
   \<Rightarrow> (bool \<times> P11_Context \<times> net_state) option" where
  "p11_connect env q c s =
     (case q of (p, host, port, cr, rt, st) \<Rightarrow>
        case P11_FreeRTOS_Connect env p (Some c) (Some host) port (Some cr) rt st s of
          Some (status, Some c', s') \<Rightarrow> Some (status = TLS_TRANSPORT_SUCCESS, c', s')
        | _ \<Rightarrow> None)"

definition p11_disconnect :: "net_env \<Rightarrow> P11_Context \<Rightarrow> net_state \<Rightarrow> net_state option" where
  "p11_disconnect env c s = P11_FreeRTOS_Disconnect env (Some c) s"

lemma p11_disconnect_calls:
  assumes "p11_tcpSocket c \<noteq> FREERTOS_INVALID_SOCKET env"
    and "P11_FreeRTOS_Disconnect env (Some c) s = Some s'"
  obtains m where "s' = do_calls (mbedtls_ssl_close_notify # [FreeRTOS_shutdown (p11_tcpSocket c)]
     @ replicate m (FreeRTOS_recv (p11_tcpSocket c) 2) @ [FreeRTOS_closesocket (p11_tcpSocket c)]
     @ p11_free_calls c @ [mbedtls_threading_free_alt]) s"
proof -
  let ?s1 = "do_calls [mbedtls_ssl_close_notify] s"
  from Sockets_Disconnect_calls [OF assms(1), of ?s1] obtain m where
    "Sockets_Disconnect env (p11_tcpSocket c) ?s1 = do_calls ([FreeRTOS_shutdown (p11_tcpSocket c)]
     @ replicate m (FreeRTOS_recv (p11_tcpSocket c) 2) @ [FreeRTOS_closesocket (p11_tcpSocket c)]) ?s1"
    by blast
  with assms(2) show ?thesis
    by (intro that [of m])
       (auto simp: P11_FreeRTOS_Disconnect_def p11_sslContextFree_def split: if_splits)
qed

interpretation p11: transport_sockets p11_connect p11_disconnect p11_tcpSocket
  "\<lambda>env c. p11_tcpSocket c = FREERTOS_INVALID_SOCKET env"
proof (unfold_locales, goal_cases)
  case (1 env c q s c' s')
  then obtain p host port cr rt st status where
    "P11_FreeRTOS_Connect env p (Some c) (Some host) port (Some cr) rt st s =
       Some (status, Some c', s')" "status \<noteq> TLS_TRANSPORT_SUCCESS"
    by (auto simp: p11_connect_def split: prod.splits option.splits)
  with 1(1) show ?case by (elim p11_connect_sockets) auto
next
  case (2 env q c s c' s')
  then obtain p host port cr rt st where
    "P11_FreeRTOS_Connect env p (Some c) (Some host) port (Some cr) rt st s =
       Some (TLS_TRANSPORT_SUCCESS, Some c', s')"
    by (auto simp: p11_connect_def split: prod.splits option.splits)
  then show ?case by (elim p11_connect_sockets) auto
next
  case (3 c env s s')
  from p11_disconnect_calls [OF 3(1) 3(2) [unfolded p11_disconnect_def]] obtain m where
    s': "s' = do_calls (mbedtls_ssl_close_notify # [FreeRTOS_shutdown (p11_tcpSocket c)]
     @ replicate m (FreeRTOS_recv (p11_tcpSocket c) 2) @ [FreeRTOS_closesocket (p11_tcpSocket c)]
     @ p11_free_calls c @ [mbedtls_threading_free_alt]) s" .
  define pre post where "pre = mbedtls_ssl_close_notify # [FreeRTOS_shutdown (p11_tcpSocket c)]
     @ replicate m (FreeRTOS_recv (p11_tcpSocket c) 2)"
    and "post = p11_free_calls c @ [mbedtls_threading_free_alt]"
  have "\<forall>x \<in> set pre. neutral x" "\<forall>x \<in> set post. neutral x"
    using neutral_setup by (auto simp: pre_def post_def)
  from this [THEN neutral_calls] have n: "opened env h pre = []" "closed pre = []"
    "opened env h post = []" "closed post = []" for h
    by blast+
  show ?case
    by (intro exI [of _ "pre @ [FreeRTOS_closesocket (p11_tcpSocket c)] @ post"])
       (use n in \<open>simp add: made_def opened_append, simp add: s' pre_def post_def\<close>)
qed

section \<open>Blocks and sessions of an attempt\<close>

definition no_p11 :: "net_call list \<Rightarrow> bool" where
  "no_p11 cs \<longleftrightarrow> (\<forall>c \<in> set cs. case c of Pkcs11 _ \<Rightarrow> False | _ \<Rightarrow> True)"

lemma no_p11_simps [simp]:
  "no_p11 []" "no_p11 (cs @ ds) \<longleftrightarrow> no_p11 cs \<and> no_p11 ds"
  "no_p11 (c # cs) \<longleftrightarrow> (case c of Pkcs11 _ \<Rightarrow> False | _ \<Rightarrow> True) \<and> no_p11 cs"
  by (auto simp: no_p11_def)

lemma no_p11_owns:
  "no_p11 cs \<Longrightarrow> allocated env h cs = [] \<and> freed cs = [] \<and> closed_sessions cs = []
     \<and> count_calls xInitializePkcs11Session cs = 0"
  by (induction cs arbitrary: h) (auto split: net_call.splits)

lemma Sockets_Connect_no_p11:
  assumes "Sockets_Connect env old host port rt st s = (r, k, s')"
  shows "\<exists>cs. s' = do_calls cs s \<and> no_p11 cs"
proof -
  have con: "no_p11 [connect_call env host port s]" by (simp add: connect_call_def)
  consider "new_socket env s = FREERTOS_INVALID_SOCKET env"
    | "new_socket env s \<noteq> FREERTOS_INVALID_SOCKET env" "host_address env host s = 0"
    | "new_socket env s \<noteq> FREERTOS_INVALID_SOCKET env" "host_address env host s \<noteq> 0"
      "connect_answer env host port s \<noteq> 0"
    | "new_socket env s \<noteq> FREERTOS_INVALID_SOCKET env" "host_address env host s \<noteq> 0"
      "connect_answer env host port s = 0"
    by blast
  then show ?thesis
    using assms con
    by cases (auto simp: Sockets_Connect_outcomes do_calls_def [symmetric])
qed

text \<open>What an attempt and a disconnect own of the heap and the module at their end.\<close>

definition owns_session :: "net_env \<Rightarrow> net_call list \<Rightarrow> net_call list \<Rightarrow> nat \<Rightarrow> u32 list \<Rightarrow> bool" where
  "owns_session env h cs n closes \<longleftrightarrow> allocated env h cs = freed cs
     \<and> count_calls xInitializePkcs11Session cs = n \<and> closed_sessions cs = closes"

lemma no_p11_session: "no_p11 cs \<Longrightarrow> owns_session env h cs 0 []"
  using no_p11_owns by (simp add: owns_session_def)

lemma owns_session_append:
  "owns_session env h cs n xs \<Longrightarrow> owns_session env (h @ cs) ds m ys \<Longrightarrow>
   owns_session env h (cs @ ds) (n + m) (xs @ ys)"
  by (simp add: owns_session_def allocated_append)

lemma tidy_session: "tidy_calls env h cs \<Longrightarrow> owns_session env h cs 0 []"
  by (auto simp: tidy_calls_def owns_session_def)

lemma init_session: "owns_session env h init_calls_p11 1 []"
  by (simp add: owns_session_def init_calls_p11_def p11_init_calls_def)

lemma free_session: "owns_session env h (p11_free_calls c) 0 [xP11Session c]"
  by (simp add: owns_session_def p11_free_calls_def)

lemma p11_connect_session:
  assumes run: "P11_FreeRTOS_Connect env p (Some c) (Some host) port (Some cr) rt st s =
      Some (status, pctx, s')"
  shows "\<exists>c' cs. pctx = Some c' \<and> made s s' cs
    \<and> (if p11_pRootCa cr \<noteq> None \<and> connects env host port s
       then owns_session env (calls s) cs 1
              (if status = TLS_TRANSPORT_SUCCESS then [] else [xP11Session c'])
       else status \<noteq> TLS_TRANSPORT_SUCCESS \<and> owns_session env (calls s) cs 0 [])"
proof (cases "p11_pRootCa cr \<noteq> None \<and> connects env host port s")
  case True
  then obtain ca where ca: "p11_pRootCa cr = Some ca" and con: "connects env host port s" by auto
  let ?k = "new_socket env s"
  from p11_connect_calls [OF ca con run] obtain ctx' cs where r: "pctx = Some ctx'"
    "tidy_calls env (calls s @ tcp_calls env host port rt st s @ [mbedtls_threading_set_alt]
       @ init_calls_p11) cs"
    "s' = do_calls ((tcp_calls env host port rt st s @ [mbedtls_threading_set_alt] @ init_calls_p11)
       @ cs @ (if status = TLS_TRANSPORT_SUCCESS then []
          else p11_free_calls ctx' @ [FreeRTOS_closesocket ?k])) s" by metis
  let ?pre = "tcp_calls env host port rt st s @ [mbedtls_threading_set_alt]"
  have "owns_session env (calls s) ?pre 0 []"
    by (rule no_p11_session) (simp add: tcp_calls_def connect_call_def)
  from owns_session_append [OF this init_session] r(2)
  have a: "owns_session env (calls s) ((?pre @ init_calls_p11) @ cs) 1 []"
    using owns_session_append [of env "calls s" "?pre @ init_calls_p11" 1 "[]" cs 0 "[]"]
    by (simp add: tidy_session)
  have b: "owns_session env h [FreeRTOS_closesocket ?k] 0 []" for h
    by (rule no_p11_session) simp
  from owns_session_append [OF free_session b]
  have f: "owns_session env h (p11_free_calls ctx' @ [FreeRTOS_closesocket ?k]) 0
      [xP11Session ctx']" for h by simp
  show ?thesis
    using True r a owns_session_append [OF a f]
    by (auto simp: made_def intro!: exI [of _ ctx'])
next
  case False
  show ?thesis
  proof (cases "p11_pRootCa cr")
    case None
    from run p11_connect_no_ca [OF None, of env p c host port rt st s] show ?thesis
      using None no_p11_session [of "[]"] no_p11_session [of "[FreeRTOS_closesocket k]" for k]
      by (auto simp: p11_cleanup_def made_def)
  next
    case (Some ca)
    with False have nocon: "\<not> connects env host port s" by simp
    obtain r k s1 where sc: "Sockets_Connect env (p11_tcpSocket c) host port rt st s = (r, k, s1)"
      by (rule prod_cases3)
    from Sockets_Connect_fail [OF nocon, of "p11_tcpSocket c" rt st] sc
    have r: "r \<noteq> 0" "k = p11_tcpSocket c" by auto
    from Sockets_Connect_no_p11 [OF sc] obtain cs where cs: "s1 = do_calls cs s" "no_p11 cs" by blast
    have res: "pctx = Some c" "status = TLS_TRANSPORT_CONNECT_FAILURE" "s' = p11_cleanup env k s1"
      using run Some sc r by (auto simp: P11_FreeRTOS_Connect_def p11_cleanup_def)
    show ?thesis
      using nocon Some res cs no_p11_session [of cs] no_p11_session [of "cs @ [FreeRTOS_closesocket k]"]
      by (auto simp: p11_cleanup_def made_def)
  qed
qed

lemma p11_disconnect_session:
  assumes "p11_tcpSocket c \<noteq> FREERTOS_INVALID_SOCKET env"
    and "P11_FreeRTOS_Disconnect env (Some c) s = Some s'"
  shows "\<exists>cs. made s s' cs \<and> owns_session env (calls s) cs 0 [xP11Session c]"
proof -
  from p11_disconnect_calls [OF assms] obtain m where
    s': "s' = do_calls (mbedtls_ssl_close_notify # [FreeRTOS_shutdown (p11_tcpSocket c)]
     @ replicate m (FreeRTOS_recv (p11_tcpSocket c) 2) @ [FreeRTOS_closesocket (p11_tcpSocket c)]
     @ p11_free_calls c @ [mbedtls_threading_free_alt]) s" .
  let ?pre = "mbedtls_ssl_close_notify # [FreeRTOS_shutdown (p11_tcpSocket c)]
     @ replicate m (FreeRTOS_recv (p11_tcpSocket c) 2) @ [FreeRTOS_closesocket (p11_tcpSocket c)]"
  have "no_p11 ?pre" by (auto simp: no_p11_def)
  from no_p11_session [OF this]
  have a: "owns_session env (calls s) (?pre @ p11_free_calls c) 0 [xP11Session c]"
    using owns_session_append [of env "calls s" ?pre 0 "[]" "p11_free_calls c"] free_session
    by fastforce
  have b: "owns_session env h [mbedtls_threading_free_alt] 0 []" for h
    by (rule no_p11_session) simp
  from owns_session_append [OF a b] s' show ?thesis by (auto simp: made_def)
qed

section \<open>The host name and the certificate profile\<close>

lemma strncmp_prefix:
  "CHR 0x00 \<notin> set s \<Longrightarrow> CHR 0x00 \<notin> set t \<Longrightarrow>
   strncmp s t (length s) = 0 \<longleftrightarrow> (\<exists>rest. t = s @ rest)"
proof (induction s arbitrary: t)
  case Nil
  then show ?case by simp
next
  case (Cons a s)
  then show ?case
    by (cases t) (auto simp: c_char_def of_char_eq_0)
qed

lemma setup_profile_bound:
  "CHR 0x00 \<notin> set host \<Longrightarrow>
   rsa_min_bitlen (setup_profile p host ctx) =
     (if \<exists>rest. test_broker = host @ rest then 1024 else default_rsa_min_bitlen p)"
  using strncmp_prefix [of host test_broker]
  by (simp add: setup_profile_def Let_def test_broker_def)

section \<open>Properties\<close>

text \<open>
  C5. A connection over PKCS #11 that TLS_FreeRTOS_Connect reports as established is an
  authenticated one.  Its calls are exactly the connection of a fresh socket, the opening of a
  session of the module, the configuration of mbedTLS with server verification required and
  the caller's root certificate as the trust anchor, the login and the search for the device
  key, the export of the device certificate, the binding of that socket, and one or more
  rounds of the handshake; every call whose failure matters succeeded, the key found has one
  of the two supported types and signs through the callback, and the last round answered 0.
\<close>

theorem P11_Connect_success_is_verified:
  assumes "pkcs11_standard p"
    and "P11_FreeRTOS_Connect env p (Some c) (Some host) port (Some cr) rt st s =
      Some (TLS_TRANSPORT_SUCCESS, pctx, s')"
  shows "\<exists>ca ctx n a ob n2 a2 bytes m j key cert start setup.
    p11_pRootCa cr = Some ca \<and> pctx = Some ctx \<and> key_installed p ctx
    \<and> p11_tcpSocket ctx = new_socket env s \<and> p11_tcpSocket ctx \<noteq> FREERTOS_INVALID_SOCKET env
    \<and> key = key_calls p ctx n a \<and> cert = certificate_calls p ctx ob n2 a2 bytes m
    \<and> start = tcp_calls env host port rt st s @ [mbedtls_threading_set_alt]
    \<and> setup = init_calls_p11 @ [mbedtls_ssl_config_defaults] @ trust_calls ca (p11_rootCaSize cr)
        @ key @ cert @ [mbedtls_ssl_conf_own_cert] @ session_calls cr host (p11_tcpSocket ctx)
    \<and> calls s' = calls s @ start @ setup @ replicate (Suc j) mbedtls_ssl_handshake
    \<and> all_good env (calls s @ start) setup
    \<and> answer env (calls s @ start @ setup @ replicate j mbedtls_ssl_handshake) mbedtls_ssl_handshake = 0"
proof -
  from p11_connect_session [OF assms(2)] have con: "connects env host port s"
    and "p11_pRootCa cr \<noteq> None" by (auto split: if_splits)
  then obtain ca where ca: "p11_pRootCa cr = Some ca" by auto
  let ?start = "tcp_calls env host port rt st s @ [mbedtls_threading_set_alt]"
  from p11_connect_after_tcp [OF ca con assms(2)] obtain ctx where
    t: "p11_tlsSetup env p (c\<lparr>p11_tcpSocket := new_socket env s\<rparr>) (Some host) cr
      (do_calls ?start s) = Some (ctx, TLS_TRANSPORT_SUCCESS, s')" and pctx: "pctx = Some ctx"
    by auto
  from p11_tlsSetup_run [OF ca t] have k: "p11_tcpSocket ctx = new_socket env s" by auto
  from p11_tlsSetup_ok [OF assms(1) ca t] obtain n a ob n2 a2 bytes m j cs where
    ok: "cs = p11_setup_calls (key_calls p ctx n a) (certificate_calls p ctx ob n2 a2 bytes m)
            cr host ca (p11_tcpSocket ctx)"
    "s' = do_calls (cs @ replicate (Suc j) mbedtls_ssl_handshake) (do_calls ?start s)"
    "all_good env (calls (do_calls ?start s)) cs"
    "hs_answer env (do_calls cs (do_calls ?start s)) j = 0" "key_installed p ctx" by metis
  let ?hs = "mbedtls_ssl_handshake"
  have calls: "calls s' = calls s @ ?start @ cs @ replicate (Suc j) ?hs"
    using ok(2) by (simp del: replicate_Suc)
  have good: "all_good env (calls s @ ?start) cs" using ok(3) by simp
  have last: "answer env (calls s @ ?start @ cs @ replicate j ?hs) ?hs = 0"
    using ok(4) by (simp add: hs_answer_def)
  have nz: "p11_tcpSocket ctx \<noteq> FREERTOS_INVALID_SOCKET env"
    using con k by (simp add: connects_def)
  show ?thesis
    by (intro exI conjI, rule ca, rule pctx, rule ok(5), rule k, rule nz, rule refl, rule refl,
        rule refl, rule ok(1) [unfolded p11_setup_calls_def], rule calls, rule good, rule last)
qed

text \<open>A network, and a module that holds a certificate of 600 bytes and an EC key.\<close>

definition p11_net :: net_env where
  "p11_net = good_env\<lparr>answer := (\<lambda>h c. case c of
     FreeRTOS_socket \<Rightarrow> 5 | FreeRTOS_gethostbyname _ \<Rightarrow> 1 | pvPortMalloc_call _ \<Rightarrow> 0x1000 | _ \<Rightarrow> 0)\<rparr>"

definition demo_module :: p11_env where
  "demo_module = \<lparr>p11_out = (\<lambda>h c. case c of
       xInitializePkcs11Session \<Rightarrow> Some 1 | C_GetFunctionList \<Rightarrow> Some 0x800
     | C_GetSlotList _ \<Rightarrow> Some 1 | xFindObjectWithLabelAndClass _ _ _ \<Rightarrow> Some 7
     | C_GetAttributeValue _ _ at \<Rightarrow> Some (if at = CKA_KEY_TYPE then 3 else 600)
     | C_Sign _ _ \<Rightarrow> Some 64 | _ \<Rightarrow> None),
     p11_bytes = (\<lambda>h c. [0x30]), CKR_OK = 0, CKR_HOST_MEMORY = 2, CKR_ARGUMENTS_BAD = 7,
     CKR_FUNCTION_FAILED = 6, CKR_ATTRIBUTE_VALUE_INVALID = 0x13, CKR_OBJECT_HANDLE_INVALID = 0x82,
     CK_INVALID_HANDLE = 0, CKK_RSA = 0, CKK_EC = 3, configPKCS11_DEFAULT_USER_PIN = ''0000'',
     pkcs11configLABEL_DEVICE_PRIVATE_KEY_FOR_TLS = ''Key'',
     pkcs11configLABEL_DEVICE_CERTIFICATE_FOR_TLS = ''Cert'',
     pkcs11RSA_SIGNATURE_INPUT_LENGTH = 51, pkcs11ECDSA_P256_SIGNATURE_LENGTH = 64,
     default_rsa_min_bitlen = 2048, mbedtls_pk_info_from_type = (\<lambda>_. True),
     vAppendSHA256AlgorithmIdentifierSequence = (\<lambda>hash. (0, hash)),
     PKI_pkcs11SignatureTombedTLSSignature = (\<lambda>sig. sig)\<rparr>"

definition demo_context :: P11_Context where
  "demo_context = \<lparr>p11_tcpSocket = 0, rsa_min_bitlen = 0, privKeyInfo = None,
     pxP11FunctionList = 0, xP11Session = 0, xP11PrivateKey = 0, xKeyType = 0\<rparr>"

definition demo_p11_credentials :: P11_Credentials where
  "demo_p11_credentials = \<lparr>p11_pAlpnProtos = None, p11_disableSni = 0, p11_pRootCa = Some [1, 2, 3],
     p11_rootCaSize = 3, p11_pUserName = None, p11_userNameSize = 0, p11_pPassword = None,
     p11_passwordSize = 0\<rparr>"

text \<open>The context of an established connection, with the bound of the profile.\<close>

definition connected_context :: "u32 \<Rightarrow> P11_Context" where
  "connected_context bits = \<lparr>p11_tcpSocket = 5, rsa_min_bitlen = bits,
     privKeyInfo = Some MBEDTLS_PK_ECKEY, pxP11FunctionList = 0x800, xP11Session = 1,
     xP11PrivateKey = 7, xKeyType = 3\<rparr>"

lemma demo_module_standard: "pkcs11_standard demo_module"
  by (simp add: pkcs11_standard_def demo_module_def)

lemma demo_connects: "connects p11_net host port s"
  by (simp add: connects_def connect_defs p11_net_def good_env_def)

lemma p11_net_answers [simp]:
  "answer p11_net h (Mbedtls m) = 0" "answer p11_net h (C_GetSlotList a) = 0"
  "answer p11_net h (C_Login l pin) = 0" "answer p11_net h (xFindObjectWithLabelAndClass l lb cl) = 0"
  "answer p11_net h (C_GetAttributeValue l ob at) = 0"
  "answer p11_net h (pvPortMalloc_call n) = 0x1000" "new_socket p11_net s = 5"
  by (simp_all add: p11_net_def new_socket_def)

lemma demo_handshake:
  "handshake_loop p11_net s = Some (0, do_calls [mbedtls_ssl_handshake] s)"
proof -
  have "MBEDTLS_ERR_SSL_WANT_READ p11_net = - 0x6900" "MBEDTLS_ERR_SSL_WANT_WRITE p11_net = - 0x6880"
    by (simp_all add: p11_net_def good_env_def)
  then show ?thesis by (subst handshake_step) (simp add: want_more_def hs_answer_def)
qed

lemma demo_setup_call:
  "setup_call p11_net (Mbedtls m) e (TLS_TRANSPORT_SUCCESS, s) =
     (TLS_TRANSPORT_SUCCESS, do_calls [Mbedtls m] s)"
  by (simp add: setup_call_def do_call_calls)

lemma demo_keys:
  "pxP11FunctionList ctx \<noteq> 0 \<Longrightarrow> \<exists>s'. initializeClientKeys p11_net demo_module ctx s =
     Some (0, ctx\<lparr>xP11PrivateKey := 7, xKeyType := 3, privKeyInfo := Some MBEDTLS_PK_ECKEY\<rparr>, s')"
  by (simp add: initializeClientKeys_def p11_steps stored_def)
     (simp add: demo_module_def)

lemma demo_certificate:
  "pxP11FunctionList ctx \<noteq> 0 \<Longrightarrow>
   \<exists>s'. readCertificateIntoContext p11_net demo_module ctx l cl ob s = Some (0, s')"
  by (simp add: readCertificateIntoContext_def p11_steps stored_def)
     (simp add: demo_module_def)

lemma demo_init:
  "fst (p11_sslContextInit demo_module ctx s) =
     ctx\<lparr>xP11Session := 1, pxP11FunctionList := 0x800\<rparr>"
  by (simp add: p11_sslContextInit_def stored_def Let_def demo_module_def)

lemma demo_tlsSetup:
  "\<exists>s'. p11_tlsSetup p11_net demo_module (demo_context\<lparr>p11_tcpSocket := 5\<rparr>) (Some host)
     demo_p11_credentials s =
   Some (connected_context (rsa_min_bitlen (setup_profile demo_module host demo_context)),
     TLS_TRANSPORT_SUCCESS, s')"
proof -
  let ?ctx = "demo_context\<lparr>p11_tcpSocket := 5, xP11Session := 1, pxP11FunctionList := 0x800\<rparr>"
  let ?bits = "rsa_min_bitlen (setup_profile demo_module host demo_context)"
  let ?c2 = "?ctx\<lparr>rsa_min_bitlen := ?bits\<rparr>"
  let ?c3 = "?c2\<lparr>xP11PrivateKey := 7, xKeyType := 3, privKeyInfo := Some MBEDTLS_PK_ECKEY\<rparr>"
  have init: "p11_sslContextInit demo_module (demo_context\<lparr>p11_tcpSocket := 5\<rparr>) s =
      (?ctx, do_calls init_calls_p11 s)"
    by (rule prod_eqI) (simp_all add: demo_init)
  have profile: "setup_profile demo_module host ?ctx = ?c2"
    by (simp add: setup_profile_def Let_def)
  have trust: "setup_trust p11_net demo_module host [1, 2, 3] 3 ?ctx (TLS_TRANSPORT_SUCCESS, s') =
      (?c2, TLS_TRANSPORT_SUCCESS, do_calls (trust_calls [1, 2, 3] 3) s')" for s'
    unfolding setup_trust_def profile by (simp add: demo_setup_call after_success_def trust_calls_def)
  have identity: "\<exists>s4. setup_identity p11_net demo_module
      (?c2, TLS_TRANSPORT_SUCCESS, s') = Some (?c3, TLS_TRANSPORT_SUCCESS, s4)" for s'
  proof -
    have "pxP11FunctionList ?c2 \<noteq> 0" "pxP11FunctionList ?c3 \<noteq> 0" by simp_all
    from demo_keys [OF this(1)] obtain s2 where
      k: "initializeClientKeys p11_net demo_module ?c2 s' = Some (0, ?c3, s2)" by blast
    from demo_certificate [OF \<open>pxP11FunctionList ?c3 \<noteq> 0\<close>] obtain s3 where
      c: "readCertificateIntoContext p11_net demo_module ?c3
        (pkcs11configLABEL_DEVICE_CERTIFICATE_FOR_TLS demo_module) CKO_CERTIFICATE Obj_clientCert s2 =
          Some (0, s3)" by blast
    have ok: "CKR_OK demo_module = 0" by (simp add: demo_module_def)
    show ?thesis
      unfolding setup_identity_def prod.case
      by (simp only: k bind.bind_lunit prod.case c ok simp_thms if_True if_False) blast
  qed
  have session: "\<exists>s5. setup_session p11_net ?c3 host demo_p11_credentials (TLS_TRANSPORT_SUCCESS, s') =
      (TLS_TRANSPORT_SUCCESS, s5)" for s'
    by (simp add: setup_session_def demo_setup_call after_success_def demo_p11_credentials_def Let_def)
  have hs: "setup_handshake p11_net (TLS_TRANSPORT_SUCCESS, s') =
      Some (TLS_TRANSPORT_SUCCESS, do_calls [mbedtls_ssl_handshake] s')" for s'
    by (simp add: setup_handshake_def demo_handshake)
  have cr: "p11_pRootCa demo_p11_credentials = Some [1, 2, 3]" "p11_rootCaSize demo_p11_credentials = 3"
    by (simp_all add: demo_p11_credentials_def)
  let ?s1 = "do_calls [mbedtls_ssl_config_defaults] (do_calls init_calls_p11 s)"
  let ?s2 = "do_calls (trust_calls [1, 2, 3] 3) ?s1"
  from identity [of ?s2] obtain s4 where i: "setup_identity p11_net demo_module
      (?c2, TLS_TRANSPORT_SUCCESS, ?s2) = Some (?c3, TLS_TRANSPORT_SUCCESS, s4)" by blast
  from session [of s4] obtain s5 where e: "setup_session p11_net ?c3 host demo_p11_credentials
      (TLS_TRANSPORT_SUCCESS, s4) = (TLS_TRANSPORT_SUCCESS, s5)" by blast
  have c3: "?c3 = connected_context ?bits" by (simp add: demo_context_def connected_context_def)
  show ?thesis
    unfolding p11_tlsSetup_def
    by (simp only: init cr option.simps configASSERT_def simp_thms if_True bind.bind_lunit Let_def
        prod.case demo_setup_call trust i) (simp add: c3 e [unfolded c3] hs)
qed

lemma demo_connection:
  "\<exists>s'. P11_FreeRTOS_Connect p11_net demo_module (Some demo_context) (Some host) port
     (Some demo_p11_credentials) rt st s = Some (TLS_TRANSPORT_SUCCESS,
       Some (connected_context (rsa_min_bitlen (setup_profile demo_module host demo_context))), s')"
proof -
  have ca: "p11_pRootCa demo_p11_credentials = Some [1, 2, 3]"
    by (simp add: demo_p11_credentials_def)
  show ?thesis
    using demo_tlsSetup [of host "do_calls (tcp_calls p11_net host port rt st s
        @ [mbedtls_threading_set_alt]) s"] demo_connects [of host port s]
    by (auto simp: P11_FreeRTOS_Connect_def Sockets_Connect_tcp p11_initMbedtls_def ca)
qed

theorem P11_Connect_success_is_verified_witness:
  "\<exists>s'. P11_FreeRTOS_Connect p11_net demo_module (Some demo_context) (Some ''broker'') 8883
      (Some demo_p11_credentials) 100 100 \<lparr>calls = []\<rparr> =
        Some (TLS_TRANSPORT_SUCCESS, Some (connected_context 2048), s')
    \<and> mbedtls_ssl_conf_authmode_required \<in> set (calls s')"
proof -
  have bits: "rsa_min_bitlen (setup_profile demo_module ''broker'' demo_context) = 2048"
    by code_simp
  obtain s' where s': "P11_FreeRTOS_Connect p11_net demo_module (Some demo_context) (Some ''broker'')
      8883 (Some demo_p11_credentials) 100 100 \<lparr>calls = []\<rparr> =
        Some (TLS_TRANSPORT_SUCCESS, Some (connected_context 2048), s')"
    using demo_connection [of "''broker''" 8883 100 100 "\<lparr>calls = []\<rparr>"] by (auto simp: bits)
  from P11_Connect_success_is_verified [OF demo_module_standard s'] s' show ?thesis
    by (auto simp: trust_calls_def)
qed

text \<open>
  C19. A connection over PKCS #11 gives back everything it takes.  Over a failed attempt that
  starts from a context without a socket, and over a successful one followed by a disconnect,
  the sockets opened are the sockets closed, the heap blocks allocated for the slot list and
  the certificate are the blocks freed, whatever call fails, and each session asked of the
  module is closed once, by the handle in the context.
\<close>

theorem P11_session_releases_everything:
  assumes run: "P11_FreeRTOS_Connect env p (Some c) (Some host) port (Some cr) rt st (s :: net_state) =
      Some (status, Some c1, s1)"
    and ends: "if status = TLS_TRANSPORT_SUCCESS then P11_FreeRTOS_Disconnect env (Some c1) s1 = Some s2
      else s2 = s1 \<and> p11_tcpSocket c = FREERTOS_INVALID_SOCKET env"
  shows "\<exists>cs. made s s2 cs \<and> opened env (calls s) cs = closed cs
    \<and> allocated env (calls s) cs = freed cs
    \<and> length (closed_sessions cs) = count_calls xInitializePkcs11Session cs
    \<and> set (closed_sessions cs) \<subseteq> {xP11Session c1}"
proof -
  have con: "p11_connect env (p, host, port, cr, rt, st) c s =
      Some (status = TLS_TRANSPORT_SUCCESS, c1, s1)"
    using run by (simp add: p11_connect_def)
  from p11_connect_session [OF run] obtain cs where cs: "made s s1 cs"
    "if p11_pRootCa cr \<noteq> None \<and> connects env host port s
     then owns_session env (calls s) cs 1
            (if status = TLS_TRANSPORT_SUCCESS then [] else [xP11Session c1])
     else status \<noteq> TLS_TRANSPORT_SUCCESS \<and> owns_session env (calls s) cs 0 []" by auto
  show ?thesis
  proof (cases "status = TLS_TRANSPORT_SUCCESS")
    case False
    with ends p11.attempt_balanced [OF _ con] obtain ds where
      "made s s1 ds" "opened env (calls s) ds = closed ds" by auto
    moreover from this(1) cs(1) have "ds = cs" by (simp add: made_def)
    ultimately show ?thesis
      using False ends cs by (auto simp: owns_session_def split: if_splits)
  next
    case True
    with con ends have ok: "p11_connect env (p, host, port, cr, rt, st) c s = Some (True, c1, s1)"
      and dis: "p11_disconnect env c1 s1 = Some s2" by (simp_all add: p11_disconnect_def)
    from p11.session_balanced [OF ok dis] obtain ds where
      ds: "made s s2 ds" "opened env (calls s) ds = closed ds" by auto
    from p11.connect_ok [OF ok] have nz: "p11_tcpSocket c1 \<noteq> FREERTOS_INVALID_SOCKET env" by simp
    from p11_disconnect_session [OF nz] dis obtain es where
      es: "made s1 s2 es" "owns_session env (calls s1) es 0 [xP11Session c1]"
      by (auto simp: p11_disconnect_def)
    from cs(1) es(1) ds(1) have "ds = cs @ es" "calls s1 = calls s @ cs" by (simp_all add: made_def)
    with True cs(2) es(2) owns_session_append [of env "calls s" cs 1 "[]" es 0 "[xP11Session c1]"] ds
    show ?thesis by (auto simp: owns_session_def split: if_splits)
  qed
qed

theorem P11_session_releases_everything_witness:
  "\<exists>s1 s2 cs. P11_FreeRTOS_Connect p11_net demo_module (Some demo_context) (Some ''broker'') 8883
      (Some demo_p11_credentials) 100 100 \<lparr>calls = []\<rparr> =
        Some (TLS_TRANSPORT_SUCCESS, Some (connected_context 2048), s1)
    \<and> P11_FreeRTOS_Disconnect p11_net (Some (connected_context 2048)) s1 = Some s2
    \<and> made \<lparr>calls = []\<rparr> s2 cs \<and> allocated p11_net [] cs = freed cs"
proof -
  have bits: "rsa_min_bitlen (setup_profile demo_module ''broker'' demo_context) = 2048"
    by code_simp
  obtain s1 where s1: "P11_FreeRTOS_Connect p11_net demo_module (Some demo_context) (Some ''broker'')
      8883 (Some demo_p11_credentials) 100 100 \<lparr>calls = []\<rparr> =
        Some (TLS_TRANSPORT_SUCCESS, Some (connected_context 2048), s1)"
    using demo_connection [of "''broker''" 8883 100 100 "\<lparr>calls = []\<rparr>"] by (auto simp: bits)
  obtain s2 where s2: "P11_FreeRTOS_Disconnect p11_net (Some (connected_context 2048)) s1 = Some s2"
    by (simp add: P11_FreeRTOS_Disconnect_def p11_sslContextFree_def connected_context_def)
  from P11_session_releases_everything [OF s1, of s2] s1 s2 show ?thesis by auto
qed

text \<open>
  C34. Which brokers get the weakened certificate profile.  After a successful connection the
  profile accepts RSA keys of 1024 bits exactly when the host name is a prefix of
  test.mosquitto.org, the empty name and every name that only begins like it included; every
  other host gets the default bound.
\<close>

theorem weak_profile_iff_prefix:
  assumes "pkcs11_standard p" and "CHR 0x00 \<notin> set host"
    and "P11_FreeRTOS_Connect env p (Some c) (Some host) port (Some cr) rt st s =
      Some (TLS_TRANSPORT_SUCCESS, Some ctx, s')"
  shows "rsa_min_bitlen ctx =
    (if \<exists>rest. ''test.mosquitto.org'' = host @ rest then 1024 else default_rsa_min_bitlen p)"
proof -
  from p11_connect_session [OF assms(3)] have con: "connects env host port s"
    and "p11_pRootCa cr \<noteq> None" by (auto split: if_splits)
  then obtain ca where ca: "p11_pRootCa cr = Some ca" by auto
  from p11_connect_after_tcp [OF ca con assms(3)] obtain s3 where
    t: "p11_tlsSetup env p (c\<lparr>p11_tcpSocket := new_socket env s\<rparr>) (Some host) cr
      (do_calls (tcp_calls env host port rt st s @ [mbedtls_threading_set_alt]) s) =
        Some (ctx, TLS_TRANSPORT_SUCCESS, s3)" by auto
  from p11_tlsSetup_ok [OF assms(1) ca t]
  have "rsa_min_bitlen ctx =
      rsa_min_bitlen (setup_profile p host (c\<lparr>p11_tcpSocket := new_socket env s\<rparr>))" by metis
  then show ?thesis using setup_profile_bound [OF assms(2)] by (simp add: test_broker_def)
qed

theorem weak_profile_iff_prefix_witness:
  "\<exists>s'. P11_FreeRTOS_Connect p11_net demo_module (Some demo_context) (Some ''test'') 8883
      (Some demo_p11_credentials) 100 100 \<lparr>calls = []\<rparr> =
        Some (TLS_TRANSPORT_SUCCESS, Some (connected_context 1024), s')
    \<and> rsa_min_bitlen (connected_context 1024) = 1024"
proof -
  have bits: "rsa_min_bitlen (setup_profile demo_module ''test'' demo_context) = 1024"
    by code_simp
  obtain s' where s': "P11_FreeRTOS_Connect p11_net demo_module (Some demo_context) (Some ''test'')
      8883 (Some demo_p11_credentials) 100 100 \<lparr>calls = []\<rparr> =
        Some (TLS_TRANSPORT_SUCCESS, Some (connected_context 1024), s')"
    using demo_connection [of "''test''" 8883 100 100 "\<lparr>calls = []\<rparr>"] by (auto simp: bits)
  have "\<exists>rest. ''test.mosquitto.org'' = ''test'' @ rest" by simp
  with weak_profile_iff_prefix [OF demo_module_standard _ s'] s' show ?thesis by simp
qed

text \<open>
  The signing callback never reports a failure.  When the module refuses to start the
  signature with an EC key, the callback leaves mbedTLS's signature buffer and its length as
  they were and answers 0, so that mbedTLS sends the old contents of the buffer as the
  signature.
\<close>

theorem refused_signature_reported_as_done:
  assumes "pkcs11_standard p" and "pxP11FunctionList ctx \<noteq> 0" and "xKeyType ctx = CKK_EC p"
    and "length hash \<le> 256"
    and "(of_int (answer env (calls s) (C_SignInit (xP11Session ctx) CKM_ECDSA (xP11PrivateKey ctx)))
          :: u32) \<noteq> CKR_OK p"
  shows "privateKeySigningCallback env p ctx hash sig len s =
    Some (0, sig, len,
      do_calls [C_SignInit (xP11Session ctx) CKM_ECDSA (xP11PrivateKey ctx)] s)"
  using assms
  by (auto simp: privateKeySigningCallback_def xToBeSigned_size_def p11_steps pkcs11_standard_def)

text \<open>A module that refuses to sign.\<close>

definition refusing_net :: net_env where
  "refusing_net = p11_net\<lparr>answer := (\<lambda>h c. case c of C_SignInit _ _ _ \<Rightarrow> 0x54 | _ \<Rightarrow> 0)\<rparr>"

theorem refused_signature_reported_as_done_witness:
  "privateKeySigningCallback refusing_net demo_module (connected_context 2048) (replicate 32 7)
     [0, 0, 0] 3 \<lparr>calls = []\<rparr> = Some (0, [0, 0, 0], 3, \<lparr>calls = [C_SignInit 1 CKM_ECDSA 7]\<rparr>)"
  using refused_signature_reported_as_done [OF demo_module_standard,
      of "connected_context 2048" "replicate 32 7" refusing_net "\<lparr>calls = []\<rparr>" "[0, 0, 0]" 3]
  by (simp add: connected_context_def demo_module_def refusing_net_def do_calls_def)

text \<open>
  What the length check of the signing callback protects.  With a module, the callback
  runs out of its 256-byte buffer exactly for an EC key and a hash of more than 256 bytes: the
  check sets an error code, and the copy is made all the same.
\<close>

theorem signing_overruns_iff:
  assumes "pxP11FunctionList ctx \<noteq> 0" and "CKK_RSA p \<noteq> CKK_EC p"
  shows "privateKeySigningCallback env p ctx hash sig len s = None \<longleftrightarrow>
    xKeyType ctx = CKK_EC p \<and> 256 < length hash"
  using assms
  by (auto simp: privateKeySigningCallback_def xToBeSigned_size_def p11_steps bind_eq_None_conv
      split: prod.splits)

theorem signing_overruns_iff_witness:
  "privateKeySigningCallback p11_net demo_module (connected_context 2048) (replicate 257 7) [] 0
     \<lparr>calls = []\<rparr> = None
   \<and> privateKeySigningCallback p11_net demo_module (connected_context 2048) (replicate 256 7) [] 0
     \<lparr>calls = []\<rparr> \<noteq> None"
proof -
  have c: "pxP11FunctionList (connected_context 2048) \<noteq> 0" "CKK_RSA demo_module \<noteq> CKK_EC demo_module"
    "xKeyType (connected_context 2048) = CKK_EC demo_module"
    by (simp_all add: connected_context_def demo_module_def)
  show ?thesis using c by (simp add: signing_overruns_iff [OF c(1,2)])
qed

text \<open>
  The check for a missing device key compares equal to success: the search answers
  \<open>CKR_OK\<close> with the invalid handle, whose value is that of \<open>CKR_OK\<close>, and the code goes on to
  query the key type of the invalid handle.
\<close>

lemma missing_key_not_reported:
  assumes "pkcs11_standard p" and "pxP11FunctionList ctx \<noteq> 0"
    and "\<And>h c. (of_int (answer env h c) :: u32) = (case c of pvPortMalloc_call _ \<Rightarrow> 0x1000 | _ \<Rightarrow> 0)"
    and "\<And>h l lb cl. p11_out p h (xFindObjectWithLabelAndClass l lb cl) = Some (CK_INVALID_HANDLE p)"
    and "\<And>h l ob. p11_out p h (C_GetAttributeValue l ob CKA_KEY_TYPE) = Some (CKK_EC p)"
    and "mbedtls_pk_info_from_type p MBEDTLS_PK_ECKEY"
  shows "\<exists>s'. initializeClientKeys env p ctx s =
    Some (CKR_OK p, ctx\<lparr>xP11PrivateKey := CK_INVALID_HANDLE p, xKeyType := CKK_EC p,
      privKeyInfo := Some MBEDTLS_PK_ECKEY\<rparr>, s')"
  using assms
  by (simp add: initializeClientKeys_def p11_steps stored_def pkcs11_standard_def)

end
