(* ===== verification/Platform_Port.thy ===== *)
theory Platform_Port
  imports Network_Calls
begin

unbundle bit_operations_syntax

text \<open>
  source/main.c: the pseudo random number generator, its users and the network event hook;
  lib/FreeRTOS/utilities/mbedtls_freertos/mbedtls_freertos_port.c: the memory, transport, mutex
  and entropy functions that mbedTLS calls.

  The generator state \<open>ulNextRand\<close> is passed and returned.  The allocator, the semaphores and
  the sockets are the kernel's and FreeRTOS+TCP's and enter as parameters.
\<close>

section \<open>main.c: random numbers\<close>

definition uxRand :: "u32 \<Rightarrow> u32 \<times> u32" where
  "uxRand ulNextRand =
     (let ulMultiplier = 0x015a4e35; ulIncrement = 1;
          ulNextRand' = ulMultiplier * ulNextRand + ulIncrement
      in (ulNextRand', ulNextRand'))"

definition prvSRand :: "u32 \<Rightarrow> u32" where
  "prvSRand ulSeed = ulSeed"

text \<open>
  The start-up code seeds the generator with the time of day, truncated to 32 bits.  The debug
  message that follows takes four numbers: \<open>debug\<close> is whether \<open>LogDebug\<close> is compiled in, as it is
  with the \<open>LOG_LEVEL\<close> of logging_config.h.
\<close>

definition prvMiscInitialisation :: "bool \<Rightarrow> nat \<Rightarrow> u32" where
  "prvMiscInitialisation debug xTimeNow =
     (let seeded = prvSRand (of_nat xTimeNow)
      in if debug then ((fst \<circ> uxRand) ^^ 4) seeded else seeded)"

definition ulApplicationGetNextSequenceNumber :: "u32 \<Rightarrow> u16 \<Rightarrow> u32 \<Rightarrow> u16 \<Rightarrow> u32 \<Rightarrow> u32 \<times> u32" where
  "ulApplicationGetNextSequenceNumber ulSourceAddress usSourcePort ulDestinationAddress
     usDestinationPort ulNextRand = uxRand ulNextRand"

text \<open>The result, the number stored in \<open>*pulNumber\<close> and the generator state.\<close>

definition xApplicationGetRandomNumber :: "u32 \<Rightarrow> bool \<times> u32 \<times> u32" where
  "xApplicationGetRandomNumber ulNextRand =
     (let (r, st) = uxRand ulNextRand in (True, r, st))"

section \<open>main.c: the network event hook\<close>

datatype eIPCallbackEvent = eNetworkUp | eNetworkDown

text \<open>
  \<open>xTasksAlreadyCreated\<close>, and the tasks of the kernel, which \<open>vStartMQTTAgentDemo\<close> of
  mqtt-agent-task.c, the argument \<open>start\<close>, adds to.
\<close>

record 'k hook_state =
  xTasksAlreadyCreated :: bool
  hook_kernel :: 'k

definition hook_init :: "'k \<Rightarrow> 'k hook_state" where
  "hook_init k = \<lparr>xTasksAlreadyCreated = False, hook_kernel = k\<rparr>"

definition vApplicationIPNetworkEventHook ::
  "('k \<Rightarrow> 'k) \<Rightarrow> eIPCallbackEvent \<Rightarrow> 'k hook_state \<Rightarrow> 'k hook_state" where
  "vApplicationIPNetworkEventHook start eNetworkEvent s =
     (if eNetworkEvent = eNetworkUp then
        if \<not> xTasksAlreadyCreated s
        then s\<lparr>hook_kernel := start (hook_kernel s), xTasksAlreadyCreated := True\<rparr>
        else s
      else s)"

section \<open>mbedtls_freertos_port.c\<close>

text \<open>
  The result of \<open>pvPortMalloc\<close>: a block of the requested size with arbitrary contents, or
  \<open>NULL\<close>.
\<close>

definition mbedtls_platform_calloc ::
  "(u32 \<Rightarrow> u8 list option) \<Rightarrow> u32 \<Rightarrow> u32 \<Rightarrow> u8 list option" where
  "mbedtls_platform_calloc pvPortMalloc nmemb sz =
     (let totalSize = nmemb * sz in
      if totalSize > 0 then
        if totalSize div sz = nmemb then
          (case pvPortMalloc totalSize of
             Some pBuffer \<Rightarrow> Some (replicate (unat totalSize) 0)
           | None \<Rightarrow> None)
        else None
      else None)"

text \<open>
  The context of the transport callbacks is the socket handle itself, cast to a pointer: a
  zero handle is \<open>NULL\<close>.
\<close>

definition mbedtls_platform_send ::
  "net_env \<Rightarrow> Socket \<Rightarrow> u8 list option \<Rightarrow> 'x net_state_scheme \<Rightarrow> (int \<times> 'x net_state_scheme) option" where
  "mbedtls_platform_send env ctx pBuf s = do {
     _ \<leftarrow> configASSERT (ctx \<noteq> 0);
     _ \<leftarrow> configASSERT (pBuf \<noteq> None);
     bytes \<leftarrow> pBuf;
     Some (do_call env (FreeRTOS_send ctx bytes) s)
   }"

definition mbedtls_platform_recv ::
  "net_env \<Rightarrow> Socket \<Rightarrow> u8 list option \<Rightarrow> nat \<Rightarrow> 'x net_state_scheme
   \<Rightarrow> (int \<times> 'x net_state_scheme) option" where
  "mbedtls_platform_recv env ctx pBuf len s = do {
     _ \<leftarrow> configASSERT (ctx \<noteq> 0);
     _ \<leftarrow> configASSERT (pBuf \<noteq> None);
     Some (do_call env (FreeRTOS_recv ctx len) s)
   }"

record 'm semaphore_api =
  xSemaphoreCreateMutexStatic :: "'m option"
  xSemaphoreTake :: "'m \<Rightarrow> bool \<times> 'm"
  xSemaphoreGive :: "'m \<Rightarrow> bool \<times> 'm"

text \<open>\<open>mbedtls_threading_mutex_t\<close>: its handle, \<open>None\<close> being \<open>NULL\<close>.\<close>

record 'm mbedtls_mutex =
  mutexHandle :: "'m option"

definition mbedtls_platform_mutex_init ::
  "'m semaphore_api \<Rightarrow> 'm mbedtls_mutex option \<Rightarrow> 'm mbedtls_mutex option" where
  "mbedtls_platform_mutex_init api pMutex = do {
     _ \<leftarrow> configASSERT (pMutex \<noteq> None);
     m \<leftarrow> pMutex;
     let m' = m\<lparr>mutexHandle := xSemaphoreCreateMutexStatic api\<rparr>;
     _ \<leftarrow> configASSERT (mutexHandle m' \<noteq> None);
     Some m'
   }"

definition mbedtls_platform_mutex_free :: "'m mbedtls_mutex option \<Rightarrow> 'm mbedtls_mutex option" where
  "mbedtls_platform_mutex_free pMutex = pMutex"

definition mbedtls_platform_mutex_lock ::
  "'m semaphore_api \<Rightarrow> 'm mbedtls_mutex option \<Rightarrow> (int \<times> 'm mbedtls_mutex) option" where
  "mbedtls_platform_mutex_lock api pMutex = do {
     _ \<leftarrow> configASSERT (pMutex \<noteq> None);
     m \<leftarrow> pMutex;
     h \<leftarrow> mutexHandle m;
     let (mutexStatus, h') = xSemaphoreTake api h;
     _ \<leftarrow> configASSERT mutexStatus;
     Some (0, m\<lparr>mutexHandle := Some h'\<rparr>)
   }"

definition mbedtls_platform_mutex_unlock ::
  "'m semaphore_api \<Rightarrow> 'm mbedtls_mutex option \<Rightarrow> (int \<times> 'm mbedtls_mutex) option" where
  "mbedtls_platform_mutex_unlock api pMutex = do {
     _ \<leftarrow> configASSERT (pMutex \<noteq> None);
     m \<leftarrow> pMutex;
     h \<leftarrow> mutexHandle m;
     let (mutexStatus, h') = xSemaphoreGive api h;
     _ \<leftarrow> configASSERT mutexStatus;
     Some (0, m\<lparr>mutexHandle := Some h'\<rparr>)
   }"

fun entropy_loop :: "nat \<Rightarrow> nat \<Rightarrow> u8 list \<Rightarrow> u32 \<Rightarrow> (u8 list \<times> u32) option" where
  "entropy_loop bytes 0 output st = Some (output, st)"
| "entropy_loop bytes (Suc n) output st = do {
     let (r, st') = uxRand st;
     output' \<leftarrow> arr_set output bytes (ucast (r AND 0xff));
     entropy_loop (Suc bytes) n output' st'
   }"

text \<open>The status, the output buffer, \<open>*olen\<close> and the generator state.\<close>

definition mbedtls_platform_entropy_poll ::
  "u8 list option \<Rightarrow> u32 \<Rightarrow> u32 option \<Rightarrow> u32 \<Rightarrow> (int \<times> u8 list \<times> u32 \<times> u32) option" where
  "mbedtls_platform_entropy_poll output len olen st = do {
     _ \<leftarrow> configASSERT (output \<noteq> None);
     _ \<leftarrow> configASSERT (olen \<noteq> None);
     out \<leftarrow> output;
     (out', st') \<leftarrow> entropy_loop 0 (unat len) out st;
     Some (0, out', len, st')
   }"

definition mbedtls_hardware_poll ::
  "u8 list option \<Rightarrow> u32 \<Rightarrow> u32 option \<Rightarrow> u32 \<Rightarrow> (int \<times> u8 list \<times> u32 \<times> u32) option" where
  "mbedtls_hardware_poll output len olen st = mbedtls_platform_entropy_poll output len olen st"

section \<open>The bytes the generator produces\<close>

text \<open>The low byte of the generator steps on its own.\<close>

definition byte_step :: "u8 \<Rightarrow> u8" where
  "byte_step b = 0x35 * b + 1"

fun byte_stream :: "nat \<Rightarrow> u8 \<Rightarrow> u8 list" where
  "byte_stream 0 b = []"
| "byte_stream (Suc n) b = byte_step b # byte_stream n (byte_step b)"

lemma length_byte_stream [simp]: "length (byte_stream n b) = n"
  by (induction n arbitrary: b) simp_all

lemma of_nat_mod_8: "(of_nat (k mod 2 ^ 32) :: u8) = of_nat k"
proof -
  have "(of_nat (k mod 2 ^ 32) :: u8) = of_nat (k mod 2 ^ 32 mod 2 ^ 8)"
    by (simp add: unat_of_nat word_unat_eq_iff take_bit_nat_def)
  also have "k mod 2 ^ 32 mod 2 ^ 8 = k mod 2 ^ 8"
    by (rule mod_mod_cancel) (simp add: le_imp_power_dvd)
  also have "(of_nat (k mod 2 ^ 8) :: u8) = of_nat k"
    by (simp add: unat_of_nat word_unat_eq_iff take_bit_nat_def)
  finally show ?thesis .
qed

lemma ucast_8: "(ucast (w :: u32) :: u8) = of_nat (unat w)"
  by simp

lemma ucast_low_byte: "(ucast (w AND 0xff :: u32) :: u8) = ucast w"
proof -
  have m: "(0xff :: nat) = mask 8" by (simp add: mask_eq_exp_minus_1)
  have "unat (w AND 0xff) = unat w AND 0xff" by (simp add: unsigned_and_eq)
  also have "\<dots> = unat w mod 2 ^ 8"
    unfolding m by (simp only: take_bit_eq_mask [symmetric] take_bit_eq_mod)
  finally have "(ucast (w AND 0xff) :: u8) = of_nat (unat w mod 2 ^ 8)" by (simp only: ucast_8)
  also have "\<dots> = of_nat (unat w)"
    by (simp only: word_unat_eq_iff unat_of_nat take_bit_nat_def) simp
  finally show ?thesis by (simp only: ucast_8)
qed

lemma ucast_uxRand: "(ucast (fst (uxRand st)) :: u8) = byte_step (ucast st)"
proof -
  have "unat (0x015a4e35 * st + 1) = (0x015a4e35 * unat st + 1) mod 2 ^ 32"
    by (simp add: unat_word_ariths mod_simps)
  then have "(ucast (0x015a4e35 * st + 1) :: u8) = of_nat (0x015a4e35 * unat st + 1)"
    by (simp only: ucast_8 of_nat_mod_8)
  also have "\<dots> = of_nat 0x015a4e35 * of_nat (unat st) + 1"
    by (simp only: of_nat_add of_nat_mult of_nat_1)
  also have "(of_nat 0x015a4e35 :: u8) = 0x35" by simp
  finally have "(ucast (0x015a4e35 * st + 1) :: u8) = 0x35 * ucast st + 1" by (simp only: ucast_8)
  then show ?thesis by (simp add: uxRand_def byte_step_def Let_def)
qed

lemma uxRand_pair: "uxRand st = (fst (uxRand st), fst (uxRand st))"
  by (simp add: uxRand_def Let_def)

lemma entropy_loop_eq:
  "i + n \<le> length out \<Longrightarrow>
   \<exists>st'. entropy_loop i n out st =
     Some (take i out @ byte_stream n (ucast st) @ drop (i + n) out, st')"
proof (induction n arbitrary: i out st)
  case 0
  then show ?case by simp
next
  case (Suc n)
  let ?st = "fst (uxRand st)" and ?b = "byte_step (ucast st)"
  have b: "(ucast (?st AND 0xff) :: u8) = ?b"
    by (simp only: ucast_low_byte ucast_uxRand)
  have step: "entropy_loop i (Suc n) out st = entropy_loop (Suc i) n (out[i := ?b]) ?st"
    using Suc.prems by (subst entropy_loop.simps, subst uxRand_pair) (simp add: b)
  have "Suc i + n \<le> length (out[i := ?b])" using Suc.prems by simp
  from Suc.IH [OF this, of ?st] obtain st' where
    "entropy_loop (Suc i) n (out[i := ?b]) ?st =
      Some (take (Suc i) (out[i := ?b]) @ byte_stream n (ucast ?st) @ drop (Suc i + n) (out[i := ?b]), st')"
    by blast
  then show ?case
    using Suc.prems by (simp add: step ucast_uxRand take_Suc_conv_app_nth del: entropy_loop.simps)
qed

section \<open>Properties\<close>

text \<open>
  The entropy source that mbedTLS is seeded with has one byte of state: it fills exactly
  the requested bytes and reports success, but all of them are determined by the low byte of
  the generator state, so that for any length there are at most 256 different outputs.
\<close>

theorem entropy_poll_one_byte:
  assumes "unat len \<le> length out"
  shows "\<exists>st'. mbedtls_platform_entropy_poll (Some out) len (Some olen) st =
     Some (0, byte_stream (unat len) (ucast st) @ drop (unat len) out, len, st')"
  using entropy_loop_eq [of 0 "unat len" out st] assms
  by (auto simp: mbedtls_platform_entropy_poll_def)

lemma byte_stream_3:
  "byte_stream 3 b = [byte_step b, byte_step (byte_step b), byte_step (byte_step (byte_step b))]"
  by (simp add: numeral_3_eq_3)

theorem entropy_poll_one_byte_witness:
  "\<exists>st'. mbedtls_platform_entropy_poll (Some [0, 0, 0, 9]) 3 (Some 0) 0x12345601 =
     Some (0, [0x36, 0x2f, 0xbc, 9], 3, st')"
proof -
  have "byte_stream 3 (ucast (0x12345601 :: u32)) = [0x36, 0x2f, 0xbc]"
    by (simp add: byte_stream_3 byte_step_def)
  moreover have "unat (3 :: u32) \<le> length [0 :: u8, 0, 0, 9]" by simp
  ultimately show ?thesis
    using entropy_poll_one_byte [of 3 "[0, 0, 0, 9]" 0 "0x12345601"] by simp
qed

text \<open>
  mbedtls_platform_calloc never hands out a block that is smaller than it promises: a block
  it returns has exactly nmemb times size bytes, all zero, and when that product does not fit
  in 32 bits, or is zero, it returns NULL without asking the allocator.
\<close>

theorem calloc_exact:
  "(case mbedtls_platform_calloc alloc nmemb sz of
      Some b \<Rightarrow> b = replicate (unat nmemb * unat sz) 0 \<and> unat nmemb * unat sz < 2 ^ 32
        \<and> alloc (nmemb * sz) \<noteq> None
    | None \<Rightarrow> unat nmemb * unat sz = 0 \<or> 2 ^ 32 \<le> unat nmemb * unat sz
        \<or> alloc (nmemb * sz) = None)"
proof -
  let ?p = "unat nmemb * unat sz" and ?t = "nmemb * sz"
  have wrap: "unat ?t = ?p mod 2 ^ 32" by (simp add: unat_word_ariths)
  have pos: "?t > 0 \<longleftrightarrow> ?p mod 2 ^ 32 \<noteq> 0"
    unfolding wrap [symmetric] by (simp add: word_gt_0 unsigned_eq_0_iff)
  have small: "?p < 2 ^ 32" if "?t div sz = nmemb"
  proof -
    have "unat nmemb = unat ?t div unat sz" using that by (metis unat_div)
    then have "?p \<le> unat ?t" by simp
    then show ?thesis using unsigned_less [of ?t, where 'a = nat] by simp
  qed
  have exact: "?t div sz = nmemb" if "?p < 2 ^ 32" "?p \<noteq> 0"
  proof -
    have "unat (?t div sz) = ?p div unat sz"
      unfolding unat_div wrap using that(1) by simp
    also have "\<dots> = unat nmemb" using that(2) by simp
    finally show ?thesis by (simp only: word_unat_eq_iff)
  qed
  show ?thesis
  proof (cases "0 < ?t \<and> ?t div sz = nmemb")
    case True
    then have "?p < 2 ^ 32" using small by blast
    then have "unat ?t = ?p" using wrap by simp
    with True \<open>?p < 2 ^ 32\<close> show ?thesis
      by (cases "alloc ?t") (simp_all add: mbedtls_platform_calloc_def Let_def)
  next
    case False
    then have none: "mbedtls_platform_calloc alloc nmemb sz = None"
      by (auto simp: mbedtls_platform_calloc_def Let_def)
    have "?p = 0 \<or> 2 ^ 32 \<le> ?p"
    proof (rule ccontr)
      assume *: "\<not> (?p = 0 \<or> 2 ^ 32 \<le> ?p)"
      then have "?p < 2 ^ 32" "?p \<noteq> 0" by linarith+
      moreover from this have "0 < ?t" using pos by simp
      ultimately show False using exact False by blast
    qed
    with none show ?thesis by (simp only: option.case) blast
  qed
qed

text \<open>
  The MQTT agent demo is started exactly once, at the first network-up event, however often
  the network goes down and comes back.
\<close>

lemma hook_events:
  "foldl (\<lambda>s e. vApplicationIPNetworkEventHook start e s) (hook_init k) events =
     \<lparr>xTasksAlreadyCreated = eNetworkUp \<in> set events,
      hook_kernel = (if eNetworkUp \<in> set events then start k else k)\<rparr>"
  by (induction events rule: rev_induct)
     (auto simp: vApplicationIPNetworkEventHook_def hook_init_def)

theorem agent_started_once:
  "hook_kernel (foldl (\<lambda>s e. vApplicationIPNetworkEventHook start e s) (hook_init k) events) =
     (if eNetworkUp \<in> set events then start k else k)"
  by (simp add: hook_events)

end
