(* ===== verification/Mqtt_Agent_Task.thy ===== *)
theory Mqtt_Agent_Task
  imports Subscription_Manager Command_Pool Tls_Transport
begin

text \<open>
  source/mqtt-agent-task.c: the task that owns the MQTT connection.  It connects the socket
  with a bounded number of retries, connects and resumes the MQTT session, runs the command
  loop of the agent library and reconnects when that loop fails; its callbacks fan publishes
  out, remove refused subscriptions and wake the agent up.

  The build is the one of demo_config.h: TLS is on.  The optional settings of that file are the
  record \<open>demo_config\<close>; whether the OTA demo is built is one of them.  The coreMQTT agent
  library runs the callbacks of the tasks inside \<open>MQTTAgent_CommandLoop\<close>, so that call may
  change the subscription list in any way (\<open>command_loop_effect\<close>).  The generator behind
  \<open>uxRand\<close> is shared with every task and with mbedTLS, so its answers are the environment's.
\<close>

section \<open>Data\<close>

definition MQTT_AGENT_COMMAND_QUEUE_LENGTH :: nat where
  "MQTT_AGENT_COMMAND_QUEUE_LENGTH = 25"

definition mqttexampleCONNACK_RECV_TIMEOUT_MS :: u32 where
  "mqttexampleCONNACK_RECV_TIMEOUT_MS = 2000"

definition RETRY_MAX_ATTEMPTS :: u32 where "RETRY_MAX_ATTEMPTS = 5"

definition RETRY_MAX_BACKOFF_DELAY_MS :: u16 where "RETRY_MAX_BACKOFF_DELAY_MS = 5000"

definition RETRY_BACKOFF_BASE_MS :: u16 where "RETRY_BACKOFF_BASE_MS = 500"

definition mqttexampleKEEP_ALIVE_INTERVAL_SECONDS :: u16 where
  "mqttexampleKEEP_ALIVE_INTERVAL_SECONDS = 60"

definition mqttexampleTRANSPORT_SEND_RECV_TIMEOUT_MS :: u32 where
  "mqttexampleTRANSPORT_SEND_RECV_TIMEOUT_MS = 750"

definition configTICK_RATE_HZ :: u32 where "configTICK_RATE_HZ = 1000"

definition mqttexampleMILLISECONDS_PER_TICK :: u32 where
  "mqttexampleMILLISECONDS_PER_TICK = 1000 div configTICK_RATE_HZ"

text \<open>
  The settings of demo_config.h; the optional ones are \<open>None\<close> when they are not defined.  The
  PEM strings are given with their terminating NUL, as \<open>sizeof\<close> counts it.
\<close>

record demo_config =
  democonfigCLIENT_IDENTIFIER :: string
  democonfigMQTT_BROKER_ENDPOINT :: string
  democonfigMQTT_BROKER_PORT :: u16
  democonfigROOT_CA_PEM :: "u8 list"
  democonfigCLIENT_CERTIFICATE_PEM :: "(u8 list \<times> u8 list) option"
  democonfigDISABLE_SNI :: int
  democonfigUSE_AWS_IOT_CORE_BROKER :: bool
  democonfigCLIENT_USERNAME :: "(string \<times> string) option"
  AWS_IOT_METRICS_STRING :: string
  democonfigCREATE_CODE_SIGNING_OTA_DEMO :: bool

datatype BackoffAlgorithmStatus =
  BackoffAlgorithmSuccess | BackoffAlgorithmRetriesExhausted

record ('b, 'cb, 'ctx) agent_env =
  net :: net_env
  session_present :: "net_call list \<Rightarrow> bool"
  MQTTSuccess :: int
  MQTTBadParameter :: int
  MQTTSubAckFailure :: int
  BackoffAlgorithm_InitializeParams :: "u16 \<Rightarrow> u16 \<Rightarrow> u32 \<Rightarrow> 'b"
  BackoffAlgorithm_GetNextBackoff :: "'b \<Rightarrow> u32 \<Rightarrow> BackoffAlgorithmStatus \<times> u16 \<times> 'b"
  command_loop_effect ::
    "net_call list \<Rightarrow> ('cb, 'ctx) SubscriptionElement list \<Rightarrow> ('cb, 'ctx) SubscriptionElement list"

text \<open>The static and global variables of the file, on top of the history of calls.\<close>

record ('q, 'c, 'cb, 'ctx) agent_state = net_state +
  xNetworkContext :: Tls_Context
  ulGlobalEntryTimeMs :: u32
  xCommandQueue :: "'q MQTTAgentMessageContext"
  command_pool :: "('q, 'c) pool_state"
  xGlobalSubscriptionList :: "('cb, 'ctx) SubscriptionElement list"

section \<open>Time\<close>

definition prvGetTimeMs ::
  "('b, 'cb, 'ctx) agent_env \<Rightarrow> ('q, 'c, 'cb, 'ctx) agent_state
   \<Rightarrow> u32 \<times> ('q, 'c, 'cb, 'ctx) agent_state" where
  "prvGetTimeMs env s =
     (let (ticks, s1) = do_call (net env) xTaskGetTickCount s;
          ulTimeMs = of_int ticks * mqttexampleMILLISECONDS_PER_TICK
      in (ulTimeMs - ulGlobalEntryTimeMs s1, s1))"

section \<open>Connecting the socket\<close>

definition alpn_protocols :: "demo_config \<Rightarrow> string list option" where
  "alpn_protocols cfg =
     (if democonfigUSE_AWS_IOT_CORE_BROKER cfg
      then Some [if democonfigCLIENT_USERNAME cfg \<noteq> None then ''mqtt'' else ''x-amzn-mqtt-ca'']
      else None)"

definition network_credentials :: "demo_config \<Rightarrow> NetworkCredentials" where
  "network_credentials cfg = \<lparr>
     pAlpnProtos = alpn_protocols cfg,
     disableSni = democonfigDISABLE_SNI cfg,
     pRootCa = Some (democonfigROOT_CA_PEM cfg),
     rootCaSize = length (democonfigROOT_CA_PEM cfg),
     pClientCert = map_option fst (democonfigCLIENT_CERTIFICATE_PEM cfg),
     clientCertSize = (case democonfigCLIENT_CERTIFICATE_PEM cfg of
        Some (cert, key) \<Rightarrow> length cert | None \<Rightarrow> 0),
     pPrivateKey = map_option snd (democonfigCLIENT_CERTIFICATE_PEM cfg),
     privateKeySize = (case democonfigCLIENT_CERTIFICATE_PEM cfg of
        Some (cert, key) \<Rightarrow> length key | None \<Rightarrow> 0)\<rparr>"

text \<open>
  The \<open>do\<close> loop of \<open>prvSocketConnect\<close>, with the context of the backoff library; \<open>None\<close> when
  it, or a handshake in it, does not end.
\<close>

partial_function (option) connect_loop ::
  "('b, 'cb, 'ctx) agent_env \<Rightarrow> demo_config \<Rightarrow> 'b \<Rightarrow> ('q, 'c, 'cb, 'ctx) agent_state
   \<Rightarrow> (bool \<times> ('q, 'c, 'cb, 'ctx) agent_state) option" where
  "connect_loop env cfg xReconnectParams s = do {
     (xNetworkStatus, pctx, s1) \<leftarrow> TLS_FreeRTOS_Connect (net env) (Some (xNetworkContext s))
        (Some (democonfigMQTT_BROKER_ENDPOINT cfg)) (democonfigMQTT_BROKER_PORT cfg)
        (Some (network_credentials cfg)) mqttexampleTRANSPORT_SEND_RECV_TIMEOUT_MS
        mqttexampleTRANSPORT_SEND_RECV_TIMEOUT_MS s;
     ctx \<leftarrow> pctx;
     let s2 = s1\<lparr>xNetworkContext := ctx\<rparr>;
     if xNetworkStatus = TLS_TRANSPORT_SUCCESS then Some (True, s2)
     else do {
       let (r, s3) = do_call (net env) uxRand_call s2;
       let (xBackoffAlgStatus, usNextRetryBackOff, b) =
         BackoffAlgorithm_GetNextBackoff env xReconnectParams (of_int r);
       if xBackoffAlgStatus = BackoffAlgorithmSuccess
       then connect_loop env cfg b
              (do_calls [vTaskDelay (ms_to_ticks (net env) (ucast usNextRetryBackOff))] s3)
       else Some (False, s3)
     }
   }"

definition prvSocketConnect ::
  "('b, 'cb, 'ctx) agent_env \<Rightarrow> demo_config \<Rightarrow> ('q, 'c, 'cb, 'ctx) agent_state
   \<Rightarrow> (bool \<times> ('q, 'c, 'cb, 'ctx) agent_state) option" where
  "prvSocketConnect env cfg s = do {
     let xReconnectParams = BackoffAlgorithm_InitializeParams env RETRY_BACKOFF_BASE_MS
           RETRY_MAX_BACKOFF_DELAY_MS RETRY_MAX_ATTEMPTS;
     (xConnected, s1) \<leftarrow> connect_loop env cfg xReconnectParams s;
     if xConnected then
       Some (xConnected,
         do_calls [FreeRTOS_setsockopt (tls_tcpSocket (xNetworkContext s1))
                     FREERTOS_SO_WAKEUP_CALLBACK 1,
                   FreeRTOS_setsockopt (tls_tcpSocket (xNetworkContext s1))
                     FREERTOS_SO_RCVTIMEO 0] s1)
     else Some (xConnected, s1)
   }"

definition prvSocketDisconnect ::
  "('b, 'cb, 'ctx) agent_env \<Rightarrow> ('q, 'c, 'cb, 'ctx) agent_state
   \<Rightarrow> bool \<times> ('q, 'c, 'cb, 'ctx) agent_state" where
  "prvSocketDisconnect env s =
     (let s1 = do_calls [FreeRTOS_setsockopt (tls_tcpSocket (xNetworkContext s))
                           FREERTOS_SO_WAKEUP_CALLBACK 0] s
      in (True, TLS_FreeRTOS_Disconnect (net env) (Some (xNetworkContext s1)) s1))"

section \<open>The MQTT session\<close>

definition prvMQTTInit ::
  "('b, 'cb, 'ctx) agent_env \<Rightarrow> 'q queue_api \<Rightarrow> 'c pool_layout \<Rightarrow> ('q, 'c, 'cb, 'ctx) agent_state
   \<Rightarrow> (int \<times> ('q, 'c, 'cb, 'ctx) agent_state) option" where
  "prvMQTTInit env api lay s = do {
     let q = xQueueCreateStatic api MQTT_AGENT_COMMAND_QUEUE_LENGTH;
     let s1 = s\<lparr>xCommandQueue := \<lparr>queue = q\<rparr>\<rparr>;
     _ \<leftarrow> configASSERT (queue (xCommandQueue s1) \<noteq> None);
     pool \<leftarrow> Agent_InitializePool api lay (command_pool s1);
     let s2 = s1\<lparr>command_pool := pool\<rparr>;
     Some (do_call (net env) MQTTAgent_Init s2)
   }"

text \<open>
  The collection loop of \<open>prvHandleResubscribe\<close>: \<open>xSubInfo\<close> has room for every element and
  \<open>usNumSubscriptions\<close> of its elements are filled.
\<close>

fun resubscribe_scan ::
  "('cb, 'ctx) SubscriptionElement list \<Rightarrow> nat \<Rightarrow> nat \<Rightarrow> MQTTSubscribeInfo list \<Rightarrow> nat
   \<Rightarrow> (MQTTSubscribeInfo list \<times> nat) option" where
  "resubscribe_scan l ulIndex 0 xSubInfo usNum = Some (xSubInfo, usNum)"
| "resubscribe_scan l ulIndex (Suc n) xSubInfo usNum = do {
     e \<leftarrow> arr_get l ulIndex;
     if usFilterStringLength e \<noteq> 0 then do {
       info \<leftarrow> arr_set xSubInfo usNum \<lparr>sub_qos = 1,
         pTopicFilter = pcSubscriptionFilterString e,
         topicFilterLength = usFilterStringLength e\<rparr>;
       resubscribe_scan l (Suc ulIndex) n info (Suc usNum)
     }
     else resubscribe_scan l (Suc ulIndex) n xSubInfo usNum
   }"

definition zero_sub_info :: MQTTSubscribeInfo where
  "zero_sub_info = \<lparr>sub_qos = 0, pTopicFilter = None, topicFilterLength = 0\<rparr>"

definition prvHandleResubscribe ::
  "('b, 'cb, 'ctx) agent_env \<Rightarrow> ('q, 'c, 'cb, 'ctx) agent_state
   \<Rightarrow> (int \<times> ('q, 'c, 'cb, 'ctx) agent_state) option" where
  "prvHandleResubscribe env s = do {
     (xSubInfo, usNumSubscriptions) \<leftarrow> resubscribe_scan (xGlobalSubscriptionList s) 0
        SUBSCRIPTION_MANAGER_MAX_SUBSCRIPTIONS
        (replicate SUBSCRIPTION_MANAGER_MAX_SUBSCRIPTIONS zero_sub_info) 0;
     if usNumSubscriptions > 0
     then Some (do_call (net env) (MQTTAgent_Subscribe (take usNumSubscriptions xSubInfo)) s)
     else Some (MQTTSuccess env, s)
   }"

text \<open>The connect arguments; \<open>memset\<close> has zeroed the structure first.\<close>

definition connect_info :: "demo_config \<Rightarrow> bool \<Rightarrow> MQTTConnectInfo" where
  "connect_info cfg xCleanSession =
     (let base = \<lparr>cleanSession = xCleanSession,
            pClientIdentifier = democonfigCLIENT_IDENTIFIER cfg,
            clientIdentifierLength = of_nat (length (democonfigCLIENT_IDENTIFIER cfg)),
            keepAliveSeconds = mqttexampleKEEP_ALIVE_INTERVAL_SECONDS,
            pUserName = None, userNameLength = 0, pPassword = None, passwordLength = 0\<rparr>
      in if democonfigUSE_AWS_IOT_CORE_BROKER cfg then
           (case democonfigCLIENT_USERNAME cfg of
              Some (user, pass) \<Rightarrow> base\<lparr>
                pUserName := Some (user @ AWS_IOT_METRICS_STRING cfg),
                userNameLength := of_nat (length (user @ AWS_IOT_METRICS_STRING cfg)),
                pPassword := Some pass, passwordLength := of_nat (length pass)\<rparr>
            | None \<Rightarrow> base\<lparr>
                pUserName := Some (AWS_IOT_METRICS_STRING cfg),
                userNameLength := of_nat (length (AWS_IOT_METRICS_STRING cfg)),
                pPassword := None, passwordLength := 0\<rparr>)
         else
           (case democonfigCLIENT_USERNAME cfg of
              Some (user, pass) \<Rightarrow> base\<lparr>
                pUserName := Some user, userNameLength := of_nat (length user),
                pPassword := Some pass, passwordLength := of_nat (length pass)\<rparr>
            | None \<Rightarrow> base))"

definition prvMQTTConnect ::
  "('b, 'cb, 'ctx) agent_env \<Rightarrow> demo_config \<Rightarrow> bool \<Rightarrow> ('q, 'c, 'cb, 'ctx) agent_state
   \<Rightarrow> (int \<times> ('q, 'c, 'cb, 'ctx) agent_state) option" where
  "prvMQTTConnect env cfg xCleanSession s = do {
     let (xResult, s1) = do_call (net env)
           (MQTT_Connect (connect_info cfg xCleanSession) mqttexampleCONNACK_RECV_TIMEOUT_MS) s;
     let xSessionPresent = session_present env (calls s);
     if xResult = MQTTSuccess env \<and> \<not> xCleanSession then do {
       let (xResult, s2) = do_call (net env) (MQTTAgent_ResumeSession xSessionPresent) s1;
       if xResult = MQTTSuccess env \<and> \<not> xSessionPresent
       then prvHandleResubscribe env s2
       else Some (xResult, s2)
     }
     else Some (xResult, s1)
   }"

section \<open>Callbacks\<close>

text \<open>
  The completion of a resubscription: \<open>args\<close> is \<open>pxSubscribeArgs\<close>, whose array has
  \<open>numSubscriptions\<close> elements, \<open>codes\<close> is \<open>pSubackCodes\<close>.
\<close>

fun suback_loop ::
  "int \<Rightarrow> MQTTSubscribeInfo list \<Rightarrow> int list \<Rightarrow> nat \<Rightarrow> nat
   \<Rightarrow> ('cb, 'ctx) SubscriptionElement list option \<Rightarrow> ('cb, 'ctx) SubscriptionElement list option option" where
  "suback_loop failure args codes lIndex 0 pl = Some pl"
| "suback_loop failure args codes lIndex (Suc n) pl = do {
     code \<leftarrow> arr_get codes lIndex;
     pl' \<leftarrow> (if code = failure then do {
               info \<leftarrow> arr_get args lIndex;
               removeSubscription pl (pTopicFilter info) (topicFilterLength info)
             }
             else Some pl);
     suback_loop failure args codes (Suc lIndex) n pl'
   }"

definition prvSubscriptionCommandCallback ::
  "('b, 'cb, 'ctx) agent_env \<Rightarrow> MQTTSubscribeInfo list \<Rightarrow> int \<Rightarrow> int list
   \<Rightarrow> ('q, 'c, 'cb, 'ctx) agent_state \<Rightarrow> ('q, 'c, 'cb, 'ctx) agent_state option" where
  "prvSubscriptionCommandCallback env pxSubscribeArgs returnCode pSubackCodes s =
     (if returnCode \<noteq> MQTTSuccess env then do {
        pl \<leftarrow> suback_loop (MQTTSubAckFailure env) pxSubscribeArgs pSubackCodes 0
               (length pxSubscribeArgs) (Some (xGlobalSubscriptionList s));
        l \<leftarrow> pl;
        _ \<leftarrow> configASSERT True;
        Some (s\<lparr>xGlobalSubscriptionList := l\<rparr>)
      }
      else Some s)"

definition prvMQTTClientSocketWakeupCallback ::
  "('b, 'cb, 'ctx) agent_env \<Rightarrow> Socket \<Rightarrow> ('q, 'c, 'cb, 'ctx) agent_state
   \<Rightarrow> ('q, 'c, 'cb, 'ctx) agent_state" where
  "prvMQTTClientSocketWakeupCallback env pxSocket s =
     (let (waiting, s1) = do_call (net env) uxQueueMessagesWaiting s in
      if waiting = 0
      then let (count, s2) = do_call (net env) (FreeRTOS_recvcount pxSocket) s1 in
           if count > 0 then do_calls [MQTTAgent_ProcessLoop] s2 else s2
      else s1)"

text \<open>
  \<open>handler\<close> is the call of \<open>handleIncomingPublishes\<close> on the agent's list and \<open>ota\<close> the
  OTA demo's \<open>vOTAProcessMessage\<close>, both on the world \<open>'w\<close>.  A publish nobody handles is
  logged; to print its topic the code puts a NUL behind it in the receive buffer \<open>buf\<close>, at
  \<open>topic_at + topicNameLength\<close>, and restores the character afterwards.  The result is the
  world, the buffer, and what the log printed.
\<close>

definition prvIncomingPublishCallback ::
  "demo_config \<Rightarrow> ('w \<Rightarrow> (bool \<times> 'w) option) \<Rightarrow> ('w \<Rightarrow> (bool \<times> 'w) option)
   \<Rightarrow> string \<Rightarrow> nat \<Rightarrow> u16 \<Rightarrow> 'w \<Rightarrow> ('w \<times> string \<times> string option) option" where
  "prvIncomingPublishCallback cfg handler ota buf topic_at topicLen w0 = do {
     (h1, w1) \<leftarrow> handler w0;
     (xPublishHandled, w2) \<leftarrow>
        (if democonfigCREATE_CODE_SIGNING_OTA_DEMO cfg \<and> \<not> h1 then ota w1 else Some (h1, w1));
     if \<not> xPublishHandled then do {
       cOriginalChar \<leftarrow> arr_get buf (topic_at + unat topicLen);
       buf1 \<leftarrow> arr_set buf (topic_at + unat topicLen) (CHR 0x00);
       let printed = takeWhile (\<lambda>c. c \<noteq> CHR 0x00) (drop topic_at buf1);
       buf2 \<leftarrow> arr_set buf1 (topic_at + unat topicLen) cOriginalChar;
       Some (w2, buf2, Some printed)
     }
     else Some (w2, buf, None)
   }"

section \<open>The task\<close>

text \<open>One round of the agent task; the result is \<open>xMQTTStatus\<close>.\<close>

definition agent_round ::
  "('b, 'cb, 'ctx) agent_env \<Rightarrow> demo_config \<Rightarrow> ('q, 'c, 'cb, 'ctx) agent_state
   \<Rightarrow> (int \<times> ('q, 'c, 'cb, 'ctx) agent_state) option" where
  "agent_round env cfg s = do {
     let (xMQTTStatus, s1) = do_call (net env) MQTTAgent_CommandLoop s;
     let s2 = s1\<lparr>xGlobalSubscriptionList :=
                   command_loop_effect env (calls s) (xGlobalSubscriptionList s1)\<rparr>;
     if xMQTTStatus = MQTTSuccess env
     then Some (xMQTTStatus, snd (prvSocketDisconnect env s2))
     else do {
       let s3 = (if democonfigCREATE_CODE_SIGNING_OTA_DEMO cfg
                 then do_calls [vSuspendOTACodeSigningDemo] s2 else s2);
       let (disconnected, s4) = prvSocketDisconnect env s3;
       _ \<leftarrow> configASSERT disconnected;
       (connected, s5) \<leftarrow> prvSocketConnect env cfg s4;
       _ \<leftarrow> configASSERT connected;
       let s6 = do_calls [set_connectStatus_MQTTNotConnected] s5;
       (xConnectStatus, s7) \<leftarrow> prvMQTTConnect env cfg False s6;
       _ \<leftarrow> configASSERT (xConnectStatus = MQTTSuccess env);
       Some (xMQTTStatus,
             if democonfigCREATE_CODE_SIGNING_OTA_DEMO cfg \<and> xMQTTStatus = MQTTSuccess env
             then do_calls [vResumeOTACodeSigningDemo] s7 else s7)
     }
   }"

partial_function (option) prvMQTTAgentTask ::
  "('b, 'cb, 'ctx) agent_env \<Rightarrow> demo_config \<Rightarrow> ('q, 'c, 'cb, 'ctx) agent_state
   \<Rightarrow> ('q, 'c, 'cb, 'ctx) agent_state option" where
  "prvMQTTAgentTask env cfg s = do {
     (xMQTTStatus, s1) \<leftarrow> agent_round env cfg s;
     if xMQTTStatus \<noteq> MQTTSuccess env then prvMQTTAgentTask env cfg s1 else Some s1
   }"

definition prvConnectToMQTTBroker ::
  "('b, 'cb, 'ctx) agent_env \<Rightarrow> 'q queue_api \<Rightarrow> 'c pool_layout \<Rightarrow> demo_config
   \<Rightarrow> ('q, 'c, 'cb, 'ctx) agent_state \<Rightarrow> ('q, 'c, 'cb, 'ctx) agent_state option" where
  "prvConnectToMQTTBroker env api lay cfg s = do {
     (xNetworkStatus, s1) \<leftarrow> prvSocketConnect env cfg s;
     _ \<leftarrow> configASSERT xNetworkStatus;
     (r1, s2) \<leftarrow> prvMQTTInit env api lay s1;
     _ \<leftarrow> configASSERT (r1 = MQTTSuccess env);
     (r2, s3) \<leftarrow> prvMQTTConnect env cfg True s2;
     _ \<leftarrow> configASSERT (r2 = MQTTSuccess env);
     Some s3
   }"

text \<open>
  The task function, for a \<open>pvParameters\<close> that is the address \<open>param\<close>; \<open>k\<close> are the tasks of the
  kernel, to which \<open>create_tasks\<close> adds the demo tasks (\<open>create_demo_tasks\<close> of the theory
  Application).  Nothing follows the last assertion, which stops the task
  for any parameter but \<open>~1\<close>.
\<close>

definition prvConnectAndCreateDemoTasks ::
  "('b, 'cb, 'ctx) agent_env \<Rightarrow> 'q queue_api \<Rightarrow> 'c pool_layout \<Rightarrow> demo_config
   \<Rightarrow> ('k \<Rightarrow> 'k option) \<Rightarrow> u32 \<Rightarrow> 'k \<Rightarrow> ('q, 'c, 'cb, 'ctx) agent_state
   \<Rightarrow> ('k \<times> ('q, 'c, 'cb, 'ctx) agent_state) option" where
  "prvConnectAndCreateDemoTasks env api lay cfg create_tasks param k s = do {
     let (now, s1) = prvGetTimeMs env s;
     let s2 = s1\<lparr>ulGlobalEntryTimeMs := now\<rparr>;
     s3 \<leftarrow> prvConnectToMQTTBroker env api lay cfg s2;
     k' \<leftarrow> create_tasks k;
     s4 \<leftarrow> prvMQTTAgentTask env cfg s3;
     _ \<leftarrow> configASSERT (param = - 2);
     Some (k', s4)
   }"

section \<open>The connection loop\<close>

text \<open>
  What the backoff library documents: \<open>left\<close> counts the retries a context still allows; a
  retry is granted, with some delay, as long as there is one left.
\<close>

definition backoff_ok :: "('b, 'cb, 'ctx) agent_env \<Rightarrow> ('b \<Rightarrow> nat) \<Rightarrow> bool" where
  "backoff_ok env left \<longleftrightarrow>
     (\<forall>base mx n. left (BackoffAlgorithm_InitializeParams env base mx n) = unat n)
     \<and> (\<forall>b r. if left b = 0
          then fst (BackoffAlgorithm_GetNextBackoff env b r) = BackoffAlgorithmRetriesExhausted
          else fst (BackoffAlgorithm_GetNextBackoff env b r) = BackoffAlgorithmSuccess
            \<and> left (snd (snd (BackoffAlgorithm_GetNextBackoff env b r))) = left b - 1)"

text \<open>Every handshake ends: from any history, some round does not ask for another one.\<close>

definition handshakes_end :: "net_env \<Rightarrow> bool" where
  "handshakes_end e \<longleftrightarrow> (\<forall>h. \<exists>m. \<not> want_more e
     (answer e (h @ replicate m mbedtls_ssl_handshake) mbedtls_ssl_handshake))"

definition delays :: "net_call list \<Rightarrow> nat" where
  "delays cs = length (filter (\<lambda>c. case c of vTaskDelay _ \<Rightarrow> True | _ \<Rightarrow> False) cs)"

lemma delays_simps [simp]:
  "delays [] = 0" "delays (vTaskDelay d # cs) = Suc (delays cs)"
  "delays (uxRand_call # cs) = delays cs" "delays (FreeRTOS_setsockopt k opt v # cs) = delays cs"
  "delays (cs @ ds) = delays cs + delays ds"
  by (simp_all add: delays_def)

lemma delays_transport: "transport_calls cs \<Longrightarrow> delays cs = 0"
  by (auto simp: delays_def transport_calls_def filter_empty_conv transport_call_def
      split: net_call.splits)

lemma do_calls_agent [simp]:
  "do_calls cs (s\<lparr>xNetworkContext := c\<rparr>) = (do_calls cs s)\<lparr>xNetworkContext := c\<rparr>"
  "xNetworkContext (do_calls cs s) = xNetworkContext s"
  "xGlobalSubscriptionList (do_calls cs s) = xGlobalSubscriptionList s"
  "ulGlobalEntryTimeMs (do_calls cs s) = ulGlobalEntryTimeMs s"
  "do_calls cs (s\<lparr>xGlobalSubscriptionList := l\<rparr>) = (do_calls cs s)\<lparr>xGlobalSubscriptionList := l\<rparr>"
  by (simp_all add: do_calls_def)

lemma credentials_ca: "pRootCa (network_credentials cfg) = Some (democonfigROOT_CA_PEM cfg)"
  by (simp add: network_credentials_def)

definition agent_attempt ::
  "('b, 'cb, 'ctx) agent_env \<Rightarrow> demo_config \<Rightarrow> ('q, 'c, 'cb, 'ctx) agent_state
   \<Rightarrow> (TlsTransportStatus \<times> Tls_Context option \<times> ('q, 'c, 'cb, 'ctx) agent_state) option" where
  "agent_attempt env cfg s =
     TLS_FreeRTOS_Connect (net env) (Some (xNetworkContext s))
        (Some (democonfigMQTT_BROKER_ENDPOINT cfg)) (democonfigMQTT_BROKER_PORT cfg)
        (Some (network_credentials cfg)) mqttexampleTRANSPORT_SEND_RECV_TIMEOUT_MS
        mqttexampleTRANSPORT_SEND_RECV_TIMEOUT_MS s"

text \<open>
  The calls of a successful attempt, after the history \<open>h\<close>: the connection of the new socket \<open>k\<close> to
  the broker, the setup of the session with server verification required and the root
  certificate of the configuration as its trust anchor, every checked call of which answered 0,
  and the handshake, each round of which asked for another one but the last, which answered 0.
\<close>

definition verified_calls :: "net_env \<Rightarrow> demo_config \<Rightarrow> net_call list \<Rightarrow> Socket \<Rightarrow> net_call list \<Rightarrow> bool" where
  "verified_calls e cfg h k cs \<longleftrightarrow>
     (let host = democonfigMQTT_BROKER_ENDPOINT cfg; port = democonfigMQTT_BROKER_PORT cfg;
          T = mqttexampleTRANSPORT_SEND_RECV_TIMEOUT_MS; st = (\<lparr>calls = h\<rparr> :: net_state);
          tcp = tcp_calls e host port T T st;
          tls = tls_calls e host (network_credentials cfg) (democonfigROOT_CA_PEM cfg) k
      in connects e host port st \<and> k = new_socket e st
       \<and> (\<exists>m. cs = tcp @ tls @ replicate (Suc m) mbedtls_ssl_handshake
            \<and> all_ok e (h @ tcp) tls
            \<and> answer e (h @ tcp @ tls @ replicate m mbedtls_ssl_handshake) mbedtls_ssl_handshake = 0
            \<and> (\<forall>i < m. want_more e
                 (answer e (h @ tcp @ tls @ replicate i mbedtls_ssl_handshake) mbedtls_ssl_handshake))))"

lemma history_defs:
  "tcp_calls e host port rt st (\<lparr>calls = calls s\<rparr> :: net_state) = tcp_calls e host port rt st s"
  "connects e host port (\<lparr>calls = calls s\<rparr> :: net_state) = connects e host port s"
  "new_socket e (\<lparr>calls = calls s\<rparr> :: net_state) = new_socket e s"
  by (simp_all add: tcp_calls_def connects_def connect_defs)

lemma agent_attempt_verified:
  assumes "agent_attempt env cfg s = Some (TLS_TRANSPORT_SUCCESS, Some c, do_calls cs s)"
  shows "verified_calls (net env) cfg (calls s) (tls_tcpSocket c) cs"
proof -
  let ?host = "democonfigMQTT_BROKER_ENDPOINT cfg" and ?port = "democonfigMQTT_BROKER_PORT cfg"
  let ?T = mqttexampleTRANSPORT_SEND_RECV_TIMEOUT_MS
  have con: "connects (net env) ?host ?port s"
  proof (rule ccontr)
    assume "\<not> connects (net env) ?host ?port s"
    from tls_connect_no_tcp [OF credentials_ca [of cfg] this, of "xNetworkContext s" ?T ?T] assms
    show False by (auto simp: agent_attempt_def)
  qed
  from credentials_ca con assms [unfolded agent_attempt_def] show ?thesis
  proof (cases rule: tls_connect_outcome)
    case (1 m)
    let ?tcp = "tcp_calls (net env) ?host ?port ?T ?T s"
    let ?tls = "tls_calls (net env) ?host (network_credentials cfg) (democonfigROOT_CA_PEM cfg)
      (new_socket (net env) s)"
    have "calls (do_calls cs s) = calls s @ ?tcp @ ?tls @ replicate (Suc m) mbedtls_ssl_handshake"
      unfolding 1(3) by simp
    then have cs: "cs = ?tcp @ ?tls @ replicate (Suc m) mbedtls_ssl_handshake"
      by (simp del: replicate.simps)
    have "c = xNetworkContext s\<lparr>tls_tcpSocket := new_socket (net env) s\<rparr>" using 1(2) by simp
    with 1(4-6) con show ?thesis
      unfolding verified_calls_def history_defs Let_def
      by (intro conjI exI [of _ m]) (simp_all add: cs hs_answer_def del: replicate.simps)
  qed simp
qed

lemma agent_attempt_outcome:
  assumes "agent_attempt env cfg s = Some (status, pctx, s1)"
  obtains c cs where "pctx = Some c" "s1 = do_calls cs s" "transport_calls cs"
    "count_calls FreeRTOS_socket cs = 1"
    "status = TLS_TRANSPORT_SUCCESS \<Longrightarrow> tls_tcpSocket c \<noteq> FREERTOS_INVALID_SOCKET (net env)"
proof -
  note run = assms [unfolded agent_attempt_def]
  from tls_connect_frame [OF credentials_ca run] obtain c cs where
    1: "pctx = Some c" "s1 = do_calls cs s" "transport_calls cs"
      "count_calls FreeRTOS_socket cs = 1" by blast
  from tls_connect_sockets [OF run] have
    "status = TLS_TRANSPORT_SUCCESS \<Longrightarrow> tls_tcpSocket c \<noteq> FREERTOS_INVALID_SOCKET (net env)"
    using 1(1) by (metis option.inject)
  with 1 show ?thesis by (rule that)
qed

lemma agent_attempt_returns:
  "handshakes_end (net env) \<Longrightarrow> \<exists>res. agent_attempt env cfg s = Some res"
  unfolding agent_attempt_def handshakes_end_def
  by (rule tls_connect_returns [OF credentials_ca]) blast

lemma connect_loop_step:
  "connect_loop env cfg b s = do {
     (status, pctx, s1) \<leftarrow> agent_attempt env cfg s;
     ctx \<leftarrow> pctx;
     let s2 = s1\<lparr>xNetworkContext := ctx\<rparr>;
     if status = TLS_TRANSPORT_SUCCESS then Some (True, s2)
     else do {
       let (r, s3) = do_call (net env) uxRand_call s2;
       let (bs, d, b') = BackoffAlgorithm_GetNextBackoff env b (of_int r);
       if bs = BackoffAlgorithmSuccess
       then connect_loop env cfg b' (do_calls [vTaskDelay (ms_to_ticks (net env) (ucast d))] s3)
       else Some (False, s3)
     }
   }"
  unfolding agent_attempt_def by (subst connect_loop.simps) (rule refl)

text \<open>One round of the loop: connected, or a backoff that grants another attempt or does not.\<close>

lemma connect_loop_round:
  assumes "handshakes_end (net env)"
  obtains (connected) c cs where
    "connect_loop env cfg b s = Some (True, (do_calls cs s)\<lparr>xNetworkContext := c\<rparr>)"
    "transport_calls cs" "count_calls FreeRTOS_socket cs = 1"
    "tls_tcpSocket c \<noteq> FREERTOS_INVALID_SOCKET (net env)"
  | (backoff) c cs r bs d b' where
    "BackoffAlgorithm_GetNextBackoff env b r = (bs, d, b')"
    "transport_calls cs" "count_calls FreeRTOS_socket cs = 1"
    "connect_loop env cfg b s =
       (if bs = BackoffAlgorithmSuccess
        then connect_loop env cfg b'
          ((do_calls (cs @ [uxRand_call, vTaskDelay (ms_to_ticks (net env) (ucast d))]) s)\<lparr>xNetworkContext := c\<rparr>)
        else Some (False, (do_calls (cs @ [uxRand_call]) s)\<lparr>xNetworkContext := c\<rparr>))"
proof -
  from agent_attempt_returns [OF assms] obtain status pctx s1 where
    run: "agent_attempt env cfg s = Some (status, pctx, s1)" by (metis prod_cases3)
  from agent_attempt_outcome [OF run] obtain c cs where out: "pctx = Some c" "s1 = do_calls cs s"
    "transport_calls cs" "count_calls FreeRTOS_socket cs = 1"
    "status = TLS_TRANSPORT_SUCCESS \<Longrightarrow> tls_tcpSocket c \<noteq> FREERTOS_INVALID_SOCKET (net env)"
    by metis
  show thesis
  proof (cases "status = TLS_TRANSPORT_SUCCESS")
    case True
    show ?thesis
      by (rule connected [of c cs]) (use True run out in \<open>simp_all add: connect_loop_step\<close>)
  next
    case False
    let ?r = "of_int (answer (net env) (calls ((do_calls cs s)\<lparr>xNetworkContext := c\<rparr>)) uxRand_call)"
    obtain bs d b' where nb: "BackoffAlgorithm_GetNextBackoff env b ?r = (bs, d, b')"
      by (rule prod_cases3)
    show ?thesis
      by (rule backoff [OF nb out(3,4), of c])
        (use False run out(1,2) nb in \<open>simp add: connect_loop_step [of _ _ b s] do_call_calls\<close>)
  qed
qed

lemma connect_loop_bounded:
  assumes bo: "backoff_ok env left" and hs: "handshakes_end (net env)"
  shows "left b = n \<Longrightarrow>
    \<exists>ok cs c k. connect_loop env cfg b s = Some (ok, (do_calls cs s)\<lparr>xNetworkContext := c\<rparr>)
      \<and> count_calls FreeRTOS_socket cs = Suc k \<and> delays cs = k \<and> k \<le> n \<and> (\<not> ok \<longrightarrow> k = n)
      \<and> (ok \<longrightarrow> tls_tcpSocket c \<noteq> FREERTOS_INVALID_SOCKET (net env))"
proof (induction n arbitrary: b s)
  case (0 b s)
  show ?case
    using hs
  proof (cases rule: connect_loop_round [of env cfg b s])
    case (connected c cs)
    then show ?thesis
      by (intro exI [of _ True] exI [of _ cs] exI [of _ c] exI [of _ 0]) (simp add: delays_transport)
  next
    case (backoff c cs r bs d b')
    have "bs = BackoffAlgorithmRetriesExhausted"
      using bo 0 backoff(1) unfolding backoff_ok_def by (metis fst_conv)
    with backoff(2-4) show ?thesis
      by (intro exI [of _ False] exI [of _ "cs @ [uxRand_call]"] exI [of _ c] exI [of _ 0])
         (simp add: delays_transport)
  qed
next
  case (Suc n b s)
  show ?case
    using hs
  proof (cases rule: connect_loop_round [of env cfg b s])
    case (connected c cs)
    then show ?thesis
      by (intro exI [of _ True] exI [of _ cs] exI [of _ c] exI [of _ 0]) (simp add: delays_transport)
  next
    case (backoff c cs r bs d b')
    have bs: "bs = BackoffAlgorithmSuccess" "left b' = n"
      using bo Suc.prems backoff(1) unfolding backoff_ok_def
      by (metis fst_conv nat.distinct(1), metis snd_conv diff_Suc_1 nat.distinct(1))
    let ?mid = "cs @ [uxRand_call, vTaskDelay (ms_to_ticks (net env) (ucast d))]"
    from Suc.IH [OF bs(2), of "(do_calls ?mid s)\<lparr>xNetworkContext := c\<rparr>"] backoff(2-4) bs(1)
    obtain ok ds c2 k where ih:
      "connect_loop env cfg b s =
         Some (ok, (do_calls ds ((do_calls ?mid s)\<lparr>xNetworkContext := c\<rparr>))\<lparr>xNetworkContext := c2\<rparr>)"
      "count_calls FreeRTOS_socket ds = Suc k" "delays ds = k" "k \<le> n" "\<not> ok \<longrightarrow> k = n"
      "ok \<longrightarrow> tls_tcpSocket c2 \<noteq> FREERTOS_INVALID_SOCKET (net env)" by auto
    with backoff(2,3) show ?thesis
      by (intro exI [of _ ok] exI [of _ "?mid @ ds"] exI [of _ c2] exI [of _ "Suc k"])
         (simp add: delays_transport)
  qed
qed

text \<open>The calls of the connection phase, whatever the backoff library does.\<close>

definition link_call :: "net_call \<Rightarrow> bool" where
  "link_call c \<longleftrightarrow> transport_call c \<or> c = uxRand_call \<or> (\<exists>d. c = vTaskDelay d)"

lemma link_calls: "transport_calls cs \<Longrightarrow> \<forall>c \<in> set cs. link_call c"
  by (simp add: transport_calls_def link_call_def)

text \<open>
  Attempts that failed, each with one socket and followed by one delay, and then the one that
  succeeded.
\<close>

definition attempts :: "net_env \<Rightarrow> demo_config \<Rightarrow> net_call list \<Rightarrow> Socket \<Rightarrow> net_call list \<Rightarrow> bool" where
  "attempts e cfg h k cs \<longleftrightarrow> (\<exists>failed good. cs = failed @ good
     \<and> count_calls FreeRTOS_socket failed = delays failed \<and> verified_calls e cfg (h @ failed) k good)"

lemma attempts_after:
  assumes "attempts e cfg (h @ mid) k cs" and "count_calls FreeRTOS_socket mid = delays mid"
  shows "attempts e cfg h k (mid @ cs)"
proof -
  from assms(1) obtain failed good where "cs = failed @ good"
    "count_calls FreeRTOS_socket failed = delays failed"
    "verified_calls e cfg ((h @ mid) @ failed) k good" by (auto simp: attempts_def)
  then show ?thesis
    unfolding attempts_def using assms(2)
    by (intro exI [of _ "mid @ failed"] exI [of _ good]) simp
qed

lemma connect_loop_calls:
  assumes "connect_loop env cfg b s = Some res"
  shows "\<exists>cs c. snd res = (do_calls cs s)\<lparr>xNetworkContext := c\<rparr> \<and> (\<forall>x \<in> set cs. link_call x)
    \<and> (fst res \<longrightarrow> tls_tcpSocket c \<noteq> FREERTOS_INVALID_SOCKET (net env)
         \<and> attempts (net env) cfg (calls s) (tls_tcpSocket c) cs)"
proof (rule connect_loop.raw_induct [OF _ assms], goal_cases)
  case (1 loop env cfg b s res)
  from 1(2) obtain status pctx s1 where run: "agent_attempt env cfg s = Some (status, pctx, s1)"
    unfolding agent_attempt_def by (auto simp: bind_eq_Some_conv)
  from agent_attempt_outcome [OF run] obtain c cs where out: "pctx = Some c" "s1 = do_calls cs s"
    "transport_calls cs"
    "status = TLS_TRANSPORT_SUCCESS \<Longrightarrow> tls_tcpSocket c \<noteq> FREERTOS_INVALID_SOCKET (net env)"
    and one: "count_calls FreeRTOS_socket cs = 1"
    by metis
  note step = 1(2) [folded agent_attempt_def, unfolded run out(1)]
  show ?case
  proof (cases "status = TLS_TRANSPORT_SUCCESS")
    case True
    then have "res = (True, (do_calls cs s)\<lparr>xNetworkContext := c\<rparr>)"
      using step out(2) by simp
    moreover have "verified_calls (net env) cfg (calls s @ []) (tls_tcpSocket c) cs"
      using agent_attempt_verified [of env cfg s c cs] run out(1,2) True by simp
    then have "attempts (net env) cfg (calls s) (tls_tcpSocket c) cs"
      unfolding attempts_def by (intro exI [of _ "[]"] exI [of _ cs]) simp
    ultimately show ?thesis using True out link_calls by (intro exI [of _ cs] exI [of _ c]) auto
  next
    case False
    let ?s2 = "(do_calls cs s)\<lparr>xNetworkContext := c\<rparr>"
    obtain bs d b' where nb: "BackoffAlgorithm_GetNextBackoff env b
        (of_int (answer (net env) (calls ?s2) uxRand_call)) = (bs, d, b')" by (rule prod_cases3)
    let ?mid = "cs @ [uxRand_call, vTaskDelay (ms_to_ticks (net env) (ucast d))]"
    let ?s3 = "(do_calls ?mid s)\<lparr>xNetworkContext := c\<rparr>"
    show ?thesis
    proof (cases "bs = BackoffAlgorithmSuccess")
      case True
      then have "loop env cfg b' ?s3 = Some res"
        using step False out(2) nb by (simp add: do_call_calls)
      from 1(1) [OF this] obtain ds c2 where ih:
        "snd res = (do_calls ds ?s3)\<lparr>xNetworkContext := c2\<rparr>" "\<forall>x \<in> set ds. link_call x"
        "fst res \<longrightarrow> tls_tcpSocket c2 \<noteq> FREERTOS_INVALID_SOCKET (net env)"
        "fst res \<longrightarrow> attempts (net env) cfg (calls ?s3) (tls_tcpSocket c2) ds" by blast
      have "calls ?s3 = calls s @ ?mid" "count_calls FreeRTOS_socket ?mid = delays ?mid"
        using one by (simp_all add: delays_transport [OF out(3)])
      with ih(4) have "fst res \<longrightarrow> attempts (net env) cfg (calls s) (tls_tcpSocket c2) (?mid @ ds)"
        by (metis attempts_after)
      with ih(1-3) link_calls [OF out(3)] show ?thesis
        by (intro exI [of _ "?mid @ ds"] exI [of _ c2]) (auto simp: link_call_def)
    next
      case False
      then have "res = (False, (do_calls (cs @ [uxRand_call]) s)\<lparr>xNetworkContext := c\<rparr>)"
        using step \<open>status \<noteq> TLS_TRANSPORT_SUCCESS\<close> out(2) nb by (simp add: do_call_calls)
      with link_calls [OF out(3)] show ?thesis
        by (intro exI [of _ "cs @ [uxRand_call]"] exI [of _ c]) (auto simp: link_call_def)
    qed
  qed
qed

section \<open>Resubscribing\<close>

definition sub_info :: "('cb, 'ctx) SubscriptionElement \<Rightarrow> MQTTSubscribeInfo" where
  "sub_info e = \<lparr>sub_qos = 1, pTopicFilter = pcSubscriptionFilterString e,
     topicFilterLength = usFilterStringLength e\<rparr>"

lemma resubscribe_scan_eq:
  "i + n \<le> length l \<Longrightarrow> k + n \<le> length info \<Longrightarrow>
   \<exists>info'. resubscribe_scan l i n info k =
       Some (info', k + length (filter used (take n (drop i l))))
     \<and> take (k + length (filter used (take n (drop i l)))) info' =
         take k info @ map sub_info (filter used (take n (drop i l)))"
proof (induction n arbitrary: i k info)
  case 0
  then show ?case by simp
next
  case (Suc n)
  have split: "take (Suc n) (drop i l) = l ! i # take n (drop (Suc i) l)"
    using Suc.prems(1) by (simp add: Cons_nth_drop_Suc [symmetric])
  show ?case
  proof (cases "used (l ! i)")
    case True
    let ?info = "info[k := sub_info (l ! i)]"
    from Suc.prems have "Suc i + n \<le> length l" "Suc k + n \<le> length ?info" by simp_all
    from Suc.IH [OF this] obtain info' where
      "resubscribe_scan l (Suc i) n ?info (Suc k) =
         Some (info', Suc k + length (filter used (take n (drop (Suc i) l))))"
      "take (Suc k + length (filter used (take n (drop (Suc i) l)))) info' =
         take (Suc k) ?info @ map sub_info (filter used (take n (drop (Suc i) l)))" by blast
    moreover have "resubscribe_scan l i (Suc n) info k = resubscribe_scan l (Suc i) n ?info (Suc k)"
      using True Suc.prems by (simp add: sub_info_def)
    ultimately show ?thesis
      using True Suc.prems split by (simp add: take_Suc_conv_app_nth del: resubscribe_scan.simps)
  next
    case False
    from Suc.prems have "Suc i + n \<le> length l" "k + n \<le> length info" by simp_all
    from Suc.IH [OF this] False Suc.prems split show ?thesis by simp
  qed
qed

definition resubscribe_infos :: "('cb, 'ctx) SubscriptionElement list \<Rightarrow> MQTTSubscribeInfo list" where
  "resubscribe_infos l = map sub_info (filter used l)"

lemma prvHandleResubscribe_eq:
  assumes "list_ok (xGlobalSubscriptionList s)"
  shows "prvHandleResubscribe env s =
    (let us = resubscribe_infos (xGlobalSubscriptionList s) in
     if us = [] then Some (MQTTSuccess env, s)
     else Some (do_call (net env) (MQTTAgent_Subscribe us) s))"
proof -
  let ?l = "xGlobalSubscriptionList s" and ?n = "SUBSCRIPTION_MANAGER_MAX_SUBSCRIPTIONS"
  have len: "length ?l = ?n" using assms by (rule list_ok_length)
  then obtain info' where "resubscribe_scan ?l 0 ?n (replicate ?n zero_sub_info) 0 =
      Some (info', length (filter used ?l))"
    "take (length (filter used ?l)) info' = resubscribe_infos ?l"
    using resubscribe_scan_eq [of 0 ?n ?l 0 "replicate ?n zero_sub_info"]
    by (auto simp: resubscribe_infos_def)
  then show ?thesis
    by (simp add: prvHandleResubscribe_def Let_def) (auto simp: resubscribe_infos_def)
qed

text \<open>The filters that are resubscribed are those of the stored subscriptions.\<close>

lemma resubscribe_infos_filters:
  "(\<lambda>u. take (unat (topicFilterLength u)) (the (pTopicFilter u))) ` set (resubscribe_infos l)
     = fst ` subs l"
  by (simp add: resubscribe_infos_def subs_def sub_info_def sub_key_def image_image)

section \<open>Refused subscriptions\<close>

definition arg_ok :: "MQTTSubscribeInfo \<Rightarrow> bool" where
  "arg_ok u \<longleftrightarrow> (case pTopicFilter u of Some f \<Rightarrow> filter_arg_ok f (topicFilterLength u) | None \<Rightarrow> False)"

definition arg_filter :: "MQTTSubscribeInfo \<Rightarrow> string" where
  "arg_filter u = take (unat (topicFilterLength u)) (the (pTopicFilter u))"

lemma all_from_Suc:
  "(\<forall>j. i \<le> j \<and> j < i + Suc n \<and> P j \<longrightarrow> Q j) \<longleftrightarrow>
     (P i \<longrightarrow> Q i) \<and> (\<forall>j. Suc i \<le> j \<and> j < Suc i + n \<and> P j \<longrightarrow> Q j)"
proof
  assume *: "\<forall>j. i \<le> j \<and> j < i + Suc n \<and> P j \<longrightarrow> Q j"
  show "(P i \<longrightarrow> Q i) \<and> (\<forall>j. Suc i \<le> j \<and> j < Suc i + n \<and> P j \<longrightarrow> Q j)"
    using * [rule_format, of i] * by simp
next
  assume *: "(P i \<longrightarrow> Q i) \<and> (\<forall>j. Suc i \<le> j \<and> j < Suc i + n \<and> P j \<longrightarrow> Q j)"
  show "\<forall>j. i \<le> j \<and> j < i + Suc n \<and> P j \<longrightarrow> Q j"
  proof (intro allI impI)
    fix j assume "i \<le> j \<and> j < i + Suc n \<and> P j"
    then show "Q j" using * by (cases "j = i") simp_all
  qed
qed

lemma suback_loop_eq:
  "list_ok l \<Longrightarrow> \<forall>u \<in> set args. arg_ok u \<Longrightarrow> i + n \<le> length args \<Longrightarrow> i + n \<le> length codes \<Longrightarrow>
   \<exists>l'. suback_loop failure args codes i n (Some l) = Some (Some l') \<and> list_ok l'
     \<and> subs l' = {k \<in> subs l. \<forall>j. i \<le> j \<and> j < i + n \<and> codes ! j = failure
          \<longrightarrow> fst k \<noteq> arg_filter (args ! j)}"
proof (induction n arbitrary: i l)
  case 0
  then show ?case by auto
next
  case (Suc n)
  define l1 where "l1 = (if codes ! i = failure
     then map (clear_filter (arg_filter (args ! i))) l else l)"
  have ok: "list_ok l1" using Suc.prems(1) by (simp add: l1_def list_ok_clear)
  have subs1: "subs l1 = {k \<in> subs l. codes ! i = failure \<longrightarrow> fst k \<noteq> arg_filter (args ! i)}"
    by (auto simp: l1_def subs_clear)
  have "arg_ok (args ! i)" using Suc.prems by simp
  then obtain f where f: "pTopicFilter (args ! i) = Some f"
    "filter_arg_ok f (topicFilterLength (args ! i))"
    by (auto simp: arg_ok_def split: option.splits)
  have step: "suback_loop failure args codes i (Suc n) (Some l) =
      suback_loop failure args codes (Suc i) n (Some l1)"
    using Suc.prems f removeSubscription_eq [OF Suc.prems(1) f(2)]
    by (simp add: l1_def arg_filter_def)
  from Suc.prems have "Suc i + n \<le> length args" "Suc i + n \<le> length codes" by simp_all
  from Suc.IH [OF ok Suc.prems(2) this] obtain l' where
    "suback_loop failure args codes (Suc i) n (Some l1) = Some (Some l')" "list_ok l'"
    "subs l' = {k \<in> subs l1. \<forall>j. Suc i \<le> j \<and> j < Suc i + n \<and> codes ! j = failure
          \<longrightarrow> fst k \<noteq> arg_filter (args ! j)}" by blast
  then show ?case
    unfolding step all_from_Suc by (intro exI [of _ l']) (auto simp: subs1)
qed

section \<open>One round of the task\<close>

definition mqtt_connect_call :: "demo_config \<Rightarrow> bool \<Rightarrow> net_call" where
  "mqtt_connect_call cfg clean =
     MQTT_Connect (connect_info cfg clean) mqttexampleCONNACK_RECV_TIMEOUT_MS"

lemma prvMQTTConnect_eq:
  assumes "list_ok (xGlobalSubscriptionList s)"
  shows "prvMQTTConnect env cfg clean s =
    (let c1 = mqtt_connect_call cfg clean;
         sp = session_present env (calls s);
         c2 = MQTTAgent_ResumeSession sp;
         us = resubscribe_infos (xGlobalSubscriptionList s);
         a1 = answer (net env) (calls s) c1;
         a2 = answer (net env) (calls s @ [c1]) c2
     in if a1 \<noteq> MQTTSuccess env \<or> clean then Some (a1, do_calls [c1] s)
        else if a2 \<noteq> MQTTSuccess env \<or> sp \<or> us = [] then Some (a2, do_calls [c1, c2] s)
        else Some (answer (net env) (calls s @ [c1, c2]) (MQTTAgent_Subscribe us),
                   do_calls [c1, c2, MQTTAgent_Subscribe us] s))"
proof -
  let ?c1 = "mqtt_connect_call cfg clean" and ?sp = "session_present env (calls s)"
  let ?s2 = "do_calls [?c1, MQTTAgent_ResumeSession ?sp] s"
  have "list_ok (xGlobalSubscriptionList ?s2)" using assms by simp
  note re = prvHandleResubscribe_eq [OF this, unfolded Let_def]
  have run: "prvMQTTConnect env cfg clean s =
     (if answer (net env) (calls s) ?c1 = MQTTSuccess env \<and> \<not> clean then
        (let a2 = answer (net env) (calls s @ [?c1]) (MQTTAgent_ResumeSession ?sp) in
         if a2 = MQTTSuccess env \<and> \<not> ?sp then prvHandleResubscribe env ?s2
         else Some (a2, ?s2))
      else Some (answer (net env) (calls s) ?c1, do_calls [?c1] s))"
    unfolding prvMQTTConnect_def mqtt_connect_call_def do_call_calls
    by (cases clean) (auto simp: Let_def)
  show ?thesis
    unfolding run re Let_def by (cases clean) (auto simp: do_call_calls)
qed

text \<open>
  The calls that tear the connection of the socket \<open>k\<close> down: the session is closed, then the
  socket, if it is valid, after it was shut down and drained, and then all mbedTLS objects are
  freed.
\<close>

definition teardown :: "net_env \<Rightarrow> Socket \<Rightarrow> net_call list \<Rightarrow> bool" where
  "teardown e k cs \<longleftrightarrow> (\<exists>m \<in> {1, 2, 3}. cs = [mbedtls_ssl_close_notify]
     @ (if k = FREERTOS_INVALID_SOCKET e then []
        else [FreeRTOS_shutdown k] @ replicate m (FreeRTOS_recv k 2) @ [FreeRTOS_closesocket k])
     @ free_calls @ [mbedtls_threading_free_alt])"

lemma teardown_transport: "teardown e k cs \<Longrightarrow> transport_calls cs"
  by (auto simp: teardown_def transport_calls_def transport_call_def free_calls_def split: if_splits)

lemma prvSocketDisconnect_frame:
  "\<exists>cs. prvSocketDisconnect env s = (True, do_calls (FreeRTOS_setsockopt
       (tls_tcpSocket (xNetworkContext s)) FREERTOS_SO_WAKEUP_CALLBACK 0 # cs) s)
     \<and> teardown (net env) (tls_tcpSocket (xNetworkContext s)) cs"
proof -
  let ?k = "tls_tcpSocket (xNetworkContext s)"
  let ?s1 = "do_calls [FreeRTOS_setsockopt ?k FREERTOS_SO_WAKEUP_CALLBACK 0] s"
  let ?s2 = "do_calls [mbedtls_ssl_close_notify] ?s1"
  let ?socket = "\<lambda>m. if ?k = FREERTOS_INVALID_SOCKET (net env) then []
    else [FreeRTOS_shutdown ?k] @ replicate m (FreeRTOS_recv ?k 2) @ [FreeRTOS_closesocket ?k]"
  obtain m where m: "m \<in> {1, 2, 3}"
    "Sockets_Disconnect (net env) ?k ?s2 = do_calls (?socket m) ?s2"
  proof (cases "?k = FREERTOS_INVALID_SOCKET (net env)")
    case True
    then show thesis by (intro that [of 1]) (simp_all add: Sockets_Disconnect_def)
  next
    case False
    from Sockets_Disconnect_calls [OF this, of ?s2] obtain m where "1 \<le> m" "m \<le> 3"
      "Sockets_Disconnect (net env) ?k ?s2 = do_calls
        ([FreeRTOS_shutdown ?k] @ replicate m (FreeRTOS_recv ?k 2) @ [FreeRTOS_closesocket ?k]) ?s2"
      by blast
    moreover from this(1,2) have "m \<in> {1, 2, 3}" by auto
    ultimately show thesis using False that [of m] by simp
  qed
  let ?cs = "[mbedtls_ssl_close_notify] @ ?socket m @ free_calls @ [mbedtls_threading_free_alt]"
  have "teardown (net env) ?k ?cs" unfolding teardown_def by (rule bexI [OF _ m(1)]) (rule refl)
  moreover have "prvSocketDisconnect env s =
      (True, do_calls (FreeRTOS_setsockopt ?k FREERTOS_SO_WAKEUP_CALLBACK 0 # ?cs) s)"
    using m(2) by (simp add: prvSocketDisconnect_def TLS_FreeRTOS_Disconnect_def sslContextFree_def)
  ultimately show ?thesis by blast
qed

lemma prvSocketConnect_calls:
  assumes "prvSocketConnect env cfg s = Some (True, s')"
  shows "\<exists>cs c. s' = (do_calls (cs
      @ [FreeRTOS_setsockopt (tls_tcpSocket c) FREERTOS_SO_WAKEUP_CALLBACK 1,
         FreeRTOS_setsockopt (tls_tcpSocket c) FREERTOS_SO_RCVTIMEO 0]) s)\<lparr>xNetworkContext := c\<rparr>
    \<and> (\<forall>x \<in> set cs. link_call x) \<and> tls_tcpSocket c \<noteq> FREERTOS_INVALID_SOCKET (net env)
    \<and> attempts (net env) cfg (calls s) (tls_tcpSocket c) cs"
proof -
  from assms obtain b s1 where loop: "connect_loop env cfg b s = Some (True, s1)"
    and s': "s' = do_calls [FreeRTOS_setsockopt (tls_tcpSocket (xNetworkContext s1))
        FREERTOS_SO_WAKEUP_CALLBACK 1,
      FreeRTOS_setsockopt (tls_tcpSocket (xNetworkContext s1)) FREERTOS_SO_RCVTIMEO 0] s1"
    by (auto simp: prvSocketConnect_def split: if_splits)
  from connect_loop_calls [OF loop] obtain cs c where
    "s1 = (do_calls cs s)\<lparr>xNetworkContext := c\<rparr>" "\<forall>x \<in> set cs. link_call x"
    "tls_tcpSocket c \<noteq> FREERTOS_INVALID_SOCKET (net env)"
    "attempts (net env) cfg (calls s) (tls_tcpSocket c) cs" by auto
  then show ?thesis using s' by (intro exI [of _ cs] exI [of _ c]) simp
qed

lemma prvMQTTConnect_frame:
  "prvMQTTConnect env cfg clean s = Some (r, s') \<Longrightarrow>
   xGlobalSubscriptionList s' = xGlobalSubscriptionList s \<and> xNetworkContext s' = xNetworkContext s"
  by (auto simp: prvMQTTConnect_def prvHandleResubscribe_def do_call_calls Let_def
      split: if_splits prod.splits)

lemma prvMQTTConnect_persistent:
  assumes "list_ok (xGlobalSubscriptionList s)"
    and "prvMQTTConnect env cfg False s = Some (MQTTSuccess env, s')"
  shows "\<exists>sp. s' = do_calls ([mqtt_connect_call cfg False, MQTTAgent_ResumeSession sp]
    @ (if sp \<or> resubscribe_infos (xGlobalSubscriptionList s) = [] then []
       else [MQTTAgent_Subscribe (resubscribe_infos (xGlobalSubscriptionList s))])) s"
  using assms(2) unfolding prvMQTTConnect_eq [OF assms(1)] Let_def
  by (intro exI [of _ "session_present env (calls s)"]) (auto split: if_splits)

text \<open>
  The calls of a round whose command loop failed: \<open>k0\<close> is the old socket, \<open>dis\<close> the calls
  that disconnect it, \<open>con\<close> those that connect the new socket \<open>k\<close>, \<open>sp\<close> whether the broker
  kept the session.
\<close>

definition reconnect_calls ::
  "demo_config \<Rightarrow> Socket \<Rightarrow> net_call list \<Rightarrow> net_call list \<Rightarrow> Socket \<Rightarrow> bool
   \<Rightarrow> ('cb, 'ctx) SubscriptionElement list \<Rightarrow> net_call list" where
  "reconnect_calls cfg k0 dis con k sp l =
     [MQTTAgent_CommandLoop]
     @ (if democonfigCREATE_CODE_SIGNING_OTA_DEMO cfg then [vSuspendOTACodeSigningDemo] else [])
     @ [FreeRTOS_setsockopt k0 FREERTOS_SO_WAKEUP_CALLBACK 0] @ dis @ con
     @ [FreeRTOS_setsockopt k FREERTOS_SO_WAKEUP_CALLBACK 1,
        FreeRTOS_setsockopt k FREERTOS_SO_RCVTIMEO 0, set_connectStatus_MQTTNotConnected,
        mqtt_connect_call cfg False, MQTTAgent_ResumeSession sp]
     @ (if sp \<or> resubscribe_infos l = [] then [] else [MQTTAgent_Subscribe (resubscribe_infos l)])"

lemma agent_round_failed:
  assumes run: "agent_round env cfg s = Some (r, s')" and "r \<noteq> MQTTSuccess env"
    and ok: "list_ok (xGlobalSubscriptionList s')"
  shows "\<exists>dis con sp. calls s' = calls s
      @ reconnect_calls cfg (tls_tcpSocket (xNetworkContext s)) dis con
          (tls_tcpSocket (xNetworkContext s')) sp (xGlobalSubscriptionList s')
    \<and> teardown (net env) (tls_tcpSocket (xNetworkContext s)) dis \<and> (\<forall>x \<in> set con. link_call x)
    \<and> tls_tcpSocket (xNetworkContext s') \<noteq> FREERTOS_INVALID_SOCKET (net env)
    \<and> attempts (net env) cfg (calls s @ [MQTTAgent_CommandLoop]
         @ (if democonfigCREATE_CODE_SIGNING_OTA_DEMO cfg then [vSuspendOTACodeSigningDemo] else [])
         @ [FreeRTOS_setsockopt (tls_tcpSocket (xNetworkContext s)) FREERTOS_SO_WAKEUP_CALLBACK 0] @ dis)
         (tls_tcpSocket (xNetworkContext s')) con
    \<and> xGlobalSubscriptionList s' =
        command_loop_effect env (calls s) (xGlobalSubscriptionList s)"
proof -
  let ?ota = "democonfigCREATE_CODE_SIGNING_OTA_DEMO cfg"
  let ?k0 = "tls_tcpSocket (xNetworkContext s)"
  let ?susp = "MQTTAgent_CommandLoop # (if ?ota then [vSuspendOTACodeSigningDemo] else [])"
  define s3 where "s3 = (do_calls ?susp s)\<lparr>xGlobalSubscriptionList :=
     command_loop_effect env (calls s) (xGlobalSubscriptionList s)\<rparr>"
  have k0: "xNetworkContext s3 = xNetworkContext s" by (simp add: s3_def)
  have r: "r = answer (net env) (calls s) MQTTAgent_CommandLoop"
    using run by (auto simp: agent_round_def do_call_calls Let_def split: if_splits prod.splits)
  with assms(2) have eq: "agent_round env cfg s = do {
       let (disconnected, s4) = prvSocketDisconnect env s3;
       _ \<leftarrow> configASSERT disconnected;
       (connected, s5) \<leftarrow> prvSocketConnect env cfg s4;
       _ \<leftarrow> configASSERT connected;
       let s6 = do_calls [set_connectStatus_MQTTNotConnected] s5;
       (xConnectStatus, s7) \<leftarrow> prvMQTTConnect env cfg False s6;
       _ \<leftarrow> configASSERT (xConnectStatus = MQTTSuccess env);
       Some (r, s7)
     }"
    by (cases ?ota) (simp_all add: agent_round_def do_call_calls Let_def s3_def)
  from prvSocketDisconnect_frame [of env s3] obtain dis where
    dis: "prvSocketDisconnect env s3 =
      (True, do_calls (FreeRTOS_setsockopt ?k0 FREERTOS_SO_WAKEUP_CALLBACK 0 # dis) s3)"
    "teardown (net env) ?k0 dis" unfolding k0 by blast
  let ?s4 = "do_calls (FreeRTOS_setsockopt ?k0 FREERTOS_SO_WAKEUP_CALLBACK 0 # dis) s3"
  obtain s5 s7 where con: "prvSocketConnect env cfg ?s4 = Some (True, s5)"
    and mqtt: "prvMQTTConnect env cfg False (do_calls [set_connectStatus_MQTTNotConnected] s5)
        = Some (MQTTSuccess env, s7)" and s': "s' = s7"
    using run unfolding eq dis(1) by auto
  from prvSocketConnect_calls [OF con] obtain cs c where s5: "s5 = (do_calls (cs
      @ [FreeRTOS_setsockopt (tls_tcpSocket c) FREERTOS_SO_WAKEUP_CALLBACK 1,
         FreeRTOS_setsockopt (tls_tcpSocket c) FREERTOS_SO_RCVTIMEO 0]) ?s4)\<lparr>xNetworkContext := c\<rparr>"
    "\<forall>x \<in> set cs. link_call x" "tls_tcpSocket c \<noteq> FREERTOS_INVALID_SOCKET (net env)"
    and att: "attempts (net env) cfg (calls ?s4) (tls_tcpSocket c) cs" by blast
  have h: "calls ?s4 = calls s @ [MQTTAgent_CommandLoop]
      @ (if ?ota then [vSuspendOTACodeSigningDemo] else [])
      @ [FreeRTOS_setsockopt ?k0 FREERTOS_SO_WAKEUP_CALLBACK 0] @ dis" by (simp add: s3_def)
  let ?s6 = "do_calls [set_connectStatus_MQTTNotConnected] s5"
  have list: "xGlobalSubscriptionList ?s6 =
      command_loop_effect env (calls s) (xGlobalSubscriptionList s)"
    by (simp add: s5(1) s3_def)
  from prvMQTTConnect_frame [OF mqtt] list s' have list':
    "xGlobalSubscriptionList s' = command_loop_effect env (calls s) (xGlobalSubscriptionList s)"
    "xNetworkContext s' = c"
    by (simp_all add: s5(1) s3_def)
  with ok list have "list_ok (xGlobalSubscriptionList ?s6)" by simp
  define us where "us = resubscribe_infos (xGlobalSubscriptionList s')"
  from prvMQTTConnect_persistent [OF \<open>list_ok (xGlobalSubscriptionList ?s6)\<close> mqtt] obtain sp where
    s7: "s7 = do_calls ([mqtt_connect_call cfg False, MQTTAgent_ResumeSession sp]
      @ (if sp \<or> us = [] then [] else [MQTTAgent_Subscribe us])) ?s6"
    unfolding us_def list list'(1) by blast
  have "calls s7 = calls s @ reconnect_calls cfg ?k0 dis cs (tls_tcpSocket c) sp
      (xGlobalSubscriptionList s')"
    unfolding reconnect_calls_def us_def [symmetric] by (simp add: s7 s5(1) s3_def)
  then have "calls s' = calls s @ reconnect_calls cfg ?k0 dis cs (tls_tcpSocket c) sp
      (xGlobalSubscriptionList s')"
    by (simp only: s')
  then show ?thesis
    using dis(2) s5(2,3) list' att [unfolded h] by metis
qed

section \<open>Properties\<close>

text \<open>
  C21. The connection loop is bounded.  With the documented behaviour of the backoff library, and
  if every handshake ends, prvSocketConnect returns: it makes at most RETRY_MAX_ATTEMPTS + 1
  attempts with one delay between two of them, gives up only after all of them, and on success
  the network context holds a valid socket, whose wake-up callback is set and whose receive
  timeout is zero.
\<close>

theorem prvSocketConnect_bounded:
  assumes "backoff_ok env left" and "handshakes_end (net env)"
  shows "\<exists>ok s' cs k. prvSocketConnect env cfg s = Some (ok, s') \<and> made s s' cs
    \<and> count_calls FreeRTOS_socket cs = k + 1 \<and> delays cs = k
    \<and> k \<le> unat RETRY_MAX_ATTEMPTS \<and> (\<not> ok \<longrightarrow> k = unat RETRY_MAX_ATTEMPTS)
    \<and> (ok \<longrightarrow> (let sock = tls_tcpSocket (xNetworkContext s') in
         sock \<noteq> FREERTOS_INVALID_SOCKET (net env)
         \<and> (\<exists>ds. cs = ds @ [FreeRTOS_setsockopt sock FREERTOS_SO_WAKEUP_CALLBACK 1,
                          FreeRTOS_setsockopt sock FREERTOS_SO_RCVTIMEO 0])))"
proof -
  let ?b = "BackoffAlgorithm_InitializeParams env RETRY_BACKOFF_BASE_MS
    RETRY_MAX_BACKOFF_DELAY_MS RETRY_MAX_ATTEMPTS"
  have "left ?b = unat RETRY_MAX_ATTEMPTS" using assms(1) by (simp add: backoff_ok_def)
  from connect_loop_bounded [OF assms this] obtain ok cs c k where loop:
    "connect_loop env cfg ?b s = Some (ok, (do_calls cs s)\<lparr>xNetworkContext := c\<rparr>)"
    "count_calls FreeRTOS_socket cs = Suc k" "delays cs = k" "k \<le> unat RETRY_MAX_ATTEMPTS"
    "\<not> ok \<longrightarrow> k = unat RETRY_MAX_ATTEMPTS"
    "ok \<longrightarrow> tls_tcpSocket c \<noteq> FREERTOS_INVALID_SOCKET (net env)" by blast
  show ?thesis
  proof (cases ok)
    case True
    let ?tail = "[FreeRTOS_setsockopt (tls_tcpSocket c) FREERTOS_SO_WAKEUP_CALLBACK 1,
      FreeRTOS_setsockopt (tls_tcpSocket c) FREERTOS_SO_RCVTIMEO 0]"
    have "prvSocketConnect env cfg s =
        Some (True, (do_calls (cs @ ?tail) s)\<lparr>xNetworkContext := c\<rparr>)"
      using loop(1) True by (simp add: prvSocketConnect_def)
    with loop True show ?thesis
      by (intro exI [of _ True] exI [of _ "(do_calls (cs @ ?tail) s)\<lparr>xNetworkContext := c\<rparr>"]
          exI [of _ "cs @ ?tail"] exI [of _ k])
         (simp add: made_def)
  next
    case False
    have "prvSocketConnect env cfg s = Some (False, (do_calls cs s)\<lparr>xNetworkContext := c\<rparr>)"
      using loop(1) False by (simp add: prvSocketConnect_def)
    with loop False show ?thesis
      by (intro exI [of _ False] exI [of _ "(do_calls cs s)\<lparr>xNetworkContext := c\<rparr>"]
          exI [of _ cs] exI [of _ k])
         (simp add: made_def)
  qed
qed

text \<open>An environment: the broker refuses, the backoff context counts its retries.\<close>

definition demo_agent_env :: "(nat, nat, nat) agent_env" where
  "demo_agent_env = \<lparr>net = bad_env, session_present = (\<lambda>_. False), MQTTSuccess = 0,
     MQTTBadParameter = 1, MQTTSubAckFailure = 0x80,
     BackoffAlgorithm_InitializeParams = (\<lambda>base mx n. unat n),
     BackoffAlgorithm_GetNextBackoff = (\<lambda>b r. if b = 0 then (BackoffAlgorithmRetriesExhausted, 0, 0)
        else (BackoffAlgorithmSuccess, 100, b - 1)),
     command_loop_effect = (\<lambda>h l. l)\<rparr>"

definition demo_settings :: demo_config where
  "demo_settings = \<lparr>democonfigCLIENT_IDENTIFIER = ''thing'',
     democonfigMQTT_BROKER_ENDPOINT = ''broker'', democonfigMQTT_BROKER_PORT = 8883,
     democonfigROOT_CA_PEM = [1, 2, 3], democonfigCLIENT_CERTIFICATE_PEM = None,
     democonfigDISABLE_SNI = 0, democonfigUSE_AWS_IOT_CORE_BROKER = True,
     democonfigCLIENT_USERNAME = None, AWS_IOT_METRICS_STRING = ''?SDK=x'',
     democonfigCREATE_CODE_SIGNING_OTA_DEMO = True\<rparr>"

definition demo_agent_state ::
  "(nat, nat) SubscriptionElement list \<Rightarrow> (nat, nat, nat, nat) agent_state" where
  "demo_agent_state l = \<lparr>calls = [], xNetworkContext = \<lparr>tls_tcpSocket = 0\<rparr>,
     ulGlobalEntryTimeMs = 0, xCommandQueue = \<lparr>queue = None\<rparr>,
     command_pool = \<lparr>commandStructurePool = [],
       commandStructMessageCtx = \<lparr>queue = None\<rparr>, initStatus = 0\<rparr>,
     xGlobalSubscriptionList = l\<rparr>"

lemma demo_backoff_ok: "backoff_ok demo_agent_env (\<lambda>b. b)"
  by (simp add: backoff_ok_def demo_agent_env_def)

lemma demo_handshakes_end: "handshakes_end (net demo_agent_env)"
  by (simp add: handshakes_end_def demo_agent_env_def want_more_def bad_env_def good_env_def)

theorem prvSocketConnect_bounded_witness:
  "\<exists>ok s' cs k. prvSocketConnect demo_agent_env demo_settings (demo_agent_state empty_list) =
       Some (ok, s')
     \<and> made (demo_agent_state empty_list) s' cs \<and> count_calls FreeRTOS_socket cs = k + 1
     \<and> delays cs = k \<and> k \<le> 5"
  using prvSocketConnect_bounded [OF demo_backoff_ok demo_handshakes_end, of demo_settings
      "demo_agent_state empty_list"]
  by (fastforce simp: RETRY_MAX_ATTEMPTS_def)

text \<open>
  C11. After a reconnection without a session on the broker, exactly the stored subscriptions are
  subscribed again: the MQTT connect is the only call of a clean connection; a persistent one
  that the broker accepts resumes the agent's session, and if that succeeds, the broker kept no
  session and there are subscriptions, subscribes the filters of all of them, at most
  SUBSCRIPTION_MANAGER_MAX_SUBSCRIPTIONS, in one command.
\<close>

theorem prvMQTTConnect_resubscribes:
  assumes "list_ok (xGlobalSubscriptionList s)"
  shows "let c1 = MQTT_Connect (connect_info cfg clean) mqttexampleCONNACK_RECV_TIMEOUT_MS;
      sp = session_present env (calls s);
      c2 = MQTTAgent_ResumeSession sp;
      us = resubscribe_infos (xGlobalSubscriptionList s);
      a1 = answer (net env) (calls s) c1;
      a2 = answer (net env) (calls s @ [c1]) c2
    in prvMQTTConnect env cfg clean s =
        (if a1 \<noteq> MQTTSuccess env \<or> clean then Some (a1, do_calls [c1] s)
         else if a2 \<noteq> MQTTSuccess env \<or> sp \<or> us = [] then Some (a2, do_calls [c1, c2] s)
         else Some (answer (net env) (calls s @ [c1, c2]) (MQTTAgent_Subscribe us),
                    do_calls [c1, c2, MQTTAgent_Subscribe us] s))
      \<and> (\<lambda>u. take (unat (topicFilterLength u)) (the (pTopicFilter u))) ` set us
          = fst ` subs (xGlobalSubscriptionList s)
      \<and> length us \<le> SUBSCRIPTION_MANAGER_MAX_SUBSCRIPTIONS"
proof -
  have "length (resubscribe_infos (xGlobalSubscriptionList s))
      \<le> SUBSCRIPTION_MANAGER_MAX_SUBSCRIPTIONS"
    using list_ok_length [OF assms]
    by (metis length_filter_le length_map resubscribe_infos_def)
  then show ?thesis
    using prvMQTTConnect_eq [OF assms, of env cfg clean]
      resubscribe_infos_filters [of "xGlobalSubscriptionList s"]
    by (simp only: Let_def mqtt_connect_call_def)
qed

theorem prvMQTTConnect_resubscribes_witness:
  "prvMQTTConnect demo_agent_env demo_settings True (demo_agent_state empty_list) =
     Some (0, do_calls [MQTT_Connect (connect_info demo_settings True) 2000]
            (demo_agent_state empty_list))"
proof -
  have "list_ok (xGlobalSubscriptionList (demo_agent_state empty_list))"
    by (simp add: demo_agent_state_def list_ok_empty)
  from prvMQTTConnect_resubscribes [OF this, of demo_settings True demo_agent_env] show ?thesis
    by (simp add: Let_def demo_agent_env_def demo_agent_state_def bad_env_def
        mqttexampleCONNACK_RECV_TIMEOUT_MS_def)
qed

text \<open>
  When a resubscription fails, its completion callback removes exactly the filters that the
  broker refused: every subscription to another filter stays, the list stays well-formed, and a
  successful resubscription changes nothing.  The callback always returns: the assertion that is
  meant to stop on a refused subscription never fires.
\<close>

theorem suback_removes_refused:
  assumes "list_ok (xGlobalSubscriptionList s)" and "\<forall>u \<in> set args. arg_ok u"
    and "length args \<le> length codes"
  shows "\<exists>s'. prvSubscriptionCommandCallback env args code codes s = Some s'
    \<and> list_ok (xGlobalSubscriptionList s')
    \<and> subs (xGlobalSubscriptionList s') = {k \<in> subs (xGlobalSubscriptionList s).
        code \<noteq> MQTTSuccess env \<longrightarrow>
        (\<forall>j < length args. codes ! j = MQTTSubAckFailure env \<longrightarrow> fst k \<noteq> arg_filter (args ! j))}"
proof (cases "code = MQTTSuccess env")
  case True
  with assms(1) show ?thesis by (simp add: prvSubscriptionCommandCallback_def)
next
  case False
  from suback_loop_eq [OF assms(1,2), of 0 "length args" codes "MQTTSubAckFailure env"] assms(3)
  show ?thesis
    using False by (auto simp: prvSubscriptionCommandCallback_def)
qed

theorem suback_removes_refused_witness:
  "\<exists>s'. prvSubscriptionCommandCallback demo_agent_env
      [\<lparr>sub_qos = 1, pTopicFilter = Some demo_filter, topicFilterLength = 9\<rparr>] 5 [0x80]
      (demo_agent_state empty_list) = Some s'
    \<and> subs (xGlobalSubscriptionList s') = {}"
proof -
  have "list_ok (xGlobalSubscriptionList (demo_agent_state empty_list))"
    by (simp add: demo_agent_state_def list_ok_empty)
  moreover have "\<forall>u \<in> set [\<lparr>sub_qos = 1, pTopicFilter = Some demo_filter,
      topicFilterLength = 9\<rparr>]. arg_ok u"
    by (simp add: arg_ok_def demo_filter_ok)
  moreover have "length [\<lparr>sub_qos = 1, pTopicFilter = Some demo_filter,
      topicFilterLength = 9\<rparr>] \<le> length [0x80 :: int]" by simp
  ultimately show ?thesis
    using suback_removes_refused [of "demo_agent_state empty_list" _ "[0x80]" demo_agent_env 5]
    by (fastforce simp: demo_agent_state_def subs_empty)
qed

text \<open>
  C10. A round of the agent task whose command loop failed returns only with the connection
  re-established, and it does so in one fixed order.  The old socket's wake-up callback is
  cleared.  The old connection is torn down: the session is closed, the old socket shut down,
  drained and closed, the mbedTLS objects freed.  Attempts to connect, each with a socket of its
  own, fail and are followed by a delay, none or more of them, until one succeeds: the one whose
  socket the task goes on with, connected to the broker, with the session set up for verification
  against the root certificate and the handshake done.  Then the socket's options are set, the
  library's context is marked as not connected, and the MQTT session is taken up again with clean
  session off, resumed, and resubscribed unless the broker kept it.
\<close>

theorem agent_round_reconnects:
  assumes "agent_round env cfg s = Some (r, s')" and "r \<noteq> MQTTSuccess env"
    and "list_ok (xGlobalSubscriptionList s')"
  shows "\<exists>dis failed good sp. let l = xGlobalSubscriptionList s';
      k0 = tls_tcpSocket (xNetworkContext s); k = tls_tcpSocket (xNetworkContext s');
      h = calls s @ [MQTTAgent_CommandLoop]
        @ (if democonfigCREATE_CODE_SIGNING_OTA_DEMO cfg then [vSuspendOTACodeSigningDemo] else [])
        @ [FreeRTOS_setsockopt k0 FREERTOS_SO_WAKEUP_CALLBACK 0] @ dis @ failed
    in calls s' = h @ good
      @ [FreeRTOS_setsockopt k FREERTOS_SO_WAKEUP_CALLBACK 1,
         FreeRTOS_setsockopt k FREERTOS_SO_RCVTIMEO 0, set_connectStatus_MQTTNotConnected,
         MQTT_Connect (connect_info cfg False) mqttexampleCONNACK_RECV_TIMEOUT_MS,
         MQTTAgent_ResumeSession sp]
      @ (if sp \<or> resubscribe_infos l = [] then [] else [MQTTAgent_Subscribe (resubscribe_infos l)])
    \<and> teardown (net env) k0 dis
    \<and> (\<forall>x \<in> set failed. link_call x) \<and> count_calls FreeRTOS_socket failed = delays failed
    \<and> verified_calls (net env) cfg h k good
    \<and> k \<noteq> FREERTOS_INVALID_SOCKET (net env)"
proof -
  from agent_round_failed [OF assms] obtain dis con sp where c: "calls s' = calls s
      @ reconnect_calls cfg (tls_tcpSocket (xNetworkContext s)) dis con
          (tls_tcpSocket (xNetworkContext s')) sp (xGlobalSubscriptionList s')"
    "teardown (net env) (tls_tcpSocket (xNetworkContext s)) dis" "\<forall>x \<in> set con. link_call x"
    "tls_tcpSocket (xNetworkContext s') \<noteq> FREERTOS_INVALID_SOCKET (net env)"
    "attempts (net env) cfg (calls s @ [MQTTAgent_CommandLoop]
         @ (if democonfigCREATE_CODE_SIGNING_OTA_DEMO cfg then [vSuspendOTACodeSigningDemo] else [])
         @ [FreeRTOS_setsockopt (tls_tcpSocket (xNetworkContext s)) FREERTOS_SO_WAKEUP_CALLBACK 0] @ dis)
         (tls_tcpSocket (xNetworkContext s')) con" by blast
  then obtain failed good where g: "con = failed @ good"
    "count_calls FreeRTOS_socket failed = delays failed"
    "verified_calls (net env) cfg ((calls s @ [MQTTAgent_CommandLoop]
         @ (if democonfigCREATE_CODE_SIGNING_OTA_DEMO cfg then [vSuspendOTACodeSigningDemo] else [])
         @ [FreeRTOS_setsockopt (tls_tcpSocket (xNetworkContext s)) FREERTOS_SO_WAKEUP_CALLBACK 0] @ dis)
         @ failed) (tls_tcpSocket (xNetworkContext s')) good"
    by (auto simp: attempts_def)
  with c show ?thesis
    unfolding Let_def reconnect_calls_def mqtt_connect_call_def
    by (intro exI [of _ dis] exI [of _ failed] exI [of _ good] exI [of _ sp]) simp
qed

text \<open>An environment whose command loop fails once and whose connections all succeed.\<close>

definition reconnect_env :: "(nat, nat, nat) agent_env" where
  "reconnect_env = demo_agent_env\<lparr>net := good_env\<lparr>answer := (\<lambda>h c. case c of
     FreeRTOS_socket \<Rightarrow> 5 | FreeRTOS_gethostbyname _ \<Rightarrow> 1 | FreeRTOS_recv _ _ \<Rightarrow> - 1
   | MQTTAgent_CommandLoop \<Rightarrow> 4 | _ \<Rightarrow> 0)\<rparr>\<rparr>"

lemma reconnect_attempt:
  "\<exists>s1. agent_attempt reconnect_env demo_settings s =
     Some (TLS_TRANSPORT_SUCCESS, Some ((xNetworkContext s)\<lparr>tls_tcpSocket := 5\<rparr>), s1)"
proof -
  let ?e = "net reconnect_env"
  have zero: "answer ?e h mbedtls_entropy_add_source = 0"
    "answer ?e h mbedtls_ctr_drbg_seed = 0" "answer ?e h mbedtls_ssl_config_defaults = 0"
    "answer ?e h (mbedtls_x509_crt_parse ob b n) = 0"
    "answer ?e h mbedtls_ssl_setup = 0" "answer ?e h mbedtls_ssl_handshake = 0" for h ob b n
    by (simp_all add: reconnect_env_def)
  have want: "MBEDTLS_ERR_SSL_WANT_READ ?e = - 0x6900" "MBEDTLS_ERR_SSL_WANT_WRITE ?e = - 0x6880"
    by (simp_all add: reconnect_env_def good_env_def)
  have k: "new_socket ?e s = 5" by (simp add: new_socket_def reconnect_env_def)
  have con: "connects ?e host port s" for host port
    by (simp add: connects_def connect_defs reconnect_env_def good_env_def)
  show ?thesis
    unfolding agent_attempt_def
    by (subst tls_connect_after_tcp [OF credentials_ca con])
       (simp add: Let_def initMbedtls_def do_call_calls zero tlsSetup_def sslContextInit_def
        setCredentials_def setRootCa_def setOptionalConfigurations_def tlsHandshake_def
        handshake_step want_more_def hs_answer_def want k network_credentials_def
        demo_settings_def)
qed

lemma reconnect_round:
  assumes "list_ok (xGlobalSubscriptionList s)"
  shows "\<exists>s'. agent_round reconnect_env demo_settings s = Some (4, s')
    \<and> xGlobalSubscriptionList s' = xGlobalSubscriptionList s"
proof -
  let ?e = "reconnect_env" and ?l = "xGlobalSubscriptionList s"
  have zero: "answer (net ?e) h (MQTT_Connect i t) = 0"
    "answer (net ?e) h (MQTTAgent_ResumeSession sp) = 0" "answer (net ?e) h (MQTTAgent_Subscribe us) = 0"
    "answer (net ?e) h MQTTAgent_CommandLoop = 4" "MQTTSuccess ?e = 0"
    "command_loop_effect ?e h l = l" for h i t sp us l
    by (simp_all add: reconnect_env_def demo_agent_env_def)
  have con: "\<exists>s2. prvSocketConnect ?e demo_settings s1 = Some (True, s2)
      \<and> xGlobalSubscriptionList s2 = xGlobalSubscriptionList s1" for s1
  proof -
    from reconnect_attempt [of s1] obtain s2 where a: "agent_attempt ?e demo_settings s1 =
      Some (TLS_TRANSPORT_SUCCESS, Some ((xNetworkContext s1)\<lparr>tls_tcpSocket := 5\<rparr>), s2)" by blast
    from agent_attempt_outcome [OF a] have "xGlobalSubscriptionList s2 = xGlobalSubscriptionList s1"
      by (metis do_calls_agent(3))
    with a show ?thesis by (simp add: prvSocketConnect_def connect_loop_step)
  qed
  have mqtt: "\<exists>s2. prvMQTTConnect ?e demo_settings False s1 = Some (0, s2)
      \<and> xGlobalSubscriptionList s2 = xGlobalSubscriptionList s1"
    if "list_ok (xGlobalSubscriptionList s1)" for s1
    unfolding prvMQTTConnect_eq [OF that] by (simp add: Let_def zero mqtt_connect_call_def)
  have dis: "\<exists>s2. prvSocketDisconnect ?e s1 = (True, s2)
      \<and> xGlobalSubscriptionList s2 = xGlobalSubscriptionList s1" for s1
    using prvSocketDisconnect_frame [of ?e s1] by (metis do_calls_agent(3))
  let ?s3 = "do_calls [MQTTAgent_CommandLoop, vSuspendOTACodeSigningDemo] s"
  obtain s4 where s4: "prvSocketDisconnect ?e ?s3 = (True, s4)" "xGlobalSubscriptionList s4 = ?l"
    using dis [of ?s3] by auto
  obtain s5 where s5: "prvSocketConnect ?e demo_settings s4 = Some (True, s5)"
    "xGlobalSubscriptionList s5 = ?l"
    using con [of s4] s4(2) by auto
  obtain s7 where s7: "prvMQTTConnect ?e demo_settings False
      (do_calls [set_connectStatus_MQTTNotConnected] s5) = Some (0, s7)"
    "xGlobalSubscriptionList s7 = ?l"
    using mqtt [of "do_calls [set_connectStatus_MQTTNotConnected] s5"] s5(2) assms by auto
  have "democonfigCREATE_CODE_SIGNING_OTA_DEMO demo_settings" by (simp add: demo_settings_def)
  with s4 s5 s7 show ?thesis
    by (simp add: agent_round_def do_call_calls zero Let_def)
qed

theorem agent_round_reconnects_witness:
  "\<exists>s' dis good h. agent_round reconnect_env demo_settings (demo_agent_state empty_list) = Some (4, s')
     \<and> teardown (net reconnect_env) (tls_tcpSocket (xNetworkContext (demo_agent_state empty_list))) dis
     \<and> verified_calls (net reconnect_env) demo_settings h (tls_tcpSocket (xNetworkContext s')) good
     \<and> set dis \<union> set good \<subseteq> set (calls s')"
proof -
  have l: "xGlobalSubscriptionList (demo_agent_state empty_list) = empty_list"
    by (simp add: demo_agent_state_def)
  then obtain s' where s': "agent_round reconnect_env demo_settings (demo_agent_state empty_list)
      = Some (4, s')" "xGlobalSubscriptionList s' = empty_list"
    using reconnect_round [of "demo_agent_state empty_list"] list_ok_empty by metis
  have "(4 :: int) \<noteq> MQTTSuccess reconnect_env" by (simp add: reconnect_env_def demo_agent_env_def)
  from agent_round_reconnects [OF s'(1) this] s'(2) list_ok_empty obtain dis good h rest where
    "teardown (net reconnect_env) (tls_tcpSocket (xNetworkContext (demo_agent_state empty_list))) dis"
    "verified_calls (net reconnect_env) demo_settings h (tls_tcpSocket (xNetworkContext s')) good"
    "calls s' = h @ good @ rest" "set dis \<subseteq> set h"
    unfolding Let_def by fastforce
  then show ?thesis using s'(1)
    by (intro exI [of _ s'] exI [of _ dis] exI [of _ good] exI [of _ h]) auto
qed

text \<open>
  With the OTA demo built, the agent task suspends it whenever its connection breaks and
  never resumes it: a round whose command loop failed suspends the OTA demo, and no round
  resumes it, although the reconnection succeeded.
\<close>

theorem ota_demo_never_resumed:
  assumes "agent_round env cfg s = Some (r, s')" and "list_ok (xGlobalSubscriptionList s')"
    and "democonfigCREATE_CODE_SIGNING_OTA_DEMO cfg"
  shows "\<exists>cs. made s s' cs \<and> vResumeOTACodeSigningDemo \<notin> set cs
    \<and> (r \<noteq> MQTTSuccess env \<longrightarrow> vSuspendOTACodeSigningDemo \<in> set cs)"
proof (cases "r = MQTTSuccess env")
  case True
  let ?s2 = "(do_calls [MQTTAgent_CommandLoop] s)\<lparr>xGlobalSubscriptionList :=
     command_loop_effect env (calls s) (xGlobalSubscriptionList s)\<rparr>"
  have r: "r = answer (net env) (calls s) MQTTAgent_CommandLoop"
    using assms(1) by (auto simp: agent_round_def do_call_calls Let_def split: if_splits prod.splits)
  with True assms(1) have "s' = snd (prvSocketDisconnect env ?s2)"
    by (auto simp: agent_round_def do_call_calls Let_def)
  moreover obtain cs where "prvSocketDisconnect env ?s2 = (True, do_calls (FreeRTOS_setsockopt
       (tls_tcpSocket (xNetworkContext ?s2)) FREERTOS_SO_WAKEUP_CALLBACK 0 # cs) ?s2)"
    "transport_calls cs"
    using prvSocketDisconnect_frame [of env ?s2] teardown_transport by blast
  ultimately show ?thesis
    using True by (intro exI [of _ "MQTTAgent_CommandLoop # FreeRTOS_setsockopt
       (tls_tcpSocket (xNetworkContext ?s2)) FREERTOS_SO_WAKEUP_CALLBACK 0 # cs"])
      (auto simp: made_def transport_calls_def transport_call_def)
next
  case False
  from agent_round_failed [OF assms(1) False assms(2)] obtain dis con sp where
    calls: "calls s' = calls s
      @ reconnect_calls cfg (tls_tcpSocket (xNetworkContext s)) dis con
          (tls_tcpSocket (xNetworkContext s')) sp (xGlobalSubscriptionList s')"
    "teardown (net env) (tls_tcpSocket (xNetworkContext s)) dis" "\<forall>x \<in> set con. link_call x" by blast
  have "\<not> link_call vResumeOTACodeSigningDemo" "\<not> transport_call vResumeOTACodeSigningDemo"
    by (simp_all add: link_call_def transport_call_def)
  with teardown_transport [OF calls(2)] calls(3) have "vResumeOTACodeSigningDemo \<notin> set dis" "vResumeOTACodeSigningDemo \<notin> set con"
    by (auto simp: transport_calls_def)
  then show ?thesis
    using calls(1) assms(3)
    by (intro exI [of _ "reconnect_calls cfg (tls_tcpSocket (xNetworkContext s)) dis con
          (tls_tcpSocket (xNetworkContext s')) sp (xGlobalSubscriptionList s')"])
       (auto simp: made_def reconnect_calls_def mqtt_connect_call_def)
qed

theorem ota_demo_never_resumed_witness:
  "\<exists>s' cs. agent_round reconnect_env demo_settings (demo_agent_state empty_list) = Some (4, s')
     \<and> made (demo_agent_state empty_list) s' cs
     \<and> vSuspendOTACodeSigningDemo \<in> set cs \<and> vResumeOTACodeSigningDemo \<notin> set cs"
proof -
  have l: "xGlobalSubscriptionList (demo_agent_state empty_list) = empty_list"
    by (simp add: demo_agent_state_def)
  then obtain s' where s': "agent_round reconnect_env demo_settings (demo_agent_state empty_list)
      = Some (4, s')" "xGlobalSubscriptionList s' = empty_list"
    using reconnect_round [of "demo_agent_state empty_list"] list_ok_empty by metis
  have "(4 :: int) \<noteq> MQTTSuccess reconnect_env" by (simp add: reconnect_env_def demo_agent_env_def)
  moreover have "democonfigCREATE_CODE_SIGNING_OTA_DEMO demo_settings"
    by (simp add: demo_settings_def)
  ultimately show ?thesis
    using ota_demo_never_resumed [OF s'(1)] s' list_ok_empty by metis
qed

text \<open>
  A publish that nobody handles leaves the receive buffer as it was: the code overwrites the
  character behind the topic with a NUL to log the topic, which prints exactly the topic, and
  puts it back.  It faults when the topic ends at the end of the buffer, as that of a publish
  without packet identifier and payload can: the NUL then goes one past the buffer.
\<close>

theorem unhandled_publish_restores_buffer:
  assumes "topic_at + unat len \<le> length buf"
    and "CHR 0x00 \<notin> set (take (unat len) (drop topic_at buf))"
    and "handler w = Some (False, w1)" and "ota w1 = Some (False, w2)"
  shows "prvIncomingPublishCallback cfg handler ota buf topic_at len w =
    (if topic_at + unat len < length buf
     then Some (if democonfigCREATE_CODE_SIGNING_OTA_DEMO cfg then w2 else w1, buf,
                Some (take (unat len) (drop topic_at buf)))
     else None)"
proof (cases "topic_at + unat len < length buf")
  case True
  let ?e = "topic_at + unat len" and ?buf = "buf[topic_at + unat len := CHR 0x00]"
  have "drop topic_at ?buf = take (unat len) (drop topic_at buf) @ CHR 0x00 # drop (Suc ?e) buf"
    using True by (simp add: upd_conv_take_nth_drop drop_take)
  then have "takeWhile (\<lambda>c. c \<noteq> CHR 0x00) (drop topic_at ?buf) =
      take (unat len) (drop topic_at buf)"
    using assms(2) by (simp add: takeWhile_append2 del: take_drop)
                      (subst takeWhile_append2, auto)
  then show ?thesis
    using True assms(3,4) by (simp add: prvIncomingPublishCallback_def)
next
  case False
  then show ?thesis
    using assms(3,4) by (simp add: prvIncomingPublishCallback_def arr_get_def)
qed

theorem unhandled_publish_restores_buffer_witness:
  "prvIncomingPublishCallback demo_settings (\<lambda>w. Some (False, w)) (\<lambda>w. Some (False, w))
      ''a/bXY'' 0 3 (7 :: nat) = Some (7, ''a/bXY'', Some ''a/b'')
   \<and> prvIncomingPublishCallback demo_settings (\<lambda>w. Some (False, w)) (\<lambda>w. Some (False, w))
      ''Xa/b'' 1 3 (7 :: nat) = None"
  using unhandled_publish_restores_buffer [of 0 3 "''a/bXY''" "\<lambda>w. Some (False, w)" 7 7
      "\<lambda>w. Some (False, w)" 7 demo_settings]
    unhandled_publish_restores_buffer [of 1 3 "''Xa/b''" "\<lambda>w. Some (False, w)" 7 7
      "\<lambda>w. Some (False, w)" 7 demo_settings]
  by simp

end
