(* ===== verification/C_Stdio.thy ===== *)
theory C_Stdio
  imports Prelude
begin

text \<open>
  The part of the C library that the OTA port works with: \<open>fopen\<close>, \<open>fseek\<close>,
  \<open>ftell\<close>, \<open>fread\<close>, \<open>fwrite\<close>, \<open>fclose\<close>, \<open>errno\<close>, and the heap of the kernel.

  The files are a map from names to their bytes and an open stream is a file with a position.
  Any call may fail: \<open>io_fault n\<close> says whether the \<open>n\<close>-th call does, with which \<open>errno\<close>,
  and how many bytes a failing transfer still moves.  A failing allocation is \<open>malloc_fails\<close>.
  Everything the model of a caller concludes holds for every such world.
\<close>

record c_stream =
  s_path :: string
  s_pos :: nat

record c_world =
  files :: "string \<Rightarrow> u8 list option"
  streams :: "nat \<Rightarrow> c_stream option"
  next_stream :: nat
  errno :: u32
  io_calls :: nat
  live_blocks :: nat
  malloc_calls :: nat

record c_env =
  io_fault :: "nat \<Rightarrow> (u32 \<times> nat) option"
  malloc_fails :: "nat \<Rightarrow> bool"
  ENOENT :: u32
  EINVAL :: u32

datatype open_mode = Mode_w_plus_b | Mode_r_plus_b | Mode_rb

definition tick_io :: "c_world \<Rightarrow> c_world" where
  "tick_io w = w\<lparr>io_calls := io_calls w + 1\<rparr>"

definition fail_io :: "u32 \<Rightarrow> c_world \<Rightarrow> c_world" where
  "fail_io e w = (tick_io w)\<lparr>errno := e\<rparr>"

definition open_stream :: "string \<Rightarrow> u8 list \<Rightarrow> c_world \<Rightarrow> nat option \<times> c_world" where
  "open_stream path bytes w =
     (Some (next_stream w),
      (tick_io w)\<lparr>files := (files w)(path := Some bytes),
        streams := (streams w)(next_stream w := Some \<lparr>s_path = path, s_pos = 0\<rparr>),
        next_stream := next_stream w + 1\<rparr>)"

definition fopen :: "'x c_env_scheme \<Rightarrow> string \<Rightarrow> open_mode \<Rightarrow> c_world \<Rightarrow> nat option \<times> c_world" where
  "fopen env path mode w =
     (case io_fault env (io_calls w) of
        Some (e, n) \<Rightarrow> (None, fail_io e w)
      | None \<Rightarrow>
          (case mode of
             Mode_w_plus_b \<Rightarrow> open_stream path [] w
           | _ \<Rightarrow> (case files w path of
               None \<Rightarrow> (None, fail_io (ENOENT env) w)
             | Some bytes \<Rightarrow> open_stream path bytes w)))"

text \<open>A call on a stream that is not open is undefined.  \<open>long\<close> has 32 bits.\<close>

datatype seek_whence = SEEK_SET | SEEK_END

definition fseek ::
  "'x c_env_scheme \<Rightarrow> nat \<Rightarrow> u32 \<Rightarrow> seek_whence \<Rightarrow> c_world \<Rightarrow> (int \<times> c_world) option" where
  "fseek env h off whence w = do {
     st \<leftarrow> streams w h;
     bytes \<leftarrow> files w (s_path st);
     let target = sint off + (if whence = SEEK_END then int (length bytes) else 0);
     Some (case io_fault env (io_calls w) of
        Some (e, n) \<Rightarrow> (-1, fail_io e w)
      | None \<Rightarrow>
          if target < 0 then (-1, fail_io (EINVAL env) w)
          else (0, (tick_io w)\<lparr>streams := (streams w)(h := Some (st\<lparr>s_pos := nat target\<rparr>))\<rparr>))
   }"

definition ftell :: "'x c_env_scheme \<Rightarrow> nat \<Rightarrow> c_world \<Rightarrow> (u32 \<times> c_world) option" where
  "ftell env h w = do {
     st \<leftarrow> streams w h;
     Some (case io_fault env (io_calls w) of
        Some (e, n) \<Rightarrow> (-1, fail_io e w)
      | None \<Rightarrow> (of_nat (s_pos st), tick_io w))
   }"

text \<open>How much of a transfer a fault lets through.\<close>

definition moved :: "(u32 \<times> nat) option \<Rightarrow> 'a list \<Rightarrow> 'a list" where
  "moved fault xs = (case fault of Some (e, k) \<Rightarrow> take k xs | None \<Rightarrow> xs)"

definition after_io :: "(u32 \<times> nat) option \<Rightarrow> c_world \<Rightarrow> c_world" where
  "after_io fault w = (case fault of Some (e, k) \<Rightarrow> fail_io e w | None \<Rightarrow> tick_io w)"

text \<open>The bytes \<open>fread (buf, 1, n, stream)\<close> delivers; their number is its result.\<close>

definition fread :: "'x c_env_scheme \<Rightarrow> nat \<Rightarrow> nat \<Rightarrow> c_world \<Rightarrow> (u8 list \<times> c_world) option" where
  "fread env h n w = do {
     st \<leftarrow> streams w h;
     bytes \<leftarrow> files w (s_path st);
     let fault = io_fault env (io_calls w);
     let got = moved fault (take n (drop (s_pos st) bytes));
     Some (got, (after_io fault w)\<lparr>streams := (streams w)(h := Some (st\<lparr>s_pos := s_pos st + length got\<rparr>))\<rparr>)
   }"

text \<open>\<open>data\<close> written at \<open>p\<close>; a gap behind the end of the file is filled with zeros.\<close>

definition write_at :: "u8 list \<Rightarrow> nat \<Rightarrow> u8 list \<Rightarrow> u8 list" where
  "write_at bytes p data =
     (if data = [] then bytes
      else take p (bytes @ replicate (p - length bytes) 0) @ data @ drop (p + length data) bytes)"

text \<open>The number of bytes \<open>fwrite (data, 1, length data, stream)\<close> writes is its result.\<close>

definition fwrite :: "'x c_env_scheme \<Rightarrow> nat \<Rightarrow> u8 list \<Rightarrow> c_world \<Rightarrow> (nat \<times> c_world) option" where
  "fwrite env h data w = do {
     st \<leftarrow> streams w h;
     bytes \<leftarrow> files w (s_path st);
     let fault = io_fault env (io_calls w);
     let put = moved fault data;
     Some (length put, (after_io fault w)\<lparr>
        files := (files w)(s_path st := Some (write_at bytes (s_pos st) put)),
        streams := (streams w)(h := Some (st\<lparr>s_pos := s_pos st + length put\<rparr>))\<rparr>)
   }"

text \<open>\<open>fclose\<close> gives the stream up even when it fails.\<close>

definition fclose :: "'x c_env_scheme \<Rightarrow> nat \<Rightarrow> c_world \<Rightarrow> (int \<times> c_world) option" where
  "fclose env h w = do {
     st \<leftarrow> streams w h;
     let fault = io_fault env (io_calls w);
     Some (if fault = None then 0 else -1, (after_io fault w)\<lparr>streams := (streams w)(h := None)\<rparr>)
   }"

definition pvPortMalloc :: "'x c_env_scheme \<Rightarrow> c_world \<Rightarrow> bool \<times> c_world" where
  "pvPortMalloc env w =
     (let w' = w\<lparr>malloc_calls := malloc_calls w + 1\<rparr> in
      if malloc_fails env (malloc_calls w) then (False, w')
      else (True, w'\<lparr>live_blocks := live_blocks w + 1\<rparr>))"

definition vPortFree :: "c_world \<Rightarrow> c_world" where
  "vPortFree w = w\<lparr>live_blocks := live_blocks w - 1\<rparr>"

section \<open>Writing\<close>

lemma write_at_Nil [simp]: "write_at bytes p [] = bytes"
  by (simp add: write_at_def)

lemma length_write_at: "data \<noteq> [] \<Longrightarrow> length (write_at bytes p data) = max (length bytes) (p + length data)"
  by (auto simp: write_at_def max_def)

lemma write_at_nth:
  assumes "i < length (write_at bytes p data)"
  shows "write_at bytes p data ! i =
    (if p \<le> i \<and> i < p + length data then data ! (i - p) else if i < length bytes then bytes ! i else 0)"
proof (cases "data = []")
  case True
  with assms show ?thesis by auto
next
  case False
  let ?pre = "take p (bytes @ replicate (p - length bytes) 0)"
  have len: "length ?pre = p" by simp
  consider "i < p" | "p \<le> i" "i < p + length data" | "p + length data \<le> i" by linarith
  then show ?thesis
  proof cases
    case 1
    then have "write_at bytes p data ! i = ?pre ! i"
      using False len 1 by (simp only: write_at_def if_False nth_append if_True)
    also have "\<dots> = (if i < length bytes then bytes ! i else 0)"
      using 1 by (simp add: nth_append)
    finally show ?thesis using 1 by simp
  next
    case 2
    then have "\<not> i < p" "i - p < length data" by auto
    then show ?thesis using False len 2
      by (simp only: write_at_def if_False nth_append if_True) simp
  next
    case 3
    moreover have "i < length bytes"
      using assms False 3 by (simp add: length_write_at max_def split: if_splits)
    moreover have "\<not> i < p" "\<not> i - p < length data" "p + length data + (i - p - length data) = i"
      using 3 by auto
    ultimately show ?thesis using False len
      by (simp only: write_at_def if_False nth_append if_True) simp
  qed
qed

text \<open>Writes to disjoint ranges commute.\<close>

lemma write_at_commute:
  assumes "p + length a \<le> q \<or> q + length b \<le> p"
  shows "write_at (write_at bytes p a) q b = write_at (write_at bytes q b) p a"
proof (cases "a = [] \<or> b = []")
  case True
  then show ?thesis by auto
next
  case False
  then show ?thesis
  proof (intro nth_equalityI)
    show "length (write_at (write_at bytes p a) q b) = length (write_at (write_at bytes q b) p a)"
      using False by (simp add: length_write_at)
  next
    fix i
    assume i: "i < length (write_at (write_at bytes p a) q b)"
    then have "i < length (write_at (write_at bytes q b) p a)"
      using False by (simp add: length_write_at)
    with i show "write_at (write_at bytes p a) q b ! i = write_at (write_at bytes q b) p a ! i"
      using assms False by (auto simp: write_at_nth length_write_at)
  qed
qed

lemma write_at_end: "write_at bytes (length bytes) data = bytes @ data"
  by (simp add: write_at_def)

section \<open>Faults\<close>

definition no_faults :: "'x c_env_scheme \<Rightarrow> bool" where
  "no_faults env \<longleftrightarrow> (\<forall>n. io_fault env n = None)"

lemma no_faultsD [simp]: "no_faults env \<Longrightarrow> io_fault env n = None"
  by (simp add: no_faults_def)

lemma world_frames [simp]:
  "files (tick_io w) = files w" "streams (tick_io w) = streams w"
  "files (fail_io e w) = files w" "streams (fail_io e w) = streams w"
  "next_stream (tick_io w) = next_stream w" "next_stream (fail_io e w) = next_stream w"
  "live_blocks (tick_io w) = live_blocks w" "live_blocks (fail_io e w) = live_blocks w"
  "malloc_calls (tick_io w) = malloc_calls w" "malloc_calls (fail_io e w) = malloc_calls w"
  "io_calls (tick_io w) = io_calls w + 1" "io_calls (fail_io e w) = io_calls w + 1"
  "errno (fail_io e w) = e" "errno (tick_io w) = errno w"
  by (simp_all add: tick_io_def fail_io_def)

lemma after_io_frames [simp]:
  "files (after_io f w) = files w" "streams (after_io f w) = streams w"
  "next_stream (after_io f w) = next_stream w" "live_blocks (after_io f w) = live_blocks w"
  "malloc_calls (after_io f w) = malloc_calls w" "io_calls (after_io f w) = io_calls w + 1"
  by (simp_all add: after_io_def split: option.splits)

lemma moved_None [simp]: "moved None xs = xs"
  by (simp add: moved_def)

lemma moved_prefix: "\<exists>k. moved f xs = take k xs"
proof (cases f)
  case None
  then show ?thesis by (intro exI [of _ "length xs"]) simp
qed (auto simp: moved_def)

lemma length_moved: "length (moved f xs) \<le> length xs"
  by (auto simp: moved_def split: option.splits)

text \<open>A read moves the position over what it delivers and changes nothing else.\<close>

lemma fread_outcome:
  assumes "fread env h n w = Some (got, w')"
  obtains st bytes where "streams w h = Some st" "files w (s_path st) = Some bytes"
    "got = moved (io_fault env (io_calls w)) (take n (drop (s_pos st) bytes))"
    "files w' = files w" "live_blocks w' = live_blocks w"
    "streams w' = (streams w)(h := Some (st\<lparr>s_pos := s_pos st + length got\<rparr>))"
  using assms by (auto simp: fread_def Let_def)

end
