(* ===== verification/Crypto.thy ===== *)
theory Crypto
  imports C_Stdio Platform_Port
begin

text \<open>
  lib/FreeRTOS/utilities/crypto/src/iot_crypto.c: signature verification over a stream of data,
  and the mutexes it hands to mbedTLS.

  mbedTLS is a submodule: its hash contexts, certificates and public key operations are the
  record \<open>crypto_api\<close>.  A block from \<open>pvPortMalloc\<close> has arbitrary contents, the argument
  \<open>block\<close> of the function that allocates it.
\<close>

datatype mbedtls_md_type = MBEDTLS_MD_SHA1 | MBEDTLS_MD_SHA256

record ('h1, 'h2, 'crt) crypto_api =
  sha1_starts :: "'h1"
  sha1_update :: "'h1 \<Rightarrow> u8 list \<Rightarrow> 'h1"
  sha1_finish :: "'h1 \<Rightarrow> u8 list"
  sha256_starts :: "'h2"
  sha256_update :: "'h2 \<Rightarrow> u8 list \<Rightarrow> 'h2"
  sha256_finish :: "'h2 \<Rightarrow> u8 list"
  x509_crt_parse :: "u8 list \<Rightarrow> int \<times> 'crt"
  pk_verify :: "'crt \<Rightarrow> mbedtls_md_type \<Rightarrow> u8 list \<Rightarrow> u8 list \<Rightarrow> int"

definition cryptoSHA1_DIGEST_BYTES :: nat where "cryptoSHA1_DIGEST_BYTES = 20"
definition cryptoSHA256_DIGEST_BYTES :: nat where "cryptoSHA256_DIGEST_BYTES = 32"
definition cryptoHASH_ALGORITHM_SHA1 :: int where "cryptoHASH_ALGORITHM_SHA1 = 1"
definition cryptoHASH_ALGORITHM_SHA256 :: int where "cryptoHASH_ALGORITHM_SHA256 = 2"
definition cryptoASYMMETRIC_ALGORITHM_ECDSA :: int where "cryptoASYMMETRIC_ALGORITHM_ECDSA = 2"

section \<open>Signature verification\<close>

record ('h1, 'h2) SignatureVerificationState =
  xAsymmetricAlgorithm :: int
  xHashAlgorithm :: int
  xSHA1Context :: "'h1"
  xSHA256Context :: "'h2"

definition prvVerifySignature ::
  "('h1, 'h2, 'crt) crypto_api \<Rightarrow> u8 list \<Rightarrow> int \<Rightarrow> u8 list \<Rightarrow> u8 list \<Rightarrow> bool" where
  "prvVerifySignature api pcSignerCertificate hashAlgorithm pucHash pucSignature =
     (let xMbedHashAlg = (if cryptoHASH_ALGORITHM_SHA1 = hashAlgorithm
                          then MBEDTLS_MD_SHA1 else MBEDTLS_MD_SHA256);
          (err, crt) = x509_crt_parse api pcSignerCertificate
      in if err \<noteq> 0 then False
         else pk_verify api crt xMbedHashAlg pucHash pucSignature = 0)"

definition CRYPTO_SignatureVerificationStart ::
  "'x c_env_scheme \<Rightarrow> ('h1, 'h2, 'crt) crypto_api \<Rightarrow> ('h1, 'h2) SignatureVerificationState
   \<Rightarrow> int \<Rightarrow> int \<Rightarrow> c_world \<Rightarrow> ('h1, 'h2) SignatureVerificationState option \<times> c_world" where
  "CRYPTO_SignatureVerificationStart env api block asymmetric hashAlgorithm w =
     (let (got, w1) = pvPortMalloc env w in
      if \<not> got then (None, w1)
      else (let ctx = block\<lparr>xAsymmetricAlgorithm := asymmetric, xHashAlgorithm := hashAlgorithm\<rparr> in
            (Some (if cryptoHASH_ALGORITHM_SHA1 = xHashAlgorithm ctx
                   then ctx\<lparr>xSHA1Context := sha1_starts api\<rparr>
                   else ctx\<lparr>xSHA256Context := sha256_starts api\<rparr>), w1)))"

definition CRYPTO_SignatureVerificationUpdate ::
  "('h1, 'h2, 'crt) crypto_api \<Rightarrow> ('h1, 'h2) SignatureVerificationState \<Rightarrow> u8 list
   \<Rightarrow> ('h1, 'h2) SignatureVerificationState" where
  "CRYPTO_SignatureVerificationUpdate api ctx pucData =
     (if cryptoHASH_ALGORITHM_SHA1 = xHashAlgorithm ctx
      then ctx\<lparr>xSHA1Context := sha1_update api (xSHA1Context ctx) pucData\<rparr>
      else ctx\<lparr>xSHA256Context := sha256_update api (xSHA256Context ctx) pucData\<rparr>)"

text \<open>The part of the final step in front of releasing the context.\<close>

definition final_result ::
  "('h1, 'h2, 'crt) crypto_api \<Rightarrow> ('h1, 'h2) SignatureVerificationState
   \<Rightarrow> u8 list option \<Rightarrow> u8 list option \<Rightarrow> bool" where
  "final_result api ctx pcSignerCertificate pucSignature =
     (case (pcSignerCertificate, pucSignature) of
        (Some cert, Some sig) \<Rightarrow>
          if length cert > 0 \<and> length sig > 0 then
            let hash = (if cryptoHASH_ALGORITHM_SHA1 = xHashAlgorithm ctx
                        then take cryptoSHA1_DIGEST_BYTES (sha1_finish api (xSHA1Context ctx))
                        else take cryptoSHA256_DIGEST_BYTES (sha256_finish api (xSHA256Context ctx)))
            in prvVerifySignature api cert (xHashAlgorithm ctx) hash sig
          else False
      | _ \<Rightarrow> False)"

definition CRYPTO_SignatureVerificationFinal ::
  "('h1, 'h2, 'crt) crypto_api \<Rightarrow> ('h1, 'h2) SignatureVerificationState option
   \<Rightarrow> u8 list option \<Rightarrow> u8 list option \<Rightarrow> c_world \<Rightarrow> bool \<times> c_world" where
  "CRYPTO_SignatureVerificationFinal api pvContext pcSignerCertificate pucSignature w =
     (case pvContext of
        None \<Rightarrow> (False, w)
      | Some ctx \<Rightarrow> (final_result api ctx pcSignerCertificate pucSignature, vPortFree w))"

section \<open>The mutexes handed to mbedTLS\<close>

record 'm crypto_semaphores = "'m semaphore_api" +
  xSemaphoreCreateMutex :: "'m option"
  MBEDTLS_ERR_THREADING_BAD_INPUT_DATA :: int
  MBEDTLS_ERR_THREADING_MUTEX_ERROR :: int

definition aws_mbedtls_mutex_init ::
  "'m crypto_semaphores \<Rightarrow> 'm mbedtls_mutex \<Rightarrow> 'm mbedtls_mutex" where
  "aws_mbedtls_mutex_init api mutex = mutex\<lparr>mutexHandle := xSemaphoreCreateMutex api\<rparr>"

text \<open>The handle that \<open>vSemaphoreDelete\<close> is called on, if any; the mutex keeps it.\<close>

definition aws_mbedtls_mutex_free :: "'m mbedtls_mutex \<Rightarrow> 'm option \<times> 'm mbedtls_mutex" where
  "aws_mbedtls_mutex_free mutex =
     (if mutexHandle mutex \<noteq> None then (mutexHandle mutex, mutex) else (None, mutex))"

definition aws_mbedtls_mutex_lock ::
  "'m crypto_semaphores \<Rightarrow> 'm mbedtls_mutex \<Rightarrow> int \<times> 'm mbedtls_mutex" where
  "aws_mbedtls_mutex_lock api mutex =
     (case mutexHandle mutex of
        None \<Rightarrow> (MBEDTLS_ERR_THREADING_BAD_INPUT_DATA api, mutex)
      | Some h \<Rightarrow>
          (let (ok, h') = xSemaphoreTake api h
           in (if ok then 0 else MBEDTLS_ERR_THREADING_MUTEX_ERROR api,
               mutex\<lparr>mutexHandle := Some h'\<rparr>)))"

definition aws_mbedtls_mutex_unlock ::
  "'m crypto_semaphores \<Rightarrow> 'm mbedtls_mutex \<Rightarrow> int \<times> 'm mbedtls_mutex" where
  "aws_mbedtls_mutex_unlock api mutex =
     (case mutexHandle mutex of
        None \<Rightarrow> (MBEDTLS_ERR_THREADING_BAD_INPUT_DATA api, mutex)
      | Some h \<Rightarrow>
          (let (ok, h') = xSemaphoreGive api h
           in (if ok then 0 else MBEDTLS_ERR_THREADING_MUTEX_ERROR api,
               mutex\<lparr>mutexHandle := Some h'\<rparr>)))"

text \<open>
  What \<open>mbedtls_threading_set_alt\<close> is given: the functions that mbedTLS calls from then on.
\<close>

record 'm threading_alt =
  alt_mutex_init :: "'m mbedtls_mutex \<Rightarrow> 'm mbedtls_mutex"
  alt_mutex_free :: "'m mbedtls_mutex \<Rightarrow> 'm option \<times> 'm mbedtls_mutex"
  alt_mutex_lock :: "'m mbedtls_mutex \<Rightarrow> int \<times> 'm mbedtls_mutex"
  alt_mutex_unlock :: "'m mbedtls_mutex \<Rightarrow> int \<times> 'm mbedtls_mutex"

definition CRYPTO_ConfigureThreading :: "'m crypto_semaphores \<Rightarrow> 'm threading_alt" where
  "CRYPTO_ConfigureThreading api =
     \<lparr>alt_mutex_init = aws_mbedtls_mutex_init api, alt_mutex_free = aws_mbedtls_mutex_free,
      alt_mutex_lock = aws_mbedtls_mutex_lock api, alt_mutex_unlock = aws_mbedtls_mutex_unlock api\<rparr>"

definition CRYPTO_Init :: "'m crypto_semaphores \<Rightarrow> 'm threading_alt" where
  "CRYPTO_Init api = CRYPTO_ConfigureThreading api"

section \<open>calloc for mbedTLS\<close>

text \<open>The version for \<open>CONFIG_MEDTLS_USE_AFR_MEMORY\<close>.\<close>

definition pvCalloc :: "(u32 \<Rightarrow> u8 list option) \<Rightarrow> u32 \<Rightarrow> u32 \<Rightarrow> u8 list option" where
  "pvCalloc port_malloc xNumElements xSize =
     (case port_malloc (xNumElements * xSize) of
        Some pvNew \<Rightarrow> Some (replicate (unat (xNumElements * xSize)) 0)
      | None \<Rightarrow> None)"

text \<open>
  Unlike \<open>mbedtls_platform_calloc\<close> it does not look at the overflow of the product: it agrees
  with that function as long as there is none, and hands out too small a block if there is one.
\<close>

lemma pvCalloc_eq:
  assumes "unat n * unat sz < 2 ^ 32" and "n * sz \<noteq> 0"
  shows "pvCalloc alloc n sz = mbedtls_platform_calloc alloc n sz"
proof -
  have "unat (n * sz) = unat n * unat sz" using assms(1) by (simp add: unat_word_ariths)
  moreover have "unat sz \<noteq> 0" using assms(2) by (metis mult_zero_right unsigned_eq_0_iff)
  ultimately have "n * sz div sz = n" by (simp add: word_arith_nat_div)
  then show ?thesis using assms(2)
    by (simp add: pvCalloc_def mbedtls_platform_calloc_def Let_def word_neq_0_conv)
qed

lemma pvCalloc_short:
  assumes "2 ^ 32 \<le> unat n * unat sz" and "pvCalloc alloc n sz = Some block"
  shows "length block < unat n * unat sz"
proof -
  have "length block = unat (n * sz)" using assms(2) by (auto simp: pvCalloc_def split: option.splits)
  also have "\<dots> < 2 ^ 32" using unsigned_less [of "n * sz", where 'a = nat] by simp
  finally show ?thesis using assms(1) by simp
qed

section \<open>The contract of a streaming verifier\<close>

text \<open>
  What a client of the three functions relies on: data handed over in any chunks is verified as
  the whole of it.  \<open>streaming\<close> is the hash library's documented behaviour.
\<close>

locale signature_verifier =
  fixes start :: "'api \<Rightarrow> 'ctx"
    and update :: "'api \<Rightarrow> 'ctx \<Rightarrow> u8 list \<Rightarrow> 'ctx"
    and final :: "'api \<Rightarrow> 'ctx \<Rightarrow> u8 list \<Rightarrow> u8 list \<Rightarrow> bool"
    and verified :: "'api \<Rightarrow> u8 list \<Rightarrow> u8 list \<Rightarrow> u8 list \<Rightarrow> bool"
    and streaming :: "'api \<Rightarrow> bool"
  assumes final_chunks: "streaming api \<Longrightarrow>
    final api (foldl (update api) (start api) chunks) cert sig \<longleftrightarrow> verified api cert (concat chunks) sig"
begin

lemma chunking_irrelevant:
  "streaming api \<Longrightarrow> concat chunks = concat chunks' \<Longrightarrow>
   final api (foldl (update api) (start api) chunks) cert sig
     \<longleftrightarrow> final api (foldl (update api) (start api) chunks') cert sig"
  by (simp add: final_chunks)

end

text \<open>A hash context absorbs data piece by piece.\<close>

definition streaming_hash :: "('h1, 'h2, 'crt) crypto_api \<Rightarrow> bool" where
  "streaming_hash api \<longleftrightarrow>
     (\<forall>h. sha256_update api h [] = h)
     \<and> (\<forall>h a b. sha256_update api (sha256_update api h a) b = sha256_update api h (a @ b))"

text \<open>The verdict on a whole image: the certificate parses and its key accepts the digest.\<close>

definition image_verified ::
  "('h1, 'h2, 'crt) crypto_api \<Rightarrow> u8 list \<Rightarrow> u8 list \<Rightarrow> u8 list \<Rightarrow> bool" where
  "image_verified api cert img sig \<longleftrightarrow>
     cert \<noteq> [] \<and> sig \<noteq> [] \<and> fst (x509_crt_parse api cert) = 0
     \<and> pk_verify api (snd (x509_crt_parse api cert)) MBEDTLS_MD_SHA256
         (take cryptoSHA256_DIGEST_BYTES
           (sha256_finish api (sha256_update api (sha256_starts api) img))) sig = 0"

text \<open>A context for ECDSA with SHA-256, freshly started.\<close>

definition sha256_context ::
  "('h1, 'h2) SignatureVerificationState \<Rightarrow> ('h1, 'h2, 'crt) crypto_api
   \<Rightarrow> ('h1, 'h2) SignatureVerificationState" where
  "sha256_context block api =
     block\<lparr>xAsymmetricAlgorithm := cryptoASYMMETRIC_ALGORITHM_ECDSA,
       xHashAlgorithm := cryptoHASH_ALGORITHM_SHA256, xSHA256Context := sha256_starts api\<rparr>"

lemma Start_sha256:
  "CRYPTO_SignatureVerificationStart env api block cryptoASYMMETRIC_ALGORITHM_ECDSA
     cryptoHASH_ALGORITHM_SHA256 w =
   (if fst (pvPortMalloc env w) then Some (sha256_context block api) else None, snd (pvPortMalloc env w))"
  by (simp add: CRYPTO_SignatureVerificationStart_def sha256_context_def Let_def
      cryptoHASH_ALGORITHM_SHA1_def cryptoHASH_ALGORITHM_SHA256_def split: prod.splits)

lemma Update_chunks:
  assumes "xHashAlgorithm ctx = cryptoHASH_ALGORITHM_SHA256"
  shows "foldl (CRYPTO_SignatureVerificationUpdate api) ctx chunks =
    ctx\<lparr>xSHA256Context := foldl (sha256_update api) (xSHA256Context ctx) chunks\<rparr>"
  using assms
proof (induction chunks arbitrary: ctx)
  case (Cons c cs)
  then show ?case
    by (simp add: CRYPTO_SignatureVerificationUpdate_def cryptoHASH_ALGORITHM_SHA1_def
        cryptoHASH_ALGORITHM_SHA256_def)
qed simp

lemma streaming_foldl:
  "streaming_hash api \<Longrightarrow> foldl (sha256_update api) h chunks = sha256_update api h (concat chunks)"
  by (induction chunks arbitrary: h) (simp_all add: streaming_hash_def)

interpretation sha256: signature_verifier "sha256_context block"
  CRYPTO_SignatureVerificationUpdate "\<lambda>api ctx cert sig. final_result api ctx (Some cert) (Some sig)"
  image_verified streaming_hash
proof
  fix api :: "('a, 'b, 'c) crypto_api" and chunks cert sig
  assume "streaming_hash api"
  then show "final_result api (foldl (CRYPTO_SignatureVerificationUpdate api)
      (sha256_context block api) chunks) (Some cert) (Some sig)
    \<longleftrightarrow> image_verified api cert (concat chunks) sig"
    by (auto simp: Update_chunks sha256_context_def streaming_foldl
        final_result_def image_verified_def prvVerifySignature_def
        cryptoHASH_ALGORITHM_SHA1_def cryptoHASH_ALGORITHM_SHA256_def Let_def split: prod.splits)
qed

end
