(* ===== verification/Ota_Pal.thy ===== *)
theory Ota_Pal
  imports Crypto
begin

text \<open>
  lib/AWS/ota-pal/Win32/ota_pal.c: the platform layer of the OTA agent.  It stores the blocks of
  an image in a file, verifies the signature of the complete file when it is closed, and keeps
  the state of the image in the file PlatformImageState.txt.

  The statuses, image states and \<open>OTA_PAL_COMBINE_ERR\<close> belong to the OTA library (a
  submodule): the main statuses are the constructors the code names, the rest are fields of
  \<open>pal_env\<close>.
\<close>

section \<open>Data\<close>

datatype OtaPalMainStatus =
    OtaPalSuccess | OtaPalUninitialized | OtaPalRxFileCreateFailed | OtaPalFileAbort
  | OtaPalFileClose | OtaPalSignatureCheckFailed | OtaPalOutOfMemory | OtaPalBadSignerCert
  | OtaPalNullFileContext | OtaPalBadImageState

record ('h1, 'h2, 'crt) pal_env = c_env +
  crypto :: "('h1, 'h2, 'crt) crypto_api"
  ctx_block :: "('h1, 'h2) SignatureVerificationState"
  OTA_PAL_COMBINE_ERR :: "OtaPalMainStatus \<Rightarrow> u32 \<Rightarrow> u32"
  OTA_PAL_ERR_MASK :: u32
  OtaImageStateUnknown :: u32
  OtaImageStateTesting :: u32
  OtaImageStateAccepted :: u32
  OtaImageStateRejected :: u32
  OtaImageStateAborted :: u32
  OtaLastImageState :: u32
  OtaPalImageStateUnknown :: u32
  OtaPalImageStatePendingCommit :: u32
  OtaPalImageStateValid :: u32
  OtaPalImageStateInvalid :: u32
  signingcredentialSIGNING_CERTIFICATE_PEM :: "u8 list"

text \<open>\<open>pSignature\<close> holds the \<open>size\<close> bytes of \<open>data\<close>.\<close>

record OtaFileContext =
  pFilePath :: "string option"
  pFile :: "nat option"
  pSignature :: "u8 list option"
  pCertFilepath :: "string option"

definition OTA_PAL_INT16_NEGATIVE_MASK :: u32 where "OTA_PAL_INT16_NEGATIVE_MASK = 0x8000"

definition OTA_PAL_WIN_BUF_SIZE :: nat where "OTA_PAL_WIN_BUF_SIZE = 4096"

definition image_state_file :: string where "image_state_file = ''PlatformImageState.txt''"

definition prvContextValidate :: "OtaFileContext option \<Rightarrow> bool" where
  "prvContextValidate C \<longleftrightarrow> (case C of None \<Rightarrow> False | Some c \<Rightarrow> pFile c \<noteq> None)"

section \<open>Receiving\<close>

definition otaPal_CreateFileForRx ::
  "('h1, 'h2, 'crt) pal_env \<Rightarrow> OtaFileContext option \<Rightarrow> c_world
   \<Rightarrow> u32 \<times> OtaFileContext option \<times> c_world" where
  "otaPal_CreateFileForRx env C w =
     (case C of
        None \<Rightarrow> (OTA_PAL_COMBINE_ERR env OtaPalRxFileCreateFailed 0, C, w)
      | Some c \<Rightarrow>
          (case pFilePath c of
             None \<Rightarrow> (OTA_PAL_COMBINE_ERR env OtaPalRxFileCreateFailed 0, C, w)
           | Some path \<Rightarrow>
               (let (f, w1) = fopen env path Mode_w_plus_b w;
                    C' = Some (c\<lparr>pFile := f\<rparr>)
                in if f \<noteq> None then (OTA_PAL_COMBINE_ERR env OtaPalSuccess 0, C', w1)
                   else (OTA_PAL_COMBINE_ERR env OtaPalRxFileCreateFailed (errno w1), C', w1))))"

definition otaPal_Abort ::
  "('h1, 'h2, 'crt) pal_env \<Rightarrow> OtaFileContext option \<Rightarrow> c_world
   \<Rightarrow> (u32 \<times> OtaFileContext option \<times> c_world) option" where
  "otaPal_Abort env C w =
     (case C of
        None \<Rightarrow> Some (OTA_PAL_COMBINE_ERR env OtaPalFileAbort 0, C, w)
      | Some c \<Rightarrow>
          (case pFile c of
             None \<Rightarrow> Some (OTA_PAL_COMBINE_ERR env OtaPalSuccess 0, C, w)
           | Some h \<Rightarrow> do {
               (lFileCloseResult, w1) \<leftarrow> fclose env h w;
               let C' = Some (c\<lparr>pFile := None\<rparr>);
               Some (if lFileCloseResult = 0
                     then (OTA_PAL_COMBINE_ERR env OtaPalSuccess 0, C', w1)
                     else (OTA_PAL_COMBINE_ERR env OtaPalFileAbort (errno w1), C', w1))
             }))"

text \<open>\<open>int32_t\<close> and \<open>int16_t\<close> values are words; \<open>pacData\<close> is the object it points into.\<close>

definition otaPal_WriteBlock ::
  "('h1, 'h2, 'crt) pal_env \<Rightarrow> OtaFileContext option \<Rightarrow> u32 \<Rightarrow> u8 list \<Rightarrow> u32 \<Rightarrow> c_world
   \<Rightarrow> (u16 \<times> c_world) option" where
  "otaPal_WriteBlock env C ulOffset pacData ulBlockSize w =
     (if prvContextValidate C then do {
        c \<leftarrow> C;
        h \<leftarrow> pFile c;
        (r, w1) \<leftarrow> fseek env h ulOffset SEEK_SET w;
        if r = 0 then do {
          bytes \<leftarrow> mem_read pacData 0 (unat ulBlockSize);
          (n, w2) \<leftarrow> fwrite env h bytes w1;
          let lResult = (of_nat n :: u32);
          let lResult' = (if sint lResult < 0 then OTA_PAL_INT16_NEGATIVE_MASK OR errno w2 else lResult);
          Some (ucast lResult', w2)
        }
        else Some (ucast (OTA_PAL_INT16_NEGATIVE_MASK OR errno w1), w1)
      }
      else Some (-1, w))"

section \<open>The state of the image\<close>

text \<open>
  An \<open>OtaImageState_t\<close> in memory: four bytes, the lowest first.  The Windows compiler, the only one
  that builds this file, takes an enumeration for an \<open>int\<close>, which is what the comparison sees.
\<close>

definition state_bytes :: "u32 \<Rightarrow> u8 list" where
  "state_bytes v = [ucast v, ucast (drop_bit 8 v), ucast (drop_bit 16 v), ucast (drop_bit 24 v)]"

definition bytes_state :: "u8 list \<Rightarrow> u32" where
  "bytes_state bs =
     (case bs of
        [a, b, c, d] \<Rightarrow> ucast a OR push_bit 8 (ucast b) OR push_bit 16 (ucast c) OR push_bit 24 (ucast d)
      | _ \<Rightarrow> 0)"

definition otaPal_SetPlatformImageState ::
  "('h1, 'h2, 'crt) pal_env \<Rightarrow> u32 \<Rightarrow> c_world \<Rightarrow> (u32 \<times> c_world) option" where
  "otaPal_SetPlatformImageState env eState w =
     (if eState \<noteq> OtaImageStateUnknown env \<and> sint eState \<le> sint (OtaLastImageState env) then
        (case fopen env image_state_file Mode_w_plus_b w of
           (None, w1) \<Rightarrow> Some (OTA_PAL_COMBINE_ERR env OtaPalBadImageState (errno w1), w1)
         | (Some h, w1) \<Rightarrow> do {
             (n, w2) \<leftarrow> fwrite env h (state_bytes eState) w1;
             let (m1, s1) = (if n \<noteq> 4 then (OtaPalBadImageState, errno w2) else (OtaPalSuccess, 0));
             (r, w3) \<leftarrow> fclose env h w2;
             let (m2, s2) = (if 0 \<noteq> r then (OtaPalBadImageState, errno w3) else (m1, s1));
             Some (OTA_PAL_COMBINE_ERR env m2 s2, w3)
           })
      else Some (OTA_PAL_COMBINE_ERR env OtaPalBadImageState 0, w))"

definition otaPal_GetPlatformImageState ::
  "('h1, 'h2, 'crt) pal_env \<Rightarrow> c_world \<Rightarrow> (u32 \<times> c_world) option" where
  "otaPal_GetPlatformImageState env w =
     (case fopen env image_state_file Mode_r_plus_b w of
        (None, w1) \<Rightarrow> Some (OtaPalImageStateValid env, w1)
      | (Some h, w1) \<Rightarrow> do {
          (bs, w2) \<leftarrow> fread env h 4 w1;
          let ePalState =
            (if length bs \<noteq> 4 then OtaPalImageStateInvalid env OR (errno w2 AND OTA_PAL_ERR_MASK env)
             else if bytes_state bs = OtaImageStateTesting env then OtaPalImageStatePendingCommit env
             else if bytes_state bs = OtaImageStateAccepted env then OtaPalImageStateValid env
             else OtaPalImageStateInvalid env);
          (r, w3) \<leftarrow> fclose env h w2;
          Some (if 0 \<noteq> r then OtaPalImageStateInvalid env OR (errno w3 AND OTA_PAL_ERR_MASK env)
                else ePalState, w3)
        })"

definition otaPal_ResetDevice :: "('h1, 'h2, 'crt) pal_env \<Rightarrow> u32" where
  "otaPal_ResetDevice env = OTA_PAL_COMBINE_ERR env OtaPalSuccess 0"

definition otaPal_ActivateNewImage :: "('h1, 'h2, 'crt) pal_env \<Rightarrow> u32" where
  "otaPal_ActivateNewImage env = OTA_PAL_COMBINE_ERR env OtaPalSuccess 0"

section \<open>Verifying\<close>

text \<open>The block and its size when the certificate file could be read completely.\<close>

definition otaPal_ReadAndAssumeCertificate ::
  "('h1, 'h2, 'crt) pal_env \<Rightarrow> string option \<Rightarrow> c_world \<Rightarrow> (u8 list option \<times> c_world) option" where
  "otaPal_ReadAndAssumeCertificate env pucCertName w = do {
     path \<leftarrow> pucCertName;
     (case fopen env path Mode_rb w of
        (None, w1) \<Rightarrow>
          (let (got, w2) = pvPortMalloc env w1
           in Some (if got then Some (signingcredentialSIGNING_CERTIFICATE_PEM env) else None, w2))
      | (Some h, w1) \<Rightarrow> do {
          (e1, w2) \<leftarrow> fseek env h 0 SEEK_END w1;
          (lSize, e2, w3) \<leftarrow>
            (if e1 = 0 then do {
               (size32, w3) \<leftarrow> ftell env h w2;
               if size32 \<noteq> -1 then do {
                 (e2, w4) \<leftarrow> fseek env h 0 SEEK_SET w3;
                 Some (size32, e2, w4)
               }
               else Some (size32, -1, w3)
             }
             else Some (0, e1, w2));
          let (block, w4) = (if e2 = 0 then pvPortMalloc env w3 else (False, w3));
          (cert, w5) \<leftarrow>
            (if block then do {
               (got, w5) \<leftarrow> fread env h (unat lSize) w4;
               Some (if length got = unat lSize then (Some (got @ [0]), w5) else (None, vPortFree w5))
             }
             else Some (None, w4));
          (e3, w6) \<leftarrow> fclose env h w5;
          Some (if e3 \<noteq> 0 then None else cert, w6)
        })
   }"

text \<open>The bytes between the position of a stream and the end of its file.\<close>

definition bytes_left :: "nat \<Rightarrow> c_world \<Rightarrow> nat" where
  "bytes_left h w =
     (case streams w h of None \<Rightarrow> 0
      | Some st \<Rightarrow> (case files w (s_path st) of None \<Rightarrow> 0 | Some bytes \<Rightarrow> length bytes - s_pos st))"

lemma fread_progress:
  "fread env h n w = Some (got, w') \<Longrightarrow> got \<noteq> [] \<Longrightarrow> bytes_left h w' < bytes_left h w"
proof (elim fread_outcome)
  fix st bytes
  assume st: "streams w h = Some st" "files w (s_path st) = Some bytes"
    "got = moved (io_fault env (io_calls w)) (take n (drop (s_pos st) bytes))" "got \<noteq> []"
    "files w' = files w" "streams w' = (streams w)(h := Some (st\<lparr>s_pos := s_pos st + length got\<rparr>))"
  have "length got \<le> length bytes - s_pos st"
    using length_moved [of "io_fault env (io_calls w)" "take n (drop (s_pos st) bytes)"] st(3) by simp
  moreover have "0 < length got" using st(4) by simp
  moreover have "bytes_left h w = length bytes - s_pos st"
    "bytes_left h w' = length bytes - (s_pos st + length got)"
    using st(1,2,5,6) by (simp_all add: bytes_left_def)
  ultimately show "bytes_left h w' < bytes_left h w" by linarith
qed

text \<open>The \<open>do\<close> loop that feeds the file to the verification.\<close>

function verify_loop ::
  "('h1, 'h2, 'crt) pal_env \<Rightarrow> nat \<Rightarrow> ('h1, 'h2) SignatureVerificationState \<Rightarrow> c_world
   \<Rightarrow> (('h1, 'h2) SignatureVerificationState \<times> c_world) option" where
  "verify_loop env h ctx w =
     (case fread env h OTA_PAL_WIN_BUF_SIZE w of
        None \<Rightarrow> None
      | Some (buf, w1) \<Rightarrow>
          (let ctx' = CRYPTO_SignatureVerificationUpdate (crypto env) ctx buf
           in if buf \<noteq> [] then verify_loop env h ctx' w1 else Some (ctx', w1)))"
  by pat_completeness auto
termination
  by (relation "measure (\<lambda>(env, h, ctx, w). bytes_left h w)") (auto intro: fread_progress)

declare verify_loop.simps [simp del]

definition otaPal_CheckFileSignature ::
  "('h1, 'h2, 'crt) pal_env \<Rightarrow> OtaFileContext option \<Rightarrow> c_world
   \<Rightarrow> (OtaPalMainStatus \<times> c_world) option" where
  "otaPal_CheckFileSignature env C w =
     (if prvContextValidate C then do {
        c \<leftarrow> C;
        h \<leftarrow> pFile c;
        (case CRYPTO_SignatureVerificationStart env (crypto env) (ctx_block env)
                cryptoASYMMETRIC_ALGORITHM_ECDSA cryptoHASH_ALGORITHM_SHA256 w of
           (None, w1) \<Rightarrow> Some (OtaPalSignatureCheckFailed, w1)
         | (Some ctx, w1) \<Rightarrow> do {
             (pucSignerCert, w2) \<leftarrow> otaPal_ReadAndAssumeCertificate env (pCertFilepath c) w1;
             (case pucSignerCert of
                None \<Rightarrow> Some (OtaPalBadSignerCert, w2)
              | Some cert \<Rightarrow>
                  (case pvPortMalloc env w2 of
                     (False, w3) \<Rightarrow> Some (OtaPalOutOfMemory, vPortFree w3)
                   | (True, w3) \<Rightarrow> do {
                       (r, w4) \<leftarrow> fseek env h 0 SEEK_SET w3;
                       (eResult, w5) \<leftarrow>
                         (if r = 0 then do {
                            (ctx', w5) \<leftarrow> verify_loop env h ctx w4;
                            sig \<leftarrow> pSignature c;
                            let (ok, w6) = CRYPTO_SignatureVerificationFinal (crypto env)
                                  (Some ctx') (Some cert) (Some sig) w5;
                            Some (if \<not> ok then OtaPalSignatureCheckFailed else OtaPalSuccess, w6)
                          }
                          else Some (OtaPalSuccess, w4));
                       Some (eResult, vPortFree (vPortFree w5))
                     }))
           })
      }
      else Some (OtaPalNullFileContext, w))"

definition otaPal_CloseFile ::
  "('h1, 'h2, 'crt) pal_env \<Rightarrow> OtaFileContext option \<Rightarrow> c_world
   \<Rightarrow> (u32 \<times> OtaFileContext option \<times> c_world) option" where
  "otaPal_CloseFile env C w =
     (if prvContextValidate C then do {
        c \<leftarrow> C;
        h \<leftarrow> pFile c;
        (m1, w1) \<leftarrow> (if pSignature c \<noteq> None then otaPal_CheckFileSignature env C w
                      else Some (OtaPalSignatureCheckFailed, w));
        (lWindowsError, w2) \<leftarrow> fclose env h w1;
        let c' = c\<lparr>pFile := None\<rparr>;
        let (m2, s2) = (if lWindowsError \<noteq> 0 then (OtaPalFileClose, errno w2) else (m1, 0));
        if m2 = OtaPalSuccess then Some (OTA_PAL_COMBINE_ERR env m2 s2, Some c', w2)
        else do {
          (_, w3) \<leftarrow> otaPal_SetPlatformImageState env (OtaImageStateAborted env) w2;
          Some (OTA_PAL_COMBINE_ERR env m2 s2, Some c', w3)
        }
      }
      else Some (OTA_PAL_COMBINE_ERR env OtaPalFileClose 0, C, w))"

section \<open>Calls that succeed\<close>

text \<open>An open stream on a file with the contents \<open>bytes\<close>.\<close>

definition stream_on :: "c_world \<Rightarrow> nat \<Rightarrow> string \<Rightarrow> u8 list \<Rightarrow> bool" where
  "stream_on w h path bytes \<longleftrightarrow>
     (\<exists>st. streams w h = Some st \<and> s_path st = path) \<and> files w path = Some bytes
     \<and> h < next_stream w"

lemma fseek_start:
  assumes "io_fault env (io_calls w) = None" and "streams w h = Some st"
    and "files w (s_path st) = Some bytes" and "0 \<le> sint off"
  shows "fseek env h off SEEK_SET w =
    Some (0, (tick_io w)\<lparr>streams := (streams w)(h := Some (st\<lparr>s_pos := nat (sint off)\<rparr>))\<rparr>)"
  using assms by (simp add: fseek_def)

text \<open>A block is stored at its offset, and the result is its size.\<close>

lemma WriteBlock_ok:
  assumes "no_faults env" and "stream_on w h path bytes" and "pFile c = Some h"
    and "unat off < 2 ^ 31" and "length data < 2 ^ 31"
  shows "\<exists>w'. otaPal_WriteBlock env (Some c) off data (of_nat (length data)) w =
      Some (of_nat (length data), w')
    \<and> stream_on w' h path (write_at bytes (unat off) data)
    \<and> files w' = (files w)(path := Some (write_at bytes (unat off) data))
    \<and> next_stream w' = next_stream w \<and> live_blocks w' = live_blocks w"
proof -
  from assms(2) obtain st where st: "streams w h = Some st" "s_path st = path"
    "files w path = Some bytes" "h < next_stream w"
    by (auto simp: stream_on_def)
  let ?n = "of_nat (length data) :: u32"
  have n: "unat ?n = length data" using assms(5) by (simp add: unat_of_nat32)
  then have "0 \<le> sint ?n" using assms(5) by (simp add: sint_small)
  moreover have "ucast ?n = (of_nat (length data) :: u16)"
    using assms(5) by (simp add: unsigned_of_nat take_bit_nat_eq_self)
  moreover have "fseek env h off SEEK_SET w = Some (0, (tick_io w)\<lparr>streams :=
      (streams w)(h := Some (st\<lparr>s_pos := unat off\<rparr>))\<rparr>)"
    using assms(1,4) st by (simp add: fseek_start sint_small)
  ultimately show ?thesis
    using assms(1,3) st n
    by (simp add: otaPal_WriteBlock_def prvContextValidate_def fwrite_def stream_on_def Let_def)
qed

text \<open>The blocks the OTA agent hands over, one after the other.\<close>

fun write_blocks ::
  "('h1, 'h2, 'crt) pal_env \<Rightarrow> OtaFileContext option \<Rightarrow> (u32 \<times> u8 list) list \<Rightarrow> c_world
   \<Rightarrow> c_world option" where
  "write_blocks env C [] w = Some w"
| "write_blocks env C ((off, data) # bs) w = do {
     (r, w1) \<leftarrow> otaPal_WriteBlock env C off data (of_nat (length data)) w;
     write_blocks env C bs w1
   }"

definition blocks_ok :: "(u32 \<times> u8 list) list \<Rightarrow> bool" where
  "blocks_ok bs \<longleftrightarrow> (\<forall>(off, data) \<in> set bs. unat off < 2 ^ 31 \<and> length data < 2 ^ 31)"

definition assemble :: "u8 list \<Rightarrow> (u32 \<times> u8 list) list \<Rightarrow> u8 list" where
  "assemble = foldl (\<lambda>bytes (off, data). write_at bytes (unat off) data)"

lemma write_blocks_ok:
  assumes "no_faults env" and "pFile c = Some h" and "stream_on w h path bytes" and "blocks_ok bs"
  shows "\<exists>w'. write_blocks env (Some c) bs w = Some w'
    \<and> stream_on w' h path (assemble bytes bs)
    \<and> files w' = (files w)(path := Some (assemble bytes bs))
    \<and> next_stream w' = next_stream w \<and> live_blocks w' = live_blocks w"
  using assms(3,4)
proof (induction bs arbitrary: w bytes)
  case Nil
  then show ?case by (auto simp: assemble_def stream_on_def)
next
  case (Cons b bs)
  obtain off data where b: "b = (off, data)" by (cases b)
  with Cons.prems have sizes: "unat off < 2 ^ 31" "length data < 2 ^ 31" and bs: "blocks_ok bs"
    by (auto simp: blocks_ok_def)
  from WriteBlock_ok [OF assms(1) Cons.prems(1) assms(2) sizes] obtain w1 where
    w1: "otaPal_WriteBlock env (Some c) off data (of_nat (length data)) w =
        Some (of_nat (length data), w1)"
      "stream_on w1 h path (write_at bytes (unat off) data)"
      "files w1 = (files w)(path := Some (write_at bytes (unat off) data))"
      "next_stream w1 = next_stream w" "live_blocks w1 = live_blocks w" by blast
  from Cons.IH [OF w1(2) bs] obtain w2 where
    w2: "write_blocks env (Some c) bs w1 = Some w2"
      "stream_on w2 h path (assemble (write_at bytes (unat off) data) bs)"
      "files w2 = (files w1)(path := Some (assemble (write_at bytes (unat off) data) bs))"
      "next_stream w2 = next_stream w1" "live_blocks w2 = live_blocks w1" by blast
  have "assemble (write_at bytes (unat off) data) bs = assemble bytes (b # bs)"
    by (simp add: assemble_def b)
  with w1 w2 show ?case by (intro exI [of _ w2]) (simp add: b)
qed

text \<open>The verification loop hands over the rest of the file.\<close>

lemma verify_loop_ok:
  assumes "no_faults env" and "streams w h = Some st" and "files w (s_path st) = Some bytes"
  shows "\<exists>chunks w' st'. verify_loop env h ctx w =
      Some (foldl (CRYPTO_SignatureVerificationUpdate (crypto env)) ctx chunks, w')
    \<and> concat chunks = drop (s_pos st) bytes \<and> files w' = files w
    \<and> streams w' = (streams w)(h := Some st') \<and> s_path st' = s_path st
    \<and> next_stream w' = next_stream w \<and> live_blocks w' = live_blocks w"
  using assms
proof (induction env h ctx w arbitrary: st rule: verify_loop.induct)
  case (1 env h ctx w)
  define buf where "buf = take OTA_PAL_WIN_BUF_SIZE (drop (s_pos st) bytes)"
  define st1 where "st1 = st\<lparr>s_pos := s_pos st + length buf\<rparr>"
  define w1 where "w1 = (tick_io w)\<lparr>streams := (streams w)(h := Some st1)\<rparr>"
  have rd: "fread env h OTA_PAL_WIN_BUF_SIZE w = Some (buf, w1)"
    using "1.prems" by (simp add: fread_def after_io_def Let_def buf_def st1_def w1_def)
  have w1: "streams w1 = (streams w)(h := Some st1)" "files w1 = files w"
    "next_stream w1 = next_stream w" "live_blocks w1 = live_blocks w" "s_path st1 = s_path st"
    by (simp_all add: w1_def st1_def)
  let ?ctx = "CRYPTO_SignatureVerificationUpdate (crypto env) ctx buf"
  show ?case
  proof (cases "buf = []")
    case True
    then have "drop (s_pos st) bytes = []"
      by (simp add: OTA_PAL_WIN_BUF_SIZE_def buf_def)
    with True rd w1 show ?thesis
      by (intro exI [of _ "[buf]"] exI [of _ w1] exI [of _ st1])
         (simp add: verify_loop.simps [of env h ctx w])
  next
    case False
    have "streams w1 h = Some st1" "files w1 (s_path st1) = Some bytes"
      using w1 "1.prems" by simp_all
    from "1.IH" [OF rd refl refl False "1.prems"(1) this] obtain chunks w' st' where
      ih: "verify_loop env h ?ctx w1 =
          Some (foldl (CRYPTO_SignatureVerificationUpdate (crypto env)) ?ctx chunks, w')"
        "concat chunks = drop (s_pos st1) bytes" "files w' = files w1"
        "streams w' = (streams w1)(h := Some st')" "s_path st' = s_path st1"
        "next_stream w' = next_stream w1" "live_blocks w' = live_blocks w1" by blast
    have "buf @ drop (s_pos st1) bytes = drop (s_pos st) bytes"
      by (simp add: st1_def buf_def min_def) (metis append_take_drop_id drop_drop add.commute)
    with ih rd False w1 show ?thesis
      by (intro exI [of _ "buf # chunks"] exI [of _ w'] exI [of _ st'])
         (simp add: verify_loop.simps [of env h ctx w])
  qed
qed

text \<open>The certificate the image is checked with.\<close>

definition signer_cert :: "('h1, 'h2, 'crt) pal_env \<Rightarrow> c_world \<Rightarrow> string \<Rightarrow> u8 list" where
  "signer_cert env w path =
     (case files w path of
        Some bytes \<Rightarrow> bytes @ [0]
      | None \<Rightarrow> signingcredentialSIGNING_CERTIFICATE_PEM env)"

definition allocations_succeed :: "'x c_env_scheme \<Rightarrow> bool" where
  "allocations_succeed env \<longleftrightarrow> (\<forall>n. \<not> malloc_fails env n)"

lemma pvPortMalloc_ok:
  "allocations_succeed env \<Longrightarrow> pvPortMalloc env w =
     (True, w\<lparr>malloc_calls := malloc_calls w + 1, live_blocks := live_blocks w + 1\<rparr>)"
  by (simp add: pvPortMalloc_def allocations_succeed_def Let_def)

lemma of_nat_not_max: "n < 2 ^ 31 \<Longrightarrow> (of_nat n :: u32) \<noteq> -1"
proof
  assume n: "n < 2 ^ 31" and "(of_nat n :: u32) = -1"
  then have "unat (of_nat n :: u32) = unat (-1 :: u32)" by simp
  with n show False by (simp add: unat_of_nat32 unsigned_minus_1_eq_mask mask_eq_exp_minus_1)
qed

lemma ReadCertificate_ok:
  assumes "no_faults env" and "allocations_succeed env"
    and "\<And>bytes. files w path = Some bytes \<Longrightarrow> length bytes < 2 ^ 31"
  shows "\<exists>w'. otaPal_ReadAndAssumeCertificate env (Some path) w = Some (Some (signer_cert env w path), w')
    \<and> files w' = files w \<and> (\<forall>h < next_stream w. streams w' h = streams w h)
    \<and> next_stream w \<le> next_stream w' \<and> live_blocks w' = live_blocks w + 1"
proof (cases "files w path")
  case None
  with assms(1) have "fopen env path Mode_rb w = (None, fail_io (ENOENT env) w)"
    by (simp add: fopen_def)
  with None assms(2) show ?thesis
    by (simp add: otaPal_ReadAndAssumeCertificate_def pvPortMalloc_ok signer_cert_def)
next
  case (Some bytes)
  let ?h = "next_stream w"
  have len: "length bytes < 2 ^ 31" by (rule assms(3) [OF Some])
  define at where "at p w = w\<lparr>streams := (streams w)(?h := Some \<lparr>s_path = path, s_pos = p\<rparr>)\<rparr>"
    for p and w :: c_world
  have at: "streams (at p v) ?h = Some \<lparr>s_path = path, s_pos = p\<rparr>" "files (at p v) = files v"
    "next_stream (at p v) = next_stream v" "live_blocks (at p v) = live_blocks v"
    "io_calls (at p v) = io_calls v" "\<And>h. h \<noteq> ?h \<Longrightarrow> streams (at p v) h = streams v h" for p v
    by (simp_all add: at_def)
  have pf: "(files w)(path := Some bytes) = files w" using Some by auto
  obtain w1 where w1: "fopen env path Mode_rb w = (Some ?h, w1)"
    "streams w1 = (streams w)(?h := Some \<lparr>s_path = path, s_pos = 0\<rparr>)" "files w1 = files w"
    "next_stream w1 = ?h + 1" "live_blocks w1 = live_blocks w"
    using assms(1) Some pf by (simp add: fopen_def open_stream_def)
  have step: "fseek env ?h 0 SEEK_END v = Some (0, at (length bytes) (tick_io v))"
    "fseek env ?h 0 SEEK_SET v = Some (0, at 0 (tick_io v))"
    "ftell env ?h v = Some (of_nat p, tick_io v)"
    if "streams v ?h = Some \<lparr>s_path = path, s_pos = p\<rparr>" "files v = files w" for v p
    using that assms(1) Some by (simp_all add: fseek_def ftell_def at_def)
  have rd: "fread env ?h (unat (of_nat (length bytes) :: u32)) v = Some (bytes, at (length bytes) (tick_io v))"
    if "streams v ?h = Some \<lparr>s_path = path, s_pos = 0\<rparr>" "files v = files w" for v
    using that assms(1) Some len by (simp add: fread_def at_def unat_of_nat32 after_io_def Let_def)
  have cl: "fclose env ?h v = Some (0, (tick_io v)\<lparr>streams := (streams v)(?h := None)\<rparr>)"
    if "streams v ?h = Some st" for v st
    using that assms(1) by (simp add: fclose_def after_io_def Let_def)
  define w2 where "w2 = at (length bytes) (tick_io w1)"
  define w4 where "w4 = at 0 (tick_io (tick_io w2))"
  define w5 where "w5 = w4\<lparr>malloc_calls := malloc_calls w4 + 1, live_blocks := live_blocks w4 + 1\<rparr>"
  define w6 where "w6 = at (length bytes) (tick_io w5)"
  note defs = w2_def w4_def w5_def w6_def
  have calls: "fseek env ?h 0 SEEK_END w1 = Some (0, w2)" "ftell env ?h w2 = Some (of_nat (length bytes), tick_io w2)"
    "fseek env ?h 0 SEEK_SET (tick_io w2) = Some (0, w4)" "pvPortMalloc env w4 = (True, w5)"
    "fread env ?h (unat (of_nat (length bytes) :: u32)) w5 = Some (bytes, w6)"
    "fclose env ?h w6 = Some (0, (tick_io w6)\<lparr>streams := (streams w6)(?h := None)\<rparr>)"
    using w1 step(1) [of w1 0] step(2) [of "tick_io w2" "length bytes"] step(3) [of w2 "length bytes"]
      rd [of w5] cl [of w6] assms(2)
    by (simp_all add: defs at pvPortMalloc_ok)
  have "otaPal_ReadAndAssumeCertificate env (Some path) w =
      Some (Some (bytes @ [0]), (tick_io w6)\<lparr>streams := (streams w6)(?h := None)\<rparr>)"
    using w1(1) calls of_nat_not_max [OF len] len
    by (simp add: otaPal_ReadAndAssumeCertificate_def unat_of_nat32)
  moreover have "files w6 = files w" "next_stream w6 = next_stream w + 1"
    "live_blocks w6 = live_blocks w + 1" "\<forall>h < ?h. streams w6 h = streams w h"
    using w1 by (simp_all add: defs at)
  ultimately show ?thesis by (simp add: signer_cert_def Some)
qed

text \<open>The check is exact: it accepts the file when its contents carry the signature.\<close>

lemma CheckFileSignature_ok:
  assumes env: "no_faults env" "allocations_succeed env" "streaming_hash (crypto env)"
    and on: "stream_on w h path bytes"
    and c: "pFile c = Some h" "pSignature c = Some sig" "pCertFilepath c = Some cp"
    and cert: "\<And>b. files w cp = Some b \<Longrightarrow> length b < 2 ^ 31"
  shows "\<exists>w'. otaPal_CheckFileSignature env (Some c) w =
      Some (if image_verified (crypto env) (signer_cert env w cp) bytes sig
            then OtaPalSuccess else OtaPalSignatureCheckFailed, w')
    \<and> stream_on w' h path bytes \<and> files w' = files w \<and> live_blocks w' = live_blocks w"
proof -
  let ?ctx = "sha256_context (ctx_block env) (crypto env)"
  from on obtain st where st: "streams w h = Some st" "s_path st = path"
    "files w path = Some bytes" "h < next_stream w" by (auto simp: stream_on_def)
  define w1 where "w1 = w\<lparr>malloc_calls := malloc_calls w + 1, live_blocks := live_blocks w + 1\<rparr>"
  have w1: "CRYPTO_SignatureVerificationStart env (crypto env) (ctx_block env)
      cryptoASYMMETRIC_ALGORITHM_ECDSA cryptoHASH_ALGORITHM_SHA256 w = (Some ?ctx, w1)"
    using env(2) by (simp add: Start_sha256 pvPortMalloc_ok w1_def)
  have sc: "signer_cert env w1 cp = signer_cert env w cp" by (simp add: signer_cert_def w1_def)
  obtain w2 where w2: "otaPal_ReadAndAssumeCertificate env (Some cp) w1 =
      Some (Some (signer_cert env w cp), w2)" "files w2 = files w" "streams w2 h = Some st"
    "h < next_stream w2" "live_blocks w2 = live_blocks w + 2"
    using ReadCertificate_ok [OF env(1,2), of w1 cp] cert st
    unfolding sc by (auto simp: w1_def)
  define w3 where "w3 = w2\<lparr>malloc_calls := malloc_calls w2 + 1, live_blocks := live_blocks w2 + 1\<rparr>"
  have w3: "pvPortMalloc env w2 = (True, w3)" using env(2) by (simp add: pvPortMalloc_ok w3_def)
  define w4 where "w4 = (tick_io w3)\<lparr>streams := (streams w3)(h := Some (st\<lparr>s_pos := 0\<rparr>))\<rparr>"
  have w4: "fseek env h 0 SEEK_SET w3 = Some (0, w4)"
    using env(1) w2 st by (subst fseek_start [of env w3 h st bytes]) (simp_all add: w3_def w4_def)
  have "streams w4 h = Some (st\<lparr>s_pos := 0\<rparr>)" "files w4 (s_path (st\<lparr>s_pos := 0\<rparr>)) = Some bytes"
    using w2 st by (simp_all add: w4_def w3_def)
  from verify_loop_ok [OF env(1) this, of ?ctx] obtain chunks w5 st' where
    w5: "verify_loop env h ?ctx w4 =
        Some (foldl (CRYPTO_SignatureVerificationUpdate (crypto env)) ?ctx chunks, w5)"
      "concat chunks = bytes" "files w5 = files w4" "streams w5 h = Some st'" "s_path st' = path"
      "next_stream w5 = next_stream w4" "live_blocks w5 = live_blocks w4"
    using st(2) by auto
  have verdict: "final_result (crypto env)
      (foldl (CRYPTO_SignatureVerificationUpdate (crypto env)) ?ctx chunks)
      (Some (signer_cert env w cp)) (Some sig)
    \<longleftrightarrow> image_verified (crypto env) (signer_cert env w cp) bytes sig"
    using sha256.final_chunks [OF env(3)] w5(2) by simp
  have run: "otaPal_CheckFileSignature env (Some c) w =
      Some (if image_verified (crypto env) (signer_cert env w cp) bytes sig
            then OtaPalSuccess else OtaPalSignatureCheckFailed, vPortFree (vPortFree (vPortFree w5)))"
    using c w1 w2(1) w3 w4 w5(1) verdict
    by (simp add: otaPal_CheckFileSignature_def prvContextValidate_def
        CRYPTO_SignatureVerificationFinal_def)
  have "live_blocks w5 = live_blocks w + 3" using w5(7) w2(5) by (simp add: w4_def w3_def)
  then show ?thesis
    using run w5 w2 st
    by (intro exI [of _ "vPortFree (vPortFree (vPortFree w5))"])
       (simp add: vPortFree_def stream_on_def w4_def w3_def)
qed

lemma SetState_ok:
  assumes "no_faults env" and "eState \<noteq> OtaImageStateUnknown env" and "sint eState \<le> sint (OtaLastImageState env)"
  shows "\<exists>w'. otaPal_SetPlatformImageState env eState w = Some (OTA_PAL_COMBINE_ERR env OtaPalSuccess 0, w')
    \<and> files w' = (files w)(image_state_file := Some (state_bytes eState))
    \<and> live_blocks w' = live_blocks w"
proof -
  have "write_at [] 0 (state_bytes eState) = state_bytes eState"
    by (simp add: write_at_def)
  moreover have "length (state_bytes eState) = 4" by (simp add: state_bytes_def)
  ultimately show ?thesis
    using assms by (simp add: otaPal_SetPlatformImageState_def fopen_def open_stream_def fwrite_def
        fclose_def after_io_def Let_def)
qed

lemma state_bytes_inverse [simp]: "bytes_state (state_bytes v) = v"
proof (rule bit_word_eqI)
  fix n
  assume "n < LENGTH(32)"
  then have "n < 8 \<or> (8 \<le> n \<and> n < 16) \<or> (16 \<le> n \<and> n < 24) \<or> (24 \<le> n \<and> n < 32)" by auto
  then show "bit (bytes_state (state_bytes v)) n = bit v n"
    by (auto simp: bytes_state_def state_bytes_def bit_simps)
qed

text \<open>What the agent is told about an image in the state \<open>v\<close>.\<close>

definition pal_state :: "('h1, 'h2, 'crt) pal_env \<Rightarrow> u32 \<Rightarrow> u32" where
  "pal_state env v =
     (if v = OtaImageStateTesting env then OtaPalImageStatePendingCommit env
      else if v = OtaImageStateAccepted env then OtaPalImageStateValid env
      else OtaPalImageStateInvalid env)"

lemma GetState_ok:
  assumes "no_faults env" and "files w image_state_file = Some (state_bytes v)"
  shows "\<exists>w'. otaPal_GetPlatformImageState env w = Some (pal_state env v, w')
    \<and> files w' = files w"
proof -
  have "length (state_bytes v) = 4" by (simp add: state_bytes_def)
  then have "(files w)(image_state_file := Some (state_bytes v)) = files w"
    "take 4 (state_bytes v) = state_bytes v"
    using assms(2) by (auto simp: fun_eq_iff)
  with assms \<open>length _ = 4\<close> show ?thesis
    by (simp add: otaPal_GetPlatformImageState_def fopen_def open_stream_def fread_def fclose_def
        after_io_def Let_def pal_state_def)
qed

lemma CloseFile_ok:
  assumes env: "no_faults env" "allocations_succeed env" "streaming_hash (crypto env)"
    and on: "stream_on w h path bytes"
    and c: "pFile c = Some h" "pSignature c = Some sig" "pCertFilepath c = Some cp"
    and cert: "\<And>b. files w cp = Some b \<Longrightarrow> length b < 2 ^ 31"
    and ab: "OtaImageStateAborted env \<noteq> OtaImageStateUnknown env"
      "sint (OtaImageStateAborted env) \<le> sint (OtaLastImageState env)"
  shows "\<exists>w'. otaPal_CloseFile env (Some c) w =
      Some (OTA_PAL_COMBINE_ERR env
              (if image_verified (crypto env) (signer_cert env w cp) bytes sig
               then OtaPalSuccess else OtaPalSignatureCheckFailed) 0, Some (c\<lparr>pFile := None\<rparr>), w')
    \<and> files w' = (if image_verified (crypto env) (signer_cert env w cp) bytes sig then files w
        else (files w)(image_state_file := Some (state_bytes (OtaImageStateAborted env))))
    \<and> live_blocks w' = live_blocks w"
proof -
  let ?ok = "image_verified (crypto env) (signer_cert env w cp) bytes sig"
  from CheckFileSignature_ok [OF env on c cert] obtain w1 where
    w1: "otaPal_CheckFileSignature env (Some c) w =
        Some (if ?ok then OtaPalSuccess else OtaPalSignatureCheckFailed, w1)"
      "stream_on w1 h path bytes" "files w1 = files w" "live_blocks w1 = live_blocks w" by blast
  define w2 where "w2 = (tick_io w1)\<lparr>streams := (streams w1)(h := None)\<rparr>"
  have w2: "fclose env h w1 = Some (0, w2)" "files w2 = files w" "live_blocks w2 = live_blocks w"
    using w1 env(1) by (auto simp: fclose_def stream_on_def after_io_def Let_def w2_def)
  obtain w3 where w3: "otaPal_SetPlatformImageState env (OtaImageStateAborted env) w2 =
      Some (OTA_PAL_COMBINE_ERR env OtaPalSuccess 0, w3)"
    "files w3 = (files w)(image_state_file := Some (state_bytes (OtaImageStateAborted env)))"
    "live_blocks w3 = live_blocks w"
    using SetState_ok [OF env(1) ab, of w2] w2 by auto
  show ?thesis
  proof (cases ?ok)
    case True
    with w1 w2 c show ?thesis
      by (simp add: otaPal_CloseFile_def prvContextValidate_def Let_def)
  next
    case False
    with w1 w2 w3 c show ?thesis
      by (simp add: otaPal_CloseFile_def prvContextValidate_def Let_def)
  qed
qed

section \<open>Properties\<close>

text \<open>
  Concrete inputs: a digest that is the start of the data, a key that accepts it as its own
  signature, and a library in which exactly the calls in \<open>failing\<close> fail.
\<close>

definition demo_crypto :: "(unit, u8 list, unit) crypto_api" where
  "demo_crypto = \<lparr>sha1_starts = (), sha1_update = (\<lambda>h bs. h), sha1_finish = (\<lambda>h. []),
     sha256_starts = [], sha256_update = (\<lambda>h bs. h @ bs), sha256_finish = (\<lambda>h. h),
     x509_crt_parse = (\<lambda>cert. (0, ())), pk_verify = (\<lambda>crt md hash sig. if hash = sig then 0 else 1)\<rparr>"

definition demo_pal_env :: "nat list \<Rightarrow> (unit, u8 list, unit) pal_env" where
  "demo_pal_env failing = \<lparr>io_fault = (\<lambda>n. if n \<in> set failing then Some (5, 1) else None),
     malloc_fails = (\<lambda>n. False), ENOENT = 2, EINVAL = 22, crypto = demo_crypto,
     ctx_block = \<lparr>xAsymmetricAlgorithm = 0, xHashAlgorithm = 0, xSHA1Context = (), xSHA256Context = []\<rparr>,
     OTA_PAL_COMBINE_ERR = (\<lambda>m e. (if m = OtaPalSuccess then 0 else 0x1000000) OR e),
     OTA_PAL_ERR_MASK = 0xffffff, OtaImageStateUnknown = 0, OtaImageStateTesting = 1,
     OtaImageStateAccepted = 2, OtaImageStateRejected = 3, OtaImageStateAborted = 4,
     OtaLastImageState = 4, OtaPalImageStateUnknown = 0, OtaPalImageStatePendingCommit = 1,
     OtaPalImageStateValid = 2, OtaPalImageStateInvalid = 3,
     signingcredentialSIGNING_CERTIFICATE_PEM = [80, 69, 77, 0]\<rparr>"

definition demo_file :: OtaFileContext where
  "demo_file = \<lparr>pFilePath = Some ''image.bin'', pFile = None, pSignature = Some [1, 2, 3],
     pCertFilepath = Some ''cert.pem''\<rparr>"

definition demo_world :: c_world where
  "demo_world = \<lparr>files = (\<lambda>p. None), streams = (\<lambda>h. None), next_stream = 1, errno = 0,
     io_calls = 0, live_blocks = 0, malloc_calls = 0\<rparr>"

text \<open>The same with the image open as stream 0.\<close>

definition demo_open :: c_world where
  "demo_open = demo_world\<lparr>files := (\<lambda>p. None)(''image.bin'' := Some [9, 9]),
     streams := (\<lambda>h. None)(0 := Some \<lparr>s_path = ''image.bin'', s_pos = 0\<rparr>)\<rparr>"

lemma demo_pal [simp]:
  "allocations_succeed (demo_pal_env fs)" "streaming_hash (crypto (demo_pal_env fs))"
  "no_faults (demo_pal_env [])" "stream_on demo_open 0 ''image.bin'' [9, 9]"
  by (simp_all add: demo_pal_env_def demo_crypto_def allocations_succeed_def streaming_hash_def
      no_faults_def stream_on_def demo_open_def demo_world_def)

text \<open>
  C2. A whole OTA transfer.  When no library call fails, the blocks that are received, in
  whatever order and however often, end up in the file at their offsets, and closing it reports
  success exactly when the complete assembled image carries the job's signature; otherwise the
  image state on the disk is aborted.  Every block of memory is given back.
\<close>

theorem ota_session_verifies:
  assumes "no_faults env" "allocations_succeed env" "streaming_hash (crypto env)"
    and "pFilePath c = Some path" "pSignature c = Some sig" "pCertFilepath c = Some cp" "cp \<noteq> path"
    and "\<And>b. files w cp = Some b \<Longrightarrow> length b < 2 ^ 31" and "blocks_ok bs"
    and "OtaImageStateAborted env \<noteq> OtaImageStateUnknown env"
    and "sint (OtaImageStateAborted env) \<le> sint (OtaLastImageState env)"
  shows "\<exists>h w1 w2 w3.
    let received = assemble [] bs;
        ok = image_verified (crypto env) (signer_cert env w cp) received sig;
        C = Some (c\<lparr>pFile := Some h\<rparr>)
    in otaPal_CreateFileForRx env (Some c) w = (OTA_PAL_COMBINE_ERR env OtaPalSuccess 0, C, w1)
       \<and> write_blocks env C bs w1 = Some w2
       \<and> otaPal_CloseFile env C w2 =
           Some (OTA_PAL_COMBINE_ERR env (if ok then OtaPalSuccess else OtaPalSignatureCheckFailed) 0,
                 Some (c\<lparr>pFile := None\<rparr>), w3)
       \<and> files w3 = (if ok then (files w)(path := Some received)
            else (files w)(path := Some received,
                           image_state_file := Some (state_bytes (OtaImageStateAborted env))))
       \<and> live_blocks w3 = live_blocks w"
proof -
  let ?h = "next_stream w" and ?c = "c\<lparr>pFile := Some (next_stream w)\<rparr>"
  obtain w1 where w1: "otaPal_CreateFileForRx env (Some c) w =
      (OTA_PAL_COMBINE_ERR env OtaPalSuccess 0, Some ?c, w1)"
    "stream_on w1 ?h path []" "files w1 = (files w)(path := Some [])" "live_blocks w1 = live_blocks w"
    using assms(1,4) by (simp add: otaPal_CreateFileForRx_def fopen_def open_stream_def stream_on_def)
  from write_blocks_ok [OF assms(1) _ w1(2) assms(9), of ?c] obtain w2 where
    w2: "write_blocks env (Some ?c) bs w1 = Some w2" "stream_on w2 ?h path (assemble [] bs)"
      "files w2 = (files w)(path := Some (assemble [] bs))" "live_blocks w2 = live_blocks w"
    using w1 by auto
  have cp: "files w2 cp = files w cp" using w2(3) assms(7) by simp
  then have "signer_cert env w2 cp = signer_cert env w cp" by (simp add: signer_cert_def)
  with CloseFile_ok [OF assms(1-3) w2(2), of ?c sig cp] assms(5,6,8,10,11) cp obtain w3 where
    "otaPal_CloseFile env (Some ?c) w2 =
      Some (OTA_PAL_COMBINE_ERR env
              (if image_verified (crypto env) (signer_cert env w cp) (assemble [] bs) sig
               then OtaPalSuccess else OtaPalSignatureCheckFailed) 0, Some (c\<lparr>pFile := None\<rparr>), w3)"
    "files w3 = (if image_verified (crypto env) (signer_cert env w cp) (assemble [] bs) sig
        then files w2
        else (files w2)(image_state_file := Some (state_bytes (OtaImageStateAborted env))))"
    "live_blocks w3 = live_blocks w2" by auto
  with w1 w2 show ?thesis
    by (intro exI [of _ ?h] exI [of _ w1] exI [of _ w2] exI [of _ w3]) (simp add: Let_def)
qed

theorem ota_session_verifies_witness:
  "\<exists>h w1 w2 w3.
    let C = Some (demo_file\<lparr>pFile := Some h\<rparr>)
    in otaPal_CreateFileForRx (demo_pal_env []) (Some demo_file) demo_world = (0, C, w1)
       \<and> write_blocks (demo_pal_env []) C [(1, [2, 3]), (0, [1])] w1 = Some w2
       \<and> otaPal_CloseFile (demo_pal_env []) C w2 = Some (0, Some demo_file, w3)
       \<and> files w3 ''image.bin'' = Some [1, 2, 3]"
proof -
  let ?env = "demo_pal_env []" and ?bs = "[(1, [2, 3]), (0, [1])] :: (u32 \<times> u8 list) list"
  have img: "assemble [] ?bs = [1, 2, 3]" by (simp add: assemble_def write_at_def)
  have ok: "image_verified (crypto ?env) (signer_cert ?env demo_world ''cert.pem'') [1, 2, 3] [1, 2, 3]"
    by (simp add: image_verified_def signer_cert_def demo_pal_env_def demo_crypto_def demo_world_def
        cryptoSHA256_DIGEST_BYTES_def)
  have comb: "OTA_PAL_COMBINE_ERR ?env OtaPalSuccess 0 = 0" by (simp add: demo_pal_env_def)
  have "demo_file\<lparr>pFile := None\<rparr> = demo_file" by (simp add: demo_file_def)
  moreover have "blocks_ok ?bs" by (simp add: blocks_ok_def)
  moreover have "\<And>b. files demo_world ''cert.pem'' = Some b \<Longrightarrow> length b < 2 ^ 31"
    by (simp add: demo_world_def)
  ultimately show ?thesis
    using ota_session_verifies [of ?env demo_file "''image.bin''" "[1, 2, 3]" "''cert.pem''" demo_world ?bs]
    by (simp add: img ok comb Let_def)
       (fastforce simp: demo_file_def demo_pal_env_def)
qed

text \<open>
  C29. The image state survives a restart: a state that the agent stores is read back as pending
  commit when it was testing, as valid when it was accepted, and as invalid otherwise; storing
  the unknown state, or one past the last, is refused and changes nothing.
\<close>

theorem image_state_roundtrip:
  assumes "no_faults env"
  shows "if eState \<noteq> OtaImageStateUnknown env \<and> sint eState \<le> sint (OtaLastImageState env)
    then \<exists>w1 w2. otaPal_SetPlatformImageState env eState w =
             Some (OTA_PAL_COMBINE_ERR env OtaPalSuccess 0, w1)
           \<and> otaPal_GetPlatformImageState env w1 = Some (pal_state env eState, w2)
    else otaPal_SetPlatformImageState env eState w =
             Some (OTA_PAL_COMBINE_ERR env OtaPalBadImageState 0, w)"
proof (cases "eState \<noteq> OtaImageStateUnknown env \<and> sint eState \<le> sint (OtaLastImageState env)")
  case True
  then obtain w1 where w1: "otaPal_SetPlatformImageState env eState w =
      Some (OTA_PAL_COMBINE_ERR env OtaPalSuccess 0, w1)"
    "files w1 image_state_file = Some (state_bytes eState)"
    using SetState_ok [OF assms, of eState w] by auto
  with GetState_ok [OF assms, of w1 eState] True show ?thesis by auto
next
  case False
  then show ?thesis by (auto simp: otaPal_SetPlatformImageState_def)
qed

theorem image_state_roundtrip_witness:
  "\<exists>w1 w2. otaPal_SetPlatformImageState (demo_pal_env []) 1 demo_world = Some (0, w1)
     \<and> otaPal_GetPlatformImageState (demo_pal_env []) w1 = Some (1, w2)"
  using image_state_roundtrip [of "demo_pal_env []" 1 demo_world]
  by (simp add: demo_pal_env_def no_faults_def pal_state_def)

text \<open>
  C37. The signature check can be skipped.  When rewinding the received file fails, the check is
  never made, yet its result stays at success: closing the file accepts the image whatever the
  verification would say, and the verification context is never freed.
\<close>

theorem failed_rewind_accepts_image:
  assumes "allocations_succeed env" and "stream_on w h path bytes"
    and "pFile c = Some h" "pSignature c = Some sig" "pCertFilepath c = Some cp"
    and "files w cp = None"
    and "io_fault env (io_calls w) = None" "io_fault env (io_calls w + 1) = Some (e, k)"
    and "io_fault env (io_calls w + 2) = None"
  shows "\<exists>w'. otaPal_CloseFile env (Some c) w =
      Some (OTA_PAL_COMBINE_ERR env OtaPalSuccess 0, Some (c\<lparr>pFile := None\<rparr>), w')
    \<and> live_blocks w' = live_blocks w + 1"
proof -
  from assms(2) obtain st where st: "streams w h = Some st" "files w (s_path st) = Some bytes"
    by (auto simp: stream_on_def)
  with assms show ?thesis
    by (simp add: otaPal_CloseFile_def otaPal_CheckFileSignature_def prvContextValidate_def
        Start_sha256 pvPortMalloc_ok otaPal_ReadAndAssumeCertificate_def fopen_def fseek_def
        fclose_def vPortFree_def Let_def after_io_def)
qed

theorem failed_rewind_accepts_image_witness:
  "\<exists>w'. otaPal_CloseFile (demo_pal_env [1]) (Some (demo_file\<lparr>pFile := Some 0\<rparr>)) demo_open =
       Some (0, Some demo_file, w') \<and> live_blocks w' = 1
     \<and> \<not> image_verified demo_crypto [80, 69, 77, 0] [9, 9] [1, 2, 3]"
proof -
  have "\<not> image_verified demo_crypto [80, 69, 77, 0] [9, 9] [1, 2, 3]"
    by (simp add: image_verified_def demo_crypto_def cryptoSHA256_DIGEST_BYTES_def)
  moreover have "demo_file\<lparr>pFile := None\<rparr> = demo_file" by (simp add: demo_file_def)
  moreover have "io_calls demo_open = 0" "live_blocks demo_open = 0" "files demo_open ''cert.pem'' = None"
    by (simp_all add: demo_open_def demo_world_def)
  moreover have "io_fault (demo_pal_env [1]) 0 = None" "io_fault (demo_pal_env [1]) 1 = Some (5, 1)"
    "io_fault (demo_pal_env [1]) (Suc (Suc 0)) = None" "OTA_PAL_COMBINE_ERR (demo_pal_env [1]) OtaPalSuccess 0 = 0"
    by (simp_all add: demo_pal_env_def)
  ultimately show ?thesis
    using failed_rewind_accepts_image [of "demo_pal_env [1]" demo_open 0 "''image.bin''" "[9, 9]"
        "demo_file\<lparr>pFile := Some 0\<rparr>" "[1, 2, 3]" "''cert.pem''" 5 1]
    by (simp add: demo_file_def)
qed

text \<open>
  A failing write goes unnoticed.  For a block of less than 32768 bytes the result is
  negative exactly when the position cannot be set: a write that stores only some of the bytes,
  or none, returns their number, never an error.
\<close>

theorem WriteBlock_error_iff:
  assumes "stream_on w h path bytes" and "pFile c = Some h"
    and "unat sz < 2 ^ 15" and "unat sz \<le> length data"
  shows "\<exists>r w'. otaPal_WriteBlock env (Some c) off data sz w = Some (r, w')
    \<and> (if io_fault env (io_calls w) \<noteq> None \<or> sint off < 0 then sint r < 0
       else sint r = int (length (moved (io_fault env (io_calls w + 1)) (take (unat sz) data))))"
proof -
  from assms(1) obtain st where st: "streams w h = Some st" "files w (s_path st) = Some bytes"
    by (auto simp: stream_on_def)
  have neg: "sint (ucast (OTA_PAL_INT16_NEGATIVE_MASK OR e) :: u16) < 0" for e
    unfolding bit_last_iff [symmetric]
    by (simp add: OTA_PAL_INT16_NEGATIVE_MASK_def bit_simps)
  show ?thesis
  proof (cases "io_fault env (io_calls w) \<noteq> None \<or> sint off < 0")
    case True
    with assms st neg show ?thesis
      by (cases "io_fault env (io_calls w)")
         (auto simp: otaPal_WriteBlock_def prvContextValidate_def fseek_def)
  next
    case False
    let ?put = "moved (io_fault env (io_calls w + 1)) (take (unat sz) data)"
    have n: "length ?put < 2 ^ 15"
      using length_moved [of "io_fault env (io_calls w + 1)" "take (unat sz) data"] assms(3) by simp
    have pos: "\<not> sint (of_nat (length ?put) :: u32) < 0"
      using n by (simp add: sint_small unat_of_nat32)
    have u: "ucast (of_nat (length ?put) :: u32) = (of_nat (length ?put) :: u16)"
      using n by (simp add: unsigned_of_nat take_bit_nat_eq_self)
    have "unat (of_nat (length ?put) :: u16) = length ?put"
      using n by (simp add: unat_of_nat take_bit_nat_eq_self)
    then have val: "sint (of_nat (length ?put) :: u16) = int (length ?put)"
      using n by (simp add: sint_small16)
    have "io_fault env (io_calls w) = None" "\<not> sint off < 0" using False by blast+
    with assms st pos u val show ?thesis
      by (simp add: otaPal_WriteBlock_def prvContextValidate_def fseek_def fwrite_def Let_def)
  qed
qed

theorem WriteBlock_error_iff_witness:
  "\<exists>r w'. otaPal_WriteBlock (demo_pal_env [1]) (Some (demo_file\<lparr>pFile := Some 0\<rparr>)) 0 [7, 8, 9] 3
       demo_open = Some (r, w') \<and> sint r = 1"
proof -
  have "stream_on demo_open 0 ''image.bin'' [9, 9]" "io_calls demo_open = 0"
    by (simp, simp add: demo_open_def demo_world_def)
  with WriteBlock_error_iff [of demo_open 0 "''image.bin''" "[9, 9]" "demo_file\<lparr>pFile := Some 0\<rparr>"
      3 "[7, 8, 9]" "demo_pal_env [1]" 0]
  show ?thesis by (simp add: demo_pal_env_def moved_def)
qed

end
