(* ===== verification/Agent_Client.thy ===== *)
theory Agent_Client
  imports Subscription_Manager Network_Calls
begin

text \<open>
  What the demo tasks share: the direct-to-task notifications of the kernel, the coreJSON
  library, and the contract of a callback that recognises the response to the task's own
  request by its token.

  Kernel and libraries are submodules, so their operations are records of functions.
\<close>

section \<open>Notifications\<close>

text \<open>
  \<open>'n\<close> is the notification of one task.  \<open>ulTaskNotifyTake\<close> stands for
  \<open>ulTaskNotifyTake (pdFALSE, ..)\<close>, at the end of its wait: 0 after a timeout.
\<close>

record 'n notify_api =
  xTaskNotifyGive :: "'n \<Rightarrow> 'n"
  ulTaskNotifyTake :: "'n \<Rightarrow> u32 \<times> 'n"
  xTaskNotifyStateClear :: "'n \<Rightarrow> 'n"

text \<open>
  The documented behaviour: a give adds one to the value, a take returns the value and
  decrements it, and clearing the state leaves the value alone.
\<close>

definition counting :: "'n notify_api \<Rightarrow> ('n \<Rightarrow> nat) \<Rightarrow> bool" where
  "counting api pending \<longleftrightarrow>
     (\<forall>n. pending (xTaskNotifyGive api n) = pending n + 1)
     \<and> (\<forall>n. fst (ulTaskNotifyTake api n) = 0 \<longleftrightarrow> pending n = 0)
     \<and> (\<forall>n. pending (snd (ulTaskNotifyTake api n)) = pending n - 1)
     \<and> (\<forall>n. pending (xTaskNotifyStateClear api n) = pending n)"

lemma counting_take:
  assumes "counting api pending"
  obtains v n' where "ulTaskNotifyTake api n = (v, n')" "v = 0 \<longleftrightarrow> pending n = 0"
    "pending n' = pending n - 1"
  using assms that by (cases "ulTaskNotifyTake api n") (metis counting_def fst_conv snd_conv)

lemma counting_give: "counting api pending \<Longrightarrow> pending (xTaskNotifyGive api n) = pending n + 1"
  by (simp add: counting_def)

text \<open>
  The other use of the notification: \<open>xTaskNotify (.., v, eSetValueWithOverwrite)\<close>, and
  \<open>xTaskNotifyWait (0, 0, &v, ..)\<close> at the end of its wait, which returns whether there was a
  notification and stores the value in \<open>v\<close>.
\<close>

record 'n value_api =
  xTaskNotify :: "u32 \<Rightarrow> 'n \<Rightarrow> 'n"
  xTaskNotifyWait :: "'n \<Rightarrow> (bool \<times> u32) \<times> 'n"
  val_xTaskNotifyStateClear :: "'n \<Rightarrow> 'n"

text \<open>
  The documented behaviour: a notification sets the value and is pending until it is waited for
  or cleared; the wait passes out the value whether or not a notification came.
\<close>

definition overwriting :: "'n value_api \<Rightarrow> ('n \<Rightarrow> bool) \<Rightarrow> ('n \<Rightarrow> u32) \<Rightarrow> bool" where
  "overwriting api pending val \<longleftrightarrow>
     (\<forall>v n. pending (xTaskNotify api v n) \<and> val (xTaskNotify api v n) = v)
     \<and> (\<forall>n. fst (xTaskNotifyWait api n) = (pending n, val n)
          \<and> \<not> pending (snd (xTaskNotifyWait api n)) \<and> val (snd (xTaskNotifyWait api n)) = val n)
     \<and> (\<forall>n. \<not> pending (val_xTaskNotifyStateClear api n) \<and> val (val_xTaskNotifyStateClear api n) = val n)"

lemma overwriting_wait:
  assumes "overwriting api pending val"
  obtains n' where "xTaskNotifyWait api n = ((pending n, val n), n')"
  using assms unfolding overwriting_def by (metis prod.collapse)

section \<open>Payloads\<close>

text \<open>The payload bytes that \<open>memcpy\<close> reads; with length 0 it reads none.\<close>

definition payload_bytes :: "MQTTPublishInfo \<Rightarrow> string option" where
  "payload_bytes p =
     (if payloadLength p = 0 then Some []
      else do { doc \<leftarrow> pPayload p; mem_read doc 0 (payloadLength p) })"

lemma payload_length: "payload_bytes p = Some bytes \<Longrightarrow> length bytes = payloadLength p"
  by (auto simp: payload_bytes_def mem_read_def split: if_splits)

section \<open>JSON\<close>

text \<open>
  \<open>JSON_Validate doc len\<close> is the result \<open>JSONSuccess\<close>; \<open>JSON_Search doc len key\<close> is the
  offset of the value it found.  \<open>doc\<close> is the buffer from the document on.
\<close>

record json_api =
  JSON_Validate :: "string \<Rightarrow> nat \<Rightarrow> bool"
  JSON_Search :: "string \<Rightarrow> nat \<Rightarrow> string \<Rightarrow> nat option"

text \<open>The number behind a key: \<open>strtoul\<close> from the place the search returns.\<close>

definition json_uint :: "json_api \<Rightarrow> string \<Rightarrow> nat \<Rightarrow> string \<Rightarrow> u32 option" where
  "json_uint json doc len key =
     map_option (\<lambda>off. strtoul10 (drop off doc)) (JSON_Search json doc len key)"

section \<open>Responses recognised by a token\<close>

text \<open>
  The response of a publish: the number in its \<open>clientToken\<close>, if it is a valid document that
  has one.
\<close>

definition response_token :: "json_api \<Rightarrow> MQTTPublishInfo \<Rightarrow> u32 option" where
  "response_token json p =
     (case pPayload p of
        None \<Rightarrow> None
      | Some doc \<Rightarrow> if JSON_Validate json doc (payloadLength p)
                    then json_uint json doc (payloadLength p) ''clientToken'' else None)"

text \<open>
  A handler of responses: \<open>respond\<close> is the callback, \<open>token\<close> the token of the request that
  is under way and \<open>notify\<close> the notification of the task.
\<close>

locale response_handler =
  fixes respond :: "'n notify_api \<Rightarrow> json_api \<Rightarrow> MQTTPublishInfo option \<Rightarrow> 's \<Rightarrow> 's option"
    and token :: "'s \<Rightarrow> u32"
    and notify :: "'s \<Rightarrow> 'n"
  assumes foreign: "pPayload p \<noteq> None \<Longrightarrow> response_token json p \<noteq> Some (token s) \<Longrightarrow>
      respond api json (Some p) s = Some s"
    and own: "response_token json p = Some (token s) \<Longrightarrow>
      \<exists>s'. respond api json (Some p) s = Some s' \<and> token s' = token s
         \<and> notify s' = xTaskNotifyGive api (notify s)"
begin

text \<open>Responses to others, in any number, change nothing.\<close>

fun respond_all :: "'n notify_api \<Rightarrow> json_api \<Rightarrow> MQTTPublishInfo list \<Rightarrow> 's \<Rightarrow> 's option" where
  "respond_all api json [] s = Some s"
| "respond_all api json (p # ps) s = Option.bind (respond api json (Some p) s) (respond_all api json ps)"

lemma foreign_responses:
  "\<forall>p \<in> set ps. pPayload p \<noteq> None \<and> response_token json p \<noteq> Some (token s) \<Longrightarrow>
   respond_all api json ps s = Some s"
  by (induction ps) (auto simp: foreign)

text \<open>The task is notified once for every response that carries its token, and only for those.\<close>

lemma notified_once_each:
  assumes "counting api pending" and "\<forall>p \<in> set ps. pPayload p \<noteq> None"
  shows "\<exists>s'. respond_all api json ps s = Some s' \<and> token s' = token s
    \<and> pending (notify s') = pending (notify s)
        + length (filter (\<lambda>p. response_token json p = Some (token s)) ps)"
  using assms(2)
proof (induction ps arbitrary: s)
  case (Cons p ps)
  show ?case
  proof (cases "response_token json p = Some (token s)")
    case True
    from own [OF this, of api] obtain s1 where
      s1: "respond api json (Some p) s = Some s1" "token s1 = token s"
        "notify s1 = xTaskNotifyGive api (notify s)" by blast
    have "pending (notify s1) = pending (notify s) + 1"
      using assms(1) s1(3) by (simp add: counting_def)
    with Cons.IH [of s1] Cons.prems s1 True show ?thesis by auto
  next
    case False
    with Cons.prems have "respond api json (Some p) s = Some s" by (intro foreign) auto
    with Cons.IH [of s] Cons.prems False show ?thesis by auto
  qed
qed simp

end

section \<open>Subscribing\<close>

text \<open>
  The callbacks that the tasks register for incoming publishes: of the shadow device task, the
  shadow update task, the defender task, the simple tasks and the large message task.
\<close>

datatype demo_callback =
    prvIncomingPublishUpdateDelta | prvIncomingPublishUpdateAccepted | prvIncomingPublishUpdateRejected
  | upd_IncomingPublishUpdateAccepted | upd_IncomingPublishUpdateRejected
  | prvIncomingAcceptedPublish | prvIncomingRejectedPublish
  | sp_prvIncomingPublish
  | large_prvIncomingPublish

text \<open>
  The loop that repeats \<open>MQTTAgent_Subscribe\<close> until the command is queued: \<open>queued i\<close> is
  whether attempt \<open>i\<close> is.  The result is the number of attempts; \<open>None\<close> when none succeeds.
\<close>

partial_function (option) subscribe_loop :: "(nat \<Rightarrow> bool) \<Rightarrow> nat \<Rightarrow> nat option" where
  "subscribe_loop queued i = (if queued i then Some (i + 1) else subscribe_loop queued (i + 1))"

lemma subscribe_loop_returns:
  "\<not> queued i \<Longrightarrow> subscribe_loop queued i = subscribe_loop queued (i + 1)"
  "queued i \<Longrightarrow> subscribe_loop queued i = Some (i + 1)"
  by (simp_all add: subscribe_loop.simps [of queued i])

lemma subscribe_loop_first:
  "queued (i + k) \<Longrightarrow> \<forall>j < k. \<not> queued (i + j) \<Longrightarrow> subscribe_loop queued i = Some (i + k + 1)"
proof (induction k arbitrary: i)
  case 0
  then show ?case by (simp add: subscribe_loop_returns)
next
  case (Suc k)
  have "subscribe_loop queued (i + 1) = Some (i + 1 + k + 1)"
    using Suc.prems by (intro Suc.IH) auto
  moreover have "\<not> queued i" using Suc.prems(2) by force
  ultimately show ?case by (simp add: subscribe_loop_returns)
qed

text \<open>
  Adding a list of subscriptions one after the other, up to the first that fails: what a
  completion callback of a subscribe command does.
\<close>

fun add_all ::
  "('cb, 'ctx) SubscriptionElement list option \<Rightarrow> (string \<times> 'cb \<times> 'ctx option) list
   \<Rightarrow> (bool \<times> ('cb, 'ctx) SubscriptionElement list option) option" where
  "add_all pl [] = Some (True, pl)"
| "add_all pl ((f, cb, ctx) # ks) = do {
     (ok, pl') \<leftarrow> addSubscription pl (Some f) (of_nat (length f)) (Some cb) ctx;
     if ok then add_all pl' ks else Some (False, pl')
   }"

definition topic_ok :: "string \<Rightarrow> bool" where
  "topic_ok f \<longleftrightarrow> f \<noteq> [] \<and> length f < 2 ^ 16 \<and> CHR 0x00 \<notin> set f"

lemma topic_ok_filter:
  assumes "topic_ok f"
  shows "filter_arg_ok f (of_nat (length f))" and "take (unat (of_nat (length f) :: u16)) f = f"
proof -
  have n: "unat (of_nat (length f) :: u16) = length f"
    using assms by (simp add: topic_ok_def unat_of_nat take_bit_nat_eq_self)
  then show "take (unat (of_nat (length f) :: u16)) f = f" by simp
  have "(of_nat (length f) :: u16) \<noteq> 0"
  proof
    assume "(of_nat (length f) :: u16) = 0"
    then have "length f = 0" using n by (metis unat_0)
    with assms show False by (simp add: topic_ok_def)
  qed
  with assms n show "filter_arg_ok f (of_nat (length f))"
    by (simp add: filter_arg_ok_def str_prefix_ok_def topic_ok_def)
qed

text \<open>
  The array stays well-formed, nothing that was stored is lost, only the listed subscriptions
  are added, and success means that all of them are stored.
\<close>

lemma add_all_contract:
  assumes "\<forall>(f, cb, ctx) \<in> set ks. topic_ok f" and "list_ok l"
  shows "\<exists>ok l'. add_all (Some l) ks = Some (ok, Some l') \<and> list_ok l'
    \<and> subs l \<subseteq> subs l' \<and> subs l' \<subseteq> subs l \<union> set ks \<and> (ok \<longrightarrow> set ks \<subseteq> subs l')
    \<and> (\<not> ok \<longrightarrow> (\<forall>e \<in> set l'. used e))"
  using assms
proof (induction ks arbitrary: l)
  case (Cons k ks)
  obtain f cb ctx where k: "k = (f, cb, ctx)" by (cases k)
  with Cons.prems have f: "topic_ok f" and ks: "\<forall>(f, cb, ctx) \<in> set ks. topic_ok f" by auto
  from addSubscription_contract [OF Cons.prems(2) topic_ok_filter(1) [OF f], of cb ctx]
  obtain ok l1 where add: "addSubscription (Some l) (Some f) (of_nat (length f)) (Some cb) ctx =
      Some (ok, Some l1)" "list_ok l1"
    "ok \<longrightarrow> subs l1 = insert (f, cb, ctx) (subs l)" "\<not> ok \<longrightarrow> l1 = l \<and> (\<forall>e \<in> set l. used e)"
    unfolding topic_ok_filter(2) [OF f] by blast
  show ?case
  proof (cases ok)
    case False
    with add k show ?thesis by auto
  next
    case True
    from Cons.IH [OF ks add(2)] obtain ok2 l2 where "add_all (Some l1) ks = Some (ok2, Some l2)"
      "list_ok l2" "subs l1 \<subseteq> subs l2" "subs l2 \<subseteq> subs l1 \<union> set ks" "ok2 \<longrightarrow> set ks \<subseteq> subs l2"
      "\<not> ok2 \<longrightarrow> (\<forall>e \<in> set l2. used e)" by blast
    with add True k show ?thesis by auto
  qed
qed auto

text \<open>
  Concrete inputs: a notification counter, a notification value and a message with a given
  payload.
\<close>

definition demo_notify :: "nat notify_api" where
  "demo_notify = \<lparr>xTaskNotifyGive = (\<lambda>n. n + 1),
     ulTaskNotifyTake = (\<lambda>n. (if n = 0 then 0 else 1, n - 1)), xTaskNotifyStateClear = (\<lambda>n. n)\<rparr>"

definition demo_publish :: "string \<Rightarrow> MQTTPublishInfo" where
  "demo_publish doc = \<lparr>pub_qos = 1, pTopicName = ''t'', topicNameLength = 1, pPayload = Some doc,
     payloadLength = length doc\<rparr>"

lemma demo_counting: "counting demo_notify (\<lambda>n. n)"
  by (simp add: counting_def demo_notify_def)

definition demo_value :: "(bool \<times> u32) value_api" where
  "demo_value = \<lparr>xTaskNotify = (\<lambda>v n. (True, v)), xTaskNotifyWait = (\<lambda>(p, v). ((p, v), (False, v))),
     val_xTaskNotifyStateClear = (\<lambda>(p, v). (False, v))\<rparr>"

lemma demo_overwriting: "overwriting demo_value fst snd"
  by (auto simp: overwriting_def demo_value_def)

end
