(* ===== verification/Shadow_Document.thy ===== *)
theory Shadow_Document
  imports Agent_Client
begin

text \<open>
  The documents that the two shadow tasks send: a format with the power state and the client
  token, filled into a buffer that is one character longer than the rendered text of a
  one-digit state.
\<close>

section \<open>The text of a document\<close>

definition six_digits :: "nat \<Rightarrow> string" where
  "six_digits n = replicate (6 - length (dec n)) (CHR ''0'') @ dec n"

definition shadow_text :: "string \<Rightarrow> u32 \<Rightarrow> u32 \<Rightarrow> string" where
  \<open>shadow_text member p t =
     ''{"state":{"'' @ member @ ''":{"powerOn":'' @ dec (unat p)
       @ ''}},"clientToken":"'' @ six_digits (unat t) @ ''"}''\<close>

text \<open>The buffer: \<open>memset\<close> to zero, then \<open>snprintf\<close> of at most \<open>len\<close> characters into it.\<close>

definition clear_document :: "nat \<Rightarrow> string" where
  "clear_document len = replicate (len + 1) (CHR 0x00)"

definition fill_document :: "string \<Rightarrow> string \<Rightarrow> nat \<Rightarrow> u32 \<Rightarrow> u32 \<Rightarrow> string option" where
  "fill_document buf fmt len p t =
     map_option snd (snprintf buf 0 (of_nat (len + 1))
       (c_format fmt [Fmt_uint (unat p), Fmt_uint (unat t)]))"

lemma length_six_digits: "n < 10 ^ 6 \<Longrightarrow> length (six_digits n) = 6"
  using length_dec_le [of n 6] by (simp add: six_digits_def)

lemma length_dec_1: "length (dec n) = 1 \<longleftrightarrow> n < 10"
  by (subst dec.simps) simp

lemma length_dec_gt_1: "\<not> n < 10 \<Longrightarrow> 1 < length (dec n)"
  using length_dec_1 [of n] length_dec_pos [of n] by linarith

lemma six_digits_value: "digits_value (six_digits n) = n"
  by (simp add: six_digits_def)

lemma six_digits_digits: "six_digits n \<noteq> [] \<and> (\<forall>c \<in> set (six_digits n). is_digit c)"
  using dec_digits [of n] by (auto simp: six_digits_def is_digit_def)

text \<open>A token that comes back is read as the token that was sent.\<close>

lemma strtoul10_six_digits:
  "rest = [] \<or> \<not> is_digit (hd rest) \<Longrightarrow> strtoul10 (six_digits (unat (t :: u32)) @ rest) = t"
  using strtoul10_digits [of "six_digits (unat t)" rest] six_digits_digits [of "unat t"]
    unsigned_less [of t] by (simp add: six_digits_value)

lemma fill_document_eq:
  assumes "len < 2 ^ 31"
  shows "fill_document (clear_document len) fmt len p t = (let txt = c_format fmt [Fmt_uint (unat p), Fmt_uint (unat t)]
     in Some (take len txt @ replicate (len + 1 - length (take len txt)) (CHR 0x00)))"
proof -
  have n: "unat (of_nat (len + 1) :: u32) = len + 1"
    using assms by (intro unat_of_nat32) simp
  then have "(of_nat (len + 1) :: u32) \<noteq> 0" by (metis unat_0 add_is_0 one_neq_zero)
  then show ?thesis
    unfolding fill_document_def snprintf_def n
    by (simp add: n Let_def Suc_diff_le clear_document_def)
qed

end
