(* ===== verification/Shadow_Device.thy ===== *)
theory Shadow_Device
  imports Shadow_Document "HOL-Library.Transitive_Closure_Table"
begin

text \<open>
  source/demo-tasks/shadow_device_task.c: the task that reports the power state of the device to
  its shadow, and the three callbacks, run by the MQTT agent task, that feed it.

  The static variables of the file and the notification of the task are the record
  \<open>shadow_device\<close>.  The two tasks interleave: \<open>shadow_step\<close> is one step of either of them,
  a callback being one step and the loop of the task being cut at every access to the shared
  variables and at every call.  A publish hands the agent a pointer to the static buffer
  \<open>pcUpdateDocument\<close>, so what is sent is what the buffer holds when the agent reads it.
\<close>

section \<open>Data\<close>

definition shadowexampleSHADOW_REPORTED_JSON :: string where
  \<open>shadowexampleSHADOW_REPORTED_JSON =
     ''{"state":{"reported":{"powerOn":%1u}},"clientToken":"%06lu"}''\<close>

text \<open>\<open>sizeof\<close> counts the terminating NUL.\<close>

definition shadowexampleSHADOW_REPORTED_JSON_LENGTH :: nat where
  "shadowexampleSHADOW_REPORTED_JSON_LENGTH = (length shadowexampleSHADOW_REPORTED_JSON + 1) - 2"

definition shadowexampleINVALID_POWERON_STATE :: u32 where
  "shadowexampleINVALID_POWERON_STATE = 2"

text \<open>
  \<open>dev_held\<close> are the publishes that the agent holds, in its queue or unacknowledged; all of
  them point to the one buffer.  For the statements each is known by the state and the token that
  it was made for.  \<open>dev_sent\<close> is what went over the network.
\<close>

record 'n shadow_device =
  dev_ulCurrentPowerOnState :: u32
  dev_ulReportedPowerOnState :: u32
  dev_ulClientToken :: u32
  dev_ulCurrentVersion :: u32
  dev_notification :: 'n
  dev_pcUpdateDocument :: string
  dev_held :: "(u32 \<times> u32) list"
  dev_sent :: "((u32 \<times> u32) \<times> string) list"
  dev_pings :: nat

definition shadow_device_init :: "'n \<Rightarrow> 'n shadow_device" where
  "shadow_device_init n = \<lparr>
     dev_ulCurrentPowerOnState = 0,
     dev_ulReportedPowerOnState = shadowexampleINVALID_POWERON_STATE,
     dev_ulClientToken = 0,
     dev_ulCurrentVersion = 0,
     dev_notification = n,
     dev_pcUpdateDocument = replicate (shadowexampleSHADOW_REPORTED_JSON_LENGTH + 1) (CHR 0x00),
     dev_held = [],
     dev_sent = [],
     dev_pings = 0\<rparr>"

text \<open>The topics are macros of the shadow library, applied to the client identifier.\<close>

record shadow_topics =
  SHADOW_TOPIC_UPDATE :: string
  SHADOW_TOPIC_UPDATE_DELTA :: string
  SHADOW_TOPIC_UPDATE_ACCEPTED :: string
  SHADOW_TOPIC_UPDATE_REJECTED :: string

section \<open>Callbacks\<close>

text \<open>
  The completion of the subscribe command, in the agent task: the subscription list, the
  \<open>xReturnStatus\<close> of the context, and the notification of the device task.
\<close>

definition dev_prvSubscribeCommandCallback ::
  "'n notify_api \<Rightarrow> shadow_topics \<Rightarrow> bool \<Rightarrow> (demo_callback, 'ctx) SubscriptionElement list option
   \<Rightarrow> 'n \<Rightarrow> (bool \<times> (demo_callback, 'ctx) SubscriptionElement list option \<times> 'n) option" where
  "dev_prvSubscribeCommandCallback api topics success pl n = do {
     (ok1, pl1) \<leftarrow>
       (if success
        then addSubscription pl (Some (SHADOW_TOPIC_UPDATE_DELTA topics))
               (of_nat (length (SHADOW_TOPIC_UPDATE_DELTA topics)))
               (Some prvIncomingPublishUpdateDelta) None
        else Some (False, pl));
     (ok2, pl2) \<leftarrow>
       (if ok1
        then addSubscription pl1 (Some (SHADOW_TOPIC_UPDATE_ACCEPTED topics))
               (of_nat (length (SHADOW_TOPIC_UPDATE_ACCEPTED topics)))
               (Some prvIncomingPublishUpdateAccepted) None
        else Some (ok1, pl1));
     (ok3, pl3) \<leftarrow>
       (if ok2
        then addSubscription pl2 (Some (SHADOW_TOPIC_UPDATE_REJECTED topics))
               (of_nat (length (SHADOW_TOPIC_UPDATE_REJECTED topics)))
               (Some prvIncomingPublishUpdateRejected) None
        else Some (ok2, pl2));
     Some (ok3, pl3, xTaskNotifyGive api n)
   }"

text \<open>The arguments of the subscribe command.\<close>

definition dev_xSubscribeInfo :: "shadow_topics \<Rightarrow> MQTTSubscribeInfo list" where
  "dev_xSubscribeInfo topics = map (\<lambda>topic. \<lparr>sub_qos = 1, pTopicFilter = Some topic,
     topicFilterLength = of_nat (length topic)\<rparr>)
     [SHADOW_TOPIC_UPDATE_DELTA topics, SHADOW_TOPIC_UPDATE_ACCEPTED topics,
      SHADOW_TOPIC_UPDATE_REJECTED topics]"

text \<open>
  The subscribing itself.  \<open>queued\<close> says which attempts to queue the command succeed, and
  \<open>completion\<close> is the outcome of the command when the agent completes it before the wait is
  over, \<open>None\<close> when it does not.  The result holds \<open>xReturnStatus\<close>.
\<close>

definition dev_prvSubscribeToShadowUpdateTopics ::
  "'n notify_api \<Rightarrow> shadow_topics \<Rightarrow> (nat \<Rightarrow> bool) \<Rightarrow> bool option
   \<Rightarrow> (demo_callback, 'ctx) SubscriptionElement list option \<Rightarrow> 'n
   \<Rightarrow> (bool \<times> (demo_callback, 'ctx) SubscriptionElement list option \<times> 'n) option" where
  "dev_prvSubscribeToShadowUpdateTopics api topics queued completion pl n = do {
     let n1 = xTaskNotifyStateClear api n;
     _ \<leftarrow> subscribe_loop queued 0;
     (xReturnStatus, pl2, n2) \<leftarrow>
       (case completion of
          None \<Rightarrow> Some (False, pl, n1)
        | Some success \<Rightarrow> dev_prvSubscribeCommandCallback api topics success pl n1);
     let (ulNotificationValue, n3) = ulTaskNotifyTake api n2;
     _ \<leftarrow> configASSERT (ulNotificationValue \<noteq> 0);
     Some (xReturnStatus, pl2, n3)
   }"

definition dev_prvIncomingPublishUpdateDeltaCallback ::
  "json_api \<Rightarrow> MQTTPublishInfo option \<Rightarrow> 'n shadow_device \<Rightarrow> 'n shadow_device option" where
  "dev_prvIncomingPublishUpdateDeltaCallback json pxPublishInfo s = do {
     _ \<leftarrow> configASSERT (pxPublishInfo \<noteq> None);
     p \<leftarrow> pxPublishInfo;
     _ \<leftarrow> configASSERT (pPayload p \<noteq> None);
     doc \<leftarrow> pPayload p;
     if \<not> JSON_Validate json doc (payloadLength p) then Some s
     else (case json_uint json doc (payloadLength p) ''version'' of
        None \<Rightarrow> Some s
      | Some ulVersion \<Rightarrow>
          if ulVersion \<le> dev_ulCurrentVersion s then Some s
          else (let s1 = s\<lparr>dev_ulCurrentVersion := ulVersion\<rparr> in
                case json_uint json doc (payloadLength p) ''state.powerOn'' of
                  None \<Rightarrow> Some s1
                | Some ulNewState \<Rightarrow> Some (s1\<lparr>dev_ulCurrentPowerOnState := ulNewState\<rparr>)))
   }"

definition dev_prvIncomingPublishUpdateAcceptedCallback ::
  "'n notify_api \<Rightarrow> json_api \<Rightarrow> MQTTPublishInfo option \<Rightarrow> 'n shadow_device \<Rightarrow> 'n shadow_device option" where
  "dev_prvIncomingPublishUpdateAcceptedCallback api json pxPublishInfo s = do {
     _ \<leftarrow> configASSERT (pxPublishInfo \<noteq> None);
     p \<leftarrow> pxPublishInfo;
     _ \<leftarrow> configASSERT (pPayload p \<noteq> None);
     doc \<leftarrow> pPayload p;
     let result = (if JSON_Validate json doc (payloadLength p)
                   then json_uint json doc (payloadLength p) ''clientToken'' else None);
     (case result of
        None \<Rightarrow> Some s
      | Some ulReceivedToken \<Rightarrow>
          if ulReceivedToken \<noteq> dev_ulClientToken s then Some s
          else (let s1 = (case json_uint json doc (payloadLength p) ''state.reported.powerOn'' of
                   None \<Rightarrow> s
                 | Some v \<Rightarrow> s\<lparr>dev_ulReportedPowerOnState := v\<rparr>)
                in Some (s1\<lparr>dev_notification := xTaskNotifyGive api (dev_notification s1)\<rparr>)))
   }"

text \<open>The error code that the callback looks for is only logged.\<close>

definition dev_prvIncomingPublishUpdateRejectedCallback ::
  "'n notify_api \<Rightarrow> json_api \<Rightarrow> MQTTPublishInfo option \<Rightarrow> 'n shadow_device \<Rightarrow> 'n shadow_device option" where
  "dev_prvIncomingPublishUpdateRejectedCallback api json pxPublishInfo s = do {
     _ \<leftarrow> configASSERT (pxPublishInfo \<noteq> None);
     p \<leftarrow> pxPublishInfo;
     _ \<leftarrow> configASSERT (pPayload p \<noteq> None);
     doc \<leftarrow> pPayload p;
     let result = (if JSON_Validate json doc (payloadLength p)
                   then json_uint json doc (payloadLength p) ''clientToken'' else None);
     (case result of
        None \<Rightarrow> Some s
      | Some ulReceivedToken \<Rightarrow>
          if ulReceivedToken \<noteq> dev_ulClientToken s then Some s
          else Some (s\<lparr>dev_notification := xTaskNotifyGive api (dev_notification s)\<rparr>))
   }"

section \<open>The task\<close>

text \<open>Where the task is in its loop.\<close>

datatype shadow_pc =
    Report_check | Report_token | Report_clear | Report_format | Report_publish "u32 \<times> u32"
  | Report_wait | Report_reset | Report_delay

record 'n shadow_env =
  dev_api :: "'n notify_api"
  dev_json :: json_api

text \<open>
  \<open>prompt\<close> restricts the runs to those in which the agent is done with every earlier publish by the time
  the task clears the buffer for the next one; without it the runs are arbitrary.
\<close>

inductive shadow_step ::
  "'n shadow_env \<Rightarrow> bool \<Rightarrow> shadow_pc \<times> 'n shadow_device \<Rightarrow> shadow_pc \<times> 'n shadow_device \<Rightarrow> bool"
  for env :: "'n shadow_env" and prompt :: bool where
  ping: "dev_ulCurrentPowerOnState s = dev_ulReportedPowerOnState s \<Longrightarrow>
    shadow_step env prompt (Report_check, s) (Report_delay, s\<lparr>dev_pings := dev_pings s + 1\<rparr>)"
| differs: "dev_ulCurrentPowerOnState s \<noteq> dev_ulReportedPowerOnState s \<Longrightarrow>
    shadow_step env prompt (Report_check, s) (Report_token, s)"
| token: "shadow_step env prompt (Report_token, s)
    (Report_clear, s\<lparr>dev_ulClientToken := ticks mod 1000000\<rparr>)"
| clear: "prompt \<longrightarrow> dev_held s = [] \<Longrightarrow>
    shadow_step env prompt (Report_clear, s)
      (Report_format, s\<lparr>dev_pcUpdateDocument := clear_document shadowexampleSHADOW_REPORTED_JSON_LENGTH\<rparr>)"
| format: "fill_document (dev_pcUpdateDocument s) shadowexampleSHADOW_REPORTED_JSON
      shadowexampleSHADOW_REPORTED_JSON_LENGTH (dev_ulCurrentPowerOnState s) (dev_ulClientToken s) =
      Some doc \<Longrightarrow>
    shadow_step env prompt (Report_format, s)
      (Report_publish (dev_ulCurrentPowerOnState s, dev_ulClientToken s), s\<lparr>dev_pcUpdateDocument := doc\<rparr>)"
| publish_refused: "shadow_step env prompt (Report_publish q, s) (Report_reset, s)"
| publish_queued: "shadow_step env prompt (Report_publish q, s)
    (Report_wait, s\<lparr>dev_held := dev_held s @ [q]\<rparr>)"
| notified: "ulTaskNotifyTake (dev_api env) (dev_notification s) = (v, n) \<Longrightarrow> v \<noteq> 0 \<Longrightarrow>
    shadow_step env prompt (Report_wait, s) (Report_reset, s\<lparr>dev_notification := n\<rparr>)"
| timeout: "ulTaskNotifyTake (dev_api env) (dev_notification s) = (0, n) \<Longrightarrow>
    shadow_step env prompt (Report_wait, s) (Report_reset, s\<lparr>dev_notification := n,
      dev_ulReportedPowerOnState := shadowexampleINVALID_POWERON_STATE\<rparr>)"
| reset: "shadow_step env prompt (Report_reset, s) (Report_delay, s\<lparr>dev_ulClientToken := 0\<rparr>)"
| delay: "shadow_step env prompt (Report_delay, s) (Report_check, s)"
| sends: "q \<in> set (dev_held s) \<Longrightarrow>
    shadow_step env prompt (pc, s) (pc, s\<lparr>dev_sent := dev_sent s @ [(q, dev_pcUpdateDocument s)]\<rparr>)"
| finishes: "dev_held s = qs @ q # qs' \<Longrightarrow>
    shadow_step env prompt (pc, s) (pc, s\<lparr>dev_held := qs @ qs'\<rparr>)"
| delta: "dev_prvIncomingPublishUpdateDeltaCallback (dev_json env) p s = Some s' \<Longrightarrow>
    shadow_step env prompt (pc, s) (pc, s')"
| accepted: "dev_prvIncomingPublishUpdateAcceptedCallback (dev_api env) (dev_json env) p s = Some s' \<Longrightarrow>
    shadow_step env prompt (pc, s) (pc, s')"
| rejected: "dev_prvIncomingPublishUpdateRejectedCallback (dev_api env) (dev_json env) p s = Some s' \<Longrightarrow>
    shadow_step env prompt (pc, s) (pc, s')"

abbreviation shadow_run ::
  "'n shadow_env \<Rightarrow> bool \<Rightarrow> shadow_pc \<times> 'n shadow_device \<Rightarrow> shadow_pc \<times> 'n shadow_device \<Rightarrow> bool" where
  "shadow_run env prompt \<equiv> rtranclp (shadow_step env prompt)"

inductive_cases from_wait: "shadow_step env prompt (Report_wait, s) c"
inductive_cases from_check: "shadow_step env prompt (Report_check, s) c"

section \<open>The callbacks as response handlers\<close>

lemma response_token_doc:
  "pPayload p = Some doc \<Longrightarrow> response_token json p =
     (if JSON_Validate json doc (payloadLength p)
      then json_uint json doc (payloadLength p) ''clientToken'' else None)"
  by (simp add: response_token_def)

lemma response_token_payload: "response_token json p = Some t \<Longrightarrow> \<exists>doc. pPayload p = Some doc"
  by (auto simp: response_token_def split: option.splits)

text \<open>The version and the state that a delta asks for; an invalid one asks for nothing.\<close>

definition delta_version :: "json_api \<Rightarrow> MQTTPublishInfo \<Rightarrow> u32 option" where
  "delta_version json p =
     (case pPayload p of
        None \<Rightarrow> None
      | Some doc \<Rightarrow> if JSON_Validate json doc (payloadLength p)
                    then json_uint json doc (payloadLength p) ''version'' else None)"

definition apply_delta :: "u32 \<Rightarrow> u32 option \<Rightarrow> 'n shadow_device \<Rightarrow> 'n shadow_device" where
  "apply_delta v requested s =
     (let s1 = s\<lparr>dev_ulCurrentVersion := v\<rparr>
      in case requested of None \<Rightarrow> s1 | Some x \<Rightarrow> s1\<lparr>dev_ulCurrentPowerOnState := x\<rparr>)"

lemma delta_eq:
  assumes "pPayload p = Some doc"
  shows "dev_prvIncomingPublishUpdateDeltaCallback json (Some p) s =
    Some (case delta_version json p of
       None \<Rightarrow> s
     | Some v \<Rightarrow> if v \<le> dev_ulCurrentVersion s then s
               else apply_delta v (json_uint json doc (payloadLength p) ''state.powerOn'') s)"
  using assms
  by (cases "json_uint json doc (payloadLength p) ''version''";
      cases "json_uint json doc (payloadLength p) ''state.powerOn''")
     (simp_all add: dev_prvIncomingPublishUpdateDeltaCallback_def delta_version_def apply_delta_def
        Let_def split: if_splits)

lemma callback_payload:
  "dev_prvIncomingPublishUpdateDeltaCallback json p s = Some s' \<Longrightarrow> \<exists>q doc. p = Some q \<and> pPayload q = Some doc"
  "dev_prvIncomingPublishUpdateAcceptedCallback api json p s = Some s' \<Longrightarrow> \<exists>q doc. p = Some q \<and> pPayload q = Some doc"
  "dev_prvIncomingPublishUpdateRejectedCallback api json p s = Some s' \<Longrightarrow> \<exists>q doc. p = Some q \<and> pPayload q = Some doc"
  by (auto simp: dev_prvIncomingPublishUpdateDeltaCallback_def
      dev_prvIncomingPublishUpdateAcceptedCallback_def dev_prvIncomingPublishUpdateRejectedCallback_def)

lemma accepted_eq:
  assumes "pPayload p = Some doc"
  shows "dev_prvIncomingPublishUpdateAcceptedCallback api json (Some p) s =
    Some (if response_token json p = Some (dev_ulClientToken s)
          then (case json_uint json doc (payloadLength p) ''state.reported.powerOn'' of
                  None \<Rightarrow> s
                | Some v \<Rightarrow> s\<lparr>dev_ulReportedPowerOnState := v\<rparr>)
               \<lparr>dev_notification := xTaskNotifyGive api (dev_notification s)\<rparr>
          else s)"
  using assms
  by (cases "json_uint json doc (payloadLength p) ''state.reported.powerOn''";
      cases "response_token json p")
     (simp_all add: dev_prvIncomingPublishUpdateAcceptedCallback_def response_token_doc Let_def
        split: if_splits)

lemma rejected_eq:
  assumes "pPayload p = Some doc"
  shows "dev_prvIncomingPublishUpdateRejectedCallback api json (Some p) s =
    Some (if response_token json p = Some (dev_ulClientToken s)
          then s\<lparr>dev_notification := xTaskNotifyGive api (dev_notification s)\<rparr> else s)"
  using assms
  by (cases "response_token json p")
     (simp_all add: dev_prvIncomingPublishUpdateRejectedCallback_def response_token_doc Let_def
        split: if_splits)

interpretation dev_accepted: response_handler
  dev_prvIncomingPublishUpdateAcceptedCallback dev_ulClientToken dev_notification
proof
  fix p json and s :: "'a shadow_device" and api
  assume "pPayload p \<noteq> None" "response_token json p \<noteq> Some (dev_ulClientToken s)"
  then show "dev_prvIncomingPublishUpdateAcceptedCallback api json (Some p) s = Some s"
    by (auto simp: accepted_eq)
next
  fix p json and s :: "'a shadow_device" and api
  assume "response_token json p = Some (dev_ulClientToken s)"
  with response_token_payload [OF this] show
    "\<exists>s'. dev_prvIncomingPublishUpdateAcceptedCallback api json (Some p) s = Some s'
       \<and> dev_ulClientToken s' = dev_ulClientToken s
       \<and> dev_notification s' = xTaskNotifyGive api (dev_notification s)"
    by (auto simp: accepted_eq split: option.splits)
qed

interpretation dev_rejected: response_handler
  dev_prvIncomingPublishUpdateRejectedCallback dev_ulClientToken dev_notification
proof
  fix p json and s :: "'a shadow_device" and api
  assume "pPayload p \<noteq> None" "response_token json p \<noteq> Some (dev_ulClientToken s)"
  then show "dev_prvIncomingPublishUpdateRejectedCallback api json (Some p) s = Some s"
    by (auto simp: rejected_eq)
next
  fix p json and s :: "'a shadow_device" and api
  assume "response_token json p = Some (dev_ulClientToken s)"
  with response_token_payload [OF this] show
    "\<exists>s'. dev_prvIncomingPublishUpdateRejectedCallback api json (Some p) s = Some s'
       \<and> dev_ulClientToken s' = dev_ulClientToken s
       \<and> dev_notification s' = xTaskNotifyGive api (dev_notification s)"
    by (auto simp: rejected_eq)
qed

section \<open>The subscriptions\<close>

definition dev_subscriptions :: "shadow_topics \<Rightarrow> (string \<times> demo_callback \<times> 'ctx option) list" where
  "dev_subscriptions topics =
     [(SHADOW_TOPIC_UPDATE_DELTA topics, prvIncomingPublishUpdateDelta, None),
      (SHADOW_TOPIC_UPDATE_ACCEPTED topics, prvIncomingPublishUpdateAccepted, None),
      (SHADOW_TOPIC_UPDATE_REJECTED topics, prvIncomingPublishUpdateRejected, None)]"

lemma dev_subscribe_callback_eq:
  "dev_prvSubscribeCommandCallback api topics success pl n =
     (if success then do {
        (ok, pl') \<leftarrow> add_all pl (dev_subscriptions topics);
        Some (ok, pl', xTaskNotifyGive api n)
      } else Some (False, pl, xTaskNotifyGive api n))"
  by (auto simp: dev_prvSubscribeCommandCallback_def dev_subscriptions_def
      split: Option.bind_split prod.splits if_splits)

text \<open>The callback reports success only with all three subscriptions stored.\<close>

lemma dev_subscribe_callback_contract:
  assumes "list_ok l" and "topic_ok (SHADOW_TOPIC_UPDATE_DELTA topics)"
    "topic_ok (SHADOW_TOPIC_UPDATE_ACCEPTED topics)" "topic_ok (SHADOW_TOPIC_UPDATE_REJECTED topics)"
  shows "\<exists>ok l'. dev_prvSubscribeCommandCallback api topics True (Some l) n =
      Some (ok, Some l', xTaskNotifyGive api n)
    \<and> list_ok l' \<and> subs l \<subseteq> subs l' \<and> (ok \<longrightarrow> set (dev_subscriptions topics) \<subseteq> subs l')"
proof -
  have "\<forall>(f, cb, ctx) \<in> set (dev_subscriptions topics). topic_ok f"
    using assms by (simp add: dev_subscriptions_def)
  from add_all_contract [OF this assms(1)] show ?thesis
    by (fastforce simp: dev_subscribe_callback_eq)
qed

section \<open>The documents\<close>

definition reported_document :: "u32 \<Rightarrow> u32 \<Rightarrow> string" where
  "reported_document p t =
     (if p < 10 then shadow_text ''reported'' p t
      else take shadowexampleSHADOW_REPORTED_JSON_LENGTH (shadow_text ''reported'' p t)) @ [CHR 0x00]"

lemma reported_text:
  "c_format shadowexampleSHADOW_REPORTED_JSON [Fmt_uint (unat p), Fmt_uint (unat t)] =
   shadow_text ''reported'' p t"
  by (simp add: shadowexampleSHADOW_REPORTED_JSON_def shadow_text_def six_digits_def render_06
      format_rules del: c_format.simps(2))

lemma reported_length: "shadowexampleSHADOW_REPORTED_JSON_LENGTH = 59"
  by (simp add: shadowexampleSHADOW_REPORTED_JSON_LENGTH_def shadowexampleSHADOW_REPORTED_JSON_def)

lemma shadow_text_length:
  assumes "t < 1000000"
  shows "length (shadow_text ''reported'' p t) = 58 + length (dec (unat p))"
proof -
  have "unat t < 10 ^ 6" using assms by (simp add: word_less_nat_alt)
  then show ?thesis by (simp add: shadow_text_def length_six_digits)
qed

lemma fill_reported:
  assumes "t < 1000000"
  shows "fill_document (clear_document shadowexampleSHADOW_REPORTED_JSON_LENGTH)
      shadowexampleSHADOW_REPORTED_JSON shadowexampleSHADOW_REPORTED_JSON_LENGTH p t =
    Some (reported_document p t)"
proof -
  let ?txt = "shadow_text ''reported'' p t"
  have len: "length ?txt = 58 + length (dec (unat p))" by (rule shadow_text_length [OF assms])
  have "p < 10 \<longleftrightarrow> unat p < 10" by (simp add: word_less_nat_alt)
  then consider "p < 10" "length ?txt = 59" | "\<not> p < 10" "59 < length ?txt"
    using len length_dec_1 [of "unat p"] length_dec_gt_1 [of "unat p"] by (cases "p < 10") auto
  then show ?thesis
    by cases (simp_all add: fill_document_eq reported_text reported_document_def Let_def reported_length)
qed

section \<open>Invariant\<close>

text \<open>
  Outside the window of a report the token is 0.  Within it the buffer holds the report that is
  being made, and with a prompt agent that is also what every held publish was made for.
\<close>

definition shadow_inv :: "bool \<Rightarrow> shadow_pc \<times> 'n shadow_device \<Rightarrow> bool" where
  "shadow_inv prompt = (\<lambda>(pc, s).
     (pc \<in> {Report_check, Report_token, Report_delay} \<longrightarrow> dev_ulClientToken s = 0)
     \<and> dev_ulClientToken s < 1000000
     \<and> (pc = Report_format \<longrightarrow>
          dev_pcUpdateDocument s = clear_document shadowexampleSHADOW_REPORTED_JSON_LENGTH)
     \<and> (\<forall>p t. pc = Report_publish (p, t) \<longrightarrow>
          t < 1000000 \<and> dev_pcUpdateDocument s = reported_document p t)
     \<and> (prompt \<and> pc = Report_format \<longrightarrow> dev_held s = [])
     \<and> (\<forall>q. prompt \<and> pc = Report_publish q \<longrightarrow> dev_held s = [])
     \<and> (prompt \<longrightarrow> (\<forall>(p, t) \<in> set (dev_held s). t < 1000000
          \<and> dev_pcUpdateDocument s = reported_document p t))
     \<and> (prompt \<longrightarrow> (\<forall>((p, t), doc) \<in> set (dev_sent s). t < 1000000 \<and> doc = reported_document p t)))"

text \<open>What a callback leaves alone.\<close>

definition callback_frame :: "'n shadow_device \<Rightarrow> 'n shadow_device \<Rightarrow> bool" where
  "callback_frame s s' \<longleftrightarrow>
     dev_ulClientToken s' = dev_ulClientToken s \<and> dev_pcUpdateDocument s' = dev_pcUpdateDocument s
     \<and> dev_held s' = dev_held s \<and> dev_sent s' = dev_sent s \<and> dev_pings s' = dev_pings s"

lemma callback_frames:
  "dev_prvIncomingPublishUpdateDeltaCallback json p s = Some s' \<Longrightarrow> callback_frame s s'"
  "dev_prvIncomingPublishUpdateAcceptedCallback api json p s = Some s' \<Longrightarrow> callback_frame s s'"
  "dev_prvIncomingPublishUpdateRejectedCallback api json p s = Some s' \<Longrightarrow> callback_frame s s'"
proof -
  assume cb: "dev_prvIncomingPublishUpdateDeltaCallback json p s = Some s'"
  with callback_payload(1) [OF cb] show "callback_frame s s'"
    by (auto simp: delta_eq callback_frame_def apply_delta_def Let_def split: option.splits if_splits)
next
  assume cb: "dev_prvIncomingPublishUpdateAcceptedCallback api json p s = Some s'"
  with callback_payload(2) [OF cb] show "callback_frame s s'"
    by (auto simp: accepted_eq callback_frame_def split: option.splits if_splits)
next
  assume cb: "dev_prvIncomingPublishUpdateRejectedCallback api json p s = Some s'"
  with callback_payload(3) [OF cb] show "callback_frame s s'"
    by (auto simp: rejected_eq callback_frame_def split: if_splits)
qed

lemma mod_million: "(n :: u32) mod 1000000 < 1000000"
  by (simp add: word_less_nat_alt unat_mod)

lemma shadow_inv_frame: "shadow_inv prompt (pc, s) \<Longrightarrow> callback_frame s s' \<Longrightarrow> shadow_inv prompt (pc, s')"
  by (simp add: shadow_inv_def callback_frame_def)

lemma shadow_inv_step: "shadow_step env prompt c c' \<Longrightarrow> shadow_inv prompt c \<Longrightarrow> shadow_inv prompt c'"
proof (induction rule: shadow_step.induct)
  case (token s ticks)
  then show ?case by (auto simp: shadow_inv_def mod_million)
next
  case (format s doc)
  then show ?case by (auto simp: shadow_inv_def fill_reported)
next
  case (publish_queued q s)
  then show ?case by (cases q) (auto simp: shadow_inv_def)
next
  case (delta p s s' pc)
  then show ?case by (blast intro: shadow_inv_frame callback_frames)
next
  case (accepted p s s' pc)
  then show ?case by (blast intro: shadow_inv_frame callback_frames)
next
  case (rejected p s s' pc)
  then show ?case by (blast intro: shadow_inv_frame callback_frames)
qed (auto simp: shadow_inv_def)

lemma shadow_inv_init: "shadow_inv prompt (Report_check, shadow_device_init n)"
  by (simp add: shadow_inv_def shadow_device_init_def)

lemma shadow_inv_run: "shadow_run env prompt c c' \<Longrightarrow> shadow_inv prompt c \<Longrightarrow> shadow_inv prompt c'"
  by (induction rule: rtranclp_induct) (auto intro: shadow_inv_step)

text \<open>The reports that have been made, and where they come from.\<close>

definition reports :: "shadow_pc \<times> 'n shadow_device \<Rightarrow> (u32 \<times> u32) set" where
  "reports = (\<lambda>(pc, s). (case pc of Report_publish q \<Rightarrow> {q} | _ \<Rightarrow> {})
     \<union> set (dev_held s) \<union> fst ` set (dev_sent s))"

lemma reports_step:
  "shadow_step env prompt c c' \<Longrightarrow> q \<in> reports c' \<Longrightarrow>
   q \<in> reports c \<or> (\<exists>s. c = (Report_format, s) \<and> q = (dev_ulCurrentPowerOnState s, dev_ulClientToken s))"
proof (induction rule: shadow_step.induct)
  case (delta p s s' pc)
  with callback_frames(1) [OF delta.hyps] show ?case by (auto simp: reports_def callback_frame_def)
next
  case (accepted p s s' pc)
  with callback_frames(2) [OF accepted.hyps] show ?case by (auto simp: reports_def callback_frame_def)
next
  case (rejected p s s' pc)
  with callback_frames(3) [OF rejected.hyps] show ?case by (auto simp: reports_def callback_frame_def)
qed (auto simp: reports_def)

lemma reports_origin:
  assumes "shadow_run env prompt c0 c" and "reports c0 = {}" and "q \<in> reports c"
  shows "\<exists>s. shadow_run env prompt c0 (Report_format, s) \<and> shadow_run env prompt (Report_format, s) c
    \<and> q = (dev_ulCurrentPowerOnState s, dev_ulClientToken s)"
  using assms
proof (induction rule: rtranclp_induct)
  case (step c c')
  from reports_step [OF step.hyps(2) step.prems(2)] show ?case
  proof
    assume "q \<in> reports c"
    with step.IH [OF step.prems(1)] step.hyps(2) show ?thesis by (meson rtranclp.rtrancl_into_rtrancl)
  next
    assume "\<exists>s. c = (Report_format, s) \<and> q = (dev_ulCurrentPowerOnState s, dev_ulClientToken s)"
    with step.hyps show ?thesis by blast
  qed
qed simp

lemma shadow_step_version:
  "shadow_step env prompt c c' \<Longrightarrow>
   dev_ulCurrentVersion (snd c) \<le> dev_ulCurrentVersion (snd c')
   \<and> (dev_ulCurrentVersion (snd c) = dev_ulCurrentVersion (snd c') \<longrightarrow>
        dev_ulCurrentPowerOnState (snd c) = dev_ulCurrentPowerOnState (snd c'))"
proof (induction rule: shadow_step.induct)
  case (delta p s s' pc)
  with callback_payload(1) [OF delta.hyps] show ?case
    by (auto simp: delta_eq apply_delta_def Let_def split: option.splits if_splits)
next
  case (accepted p s s' pc)
  with callback_payload(2) [OF accepted.hyps] show ?case
    by (auto simp: accepted_eq split: option.splits if_splits)
next
  case (rejected p s s' pc)
  with callback_payload(3) [OF rejected.hyps] show ?case
    by (auto simp: rejected_eq split: if_splits)
qed auto

section \<open>Properties\<close>

text \<open>
  C17. The device sends what it reports.  A publish is a pointer to the one static buffer, so this
  holds of the runs in which the agent is done with a publish before the task clears the buffer
  for the next one: then everything that is ever sent, whatever callbacks interleave with the
  task, is the report of the state that the device had when it made this report, with the token
  that the callbacks look for at that time, a tick count below one million.  The text is complete
  when the state has one digit, and cut short in front of its closing brace when a delta asked
  for a state of 10 or more.
\<close>

theorem shadow_reports_rendered:
  assumes "shadow_run env True (Report_check, shadow_device_init n) (pc, s)"
    and "((p, t), doc) \<in> set (dev_sent s)"
  shows "doc = reported_document p t \<and> t < 1000000
    \<and> (\<exists>s1. shadow_run env True (Report_check, shadow_device_init n) (Report_format, s1)
         \<and> shadow_run env True (Report_format, s1) (pc, s)
         \<and> p = dev_ulCurrentPowerOnState s1 \<and> t = dev_ulClientToken s1)"
proof -
  have "shadow_inv True (pc, s)"
    by (rule shadow_inv_run [OF assms(1) shadow_inv_init])
  with assms(2) have "doc = reported_document p t \<and> t < 1000000" by (auto simp: shadow_inv_def)
  moreover have "(p, t) \<in> reports (pc, s)" using assms(2) by (force simp: reports_def)
  with reports_origin [OF assms(1)] have
    "\<exists>s1. shadow_run env True (Report_check, shadow_device_init n) (Report_format, s1)
       \<and> shadow_run env True (Report_format, s1) (pc, s)
       \<and> p = dev_ulCurrentPowerOnState s1 \<and> t = dev_ulClientToken s1"
    by (auto simp: reports_def shadow_device_init_def)
  ultimately show ?thesis by simp
qed

text \<open>
  Concrete inputs: documents that hold the first number at their start and the second one two
  characters later.
\<close>

definition demo_json :: json_api where
  "demo_json = \<lparr>JSON_Validate = (\<lambda>doc len. True),
     JSON_Search = (\<lambda>doc len key. if key \<in> {''version'', ''clientToken''} then Some 0 else Some 2)\<rparr>"

definition demo_shadow_env :: "nat shadow_env" where
  "demo_shadow_env = \<lparr>dev_api = demo_notify, dev_json = demo_json\<rparr>"

text \<open>The device after its first report, of the state 0 at tick 7, was queued and sent.\<close>

definition demo_waiting :: "nat shadow_device" where
  "demo_waiting = (shadow_device_init 0)\<lparr>dev_ulClientToken := 7,
     dev_pcUpdateDocument := reported_document 0 7, dev_held := [(0, 7)],
     dev_sent := [((0, 7), reported_document 0 7)]\<rparr>"

lemma demo_report_queued:
  "shadow_run demo_shadow_env prompt (Report_check, shadow_device_init 0)
     (Report_wait, demo_waiting\<lparr>dev_sent := []\<rparr>)"
proof -
  let ?e = "demo_shadow_env" and ?s = "shadow_device_init 0 :: nat shadow_device"
  let ?s2 = "?s\<lparr>dev_ulClientToken := 7\<rparr>"
  let ?s3 = "?s2\<lparr>dev_pcUpdateDocument := clear_document shadowexampleSHADOW_REPORTED_JSON_LENGTH\<rparr>"
  let ?s4 = "?s2\<lparr>dev_pcUpdateDocument := reported_document 0 7\<rparr>"
  have "shadow_step ?e prompt (Report_check, ?s) (Report_token, ?s)"
    by (rule shadow_step.differs) (simp add: shadow_device_init_def shadowexampleINVALID_POWERON_STATE_def)
  moreover have "shadow_step ?e prompt (Report_token, ?s) (Report_clear, ?s2)"
    using shadow_step.token [of ?e prompt ?s 7] by simp
  moreover have "shadow_step ?e prompt (Report_clear, ?s2) (Report_format, ?s3)"
    by (rule shadow_step.clear) (simp add: shadow_device_init_def)
  moreover have "shadow_step ?e prompt (Report_format, ?s3) (Report_publish (0, 7), ?s4)"
    using shadow_step.format [of ?s3 "reported_document 0 7" ?e prompt]
    by (simp add: fill_reported shadow_device_init_def)
  moreover have "shadow_step ?e prompt (Report_publish (0, 7), ?s4)
      (Report_wait, demo_waiting\<lparr>dev_sent := []\<rparr>)"
    using shadow_step.publish_queued [of ?e prompt "(0, 7)" ?s4]
    by (simp add: demo_waiting_def shadow_device_init_def)
  ultimately show ?thesis
    by (meson converse_rtranclp_into_rtranclp rtranclp.rtrancl_refl)
qed

lemma demo_report_run:
  "shadow_run demo_shadow_env prompt (Report_check, shadow_device_init 0) (Report_wait, demo_waiting)"
proof -
  have "shadow_step demo_shadow_env prompt (Report_wait, demo_waiting\<lparr>dev_sent := []\<rparr>)
      (Report_wait, demo_waiting)"
    using shadow_step.sends [of "(0, 7)" "demo_waiting\<lparr>dev_sent := []\<rparr>" demo_shadow_env prompt Report_wait]
    by (simp add: demo_waiting_def)
  with demo_report_queued show ?thesis by (meson rtranclp.rtrancl_into_rtrancl)
qed

theorem shadow_reports_rendered_witness:
  "((0, 7), reported_document 0 7) \<in> set (dev_sent demo_waiting)
   \<and> (\<exists>s1. shadow_run demo_shadow_env True (Report_format, s1) (Report_wait, demo_waiting)
        \<and> dev_ulCurrentPowerOnState s1 = 0 \<and> dev_ulClientToken s1 = 7)"
proof -
  have d: "((0, 7), reported_document 0 7) \<in> set (dev_sent demo_waiting)" by (simp add: demo_waiting_def)
  from shadow_reports_rendered [OF demo_report_run this] d show ?thesis by auto
qed

text \<open>
  Without the restriction the buffer can be overwritten under a report that is still queued: the
  task times out, starts the next report and clears the buffer, and then the agent sends the first
  one, which is all NUL.
\<close>

theorem queued_report_is_overwritten:
  "\<exists>s. shadow_run demo_shadow_env False (Report_check, shadow_device_init 0) (Report_format, s)
     \<and> dev_sent s = [((0, 7), clear_document shadowexampleSHADOW_REPORTED_JSON_LENGTH)]"
proof -
  let ?e = "demo_shadow_env" and ?s = "demo_waiting\<lparr>dev_sent := []\<rparr>"
  let ?s1 = "?s\<lparr>dev_notification := 0, dev_ulReportedPowerOnState := shadowexampleINVALID_POWERON_STATE\<rparr>"
  let ?s2 = "?s1\<lparr>dev_ulClientToken := 0\<rparr>" and ?s3 = "?s1\<lparr>dev_ulClientToken := 8\<rparr>"
  let ?s4 = "?s3\<lparr>dev_pcUpdateDocument := clear_document shadowexampleSHADOW_REPORTED_JSON_LENGTH\<rparr>"
  let ?s5 = "?s4\<lparr>dev_sent := [((0, 7), clear_document shadowexampleSHADOW_REPORTED_JSON_LENGTH)]\<rparr>"
  have "shadow_step ?e False (Report_wait, ?s) (Report_reset, ?s1)"
    by (rule shadow_step.timeout)
       (simp add: demo_shadow_env_def demo_notify_def demo_waiting_def shadow_device_init_def)
  moreover have "shadow_step ?e False (Report_reset, ?s1) (Report_delay, ?s2)" by (rule shadow_step.reset)
  moreover have "shadow_step ?e False (Report_delay, ?s2) (Report_check, ?s2)" by (rule shadow_step.delay)
  moreover have "shadow_step ?e False (Report_check, ?s2) (Report_token, ?s2)"
    by (rule shadow_step.differs)
       (simp add: demo_waiting_def shadow_device_init_def shadowexampleINVALID_POWERON_STATE_def)
  moreover have "shadow_step ?e False (Report_token, ?s2) (Report_clear, ?s3)"
    using shadow_step.token [of ?e False ?s2 8] by simp
  moreover have "shadow_step ?e False (Report_clear, ?s3) (Report_format, ?s4)"
    by (rule shadow_step.clear) simp
  moreover have "shadow_step ?e False (Report_format, ?s4) (Report_format, ?s5)"
    using shadow_step.sends [of "(0, 7)" ?s4 ?e False Report_format] by (simp add: demo_waiting_def)
  ultimately have "shadow_run ?e False (Report_wait, ?s) (Report_format, ?s5)"
    by (meson converse_rtranclp_into_rtranclp rtranclp.rtrancl_refl)
  with demo_report_queued have "shadow_run ?e False (Report_check, shadow_device_init 0) (Report_format, ?s5)"
    by (rule rtranclp_trans)
  then show ?thesis by (intro exI [of _ ?s5]) simp
qed

text \<open>
  C15. Stale deltas are ignored for ever: along any run the version never decreases, and the
  power state changes only together with an increase of the version.
\<close>

theorem shadow_version_monotone:
  assumes "shadow_run env prompt (pc, s) (pc', s')"
  shows "dev_ulCurrentVersion s \<le> dev_ulCurrentVersion s'
    \<and> (dev_ulCurrentVersion s' = dev_ulCurrentVersion s \<longrightarrow>
         dev_ulCurrentPowerOnState s' = dev_ulCurrentPowerOnState s)"
proof -
  have "dev_ulCurrentVersion (snd (pc, s)) \<le> dev_ulCurrentVersion (snd c)
    \<and> (dev_ulCurrentVersion (snd c) = dev_ulCurrentVersion (snd (pc, s)) \<longrightarrow>
         dev_ulCurrentPowerOnState (snd c) = dev_ulCurrentPowerOnState (snd (pc, s)))"
    if "shadow_run env prompt (pc, s) c" for c
    using that
  proof (induction rule: rtranclp_induct)
    case (step c c')
    with shadow_step_version [OF step.hyps(2)] show ?case by auto
  qed simp
  from this [OF assms] show ?thesis by simp
qed

theorem shadow_version_monotone_witness:
  "\<exists>s'. shadow_run demo_shadow_env False (Report_wait, demo_waiting) (Report_wait, s')
     \<and> dev_ulCurrentVersion s' = 3 \<and> dev_ulCurrentPowerOnState s' = 1
     \<and> dev_ulCurrentVersion demo_waiting \<le> dev_ulCurrentVersion s'"
proof -
  let ?s = "apply_delta 3 (Some 1) demo_waiting"
  have "strtoul10 ''3,1'' = 3" "strtoul10 ''1'' = 1"
    by (simp_all add: strtoul10_def digits_value_def digit_val_def is_digit_def is_space_def)
  then have "dev_prvIncomingPublishUpdateDeltaCallback (dev_json demo_shadow_env)
      (Some (demo_publish ''3,1'')) demo_waiting = Some ?s"
    by (simp add: demo_shadow_env_def delta_eq demo_publish_def delta_version_def demo_json_def json_uint_def
        demo_waiting_def shadow_device_init_def)
  from shadow_step.delta [OF this, of False Report_wait]
  have "shadow_run demo_shadow_env False (Report_wait, demo_waiting) (Report_wait, ?s)"
    by (rule r_into_rtranclp)
  with shadow_version_monotone [OF this] show ?thesis
    by (intro exI [of _ ?s]) (simp add: apply_delta_def Let_def)
qed

text \<open>
  A response to somebody else can acknowledge the next report.  Between its reports the task
  keeps the token 0, which is also what a client token that is no number reads as: the
  acceptance of such an update by another client sets the reported state and notifies the task,
  and the next wait for a response ends at once, without one.
\<close>

theorem foreign_response_acknowledges:
  assumes "shadow_run env prompt (Report_check, shadow_device_init n) (pc, s)"
    and "pc \<in> {Report_check, Report_delay}"
    and "response_token (dev_json env) p = Some 0" and "counting (dev_api env) pending"
  shows "\<exists>s'. shadow_step env prompt (pc, s) (pc, s')
    \<and> pending (dev_notification s') = pending (dev_notification s) + 1
    \<and> (\<forall>s2. dev_notification s2 = dev_notification s' \<longrightarrow>
         (\<exists>s3. shadow_step env prompt (Report_wait, s2) (Report_reset, s3))
         \<and> (\<forall>s3. shadow_step env prompt (Report_wait, s2) (Report_reset, s3) \<longrightarrow>
              dev_ulReportedPowerOnState s3 = dev_ulReportedPowerOnState s2))"
proof -
  have "shadow_inv prompt (pc, s)"
    by (rule shadow_inv_run [OF assms(1) shadow_inv_init])
  with assms(2) have "dev_ulClientToken s = 0" by (auto simp: shadow_inv_def)
  with dev_accepted.own [of "dev_json env" p s "dev_api env"] assms(3) obtain s' where
    s': "dev_prvIncomingPublishUpdateAcceptedCallback (dev_api env) (dev_json env) (Some p) s = Some s'"
      "dev_notification s' = xTaskNotifyGive (dev_api env) (dev_notification s)" by auto
  from assms(4) have give: "pending (dev_notification s') = pending (dev_notification s) + 1"
    by (simp add: counting_def s'(2))
  with assms(4) have "fst (ulTaskNotifyTake (dev_api env) (dev_notification s')) \<noteq> 0"
    by (simp add: counting_def)
  then have "(\<exists>s3. shadow_step env prompt (Report_wait, s2) (Report_reset, s3))
      \<and> (\<forall>s3. shadow_step env prompt (Report_wait, s2) (Report_reset, s3) \<longrightarrow>
           dev_ulReportedPowerOnState s3 = dev_ulReportedPowerOnState s2)"
    if "dev_notification s2 = dev_notification s'" for s2
    using that shadow_step.notified [of env s2 _ _ prompt] by (auto elim!: from_wait) (metis prod.collapse)
  with give s'(1) shadow_step.accepted [OF s'(1), of prompt pc] show ?thesis by blast
qed

theorem foreign_response_acknowledges_witness:
  "\<exists>s'. shadow_step demo_shadow_env False (Report_check, shadow_device_init 0) (Report_check, s')
    \<and> dev_notification s' = 1"
proof -
  have "\<not> is_digit (CHR ''a'')" "\<not> is_space (CHR ''a'')" by (simp_all add: is_digit_def is_space_def)
  then have "strtoul10 ''abc,1'' = 0"
    by (simp add: strtoul10_def digits_value_def)
  then have "response_token (dev_json demo_shadow_env) (demo_publish ''abc,1'') = Some 0"
    by (simp add: response_token_def demo_shadow_env_def demo_json_def demo_publish_def json_uint_def)
  moreover have "counting (dev_api demo_shadow_env) (\<lambda>n. n)"
    by (simp add: demo_shadow_env_def demo_counting)
  ultimately show ?thesis
    using foreign_response_acknowledges [of demo_shadow_env False 0 Report_check "shadow_device_init 0"]
    by (fastforce simp: shadow_device_init_def)
qed

text \<open>
  A run in which no step on behalf of the task, a callback or a transmission, changes the current
  or the reported state.
\<close>

definition quiet_step ::
  "'n shadow_env \<Rightarrow> bool \<Rightarrow> shadow_pc \<times> 'n shadow_device \<Rightarrow> shadow_pc \<times> 'n shadow_device \<Rightarrow> bool" where
  "quiet_step env prompt c c' \<longleftrightarrow> shadow_step env prompt c c'
     \<and> (fst c' = fst c \<longrightarrow>
          dev_ulCurrentPowerOnState (snd c') = dev_ulCurrentPowerOnState (snd c)
          \<and> dev_ulReportedPowerOnState (snd c') = dev_ulReportedPowerOnState (snd c))"

text \<open>A settled device: nothing to report, and no wait that could time out.\<close>

definition settled ::
  "('n \<Rightarrow> nat) \<Rightarrow> u32 \<Rightarrow> (u32 \<times> u32) set \<Rightarrow> shadow_pc \<times> 'n shadow_device \<Rightarrow> bool" where
  "settled pending v held = (\<lambda>(pc, s).
     pc \<in> {Report_wait, Report_reset, Report_delay, Report_check}
     \<and> (pc = Report_wait \<longrightarrow> pending (dev_notification s) \<noteq> 0)
     \<and> dev_ulCurrentPowerOnState s = v \<and> dev_ulReportedPowerOnState s = v
     \<and> set (dev_held s) \<subseteq> held)"

lemma callback_notification:
  "dev_prvIncomingPublishUpdateDeltaCallback json p s = Some s' \<Longrightarrow>
   dev_notification s' = dev_notification s"
  "dev_prvIncomingPublishUpdateAcceptedCallback api json p s = Some s' \<Longrightarrow>
   dev_notification s' \<in> {dev_notification s, xTaskNotifyGive api (dev_notification s)}"
  "dev_prvIncomingPublishUpdateRejectedCallback api json p s = Some s' \<Longrightarrow>
   dev_notification s' \<in> {dev_notification s, xTaskNotifyGive api (dev_notification s)}"
proof -
  assume cb: "dev_prvIncomingPublishUpdateDeltaCallback json p s = Some s'"
  with callback_payload(1) [OF cb] show "dev_notification s' = dev_notification s"
    by (auto simp: delta_eq apply_delta_def Let_def split: option.splits if_splits)
next
  assume cb: "dev_prvIncomingPublishUpdateAcceptedCallback api json p s = Some s'"
  with callback_payload(2) [OF cb]
  show "dev_notification s' \<in> {dev_notification s, xTaskNotifyGive api (dev_notification s)}"
    by (auto simp: accepted_eq split: option.splits if_splits)
next
  assume cb: "dev_prvIncomingPublishUpdateRejectedCallback api json p s = Some s'"
  with callback_payload(3) [OF cb]
  show "dev_notification s' \<in> {dev_notification s, xTaskNotifyGive api (dev_notification s)}"
    by (auto simp: rejected_eq split: if_splits)
qed

lemma settled_step:
  assumes "counting (dev_api env) pending"
  shows "shadow_step env prompt c c' \<Longrightarrow> settled pending v held c \<Longrightarrow>
    (fst c' = fst c \<longrightarrow>
       dev_ulCurrentPowerOnState (snd c') = dev_ulCurrentPowerOnState (snd c)
       \<and> dev_ulReportedPowerOnState (snd c') = dev_ulReportedPowerOnState (snd c)) \<Longrightarrow>
    settled pending v held c'"
proof (induction rule: shadow_step.induct)
  case (timeout s n)
  with assms have "pending (dev_notification s) = 0" by (metis counting_def fst_conv)
  with timeout show ?case by (simp add: settled_def)
next
  case (delta p s s' pc)
  with callback_frames(1) [OF delta.hyps] callback_notification(1) [OF delta.hyps] show ?case
    by (auto simp: settled_def callback_frame_def)
next
  case (accepted p s s' pc)
  with callback_frames(2) [OF accepted.hyps] callback_notification(2) [OF accepted.hyps]
    counting_give [OF assms] show ?case by (auto simp: settled_def callback_frame_def)
next
  case (rejected p s s' pc)
  with callback_frames(3) [OF rejected.hyps] callback_notification(3) [OF rejected.hyps]
    counting_give [OF assms] show ?case by (auto simp: settled_def callback_frame_def)
qed (auto simp: settled_def)

lemma settled_run:
  assumes "counting (dev_api env) pending"
  shows "(quiet_step env prompt)\<^sup>*\<^sup>* c c' \<Longrightarrow> settled pending v held c \<Longrightarrow> settled pending v held c'"
  by (induction rule: rtranclp_induct) (auto simp: quiet_step_def intro: settled_step [OF assms])

text \<open>
  C16. An answered report is settled.  When the response with the report's token arrives while
  the task waits, it can get back to the head of its loop with the state of the response as the
  reported one.  If that still is the current state, then in every run in which no callback
  changes the current or the reported state the wait does not time out, the reported state stays
  what it is and nothing more is reported: the task never gets as far as making a document, and
  the agent gets no new publish.  (A delta changes the current state; an acceptance that carries
  the token changes the reported one, and between the reports so does one of another client
  whose token is no number, see above.)
\<close>

theorem answered_report_settles:
  assumes "pPayload p = Some doc" and "response_token (dev_json env) p = Some (dev_ulClientToken s)"
    and "json_uint (dev_json env) doc (payloadLength p) ''state.reported.powerOn'' = Some v"
    and "counting (dev_api env) pending"
  shows "\<exists>s1 s'. dev_prvIncomingPublishUpdateAcceptedCallback (dev_api env) (dev_json env) (Some p) s = Some s1
    \<and> shadow_run env prompt (Report_wait, s1) (Report_check, s')
    \<and> dev_ulReportedPowerOnState s' = v \<and> dev_ulClientToken s' = 0
    \<and> dev_ulCurrentPowerOnState s' = dev_ulCurrentPowerOnState s
    \<and> dev_held s' = dev_held s \<and> dev_sent s' = dev_sent s
    \<and> (v = dev_ulCurrentPowerOnState s \<longrightarrow>
         (\<forall>pc s2. (quiet_step env prompt)\<^sup>*\<^sup>* (Report_wait, s1) (pc, s2) \<longrightarrow>
            pc \<in> {Report_wait, Report_reset, Report_delay, Report_check}
            \<and> dev_ulReportedPowerOnState s2 = v \<and> dev_ulCurrentPowerOnState s2 = v
            \<and> set (dev_held s2) \<subseteq> set (dev_held s)))"
proof -
  let ?n = "xTaskNotifyGive (dev_api env) (dev_notification s)"
  let ?s1 = "s\<lparr>dev_ulReportedPowerOnState := v, dev_notification := ?n\<rparr>"
  let ?t = "ulTaskNotifyTake (dev_api env) ?n"
  let ?s2 = "?s1\<lparr>dev_notification := snd ?t\<rparr>"
  let ?s3 = "?s2\<lparr>dev_ulClientToken := 0\<rparr>"
  have cb: "dev_prvIncomingPublishUpdateAcceptedCallback (dev_api env) (dev_json env) (Some p) s = Some ?s1"
    by (simp add: accepted_eq [OF assms(1)] assms(2,3))
  have "fst ?t \<noteq> 0" using assms(4) by (simp add: counting_def)
  then have "shadow_step env prompt (Report_wait, ?s1) (Report_reset, ?s2)"
    by (intro shadow_step.notified [of env ?s1 "fst ?t"]) simp_all
  moreover have "shadow_step env prompt (Report_reset, ?s2) (Report_delay, ?s3)" by (rule shadow_step.reset)
  moreover have "shadow_step env prompt (Report_delay, ?s3) (Report_check, ?s3)" by (rule shadow_step.delay)
  ultimately have run: "shadow_run env prompt (Report_wait, ?s1) (Report_check, ?s3)"
    by (meson converse_rtranclp_into_rtranclp rtranclp.rtrancl_refl)
  have "settled pending v (set (dev_held s)) (pc, s2)"
    if "v = dev_ulCurrentPowerOnState s" "(quiet_step env prompt)\<^sup>*\<^sup>* (Report_wait, ?s1) (pc, s2)" for pc s2
    using that(2) by (rule settled_run [OF assms(4)])
      (simp add: settled_def that(1) counting_give [OF assms(4)])
  then have quiet: "v = dev_ulCurrentPowerOnState s \<longrightarrow>
      (\<forall>pc s2. (quiet_step env prompt)\<^sup>*\<^sup>* (Report_wait, ?s1) (pc, s2) \<longrightarrow>
         pc \<in> {Report_wait, Report_reset, Report_delay, Report_check}
         \<and> dev_ulReportedPowerOnState s2 = v \<and> dev_ulCurrentPowerOnState s2 = v
         \<and> set (dev_held s2) \<subseteq> set (dev_held s))"
    unfolding settled_def by blast
  show ?thesis
    by (intro exI [of _ ?s1] exI [of _ ?s3] conjI cb run quiet) simp_all
qed

theorem answered_report_settles_witness:
  "\<exists>s1 s'. shadow_run demo_shadow_env True (Report_wait, s1) (Report_check, s')
    \<and> dev_ulReportedPowerOnState s' = 0 \<and> dev_ulCurrentPowerOnState s' = 0
    \<and> (\<forall>pc s2. (quiet_step demo_shadow_env True)\<^sup>*\<^sup>* (Report_wait, s1) (pc, s2) \<longrightarrow>
         pc \<in> {Report_wait, Report_reset, Report_delay, Report_check})"
proof -
  have num: "strtoul10 ''7,0'' = 7" "strtoul10 ''0'' = 0"
    by (simp_all add: strtoul10_def digits_value_def digit_val_def is_digit_def is_space_def)
  have "response_token (dev_json demo_shadow_env) (demo_publish ''7,0'') = Some (dev_ulClientToken demo_waiting)"
    "json_uint (dev_json demo_shadow_env) ''7,0'' (payloadLength (demo_publish ''7,0''))
       ''state.reported.powerOn'' = Some 0"
    using num by (simp_all add: response_token_def demo_shadow_env_def demo_json_def
        demo_publish_def json_uint_def demo_waiting_def)
  moreover have "pPayload (demo_publish ''7,0'') = Some ''7,0''" by (simp add: demo_publish_def)
  moreover have "counting (dev_api demo_shadow_env) (\<lambda>n. n)"
    by (simp add: demo_shadow_env_def demo_counting)
  moreover have "dev_ulCurrentPowerOnState demo_waiting = 0"
    by (simp add: demo_waiting_def shadow_device_init_def)
  ultimately show ?thesis
    using answered_report_settles [of "demo_publish ''7,0''" "''7,0''" demo_shadow_env demo_waiting 0 "\<lambda>n. n" True]
    by metis
qed

end
