(* ===== verification/Shadow_Update.thy ===== *)
theory Shadow_Update
  imports Shadow_Device
begin

text \<open>
  source/demo-tasks/shadow_update_task.c: the task that plays the cloud application and asks the
  shadow, again and again, for the other power state.  It subscribes to the same two response
  topics as the device task and recognises its responses by its own client token.  As there, a
  publish is a pointer to one static buffer, \<open>pcDesiredDocument\<close>.
\<close>

section \<open>Data\<close>

definition shadowexampleSHADOW_DESIRED_JSON :: string where
  \<open>shadowexampleSHADOW_DESIRED_JSON =
     ''{"state":{"desired":{"powerOn":%1u}},"clientToken":"%06lu"}''\<close>

definition shadowexampleSHADOW_DESIRED_JSON_LENGTH :: nat where
  "shadowexampleSHADOW_DESIRED_JSON_LENGTH = (length shadowexampleSHADOW_DESIRED_JSON + 1) - 2"

text \<open>
  \<open>upd_held\<close> are the publishes that the agent holds, each known by the number of the round that made
  it and its token; \<open>upd_rounds\<close> counts the rounds.
\<close>

record 'n shadow_update =
  upd_ulClientToken :: u32
  upd_notification :: 'n
  upd_pcDesiredDocument :: string
  upd_desiredState :: u32
  upd_rounds :: nat
  upd_held :: "(nat \<times> u32) list"
  upd_sent :: "((nat \<times> u32) \<times> string) list"

definition shadow_update_init :: "'n \<Rightarrow> 'n shadow_update" where
  "shadow_update_init n = \<lparr>
     upd_ulClientToken = 0,
     upd_notification = n,
     upd_pcDesiredDocument = replicate (shadowexampleSHADOW_DESIRED_JSON_LENGTH + 1) (CHR 0x00),
     upd_desiredState = 0,
     upd_rounds = 0,
     upd_held = [],
     upd_sent = []\<rparr>"

section \<open>Callbacks\<close>

definition upd_prvSubscribeCommandCallback ::
  "'n notify_api \<Rightarrow> shadow_topics \<Rightarrow> bool \<Rightarrow> (demo_callback, 'ctx) SubscriptionElement list option
   \<Rightarrow> 'n \<Rightarrow> (bool \<times> (demo_callback, 'ctx) SubscriptionElement list option \<times> 'n) option" where
  "upd_prvSubscribeCommandCallback api topics success pl n = do {
     (ok1, pl1) \<leftarrow>
       (if success
        then addSubscription pl (Some (SHADOW_TOPIC_UPDATE_ACCEPTED topics))
               (of_nat (length (SHADOW_TOPIC_UPDATE_ACCEPTED topics)))
               (Some upd_IncomingPublishUpdateAccepted) None
        else Some (False, pl));
     (ok2, pl2) \<leftarrow>
       (if ok1
        then addSubscription pl1 (Some (SHADOW_TOPIC_UPDATE_REJECTED topics))
               (of_nat (length (SHADOW_TOPIC_UPDATE_REJECTED topics)))
               (Some upd_IncomingPublishUpdateRejected) None
        else Some (ok1, pl1));
     Some (ok2, pl2, xTaskNotifyGive api n)
   }"

definition upd_xSubscribeInfo :: "shadow_topics \<Rightarrow> MQTTSubscribeInfo list" where
  "upd_xSubscribeInfo topics = map (\<lambda>topic. \<lparr>sub_qos = 1, pTopicFilter = Some topic,
     topicFilterLength = of_nat (length topic)\<rparr>)
     [SHADOW_TOPIC_UPDATE_ACCEPTED topics, SHADOW_TOPIC_UPDATE_REJECTED topics]"

definition upd_prvSubscribeToShadowUpdateTopics ::
  "'n notify_api \<Rightarrow> shadow_topics \<Rightarrow> (nat \<Rightarrow> bool) \<Rightarrow> bool option
   \<Rightarrow> (demo_callback, 'ctx) SubscriptionElement list option \<Rightarrow> 'n
   \<Rightarrow> (bool \<times> (demo_callback, 'ctx) SubscriptionElement list option \<times> 'n) option" where
  "upd_prvSubscribeToShadowUpdateTopics api topics queued completion pl n = do {
     let n1 = xTaskNotifyStateClear api n;
     _ \<leftarrow> subscribe_loop queued 0;
     (xReturnStatus, pl2, n2) \<leftarrow>
       (case completion of
          None \<Rightarrow> Some (False, pl, n1)
        | Some success \<Rightarrow> upd_prvSubscribeCommandCallback api topics success pl n1);
     let (ulNotificationValue, n3) = ulTaskNotifyTake api n2;
     _ \<leftarrow> configASSERT (ulNotificationValue \<noteq> 0);
     Some (xReturnStatus, pl2, n3)
   }"

text \<open>Both response callbacks do the same; they differ in what they log.\<close>

definition upd_response_callback ::
  "'n notify_api \<Rightarrow> json_api \<Rightarrow> MQTTPublishInfo option \<Rightarrow> 'n shadow_update \<Rightarrow> 'n shadow_update option" where
  "upd_response_callback api json pxPublishInfo s = do {
     _ \<leftarrow> configASSERT (pxPublishInfo \<noteq> None);
     p \<leftarrow> pxPublishInfo;
     _ \<leftarrow> configASSERT (pPayload p \<noteq> None);
     doc \<leftarrow> pPayload p;
     let result = (if JSON_Validate json doc (payloadLength p)
                   then json_uint json doc (payloadLength p) ''clientToken'' else None);
     (case result of
        None \<Rightarrow> Some s
      | Some ulReceivedToken \<Rightarrow>
          if ulReceivedToken \<noteq> upd_ulClientToken s then Some s
          else Some (s\<lparr>upd_notification := xTaskNotifyGive api (upd_notification s)\<rparr>))
   }"

definition upd_prvIncomingPublishUpdateAcceptedCallback ::
  "'n notify_api \<Rightarrow> json_api \<Rightarrow> MQTTPublishInfo option \<Rightarrow> 'n shadow_update \<Rightarrow> 'n shadow_update option" where
  "upd_prvIncomingPublishUpdateAcceptedCallback = upd_response_callback"

definition upd_prvIncomingPublishUpdateRejectedCallback ::
  "'n notify_api \<Rightarrow> json_api \<Rightarrow> MQTTPublishInfo option \<Rightarrow> 'n shadow_update \<Rightarrow> 'n shadow_update option" where
  "upd_prvIncomingPublishUpdateRejectedCallback = upd_response_callback"

section \<open>The task\<close>

datatype update_pc =
    Update_delay | Update_token | Update_clear | Update_format | Update_publish | Update_wait
  | Update_reset | Update_toggle

text \<open>\<open>prompt\<close> as for the device task: the agent is done with a publish before its buffer is reused.\<close>

inductive update_step ::
  "'n shadow_env \<Rightarrow> bool \<Rightarrow> update_pc \<times> 'n shadow_update \<Rightarrow> update_pc \<times> 'n shadow_update \<Rightarrow> bool"
  for env :: "'n shadow_env" and prompt :: bool where
  upd_delay: "update_step env prompt (Update_delay, s) (Update_token, s)"
| upd_token: "update_step env prompt (Update_token, s)
    (Update_clear, s\<lparr>upd_ulClientToken := ticks mod 1000000\<rparr>)"
| upd_clear: "prompt \<longrightarrow> upd_held s = [] \<Longrightarrow>
    update_step env prompt (Update_clear, s)
      (Update_format, s\<lparr>upd_pcDesiredDocument := clear_document shadowexampleSHADOW_DESIRED_JSON_LENGTH\<rparr>)"
| upd_format: "fill_document (upd_pcDesiredDocument s) shadowexampleSHADOW_DESIRED_JSON
      shadowexampleSHADOW_DESIRED_JSON_LENGTH (upd_desiredState s) (upd_ulClientToken s) = Some doc \<Longrightarrow>
    update_step env prompt (Update_format, s) (Update_publish, s\<lparr>upd_pcDesiredDocument := doc\<rparr>)"
| upd_publish_refused: "update_step env prompt (Update_publish, s) (Update_reset, s)"
| upd_publish_queued: "update_step env prompt (Update_publish, s)
    (Update_wait, s\<lparr>upd_held := upd_held s @ [(upd_rounds s, upd_ulClientToken s)]\<rparr>)"
| upd_waited: "ulTaskNotifyTake (dev_api env) (upd_notification s) = (v, n) \<Longrightarrow>
    update_step env prompt (Update_wait, s) (Update_reset, s\<lparr>upd_notification := n\<rparr>)"
| upd_reset: "update_step env prompt (Update_reset, s) (Update_toggle, s\<lparr>upd_ulClientToken := 0\<rparr>)"
| upd_toggle: "update_step env prompt (Update_toggle, s)
    (Update_delay, s\<lparr>upd_desiredState := if upd_desiredState s = 0 then 1 else 0,
       upd_rounds := upd_rounds s + 1\<rparr>)"
| upd_sends: "q \<in> set (upd_held s) \<Longrightarrow>
    update_step env prompt (pc, s) (pc, s\<lparr>upd_sent := upd_sent s @ [(q, upd_pcDesiredDocument s)]\<rparr>)"
| upd_finishes: "upd_held s = qs @ q # qs' \<Longrightarrow>
    update_step env prompt (pc, s) (pc, s\<lparr>upd_held := qs @ qs'\<rparr>)"
| upd_accepted: "upd_prvIncomingPublishUpdateAcceptedCallback (dev_api env) (dev_json env) p s = Some s' \<Longrightarrow>
    update_step env prompt (pc, s) (pc, s')"
| upd_rejected: "upd_prvIncomingPublishUpdateRejectedCallback (dev_api env) (dev_json env) p s = Some s' \<Longrightarrow>
    update_step env prompt (pc, s) (pc, s')"

abbreviation update_run ::
  "'n shadow_env \<Rightarrow> bool \<Rightarrow> update_pc \<times> 'n shadow_update \<Rightarrow> update_pc \<times> 'n shadow_update \<Rightarrow> bool" where
  "update_run env prompt \<equiv> rtranclp (update_step env prompt)"

section \<open>The callbacks as response handlers\<close>

lemma upd_response_eq:
  assumes "pPayload p = Some doc"
  shows "upd_response_callback api json (Some p) s =
    Some (if response_token json p = Some (upd_ulClientToken s)
          then s\<lparr>upd_notification := xTaskNotifyGive api (upd_notification s)\<rparr> else s)"
  using assms
  by (cases "response_token json p")
     (simp_all add: upd_response_callback_def response_token_doc Let_def split: if_splits)

lemma upd_response_payload:
  "upd_response_callback api json p s = Some s' \<Longrightarrow> \<exists>q doc. p = Some q \<and> pPayload q = Some doc"
  by (auto simp: upd_response_callback_def)

interpretation upd_response: response_handler upd_response_callback upd_ulClientToken upd_notification
proof
  fix p json and s :: "'a shadow_update" and api
  assume "pPayload p \<noteq> None" "response_token json p \<noteq> Some (upd_ulClientToken s)"
  then show "upd_response_callback api json (Some p) s = Some s"
    by (auto simp: upd_response_eq)
next
  fix p json and s :: "'a shadow_update" and api
  assume "response_token json p = Some (upd_ulClientToken s)"
  with response_token_payload [OF this] show
    "\<exists>s'. upd_response_callback api json (Some p) s = Some s'
       \<and> upd_ulClientToken s' = upd_ulClientToken s
       \<and> upd_notification s' = xTaskNotifyGive api (upd_notification s)"
    by (auto simp: upd_response_eq)
qed

lemma upd_response_frame:
  assumes "upd_response_callback api json p s = Some s'"
  shows "s' = s\<lparr>upd_notification := upd_notification s'\<rparr>"
  using upd_response_payload [OF assms] assms by (auto simp: upd_response_eq split: if_splits)

section \<open>Invariant\<close>

definition desired_document :: "u32 \<Rightarrow> u32 \<Rightarrow> string" where
  "desired_document b t = shadow_text ''desired'' b t @ [CHR 0x00]"

text \<open>The state that round \<open>i\<close> asks for.\<close>

definition desired_in :: "nat \<Rightarrow> u32" where
  "desired_in i = (if even i then 0 else 1)"

text \<open>What a publish should be when it is sent: the request of its round.\<close>

definition made_for :: "nat \<Rightarrow> nat \<times> u32 \<Rightarrow> string \<Rightarrow> bool" where
  "made_for n = (\<lambda>(i, t) doc. i \<le> n \<and> t < 1000000 \<and> doc = desired_document (desired_in i) t)"

definition update_inv :: "bool \<Rightarrow> update_pc \<times> 'n shadow_update \<Rightarrow> bool" where
  "update_inv prompt = (\<lambda>(pc, s).
     upd_desiredState s = desired_in (upd_rounds s) \<and> upd_ulClientToken s < 1000000
     \<and> (pc = Update_format \<longrightarrow>
          upd_pcDesiredDocument s = clear_document shadowexampleSHADOW_DESIRED_JSON_LENGTH)
     \<and> (pc = Update_publish \<longrightarrow>
          upd_pcDesiredDocument s = desired_document (upd_desiredState s) (upd_ulClientToken s))
     \<and> (prompt \<and> pc \<in> {Update_format, Update_publish} \<longrightarrow> upd_held s = [])
     \<and> (prompt \<longrightarrow> (\<forall>q \<in> set (upd_held s). made_for (upd_rounds s) q (upd_pcDesiredDocument s)))
     \<and> (prompt \<longrightarrow> (\<forall>(q, doc) \<in> set (upd_sent s). made_for (upd_rounds s) q doc)))"

lemma desired_text:
  "c_format shadowexampleSHADOW_DESIRED_JSON [Fmt_uint (unat p), Fmt_uint (unat t)] =
   shadow_text ''desired'' p t"
  by (simp add: shadowexampleSHADOW_DESIRED_JSON_def shadow_text_def six_digits_def render_06
      format_rules del: c_format.simps(2))

lemma desired_length: "shadowexampleSHADOW_DESIRED_JSON_LENGTH = 58"
  by (simp add: shadowexampleSHADOW_DESIRED_JSON_LENGTH_def shadowexampleSHADOW_DESIRED_JSON_def)

lemma fill_desired:
  assumes "t < 1000000" and "b \<in> {0, 1}"
  shows "fill_document (clear_document shadowexampleSHADOW_DESIRED_JSON_LENGTH)
      shadowexampleSHADOW_DESIRED_JSON shadowexampleSHADOW_DESIRED_JSON_LENGTH b t =
    Some (desired_document b t)"
proof -
  have "unat t < 10 ^ 6" using assms by (simp add: word_less_nat_alt)
  moreover have "length (dec (unat b)) = 1" using assms(2) length_dec_1 [of "unat b"] by auto
  ultimately have "length (shadow_text ''desired'' b t) = 58"
    by (simp add: shadow_text_def length_six_digits)
  then show ?thesis
    by (simp add: fill_document_eq desired_text desired_document_def Let_def desired_length)
qed

lemma desired_in_bit: "desired_in i \<in> {0, 1}"
  by (simp add: desired_in_def)

lemma update_inv_frame:
  "update_inv prompt (pc, s) \<Longrightarrow> update_inv prompt (pc, s\<lparr>upd_notification := n\<rparr>)"
  by (simp add: update_inv_def)

lemma update_inv_step: "update_step env prompt c c' \<Longrightarrow> update_inv prompt c \<Longrightarrow> update_inv prompt c'"
proof (induction rule: update_step.induct)
  case (upd_token s ticks)
  then show ?case by (auto simp: update_inv_def mod_million)
next
  case (upd_format s doc)
  then show ?case using desired_in_bit [of "upd_rounds s"]
    by (auto simp: update_inv_def fill_desired)
next
  case (upd_publish_queued s)
  then show ?case by (auto simp: update_inv_def made_for_def)
next
  case (upd_toggle s)
  then show ?case by (fastforce simp: update_inv_def made_for_def desired_in_def)
next
  case (upd_accepted p s s' pc)
  then show ?case
    by (metis upd_response_frame update_inv_frame upd_prvIncomingPublishUpdateAcceptedCallback_def)
next
  case (upd_rejected p s s' pc)
  then show ?case
    by (metis upd_response_frame update_inv_frame upd_prvIncomingPublishUpdateRejectedCallback_def)
qed (auto simp: update_inv_def)

lemma update_inv_run: "update_run env prompt c c' \<Longrightarrow> update_inv prompt c \<Longrightarrow> update_inv prompt c'"
  by (induction rule: rtranclp_induct) (auto intro: update_inv_step)

section \<open>Properties\<close>

text \<open>
  C35. The task asks for the other state in every round.  A publish is a pointer to the one static
  buffer, so this holds of the runs in which the agent is done with a publish before its buffer is
  reused: whatever is sent for the round \<open>i\<close>, the first being 0, is a complete document, followed by
  a NUL, that asks for the state 0 if \<open>i\<close> is even and 1 if it is odd, and carries the token, below
  one million, that the callbacks looked for when it was queued.  A response to another client, on
  either topic, never changes the task's state.
\<close>

theorem update_requests_complete:
  assumes "update_run env True (Update_delay, shadow_update_init n) (pc, s)"
  shows "(\<forall>((i, t), doc) \<in> set (upd_sent s).
       i \<le> upd_rounds s \<and> t < 1000000 \<and> doc = desired_document (if even i then 0 else 1) t)
    \<and> upd_desiredState s = (if even (upd_rounds s) then 0 else 1)
    \<and> (pPayload p \<noteq> None \<longrightarrow> response_token json p \<noteq> Some (upd_ulClientToken s) \<longrightarrow>
         upd_prvIncomingPublishUpdateAcceptedCallback api json (Some p) s = Some s
         \<and> upd_prvIncomingPublishUpdateRejectedCallback api json (Some p) s = Some s)"
proof -
  have "update_inv True (Update_delay, shadow_update_init n)"
    by (simp add: update_inv_def shadow_update_init_def desired_in_def)
  from update_inv_run [OF assms this] show ?thesis
    using upd_response.foreign [of p json s api]
    by (auto simp: update_inv_def made_for_def desired_in_def
        upd_prvIncomingPublishUpdateAcceptedCallback_def upd_prvIncomingPublishUpdateRejectedCallback_def)
qed

theorem update_requests_complete_witness:
  "\<exists>s. update_run demo_shadow_env True (Update_delay, shadow_update_init 0) (Update_wait, s)
     \<and> upd_sent s = [((0, 7), desired_document 0 7)]
     \<and> (\<forall>((i, t), doc) \<in> set (upd_sent s). t < 1000000 \<and> doc = desired_document (if even i then 0 else 1) t)"
proof -
  let ?e = "demo_shadow_env" and ?s = "shadow_update_init 0 :: nat shadow_update"
  let ?s2 = "?s\<lparr>upd_ulClientToken := 7\<rparr>"
  let ?s3 = "?s2\<lparr>upd_pcDesiredDocument := clear_document shadowexampleSHADOW_DESIRED_JSON_LENGTH\<rparr>"
  let ?s4 = "?s2\<lparr>upd_pcDesiredDocument := desired_document 0 7\<rparr>"
  let ?s5 = "?s4\<lparr>upd_held := [(0, 7)]\<rparr>"
  let ?s6 = "?s5\<lparr>upd_sent := [((0, 7), desired_document 0 7)]\<rparr>"
  have "update_step ?e True (Update_delay, ?s) (Update_token, ?s)" by (rule update_step.upd_delay)
  moreover have "update_step ?e True (Update_token, ?s) (Update_clear, ?s2)"
    using update_step.upd_token [of ?e True ?s 7] by simp
  moreover have "update_step ?e True (Update_clear, ?s2) (Update_format, ?s3)"
    by (rule update_step.upd_clear) (simp add: shadow_update_init_def)
  moreover have "update_step ?e True (Update_format, ?s3) (Update_publish, ?s4)"
    using update_step.upd_format [of ?s3 "desired_document 0 7" ?e True]
    by (simp add: fill_desired shadow_update_init_def)
  moreover have "update_step ?e True (Update_publish, ?s4) (Update_wait, ?s5)"
    using update_step.upd_publish_queued [of ?e True ?s4] by (simp add: shadow_update_init_def)
  moreover have "update_step ?e True (Update_wait, ?s5) (Update_wait, ?s6)"
    using update_step.upd_sends [of "(0, 7)" ?s5 ?e True Update_wait] by (simp add: shadow_update_init_def)
  ultimately have "update_run ?e True (Update_delay, ?s) (Update_wait, ?s6)"
    by (meson converse_rtranclp_into_rtranclp rtranclp.rtrancl_refl)
  with update_requests_complete [OF this] show ?thesis by (intro exI [of _ ?s6]) auto
qed

end
