(* ===== verification/Ota_Demo.thy ===== *)
theory Ota_Demo
  imports Agent_Client
begin

text \<open>
  source/demo-tasks/ota_over_mqtt_demo.c: the glue between the MQTT agent and the OTA library.
  Messages for the OTA agent are recognised by their topic, copied into one of a few event
  buffers and handed over as an event; the library gives a buffer back through the application
  callback when it has processed the event.

  The OTA library is a submodule.  Whether it accepts an event (\<open>OTA_SignalEvent\<close>), and what
  \<open>OTA_GetState\<close> returns, are arguments of the model; the events it accepted and has not
  processed yet are the field \<open>pending_events\<close>, each with the message it was made from.
\<close>

section \<open>Data\<close>

definition otaconfigMAX_NUM_OTA_DATA_BUFFERS :: nat where "otaconfigMAX_NUM_OTA_DATA_BUFFERS = 5"

definition OTA_TOPIC_CLIENT_IDENTIFIER_START_IDX :: nat where
  "OTA_TOPIC_CLIENT_IDENTIFIER_START_IDX = 12"

definition OTA_TOPIC_PREFIX :: string where "OTA_TOPIC_PREFIX = ''$aws/things/+/''"

definition OTA_JOB_NOTIFY_TOPIC_FILTER :: string where
  "OTA_JOB_NOTIFY_TOPIC_FILTER = OTA_TOPIC_PREFIX @ ''jobs/notify-next''"

definition OTA_JOB_ACCEPTED_RESPONSE_TOPIC_FILTER :: string where
  "OTA_JOB_ACCEPTED_RESPONSE_TOPIC_FILTER = OTA_TOPIC_PREFIX @ ''jobs/$next/get/accepted''"

definition OTA_DATA_STREAM_TOPIC_FILTER :: string where
  "OTA_DATA_STREAM_TOPIC_FILTER = OTA_TOPIC_PREFIX @ ''streams/#''"

text \<open>\<open>data\<close> has \<open>OTA_DATA_BLOCK_SIZE\<close> bytes, a constant of the library.\<close>

record OtaEventData =
  ed_data :: string
  ed_dataLength :: nat
  ed_bufferUsed :: bool

datatype OtaEvent = OtaAgentEventReceivedFileBlock | OtaAgentEventReceivedJobDocument

record ota_demo =
  eventBuffer :: "OtaEventData list"
  pending_events :: "(OtaEvent \<times> nat \<times> string) list"
  refused_events :: nat

definition ota_demo_init :: "nat \<Rightarrow> ota_demo" where
  "ota_demo_init blockSize = \<lparr>
     eventBuffer = replicate otaconfigMAX_NUM_OTA_DATA_BUFFERS
       \<lparr>ed_data = replicate blockSize (CHR 0x00), ed_dataLength = 0, ed_bufferUsed = False\<rparr>,
     pending_events = [], refused_events = 0\<rparr>"

section \<open>Event buffers\<close>

text \<open>\<open>taken\<close> is the result of \<open>xSemaphoreTake (xBufferSemaphore, portMAX_DELAY)\<close>.\<close>

definition prvOTAEventBufferFree :: "bool \<Rightarrow> nat \<Rightarrow> ota_demo \<Rightarrow> ota_demo option" where
  "prvOTAEventBufferFree taken i s =
     (if taken then do {
        b \<leftarrow> arr_get (eventBuffer s) i;
        bufs \<leftarrow> arr_set (eventBuffer s) i (b\<lparr>ed_bufferUsed := False\<rparr>);
        Some (s\<lparr>eventBuffer := bufs\<rparr>)
      }
      else Some s)"

fun buffer_scan :: "OtaEventData list \<Rightarrow> nat \<Rightarrow> nat \<Rightarrow> (nat option \<times> OtaEventData list) option" where
  "buffer_scan bufs ulIndex 0 = Some (None, bufs)"
| "buffer_scan bufs ulIndex (Suc n) = do {
     b \<leftarrow> arr_get bufs ulIndex;
     if \<not> ed_bufferUsed b then do {
       bufs' \<leftarrow> arr_set bufs ulIndex (b\<lparr>ed_bufferUsed := True\<rparr>);
       Some (Some ulIndex, bufs')
     }
     else buffer_scan bufs (Suc ulIndex) n
   }"

definition prvOTAEventBufferGet :: "bool \<Rightarrow> ota_demo \<Rightarrow> (nat option \<times> ota_demo) option" where
  "prvOTAEventBufferGet taken s =
     (if taken then do {
        (found, bufs) \<leftarrow> buffer_scan (eventBuffer s) 0 otaconfigMAX_NUM_OTA_DATA_BUFFERS;
        Some (found, s\<lparr>eventBuffer := bufs\<rparr>)
      }
      else Some (None, s))"

section \<open>Incoming messages\<close>

definition OTA_SignalEvent :: "bool \<Rightarrow> OtaEvent \<Rightarrow> nat \<Rightarrow> string \<Rightarrow> ota_demo \<Rightarrow> ota_demo" where
  "OTA_SignalEvent accepted ev i msg s =
     (if accepted then s\<lparr>pending_events := pending_events s @ [(ev, i, msg)]\<rparr>
      else s\<lparr>refused_events := refused_events s + 1\<rparr>)"

text \<open>The two functions below differ in the event they signal.\<close>

definition process_incoming ::
  "OtaEvent \<Rightarrow> nat \<Rightarrow> bool \<Rightarrow> bool \<Rightarrow> MQTTPublishInfo option \<Rightarrow> ota_demo \<Rightarrow> ota_demo option" where
  "process_incoming ev blockSize taken accepted pPublishInfo s = do {
     _ \<leftarrow> configASSERT (pPublishInfo \<noteq> None);
     p \<leftarrow> pPublishInfo;
     _ \<leftarrow> configASSERT (payloadLength p \<le> blockSize);
     (pData, s1) \<leftarrow> prvOTAEventBufferGet taken s;
     (case pData of
        None \<Rightarrow> Some s1
      | Some i \<Rightarrow> do {
          bytes \<leftarrow> payload_bytes p;
          b \<leftarrow> arr_get (eventBuffer s1) i;
          data \<leftarrow> mem_write (ed_data b) 0 bytes;
          bufs \<leftarrow> arr_set (eventBuffer s1) i (b\<lparr>ed_data := data, ed_dataLength := payloadLength p\<rparr>);
          Some (OTA_SignalEvent accepted ev i bytes (s1\<lparr>eventBuffer := bufs\<rparr>))
        })
   }"

definition prvProcessIncomingData ::
  "nat \<Rightarrow> bool \<Rightarrow> bool \<Rightarrow> MQTTPublishInfo option \<Rightarrow> ota_demo \<Rightarrow> ota_demo option" where
  "prvProcessIncomingData = process_incoming OtaAgentEventReceivedFileBlock"

definition prvProcessIncomingJobMessage ::
  "nat \<Rightarrow> bool \<Rightarrow> bool \<Rightarrow> MQTTPublishInfo option \<Rightarrow> ota_demo \<Rightarrow> ota_demo option" where
  "prvProcessIncomingJobMessage = process_incoming OtaAgentEventReceivedJobDocument"

text \<open>The loop over the topic from \<open>idx\<close>, with \<open>n\<close> of its characters left.\<close>

fun client_id_loop :: "string \<Rightarrow> string \<Rightarrow> nat \<Rightarrow> nat \<Rightarrow> nat \<Rightarrow> nat \<Rightarrow> bool option" where
  "client_id_loop topic cid len idx matchIdx 0 = Some False"
| "client_id_loop topic cid len idx matchIdx (Suc n) = do {
     c \<leftarrow> arr_get topic idx;
     if matchIdx = len then Some (c = CHR ''/'')
     else do {
       d \<leftarrow> arr_get cid matchIdx;
       if d \<noteq> c then Some False
       else client_id_loop topic cid len (Suc idx) (Suc matchIdx) n
     }
   }"

definition prvMatchClientIdentifierInTopic :: "string \<Rightarrow> nat \<Rightarrow> string \<Rightarrow> nat \<Rightarrow> bool option" where
  "prvMatchClientIdentifierInTopic pTopic topicLength cid len =
     client_id_loop pTopic cid len OTA_TOPIC_CLIENT_IDENTIFIER_START_IDX 0
       (topicLength - OTA_TOPIC_CLIENT_IDENTIFIER_START_IDX)"

text \<open>\<open>matches\<close> is \<open>MQTT_MatchTopic\<close>; an error leaves \<open>isMatch\<close> as it was.\<close>

definition filter_match :: "match_topic \<Rightarrow> MQTTPublishInfo \<Rightarrow> string \<Rightarrow> bool" where
  "filter_match matches p flt =
     (case matches (pTopicName p) (topicNameLength p) flt (of_nat (length flt)) of
        Some b \<Rightarrow> b | None \<Rightarrow> False)"

definition vOTAProcessMessage ::
  "match_topic \<Rightarrow> string \<Rightarrow> nat \<Rightarrow> bool \<Rightarrow> bool \<Rightarrow> MQTTPublishInfo \<Rightarrow> ota_demo
   \<Rightarrow> (bool \<times> ota_demo) option" where
  "vOTAProcessMessage matches cid blockSize taken accepted p s = do {
     (m1, s1) \<leftarrow>
       (if filter_match matches p OTA_JOB_ACCEPTED_RESPONSE_TOPIC_FILTER then do {
          mine \<leftarrow> prvMatchClientIdentifierInTopic (pTopicName p) (unat (topicNameLength p)) cid (length cid);
          if mine then do {
            s' \<leftarrow> prvProcessIncomingJobMessage blockSize taken accepted (Some p) s;
            Some (True, s')
          }
          else Some (False, s)
        }
        else Some (False, s));
     (m2, s2) \<leftarrow>
       (if \<not> m1 then
          if filter_match matches p OTA_JOB_NOTIFY_TOPIC_FILTER then do {
            s' \<leftarrow> prvProcessIncomingJobMessage blockSize taken accepted (Some p) s1;
            Some (True, s')
          }
          else Some (False, s1)
        else Some (m1, s1));
     (if \<not> m2 then
        if filter_match matches p OTA_DATA_STREAM_TOPIC_FILTER then do {
          s' \<leftarrow> prvProcessIncomingData blockSize taken accepted (Some p) s2;
          Some (True, s')
        }
        else Some (False, s2)
      else Some (m2, s2))
   }"

section \<open>The application callback\<close>

datatype OtaJobEvent =
    OtaJobEventActivate | OtaJobEventFail | OtaJobEventStartTest | OtaJobEventProcessed
  | OtaJobEventSelfTestFailed | OtaJobEventOther

datatype ota_call = OTA_ActivateNewImage | OTA_Shutdown nat nat | OTA_SetImageState_Accepted

text \<open>The calls of the OTA library it makes, and the state; \<open>pData\<close> is the buffer's index.\<close>

definition otaAppCallback ::
  "bool \<Rightarrow> OtaJobEvent \<Rightarrow> nat option \<Rightarrow> ota_demo \<Rightarrow> (ota_call list \<times> ota_demo) option" where
  "otaAppCallback taken event pData s =
     (case event of
        OtaJobEventActivate \<Rightarrow> Some ([OTA_ActivateNewImage, OTA_Shutdown 0 1], s)
      | OtaJobEventFail \<Rightarrow> Some ([], s)
      | OtaJobEventStartTest \<Rightarrow> Some ([OTA_SetImageState_Accepted], s)
      | OtaJobEventProcessed \<Rightarrow> do {
          _ \<leftarrow> configASSERT (pData \<noteq> None);
          i \<leftarrow> pData;
          s' \<leftarrow> prvOTAEventBufferFree taken i s;
          Some ([], s')
        }
      | OtaJobEventSelfTestFailed \<Rightarrow> Some ([OTA_Shutdown 0 1], s)
      | OtaJobEventOther \<Rightarrow> Some ([], s))"

section \<open>Commands to the MQTT agent\<close>

text \<open>
  The three functions of the OTA MQTT interface enqueue a command, whose completion callback
  writes the result into a context on the caller's stack, and wait for the notification that the
  callback sends.  \<open>queued\<close> is the status of enqueueing and \<open>completion\<close> the result that the
  callback delivers within the wait, \<open>None\<close> when the wait times out.
\<close>

record ota_mqtt =
  ota_MQTTSuccess :: int
  ota_MQTTRecvFailed :: int
  ota_MQTTSendFailed :: int

datatype OtaMqttStatus =
  OtaMqttSuccess | OtaMqttPublishFailed | OtaMqttSubscribeFailed | OtaMqttUnsubscribeFailed

record ota_command_context =
  xReturnStatus :: int
  xTaskToNotify :: "nat option"

text \<open>The context and the task that is notified, with the notification value.\<close>

definition prvCommandCallback ::
  "ota_command_context \<Rightarrow> int \<Rightarrow> ota_command_context \<times> (nat \<times> u32) option" where
  "prvCommandCallback ctx returnCode =
     (let ctx' = ctx\<lparr>xReturnStatus := returnCode\<rparr>
      in (ctx', map_option (\<lambda>task. (task, of_int returnCode)) (xTaskToNotify ctx')))"

definition ota_wait :: "ota_mqtt \<Rightarrow> int \<Rightarrow> int \<Rightarrow> int option \<Rightarrow> int" where
  "ota_wait m timeoutStatus queued completion =
     (if queued = ota_MQTTSuccess m then
        (case completion of
           Some returnCode \<Rightarrow>
             xReturnStatus (fst (prvCommandCallback \<lparr>xReturnStatus = 0, xTaskToNotify = Some 0\<rparr> returnCode))
         | None \<Rightarrow> timeoutStatus)
      else queued)"

definition prvMQTTSubscribe ::
  "ota_mqtt \<Rightarrow> int \<Rightarrow> int option \<Rightarrow> string option \<Rightarrow> u16 \<Rightarrow> OtaMqttStatus option" where
  "prvMQTTSubscribe m queued completion pTopic len = do {
     _ \<leftarrow> configASSERT (pTopic \<noteq> None);
     _ \<leftarrow> configASSERT (len > 0);
     let mqttStatus = ota_wait m (ota_MQTTRecvFailed m) queued completion;
     Some (if mqttStatus \<noteq> ota_MQTTSuccess m then OtaMqttSubscribeFailed else OtaMqttSuccess)
   }"

definition prvMQTTPublish :: "ota_mqtt \<Rightarrow> int \<Rightarrow> int option \<Rightarrow> OtaMqttStatus" where
  "prvMQTTPublish m queued completion =
     (let mqttStatus = ota_wait m (ota_MQTTSendFailed m) queued completion
      in if mqttStatus \<noteq> ota_MQTTSuccess m then OtaMqttPublishFailed else OtaMqttSuccess)"

definition prvMQTTUnsubscribe ::
  "ota_mqtt \<Rightarrow> int \<Rightarrow> int option \<Rightarrow> string option \<Rightarrow> u16 \<Rightarrow> OtaMqttStatus option" where
  "prvMQTTUnsubscribe m queued completion pTopic len = do {
     _ \<leftarrow> configASSERT (pTopic \<noteq> None);
     _ \<leftarrow> configASSERT (len > 0);
     let mqttStatus = ota_wait m (ota_MQTTRecvFailed m) queued completion;
     Some (if mqttStatus \<noteq> ota_MQTTSuccess m then OtaMqttUnsubscribeFailed else OtaMqttSuccess)
   }"

text \<open>
  The life of the context of one command: it is on the stack of the function, which is gone once
  the function has returned, while the agent keeps the pointer until it completes the command.
\<close>

record command_life =
  life_on_stack :: bool
  life_queued :: bool
  life_dangling_write :: bool

inductive command_life_step :: "command_life \<Rightarrow> command_life \<Rightarrow> bool" where
  life_complete: "life_queued l \<Longrightarrow>
    command_life_step l (l\<lparr>life_queued := False,
      life_dangling_write := life_dangling_write l \<or> \<not> life_on_stack l\<rparr>)"
| life_return: "life_on_stack l \<Longrightarrow> command_life_step l (l\<lparr>life_on_stack := False\<rparr>)"

definition life_start :: command_life where
  "life_start = \<lparr>life_on_stack = True, life_queued = True, life_dangling_write = False\<rparr>"

section \<open>Suspending and resuming\<close>

text \<open>\<open>st i\<close> is the answer to the \<open>i\<close>-th call of \<open>OTA_GetState\<close>.\<close>

datatype OtaState = OtaAgentStateSuspended | OtaAgentStateStopped | OtaAgentStateOther

partial_function (option) suspend_loop :: "(nat \<Rightarrow> OtaState) \<Rightarrow> nat \<Rightarrow> nat option" where
  "suspend_loop st i =
     (if st i \<noteq> OtaAgentStateSuspended
      then if st (i + 1) \<noteq> OtaAgentStateStopped then suspend_loop st (i + 2) else Some (i + 2)
      else Some (i + 1))"

text \<open>Whether \<open>OTA_Suspend\<close> is called, and the number of calls of \<open>OTA_GetState\<close>.\<close>

definition vSuspendOTACodeSigningDemo_run :: "(nat \<Rightarrow> OtaState) \<Rightarrow> (bool \<times> nat) option" where
  "vSuspendOTACodeSigningDemo_run st =
     (if st 0 \<noteq> OtaAgentStateSuspended
      then if st 1 \<noteq> OtaAgentStateStopped
           then do { n \<leftarrow> suspend_loop st 2; Some (True, n) }
           else Some (False, 2)
      else Some (False, 1))"

partial_function (option) resume_loop :: "(nat \<Rightarrow> OtaState) \<Rightarrow> nat \<Rightarrow> nat option" where
  "resume_loop st i = (if st i = OtaAgentStateSuspended then resume_loop st (i + 1) else Some (i + 1))"

definition vResumeOTACodeSigningDemo_run :: "(nat \<Rightarrow> OtaState) \<Rightarrow> (bool \<times> nat) option" where
  "vResumeOTACodeSigningDemo_run st =
     (if st 0 = OtaAgentStateSuspended then do { n \<leftarrow> resume_loop st 1; Some (True, n) }
      else Some (False, 1))"

section \<open>The demo task\<close>

text \<open>The loop that reports statistics every second until the agent has stopped.\<close>

partial_function (option) statistics_loop :: "(nat \<Rightarrow> OtaState) \<Rightarrow> nat \<Rightarrow> nat option" where
  "statistics_loop st i = (if st i \<noteq> OtaAgentStateStopped then statistics_loop st (i + 1) else Some i)"

text \<open>
  The functions that the OTA library is handed: of its own port to the kernel, of this file and
  of ota_pal.c.
\<close>

datatype ota_function =
    Fn_OtaInitEvent_FreeRTOS | Fn_OtaSendEvent_FreeRTOS | Fn_OtaReceiveEvent_FreeRTOS
  | Fn_OtaDeinitEvent_FreeRTOS | Fn_OtaStartTimer_FreeRTOS | Fn_OtaStopTimer_FreeRTOS
  | Fn_OtaDeleteTimer_FreeRTOS | Fn_Malloc_FreeRTOS | Fn_Free_FreeRTOS | Fn_prvMQTTSubscribe
  | Fn_prvMQTTPublish | Fn_prvMQTTUnsubscribe | Fn_otaPal_GetPlatformImageState
  | Fn_otaPal_SetPlatformImageState | Fn_otaPal_WriteBlock | Fn_otaPal_ActivateNewImage
  | Fn_otaPal_CloseFile | Fn_otaPal_ResetDevice | Fn_otaPal_Abort | Fn_otaPal_CreateFileForRx

record OtaInterfaces =
  os_event_init :: ota_function
  os_event_send :: ota_function
  os_event_recv :: ota_function
  os_event_deinit :: ota_function
  os_timer_start :: ota_function
  os_timer_stop :: ota_function
  os_timer_delete :: ota_function
  os_mem_malloc :: ota_function
  os_mem_free :: ota_function
  mqtt_subscribe :: ota_function
  mqtt_publish :: ota_function
  mqtt_unsubscribe :: ota_function
  pal_getPlatformImageState :: ota_function
  pal_setPlatformImageState :: ota_function
  pal_writeBlock :: ota_function
  pal_activate :: ota_function
  pal_closeFile :: ota_function
  pal_reset :: ota_function
  pal_abort :: ota_function
  pal_createFile :: ota_function

definition setOtaInterfaces :: "OtaInterfaces option \<Rightarrow> OtaInterfaces option" where
  "setOtaInterfaces pOtaInterfaces = do {
     _ \<leftarrow> configASSERT (pOtaInterfaces \<noteq> None);
     interfaces \<leftarrow> pOtaInterfaces;
     Some (interfaces\<lparr>
       os_event_init := Fn_OtaInitEvent_FreeRTOS, os_event_send := Fn_OtaSendEvent_FreeRTOS,
       os_event_recv := Fn_OtaReceiveEvent_FreeRTOS,
       os_event_deinit := Fn_OtaDeinitEvent_FreeRTOS,
       os_timer_start := Fn_OtaStartTimer_FreeRTOS, os_timer_stop := Fn_OtaStopTimer_FreeRTOS,
       os_timer_delete := Fn_OtaDeleteTimer_FreeRTOS, os_mem_malloc := Fn_Malloc_FreeRTOS,
       os_mem_free := Fn_Free_FreeRTOS, mqtt_subscribe := Fn_prvMQTTSubscribe,
       mqtt_publish := Fn_prvMQTTPublish, mqtt_unsubscribe := Fn_prvMQTTUnsubscribe,
       pal_getPlatformImageState := Fn_otaPal_GetPlatformImageState,
       pal_setPlatformImageState := Fn_otaPal_SetPlatformImageState,
       pal_writeBlock := Fn_otaPal_WriteBlock, pal_activate := Fn_otaPal_ActivateNewImage,
       pal_closeFile := Fn_otaPal_CloseFile, pal_reset := Fn_otaPal_ResetDevice,
       pal_abort := Fn_otaPal_Abort, pal_createFile := Fn_otaPal_CreateFileForRx\<rparr>)
   }"

text \<open>The task that runs the OTA agent: the library's event loop, then its end.\<close>

datatype agent_task_call = Agent_EventProcessingTask | Agent_delete

definition prvOTAAgentTask :: "agent_task_call list" where
  "prvOTAAgentTask = [Agent_EventProcessingTask, Agent_delete]"

text \<open>The calls of the kernel and the library that change something, in their order.\<close>

datatype ota_task_call =
    Task_OTA_Init | Task_create_agent | Task_signal_start | Task_get_statistics | Task_delete

definition prvOTADemoTask ::
  "nat \<Rightarrow> bool \<Rightarrow> bool \<Rightarrow> bool \<Rightarrow> (nat \<Rightarrow> OtaState) \<Rightarrow> ota_demo
   \<Rightarrow> (ota_task_call list \<times> ota_demo) option" where
  "prvOTADemoTask blockSize mutexCreated initOk taskCreated st s =
     (if \<not> mutexCreated then Some ([Task_delete], s)
      else (let s1 = s\<lparr>eventBuffer := eventBuffer (ota_demo_init blockSize)\<rparr>
            in if \<not> initOk then Some ([Task_OTA_Init, Task_delete], s1)
               else if \<not> taskCreated then Some ([Task_OTA_Init, Task_create_agent, Task_delete], s1)
               else do {
                 n \<leftarrow> statistics_loop st 0;
                 Some ([Task_OTA_Init, Task_create_agent, Task_signal_start]
                       @ replicate n Task_get_statistics @ [Task_delete], s1)
               }))"

section \<open>Steps\<close>

text \<open>
  A message arrives, or the OTA agent finishes any one of its pending events.  With
  \<open>portMAX_DELAY\<close> a take of the mutex returns only when it has succeeded.
\<close>

inductive ota_step :: "match_topic \<Rightarrow> string \<Rightarrow> nat \<Rightarrow> ota_demo \<Rightarrow> ota_demo \<Rightarrow> bool"
  for matches cid blockSize where
  ota_received: "vOTAProcessMessage matches cid blockSize True accepted p s = Some (handled, s') \<Longrightarrow>
    ota_step matches cid blockSize s s'"
| ota_processed: "pending_events s = qs @ (ev, i, msg) # qs' \<Longrightarrow>
    otaAppCallback True OtaJobEventProcessed (Some i) (s\<lparr>pending_events := qs @ qs'\<rparr>) = Some (cs, s') \<Longrightarrow>
    ota_step matches cid blockSize s s'"
| ota_event: "event \<noteq> OtaJobEventProcessed \<Longrightarrow> otaAppCallback True event pData s = Some (cs, s') \<Longrightarrow>
    ota_step matches cid blockSize s s'"

abbreviation ota_run :: "match_topic \<Rightarrow> string \<Rightarrow> nat \<Rightarrow> ota_demo \<Rightarrow> ota_demo \<Rightarrow> bool" where
  "ota_run matches cid blockSize \<equiv> rtranclp (ota_step matches cid blockSize)"

section \<open>Invariant\<close>

definition used_buffers :: "ota_demo \<Rightarrow> nat" where
  "used_buffers s = length (filter ed_bufferUsed (eventBuffer s))"

text \<open>
  The buffers of the pending events are different, in use, and hold the message of their event;
  every other buffer in use belongs to an event that was refused.
\<close>

definition event_ok :: "OtaEventData list \<Rightarrow> OtaEvent \<times> nat \<times> string \<Rightarrow> bool" where
  "event_ok bufs = (\<lambda>(ev, i, msg). i < length bufs \<and> ed_bufferUsed (bufs ! i)
     \<and> ed_dataLength (bufs ! i) = length msg \<and> take (length msg) (ed_data (bufs ! i)) = msg)"

definition event_index :: "OtaEvent \<times> nat \<times> string \<Rightarrow> nat" where
  "event_index = (\<lambda>(ev, i, msg). i)"

definition ota_inv :: "nat \<Rightarrow> ota_demo \<Rightarrow> bool" where
  "ota_inv blockSize s \<longleftrightarrow>
     length (eventBuffer s) = otaconfigMAX_NUM_OTA_DATA_BUFFERS
     \<and> (\<forall>b \<in> set (eventBuffer s). length (ed_data b) = blockSize)
     \<and> (\<forall>e \<in> set (pending_events s). event_ok (eventBuffer s) e)
     \<and> distinct (map event_index (pending_events s))
     \<and> used_buffers s = length (pending_events s) + refused_events s"

lemma buffer_scan_eq:
  "i + n \<le> length bufs \<Longrightarrow> buffer_scan bufs i n =
     Some (if \<exists>j. i \<le> j \<and> j < i + n \<and> \<not> ed_bufferUsed (bufs ! j)
           then let j = (LEAST j. i \<le> j \<and> \<not> ed_bufferUsed (bufs ! j))
                in (Some j, bufs[j := (bufs ! j)\<lparr>ed_bufferUsed := True\<rparr>])
           else (None, bufs))"
proof (induction bufs i n rule: buffer_scan.induct)
  case (1 bufs i)
  then show ?case by auto
next
  case (2 bufs i n)
  show ?case
  proof (cases "ed_bufferUsed (bufs ! i)")
    case False
    then have "(LEAST j. i \<le> j \<and> \<not> ed_bufferUsed (bufs ! j)) = i"
      by (intro Least_equality) auto
    moreover have "\<exists>j. i \<le> j \<and> j < i + Suc n \<and> \<not> ed_bufferUsed (bufs ! j)"
      using False by (intro exI [of _ i]) simp
    ultimately show ?thesis using False "2.prems" by (simp add: Let_def)
  next
    case True
    have step: "buffer_scan bufs i (Suc n) = buffer_scan bufs (Suc i) n"
      using True "2.prems" by simp
    have ex: "(\<exists>j. i \<le> j \<and> j < i + Suc n \<and> \<not> ed_bufferUsed (bufs ! j))
        \<longleftrightarrow> (\<exists>j. Suc i \<le> j \<and> j < Suc i + n \<and> \<not> ed_bufferUsed (bufs ! j))"
      using True by (metis Suc_leD add_Suc_right add_Suc le_antisym not_less_eq_eq)
    have least: "(\<lambda>j. i \<le> j \<and> \<not> ed_bufferUsed (bufs ! j)) =
        (\<lambda>j. Suc i \<le> j \<and> \<not> ed_bufferUsed (bufs ! j))"
      using True by (metis Suc_leD le_antisym not_less_eq_eq)
    show ?thesis
      unfolding step ex least using True "2.prems" "2.IH" [of "bufs ! i"] by simp
  qed
qed

text \<open>Getting a buffer: a free one, now marked, or none when all are in use.\<close>

lemma get_buffer:
  assumes "ota_inv blockSize s"
  obtains i where "i < length (eventBuffer s)" "\<not> ed_bufferUsed (eventBuffer s ! i)"
      "prvOTAEventBufferGet True s = Some (Some i,
         s\<lparr>eventBuffer := (eventBuffer s)[i := (eventBuffer s ! i)\<lparr>ed_bufferUsed := True\<rparr>]\<rparr>)"
  | "\<forall>b \<in> set (eventBuffer s). ed_bufferUsed b" "prvOTAEventBufferGet True s = Some (None, s)"
proof -
  let ?bufs = "eventBuffer s" and ?n = otaconfigMAX_NUM_OTA_DATA_BUFFERS
  let ?P = "\<lambda>j. 0 \<le> j \<and> \<not> ed_bufferUsed (?bufs ! j)"
  have len: "length ?bufs = ?n" using assms by (simp add: ota_inv_def)
  have scan: "buffer_scan ?bufs 0 ?n =
     Some (if \<exists>j. 0 \<le> j \<and> j < 0 + ?n \<and> \<not> ed_bufferUsed (?bufs ! j)
           then let j = (LEAST j. ?P j) in (Some j, ?bufs[j := (?bufs ! j)\<lparr>ed_bufferUsed := True\<rparr>])
           else (None, ?bufs))"
    by (rule buffer_scan_eq) (simp add: len)
  show thesis
  proof (cases "\<exists>j < ?n. \<not> ed_bufferUsed (?bufs ! j)")
    case True
    then obtain j where j: "j < ?n" "?P j" by auto
    let ?i = "LEAST j. ?P j"
    have "?P ?i" using LeastI [of ?P, OF j(2)] .
    moreover have "?i \<le> j" using Least_le [of ?P, OF j(2)] .
    ultimately show thesis
      using j(1) True by (intro that(1) [of ?i]) (simp_all add: len prvOTAEventBufferGet_def scan Let_def)
  next
    case False
    then show thesis
      using len by (intro that(2)) (auto simp: prvOTAEventBufferGet_def scan in_set_conv_nth)
  qed
qed

lemma length_filter_update:
  "i < length xs \<Longrightarrow> P x \<Longrightarrow> \<not> P (xs ! i) \<Longrightarrow> length (filter P (xs[i := x])) = length (filter P xs) + 1"
  "i < length xs \<Longrightarrow> \<not> P x \<Longrightarrow> P (xs ! i) \<Longrightarrow> length (filter P (xs[i := x])) + 1 = length (filter P xs)"
proof -
  assume i: "i < length xs"
  have split: "xs = take i xs @ xs ! i # drop (Suc i) xs" "xs[i := x] = take i xs @ x # drop (Suc i) xs"
    using i by (simp_all add: id_take_nth_drop upd_conv_take_nth_drop)
  have len: "length (filter P ys) = length (filter P (take i xs)) + length (filter P (y # drop (Suc i) xs))"
    if "ys = take i xs @ y # drop (Suc i) xs" for y ys
    by (subst that) simp
  note lens = len [OF split(1)] len [OF split(2)]
  show "P x \<Longrightarrow> \<not> P (xs ! i) \<Longrightarrow> length (filter P (xs[i := x])) = length (filter P xs) + 1"
    using lens by simp
  show "\<not> P x \<Longrightarrow> P (xs ! i) \<Longrightarrow> length (filter P (xs[i := x])) + 1 = length (filter P xs)"
    using lens by simp
qed

text \<open>A buffer that is not an event's can change without disturbing the event.\<close>

lemma event_ok_other:
  "event_ok bufs e \<Longrightarrow> event_index e \<noteq> i \<Longrightarrow> event_ok (bufs[i := b]) e"
  by (auto simp: event_ok_def event_index_def)

lemma event_used: "event_ok bufs e \<Longrightarrow> ed_bufferUsed (bufs ! event_index e)"
  by (auto simp: event_ok_def event_index_def)

lemma process_incoming_inv:
  assumes inv: "ota_inv blockSize s"
    and run: "process_incoming ev blockSize True accepted (Some p) s = Some s'"
  shows "ota_inv blockSize s'"
  using inv
proof (cases rule: get_buffer)
  case (1 i)
  let ?b = "(eventBuffer s ! i)\<lparr>ed_bufferUsed := True\<rparr>"
  from run 1 obtain bytes where bytes: "payload_bytes p = Some bytes"
    by (auto simp: process_incoming_def)
  note n = payload_length [OF bytes]
  have len: "length (ed_data (eventBuffer s ! i)) = blockSize"
    using inv 1(1) by (simp add: ota_inv_def)
  let ?nb = "?b\<lparr>ed_data := bytes @ drop (length bytes) (ed_data ?b), ed_dataLength := length bytes\<rparr>"
  let ?bufs = "(eventBuffer s)[i := ?nb]"
  have fits: "length bytes \<le> blockSize" using run n by (auto simp: process_incoming_def)
  have s': "s' = OTA_SignalEvent accepted ev i bytes (s\<lparr>eventBuffer := ?bufs\<rparr>)"
    using run 1 bytes n len fits by (auto simp: process_incoming_def)
  have others: "event_ok ?bufs e" if "e \<in> set (pending_events s)" for e
  proof (rule event_ok_other)
    show ok: "event_ok (eventBuffer s) e" using inv that by (simp add: ota_inv_def)
    show "event_index e \<noteq> i" using event_used [OF ok] 1(2) by auto
  qed
  have new: "event_ok ?bufs (ev, i, bytes)" using 1(1) by (simp add: event_ok_def)
  have fresh: "i \<notin> event_index ` set (pending_events s)"
    using inv 1(2) event_used by (auto simp: ota_inv_def)
  have used: "length (filter ed_bufferUsed ?bufs) = used_buffers s + 1"
    using 1(1,2) by (simp add: length_filter_update used_buffers_def)
  have lens: "\<forall>b \<in> set ?bufs. length (ed_data b) = blockSize"
    using inv fits len by (auto simp: ota_inv_def dest!: set_update_subset_insert [THEN subsetD])
  show ?thesis
    using inv others new fresh used lens unfolding s'
    by (cases accepted) (auto simp: ota_inv_def OTA_SignalEvent_def used_buffers_def event_index_def)
next
  case 2
  with run have "s' = s" by (auto simp: process_incoming_def)
  with inv show ?thesis by simp
qed

lemma process_message_inv:
  assumes "ota_inv blockSize s"
    and "vOTAProcessMessage matches cid blockSize True accepted p s = Some (handled, s')"
  shows "ota_inv blockSize s'"
  using assms process_incoming_inv
  by (auto simp: vOTAProcessMessage_def prvProcessIncomingData_def prvProcessIncomingJobMessage_def
      split: if_splits)

lemma processed_inv:
  assumes inv: "ota_inv blockSize s" and q: "pending_events s = qs @ (ev, i, msg) # qs'"
    and free: "prvOTAEventBufferFree True i (s\<lparr>pending_events := qs @ qs'\<rparr>) = Some s'"
  shows "ota_inv blockSize s'"
proof -
  let ?nb = "(eventBuffer s ! i)\<lparr>ed_bufferUsed := False\<rparr>"
  from inv q have ok: "event_ok (eventBuffer s) (ev, i, msg)" by (simp add: ota_inv_def)
  then have i: "i < length (eventBuffer s)" "ed_bufferUsed (eventBuffer s ! i)"
    by (simp_all add: event_ok_def)
  have s': "s' = s\<lparr>pending_events := qs @ qs', eventBuffer := (eventBuffer s)[i := ?nb]\<rparr>"
    using free i by (simp add: prvOTAEventBufferFree_def)
  have others: "event_ok ((eventBuffer s)[i := ?nb]) e" if "e \<in> set (qs @ qs')" for e
  proof (rule event_ok_other)
    show "event_ok (eventBuffer s) e" using inv that q by (auto simp: ota_inv_def)
    show "event_index e \<noteq> i" using inv that q by (auto simp: ota_inv_def event_index_def)
  qed
  have used: "length (filter ed_bufferUsed ((eventBuffer s)[i := ?nb])) + 1 = used_buffers s"
    unfolding used_buffers_def by (rule length_filter_update(2)) (simp_all add: i)
  have lens: "\<forall>b \<in> set ((eventBuffer s)[i := ?nb]). length (ed_data b) = blockSize"
    using inv i by (auto simp: ota_inv_def dest!: set_update_subset_insert [THEN subsetD])
  have "used_buffers s = length (qs @ qs') + 1 + refused_events s"
    using inv q by (simp add: ota_inv_def)
  with used have count: "length (filter ed_bufferUsed ((eventBuffer s)[i := ?nb]))
      = length (qs @ qs') + refused_events s" by linarith
  have "distinct (map event_index (qs @ qs'))" "length (eventBuffer s) = otaconfigMAX_NUM_OTA_DATA_BUFFERS"
    using inv q by (simp_all add: ota_inv_def)
  with others lens count show ?thesis
    unfolding s' ota_inv_def used_buffers_def by simp
qed

lemma ota_inv_step: "ota_step matches cid blockSize s s' \<Longrightarrow> ota_inv blockSize s \<Longrightarrow> ota_inv blockSize s'"
proof (induction rule: ota_step.induct)
  case (ota_received accepted p s handled s')
  from process_message_inv [OF ota_received.prems ota_received.hyps] show ?case .
next
  case (ota_processed s qs ev i msg qs' cs s')
  then have "prvOTAEventBufferFree True i (s\<lparr>pending_events := qs @ qs'\<rparr>) = Some s'"
    by (simp add: otaAppCallback_def)
  from processed_inv [OF ota_processed.prems ota_processed.hyps(1) this] show ?case .
next
  case (ota_event event pData s cs s')
  then show ?case by (cases event) (auto simp: otaAppCallback_def)
qed

lemma ota_inv_init: "ota_inv blockSize (ota_demo_init blockSize)"
  by (simp add: ota_inv_def ota_demo_init_def used_buffers_def)

lemma ota_inv_run: "ota_run matches cid blockSize s s' \<Longrightarrow> ota_inv blockSize s \<Longrightarrow> ota_inv blockSize s'"
  by (induction rule: rtranclp_induct) (assumption, rule ota_inv_step)

section \<open>Topics, commands and loops\<close>

lemma client_id_loop_eq:
  "idx + n \<le> length topic \<Longrightarrow> m \<le> length cid \<Longrightarrow>
   client_id_loop topic cid (length cid) idx m n =
     Some (\<exists>rest. take n (drop idx topic) = drop m cid @ ''/'' @ rest)"
proof (induction n arbitrary: idx m)
  case 0
  then show ?case by simp
next
  case (Suc n)
  then have idx: "idx < length topic" by simp
  then have hd: "take (Suc n) (drop idx topic) = topic ! idx # take n (drop (Suc idx) topic)"
    by (simp add: Cons_nth_drop_Suc [symmetric])
  show ?case
  proof (cases "m = length cid")
    case True
    with idx hd show ?thesis by auto
  next
    case False
    with Suc.prems have m: "m < length cid" by simp
    then have "drop m cid = cid ! m # drop (Suc m) cid" by (simp add: Cons_nth_drop_Suc)
    with idx hd m False Suc.prems Suc.IH [of "Suc idx" "Suc m"] show ?thesis by auto
  qed
qed

text \<open>A completion after the wait has timed out writes to a stack frame that is gone.\<close>

lemma late_completion_dangles:
  "rtranclp command_life_step life_start
     \<lparr>life_on_stack = False, life_queued = False, life_dangling_write = True\<rparr>"
proof -
  let ?l = "\<lparr>life_on_stack = False, life_queued = True, life_dangling_write = False\<rparr>"
  have "command_life_step life_start ?l"
    using life_return [of life_start] by (simp add: life_start_def)
  moreover have "command_life_step ?l
      \<lparr>life_on_stack = False, life_queued = False, life_dangling_write = True\<rparr>"
    using life_complete [of ?l] by simp
  ultimately show ?thesis by (meson converse_rtranclp_into_rtranclp rtranclp.rtrancl_refl)
qed

text \<open>The suspending loop ends once the agent stays suspended, and only in one of the two states.\<close>

lemma suspend_loop_ends:
  "\<forall>j \<ge> k. st j = OtaAgentStateSuspended \<Longrightarrow> \<exists>n. suspend_loop st i = Some n"
proof (induction "k - i" arbitrary: i rule: less_induct)
  case less
  show ?case
  proof (cases "st i = OtaAgentStateSuspended \<or> st (i + 1) = OtaAgentStateStopped")
    case True
    then show ?thesis by (auto simp: suspend_loop.simps [of st i])
  next
    case False
    with less.prems have "i < k" by (metis not_less)
    then obtain n where "suspend_loop st (i + 2) = Some n" using less by fastforce
    with False show ?thesis by (auto simp: suspend_loop.simps [of st i])
  qed
qed

text \<open>One block of a file that arrives at a fresh demo, accepted by the library or refused.\<close>

definition ota_sample :: "bool \<Rightarrow> ota_demo" where
  "ota_sample accepted =
     OTA_SignalEvent accepted OtaAgentEventReceivedFileBlock 0 ''ab''
       (ota_demo_init 4\<lparr>eventBuffer := (eventBuffer (ota_demo_init 4))[0 :=
          \<lparr>ed_data = ''ab'' @ replicate 2 (CHR 0x00), ed_dataLength = 2, ed_bufferUsed = True\<rparr>]\<rparr>)"

lemma ota_sample_step:
  "ota_step (\<lambda>topic tlen flt flen. Some (flt = OTA_DATA_STREAM_TOPIC_FILTER)) cid 4
     (ota_demo_init 4) (ota_sample accepted)"
proof (rule ota_received)
  let ?p = "\<lparr>pub_qos = 0, pTopicName = ''t'', topicNameLength = 1, pPayload = Some ''ab'', payloadLength = 2\<rparr>"
  have other: "OTA_JOB_ACCEPTED_RESPONSE_TOPIC_FILTER \<noteq> OTA_DATA_STREAM_TOPIC_FILTER"
      "OTA_JOB_NOTIFY_TOPIC_FILTER \<noteq> OTA_DATA_STREAM_TOPIC_FILTER"
    by (simp_all add: OTA_JOB_ACCEPTED_RESPONSE_TOPIC_FILTER_def OTA_JOB_NOTIFY_TOPIC_FILTER_def
        OTA_DATA_STREAM_TOPIC_FILTER_def)
  have run: "prvProcessIncomingData 4 True accepted (Some ?p) (ota_demo_init 4) = Some (ota_sample accepted)"
    by (simp add: prvProcessIncomingData_def process_incoming_def prvOTAEventBufferGet_def
        ota_demo_init_def otaconfigMAX_NUM_OTA_DATA_BUFFERS_def payload_bytes_def mem_read_def
        mem_write_def ota_sample_def OTA_SignalEvent_def numeral_eq_Suc configASSERT_def)
  show "vOTAProcessMessage (\<lambda>topic tlen flt flen. Some (flt = OTA_DATA_STREAM_TOPIC_FILTER)) cid 4 True
      accepted ?p (ota_demo_init 4) = Some (True, ota_sample accepted)"
    by (simp add: vOTAProcessMessage_def filter_match_def other run)
qed

section \<open>Properties\<close>

text \<open>
  C8. A message that waits for the OTA agent is never overwritten: whatever arrives and in
  whatever order the agent finishes its events, every pending event has a buffer of its own,
  marked as used, that holds exactly the message the event was made from.
\<close>

theorem ota_pending_messages_intact:
  assumes "ota_run matches cid blockSize (ota_demo_init blockSize) s"
  shows "distinct (map event_index (pending_events s))
    \<and> (\<forall>(ev, i, msg) \<in> set (pending_events s).
         i < otaconfigMAX_NUM_OTA_DATA_BUFFERS \<and> ed_bufferUsed (eventBuffer s ! i)
         \<and> take (ed_dataLength (eventBuffer s ! i)) (ed_data (eventBuffer s ! i)) = msg)"
  using ota_inv_run [OF assms ota_inv_init] by (auto simp: ota_inv_def event_ok_def)

theorem ota_pending_messages_intact_witness:
  "\<exists>matches s. ota_run matches ''dev'' 4 (ota_demo_init 4) s \<and> pending_events s \<noteq> []
     \<and> distinct (map event_index (pending_events s))"
proof -
  let ?r = "ota_run (\<lambda>topic tlen flt flen. Some (flt = OTA_DATA_STREAM_TOPIC_FILTER)) ''dev'' 4
      (ota_demo_init 4) (ota_sample True)"
  have r: ?r using ota_sample_step [of _ True] by (rule r_into_rtranclp)
  have "pending_events (ota_sample True) \<noteq> []"
    by (simp add: ota_sample_def OTA_SignalEvent_def)
  with r ota_pending_messages_intact [OF r] show ?thesis by blast
qed

text \<open>
  An event that the OTA library refuses costs a buffer for ever: the buffers in use are those
  of the pending events plus one for every refused event, and after five refusals every message
  is dropped, although it is still reported as handled.
\<close>

theorem ota_refused_events_leak:
  assumes "ota_run matches cid blockSize (ota_demo_init blockSize) s"
  shows "used_buffers s = length (pending_events s) + refused_events s
    \<and> used_buffers s \<le> otaconfigMAX_NUM_OTA_DATA_BUFFERS
    \<and> (refused_events s = otaconfigMAX_NUM_OTA_DATA_BUFFERS \<longrightarrow>
         (\<forall>accepted p handled s'.
            vOTAProcessMessage matches cid blockSize True accepted p s = Some (handled, s') \<longrightarrow> s' = s))"
proof -
  have inv: "ota_inv blockSize s" by (rule ota_inv_run [OF assms ota_inv_init])
  have le: "used_buffers s \<le> otaconfigMAX_NUM_OTA_DATA_BUFFERS"
    using inv length_filter_le [of ed_bufferUsed "eventBuffer s"]
    by (simp add: ota_inv_def used_buffers_def)
  have "s' = s" if full: "refused_events s = otaconfigMAX_NUM_OTA_DATA_BUFFERS"
    and run: "vOTAProcessMessage matches cid blockSize True accepted p s = Some (handled, s')"
    for accepted p handled s'
  proof -
    have "length (filter ed_bufferUsed (eventBuffer s)) = length (eventBuffer s)"
      using inv le full by (simp add: ota_inv_def used_buffers_def)
    then have all: "\<forall>b \<in> set (eventBuffer s). ed_bufferUsed b"
      using length_filter_less [of _ "eventBuffer s" ed_bufferUsed] by force
    have none: "prvOTAEventBufferGet True s = Some (None, s)"
      using inv
    proof (cases rule: get_buffer)
      case (1 i)
      with all show ?thesis by auto
    qed
    have "process_incoming ev blockSize True accepted (Some p) s = Some s'' \<Longrightarrow> s'' = s" for ev s''
      by (auto simp: process_incoming_def none)
    with run show ?thesis
      by (auto simp: vOTAProcessMessage_def prvProcessIncomingData_def prvProcessIncomingJobMessage_def
          split: if_splits)
  qed
  with inv le show ?thesis by (auto simp: ota_inv_def)
qed

theorem ota_refused_events_leak_witness:
  "\<exists>matches s. ota_run matches ''dev'' 4 (ota_demo_init 4) s \<and> refused_events s = 1
     \<and> used_buffers s = length (pending_events s) + refused_events s"
proof -
  let ?r = "ota_run (\<lambda>topic tlen flt flen. Some (flt = OTA_DATA_STREAM_TOPIC_FILTER)) ''dev'' 4
      (ota_demo_init 4) (ota_sample False)"
  have r: ?r using ota_sample_step [of _ False] by (rule r_into_rtranclp)
  have "refused_events (ota_sample False) = 1"
    by (simp add: ota_sample_def OTA_SignalEvent_def ota_demo_init_def)
  with r ota_refused_events_leak [OF r] show ?thesis by blast
qed

text \<open>
  C33. The hand-written scan of the topic is the test it is meant to be: behind the twelve
  characters of the prefix the topic has exactly the client identifier, then a slash.
\<close>

theorem prvMatchClientIdentifierInTopic_iff:
  assumes "topicLength \<le> length topic"
  shows "prvMatchClientIdentifierInTopic topic topicLength cid (length cid) =
    Some (\<exists>rest. drop 12 (take topicLength topic) = cid @ ''/'' @ rest)"
proof (cases "12 \<le> topicLength")
  case True
  with assms client_id_loop_eq [of 12 "topicLength - 12" topic 0 cid] show ?thesis
    by (simp add: prvMatchClientIdentifierInTopic_def OTA_TOPIC_CLIENT_IDENTIFIER_START_IDX_def
        drop_take)
next
  case False
  then show ?thesis
    by (simp add: prvMatchClientIdentifierInTopic_def OTA_TOPIC_CLIENT_IDENTIFIER_START_IDX_def)
qed

theorem prvMatchClientIdentifierInTopic_iff_witness:
  "prvMatchClientIdentifierInTopic ''$aws/things/dev/jobs'' 20 ''dev'' (length ''dev'') = Some True"
proof -
  have "drop 12 (take 20 ''$aws/things/dev/jobs'') = ''dev'' @ ''/'' @ ''jobs''" by simp
  then have "\<exists>rest. drop 12 (take 20 ''$aws/things/dev/jobs'') = ''dev'' @ ''/'' @ rest" by blast
  with prvMatchClientIdentifierInTopic_iff [of 20 "''$aws/things/dev/jobs''" "''dev''"]
  show ?thesis by simp
qed

end
