(* ===== verification/Defender_Demo.thy ===== *)
theory Defender_Demo
  imports Agent_Client Report_Builder
begin

text \<open>
  source/demo-tasks/defender_demo.c: the task that collects the metrics of the device, turns
  them into a Device Defender report, publishes it and waits for the answer of the service.

  The static variables of the file are the record \<open>defender\<close>.  The task interleaves with the
  MQTT agent task, which runs the callbacks and sends the queued reports; the step relation
  \<open>defender_step\<close> cuts the loop of the task at the calls and at the accesses to the variables
  that the callbacks share.
\<close>

section \<open>Data\<close>

definition defenderexampleOPEN_TCP_PORTS_ARRAY_SIZE :: u32 where
  "defenderexampleOPEN_TCP_PORTS_ARRAY_SIZE = 10"

definition defenderexampleOPEN_UDP_PORTS_ARRAY_SIZE :: u32 where
  "defenderexampleOPEN_UDP_PORTS_ARRAY_SIZE = 10"

definition defenderexampleESTABLISHED_CONNECTIONS_ARRAY_SIZE :: u32 where
  "defenderexampleESTABLISHED_CONNECTIONS_ARRAY_SIZE = 10"

definition defenderexampleCUSTOM_METRICS_TASKS_ARRAY_SIZE :: u32 where
  "defenderexampleCUSTOM_METRICS_TASKS_ARRAY_SIZE = 10"

definition defenderexampleDEVICE_METRICS_REPORT_BUFFER_SIZE :: u32 where
  "defenderexampleDEVICE_METRICS_REPORT_BUFFER_SIZE = 1000"

definition defenderexampleDEVICE_METRICS_REPORT_MAJOR_VERSION :: u32 where
  "defenderexampleDEVICE_METRICS_REPORT_MAJOR_VERSION = 1"

definition defenderexampleDEVICE_METRICS_REPORT_MINOR_VERSION :: u32 where
  "defenderexampleDEVICE_METRICS_REPORT_MINOR_VERSION = 0"

definition defenderexampleRESPONSE_REPORT_ID_FIELD :: string where
  "defenderexampleRESPONSE_REPORT_ID_FIELD = ''reportId''"

lemmas defender_sizes =
  defenderexampleOPEN_TCP_PORTS_ARRAY_SIZE_def defenderexampleOPEN_UDP_PORTS_ARRAY_SIZE_def
  defenderexampleESTABLISHED_CONNECTIONS_ARRAY_SIZE_def
  defenderexampleCUSTOM_METRICS_TASKS_ARRAY_SIZE_def
  defenderexampleDEVICE_METRICS_REPORT_BUFFER_SIZE_def
  defenderexampleDEVICE_METRICS_REPORT_MAJOR_VERSION_def
  defenderexampleDEVICE_METRICS_REPORT_MINOR_VERSION_def

datatype ReportStatus = ReportStatusNotReceived | ReportStatusAccepted | ReportStatusRejected

text \<open>
  What the network stack and the kernel answer during one collection: the four calls of
  \<open>vGetMetrics\<close>, the address, the stack high water mark and the task numbers that
  \<open>uxTaskGetSystemState\<close> writes, none when its array is too small.
\<close>

record defender_sample =
  smp_netstat :: "nat \<Rightarrow> netstat"
  smp_localIp :: u32
  smp_highWaterMark :: u32
  smp_taskNumbers :: "u32 list"

text \<open>
  \<open>xDeviceMetrics\<close> holds pointers to the arrays of the file, so only its numbers are kept;
  \<open>None\<close> is its initial value with null pointers.
\<close>

record device_metrics =
  dm_ulOpenTcpPortsArrayLength :: u32
  dm_ulOpenUdpPortsArrayLength :: u32
  dm_ulEstablishedConnectionsArrayLength :: u32
  dm_ulStackHighWaterMark :: u32
  dm_ulTaskIdsArrayLength :: u32

text \<open>
  The last fields are the static variable \<open>xPublishInfo\<close> of the publishing function (its
  payload is always the report buffer), the local \<open>ulReportLength\<close> of the task, the publish
  commands that the agent has not carried out (each with the report it was queued for), what it
  has sent for them, and the number of reports the task has logged as unanswered.
\<close>

record 'n defender =
  def_xNetworkStats :: NetworkStats
  def_pusOpenTcpPorts :: "u16 list"
  def_pusOpenUdpPorts :: "u16 list"
  def_pxEstablishedConnections :: "Connection list"
  def_pulCustomMetricsTaskNumbers :: "u32 list"
  def_xDeviceMetrics :: "device_metrics option"
  def_xReportStatus :: ReportStatus
  def_pcDeviceMetricsJsonReport :: string
  def_ulReportId :: u32
  def_notification :: 'n
  def_payloadLength :: nat
  def_ulReportLength :: u32
  def_queue :: "(u32 \<times> defender_sample) list"
  def_sent :: "((u32 \<times> defender_sample) \<times> string) list"
  def_unanswered :: nat

definition zero_connection :: Connection where
  "zero_connection = \<lparr>ulLocalIp = 0, ulRemoteIp = 0, usLocalPort = 0, usRemotePort = 0\<rparr>"

definition defender_init :: "'n \<Rightarrow> 'n defender" where
  "defender_init n = \<lparr>
     def_xNetworkStats = zero_stats,
     def_pusOpenTcpPorts = replicate (unat defenderexampleOPEN_TCP_PORTS_ARRAY_SIZE) 0,
     def_pusOpenUdpPorts = replicate (unat defenderexampleOPEN_UDP_PORTS_ARRAY_SIZE) 0,
     def_pxEstablishedConnections =
       replicate (unat defenderexampleESTABLISHED_CONNECTIONS_ARRAY_SIZE) zero_connection,
     def_pulCustomMetricsTaskNumbers =
       replicate (unat defenderexampleCUSTOM_METRICS_TASKS_ARRAY_SIZE) 0,
     def_xDeviceMetrics = None,
     def_xReportStatus = ReportStatusNotReceived,
     def_pcDeviceMetricsJsonReport =
       replicate (unat defenderexampleDEVICE_METRICS_REPORT_BUFFER_SIZE) (CHR 0x00),
     def_ulReportId = 0,
     def_notification = n,
     def_payloadLength = 0,
     def_ulReportLength = 0,
     def_queue = [],
     def_sent = [],
     def_unanswered = 0\<rparr>"

text \<open>\<open>xDeviceMetrics\<close> with its pointers followed.\<close>

definition xDeviceMetrics :: "'n defender \<Rightarrow> ReportMetrics" where
  "xDeviceMetrics s = (case def_xDeviceMetrics s of
     None \<Rightarrow> \<lparr>pxNetworkStats = None,
       pusOpenTcpPortsArray = None, ulOpenTcpPortsArrayLength = 0,
       pusOpenUdpPortsArray = None, ulOpenUdpPortsArrayLength = 0,
       pxEstablishedConnectionsArray = None, ulEstablishedConnectionsArrayLength = 0,
       ulStackHighWaterMark = 0, pulTaskIdsArray = None, ulTaskIdsArrayLength = 0\<rparr>
   | Some dm \<Rightarrow> \<lparr>pxNetworkStats = Some (def_xNetworkStats s),
       pusOpenTcpPortsArray = Some (def_pusOpenTcpPorts s),
       ulOpenTcpPortsArrayLength = dm_ulOpenTcpPortsArrayLength dm,
       pusOpenUdpPortsArray = Some (def_pusOpenUdpPorts s),
       ulOpenUdpPortsArrayLength = dm_ulOpenUdpPortsArrayLength dm,
       pxEstablishedConnectionsArray = Some (def_pxEstablishedConnections s),
       ulEstablishedConnectionsArrayLength = dm_ulEstablishedConnectionsArrayLength dm,
       ulStackHighWaterMark = dm_ulStackHighWaterMark dm,
       pulTaskIdsArray = Some (def_pulCustomMetricsTaskNumbers s),
       ulTaskIdsArrayLength = dm_ulTaskIdsArrayLength dm\<rparr>)"

section \<open>Collecting\<close>

text \<open>
  One of the three list queries, made only after success so far: its status, the array and the
  number of entries; \<open>result\<close> is what the query returns.
\<close>

definition collect_list ::
  "eMetricsCollectorStatus \<Rightarrow> (eMetricsCollectorStatus \<times> 'a list option \<times> u32 option) option
   \<Rightarrow> 'a list \<Rightarrow> (eMetricsCollectorStatus \<times> 'a list \<times> u32) option" where
  "collect_list st result arr =
     (if st = eMetricsCollectorSuccess then do {
        (st', parr, pnum) \<leftarrow> result;
        arr' \<leftarrow> parr;
        num \<leftarrow> pnum;
        Some (st', arr', num)
      }
      else Some (st, arr, 0))"

text \<open>The loop that copies the task numbers, with \<open>n\<close> iterations left.\<close>

fun task_numbers_loop :: "u32 list \<Rightarrow> nat \<Rightarrow> nat \<Rightarrow> u32 list \<Rightarrow> u32 list option" where
  "task_numbers_loop tasks i 0 out = Some out"
| "task_numbers_loop tasks i (Suc n) out = do {
     t \<leftarrow> arr_get tasks i;
     out' \<leftarrow> arr_set out i t;
     task_numbers_loop tasks (Suc i) n out'
   }"

definition prvCollectDeviceMetrics ::
  "defender_sample \<Rightarrow> 'n defender \<Rightarrow> (bool \<times> 'n defender) option" where
  "prvCollectDeviceMetrics smp s = do {
     (st0, pstats) \<leftarrow> eGetNetworkStats (smp_netstat smp 0) (Some (def_xNetworkStats s));
     stats \<leftarrow> pstats;
     (st1, tcp, ulNumOpenTcpPorts) \<leftarrow> collect_list st0
        (eGetOpenTcpPorts (smp_netstat smp 1) (Some (def_pusOpenTcpPorts s))
           defenderexampleOPEN_TCP_PORTS_ARRAY_SIZE (Some 0))
        (def_pusOpenTcpPorts s);
     (st2, udp, ulNumOpenUdpPorts) \<leftarrow> collect_list st1
        (eGetOpenUdpPorts (smp_netstat smp 2) (Some (def_pusOpenUdpPorts s))
           defenderexampleOPEN_UDP_PORTS_ARRAY_SIZE (Some 0))
        (def_pusOpenUdpPorts s);
     (st3, conns, ulNumEstablishedConnections) \<leftarrow> collect_list st2
        (eGetEstablishedConnections (smp_netstat smp 3) (smp_localIp smp)
           (Some (def_pxEstablishedConnections s))
           defenderexampleESTABLISHED_CONNECTIONS_ARRAY_SIZE (Some 0))
        (def_pxEstablishedConnections s);
     (st4, ids) \<leftarrow>
       (if st3 = eMetricsCollectorSuccess then
          (let uxTasksWritten = length (smp_taskNumbers smp)
           in if uxTasksWritten = 0
              then Some (eMetricsCollectorCollectionFailed, def_pulCustomMetricsTaskNumbers s)
              else do {
                ids \<leftarrow> task_numbers_loop (smp_taskNumbers smp) 0 uxTasksWritten
                         (def_pulCustomMetricsTaskNumbers s);
                Some (st3, ids)
              })
        else Some (st3, def_pulCustomMetricsTaskNumbers s));
     let s1 = s\<lparr>def_xNetworkStats := stats, def_pusOpenTcpPorts := tcp, def_pusOpenUdpPorts := udp,
                def_pxEstablishedConnections := conns, def_pulCustomMetricsTaskNumbers := ids\<rparr>;
     (if st4 = eMetricsCollectorSuccess
      then Some (True, s1\<lparr>def_xDeviceMetrics := Some \<lparr>
             dm_ulOpenTcpPortsArrayLength = ulNumOpenTcpPorts,
             dm_ulOpenUdpPortsArrayLength = ulNumOpenUdpPorts,
             dm_ulEstablishedConnectionsArrayLength = ulNumEstablishedConnections,
             dm_ulStackHighWaterMark = smp_highWaterMark smp,
             dm_ulTaskIdsArrayLength = of_nat (length (smp_taskNumbers smp))\<rparr>\<rparr>)
      else Some (False, s1))
   }"

section \<open>Generating and publishing\<close>

definition prvGenerateDeviceMetricsReport ::
  "defender_keys \<Rightarrow> 'n defender \<Rightarrow> (bool \<times> 'n defender) option" where
  "prvGenerateDeviceMetricsReport keys s = do {
     (st, pbuf, plen) \<leftarrow> eGenerateJsonReport keys (Some (def_pcDeviceMetricsJsonReport s))
        defenderexampleDEVICE_METRICS_REPORT_BUFFER_SIZE (Some (xDeviceMetrics s))
        defenderexampleDEVICE_METRICS_REPORT_MAJOR_VERSION
        defenderexampleDEVICE_METRICS_REPORT_MINOR_VERSION
        (def_ulReportId s) (Some (def_ulReportLength s));
     buf \<leftarrow> pbuf;
     len \<leftarrow> plen;
     Some (st = eReportBuilderSuccess,
           s\<lparr>def_pcDeviceMetricsJsonReport := buf, def_ulReportLength := len\<rparr>)
   }"

text \<open>
  \<open>added\<close> is whether \<open>MQTTAgent_Publish\<close> queues the command.  The queue holds a pointer to
  \<open>xPublishInfo\<close>, whose payload length is set either way.
\<close>

definition prvPublishDeviceMetricsReport ::
  "bool \<Rightarrow> u32 \<times> defender_sample \<Rightarrow> 'n defender \<Rightarrow> bool \<times> 'n defender" where
  "prvPublishDeviceMetricsReport added q s =
     (let s1 = s\<lparr>def_payloadLength := unat (def_ulReportLength s)\<rparr>
      in (added, if added then s1\<lparr>def_queue := def_queue s1 @ [q]\<rparr> else s1))"

section \<open>Responses\<close>

definition prvValidateDefenderResponse ::
  "json_api \<Rightarrow> string option \<Rightarrow> nat \<Rightarrow> 'n defender \<Rightarrow> bool option" where
  "prvValidateDefenderResponse json pcDefenderResponse ulDefenderResponseLength s = do {
     _ \<leftarrow> configASSERT (pcDefenderResponse \<noteq> None);
     doc \<leftarrow> pcDefenderResponse;
     if \<not> JSON_Validate json doc ulDefenderResponseLength then Some False
     else (case json_uint json doc ulDefenderResponseLength defenderexampleRESPONSE_REPORT_ID_FIELD of
        None \<Rightarrow> Some False
      | Some ulReportIdInResponse \<Rightarrow> Some (ulReportIdInResponse = def_ulReportId s))
   }"

definition prvIncomingAcceptedPublishCallback ::
  "'n notify_api \<Rightarrow> json_api \<Rightarrow> MQTTPublishInfo \<Rightarrow> 'n defender \<Rightarrow> 'n defender option" where
  "prvIncomingAcceptedPublishCallback api json p s = do {
     xValidationResult \<leftarrow> prvValidateDefenderResponse json (pPayload p) (payloadLength p) s;
     let s1 = (if xValidationResult then s\<lparr>def_xReportStatus := ReportStatusAccepted\<rparr> else s);
     Some (s1\<lparr>def_notification := xTaskNotifyGive api (def_notification s1)\<rparr>)
   }"

definition prvIncomingRejectedPublishCallback ::
  "'n notify_api \<Rightarrow> json_api \<Rightarrow> MQTTPublishInfo \<Rightarrow> 'n defender \<Rightarrow> 'n defender option" where
  "prvIncomingRejectedPublishCallback api json p s = do {
     xValidationResult \<leftarrow> prvValidateDefenderResponse json (pPayload p) (payloadLength p) s;
     let s1 = (if xValidationResult then s\<lparr>def_xReportStatus := ReportStatusRejected\<rparr> else s);
     Some (s1\<lparr>def_notification := xTaskNotifyGive api (def_notification s1)\<rparr>)
   }"

section \<open>Subscribing\<close>

record defender_topics =
  DEFENDER_API_JSON_ACCEPTED :: string
  DEFENDER_API_JSON_REJECTED :: string

text \<open>
  The completion of the subscribe command: \<open>xReturnStatus = MQTTSuccess\<close>, the subscription
  list and the notification.  The results of \<open>addSubscription\<close> are only logged.
\<close>

definition def_prvSubscribeCommandCallback ::
  "'n notify_api \<Rightarrow> defender_topics \<Rightarrow> bool \<Rightarrow> 'ctx
   \<Rightarrow> (demo_callback, 'ctx) SubscriptionElement list option \<Rightarrow> 'n
   \<Rightarrow> (bool \<times> (demo_callback, 'ctx) SubscriptionElement list option \<times> 'n) option" where
  "def_prvSubscribeCommandCallback api topics success ctx pl n = do {
     pl2 \<leftarrow>
       (if success then do {
          (ok1, pl1) \<leftarrow> addSubscription pl (Some (DEFENDER_API_JSON_ACCEPTED topics))
             (of_nat (length (DEFENDER_API_JSON_ACCEPTED topics)))
             (Some prvIncomingAcceptedPublish) (Some ctx);
          (ok2, pl2) \<leftarrow> addSubscription pl1 (Some (DEFENDER_API_JSON_REJECTED topics))
             (of_nat (length (DEFENDER_API_JSON_REJECTED topics)))
             (Some prvIncomingRejectedPublish) (Some ctx);
          Some pl2
        }
        else Some pl);
     Some (success, pl2, xTaskNotifyGive api n)
   }"

definition def_xSubscribeInfo :: "defender_topics \<Rightarrow> MQTTSubscribeInfo list" where
  "def_xSubscribeInfo topics = map (\<lambda>topic. \<lparr>sub_qos = 1, pTopicFilter = Some topic,
     topicFilterLength = of_nat (length topic)\<rparr>)
     [DEFENDER_API_JSON_ACCEPTED topics, DEFENDER_API_JSON_REJECTED topics]"

text \<open>\<open>queued\<close> and \<open>completion\<close> are as for the shadow tasks.\<close>

definition prvSubscribeToDefenderTopics ::
  "'n notify_api \<Rightarrow> defender_topics \<Rightarrow> (nat \<Rightarrow> bool) \<Rightarrow> bool option \<Rightarrow> 'ctx
   \<Rightarrow> (demo_callback, 'ctx) SubscriptionElement list option \<Rightarrow> 'n
   \<Rightarrow> (bool \<times> (demo_callback, 'ctx) SubscriptionElement list option \<times> 'n) option" where
  "prvSubscribeToDefenderTopics api topics queued completion ctx pl n = do {
     let n1 = xTaskNotifyStateClear api n;
     _ \<leftarrow> subscribe_loop queued 0;
     (xReturnStatus, pl2, n2) \<leftarrow>
       (case completion of
          None \<Rightarrow> Some (False, pl, n1)
        | Some success \<Rightarrow> def_prvSubscribeCommandCallback api topics success ctx pl n1);
     let (ulNotificationValue, n3) = ulTaskNotifyTake api n2;
     _ \<leftarrow> configASSERT (ulNotificationValue \<noteq> 0);
     Some (xReturnStatus, pl2, n3)
   }"

section \<open>The task\<close>

text \<open>
  Where the task is in its loop; the sample is the one that the report under way was collected
  from.
\<close>

datatype defender_pc =
    Def_id | Def_status | Def_collect | Def_generate defender_sample | Def_publish defender_sample
  | Def_wait | Def_check | Def_delay

record 'n defender_env =
  def_api :: "'n notify_api"
  def_json :: json_api
  def_keys :: defender_keys

text \<open>
  What the network stack and the kernel promise of a sample.  \<open>prompt\<close> restricts the runs to
  those in which the agent has sent each report before the next one is generated.
\<close>

definition sample_ok :: "defender_sample \<Rightarrow> bool" where
  "sample_ok smp \<longleftrightarrow> (\<forall>i < 4. netstat_ok (snd (smp_netstat smp i)))
     \<and> length (smp_taskNumbers smp) \<le> unat defenderexampleCUSTOM_METRICS_TASKS_ARRAY_SIZE"

inductive defender_step ::
  "'n defender_env \<Rightarrow> bool \<Rightarrow> defender_pc \<times> 'n defender \<Rightarrow> defender_pc \<times> 'n defender \<Rightarrow> bool"
  for env :: "'n defender_env" and prompt :: bool where
  def_id: "defender_step env prompt (Def_id, s) (Def_status, s\<lparr>def_ulReportId := ticks\<rparr>)"
| def_status: "defender_step env prompt (Def_status, s)
    (Def_collect, s\<lparr>def_xReportStatus := ReportStatusNotReceived\<rparr>)"
| def_collect: "sample_ok smp \<Longrightarrow> prvCollectDeviceMetrics smp s = Some (ok, s') \<Longrightarrow>
    defender_step env prompt (Def_collect, s) (if ok then Def_generate smp else Def_wait, s')"
| def_generate: "prompt \<longrightarrow> def_queue s = [] \<Longrightarrow>
    prvGenerateDeviceMetricsReport (def_keys env) s = Some (ok, s') \<Longrightarrow>
    defender_step env prompt (Def_generate smp, s) (if ok then Def_publish smp else Def_wait, s')"
| def_publish: "prvPublishDeviceMetricsReport added (def_ulReportId s, smp) s = (ok, s') \<Longrightarrow>
    defender_step env prompt (Def_publish smp, s) (Def_wait, s')"
| def_wait: "ulTaskNotifyTake (def_api env) (def_notification s) = (ulNotificationValue, n) \<Longrightarrow>
    defender_step env prompt (Def_wait, s)
      (if ulNotificationValue = 0 then Def_delay else Def_check, s\<lparr>def_notification := n\<rparr>)"
| def_check: "defender_step env prompt (Def_check, s)
    (Def_delay, if def_xReportStatus s = ReportStatusNotReceived
                then s\<lparr>def_unanswered := def_unanswered s + 1\<rparr> else s)"
| def_delay: "defender_step env prompt (Def_delay, s) (Def_id, s)"
| def_sends: "def_queue s = q # qs \<Longrightarrow>
    mem_read (def_pcDeviceMetricsJsonReport s) 0 (def_payloadLength s) = Some doc \<Longrightarrow>
    defender_step env prompt (pc, s) (pc, s\<lparr>def_queue := qs, def_sent := def_sent s @ [(q, doc)]\<rparr>)"
| def_accepted: "prvIncomingAcceptedPublishCallback (def_api env) (def_json env) p s = Some s' \<Longrightarrow>
    defender_step env prompt (pc, s) (pc, s')"
| def_rejected: "prvIncomingRejectedPublishCallback (def_api env) (def_json env) p s = Some s' \<Longrightarrow>
    defender_step env prompt (pc, s) (pc, s')"

abbreviation defender_run ::
  "'n defender_env \<Rightarrow> bool \<Rightarrow> defender_pc \<times> 'n defender \<Rightarrow> defender_pc \<times> 'n defender \<Rightarrow> bool" where
  "defender_run env prompt \<equiv> rtranclp (defender_step env prompt)"

inductive_cases from_def_wait: "defender_step env prompt (Def_wait, s) c"

section \<open>What a collection yields\<close>

definition network_stats :: "MetricsType \<Rightarrow> NetworkStats" where
  "network_stats mt = \<lparr>ulBytesReceived = xInput_uxByteCount mt, ulBytesSent = xOutput_uxByteCount mt,
     ulPacketsReceived = xInput_uxPacketCount mt, ulPacketsSent = xOutput_uxPacketCount mt\<rparr>"

definition sample_succeeds :: "defender_sample \<Rightarrow> bool" where
  "sample_succeeds smp \<longleftrightarrow>
     fst (smp_netstat smp 0) = 0 \<and> fst (smp_netstat smp 1) = 0 \<and> fst (smp_netstat smp 2) = 0
     \<and> fst (smp_netstat smp 3) = 0 \<and> smp_taskNumbers smp \<noteq> []"

text \<open>The report of a sample: at most ten entries of each list.\<close>

definition sample_report :: "defender_keys \<Rightarrow> u32 \<times> defender_sample \<Rightarrow> string" where
  "sample_report keys = (\<lambda>(rid, smp). json_show (report_json keys 1 0 rid
     (take 10 (usTCPPortList (snd (smp_netstat smp 1))))
     (take 10 (usUDPPortList (snd (smp_netstat smp 2))))
     (network_stats (snd (smp_netstat smp 0)))
     (take 10 (connections (smp_localIp smp) (snd (smp_netstat smp 3))))
     (smp_highWaterMark smp) (smp_taskNumbers smp)))"

definition arrays_ok :: "'n defender \<Rightarrow> bool" where
  "arrays_ok s \<longleftrightarrow> length (def_pusOpenTcpPorts s) = 10 \<and> length (def_pusOpenUdpPorts s) = 10
     \<and> length (def_pxEstablishedConnections s) = 10 \<and> length (def_pulCustomMetricsTaskNumbers s) = 10"

lemma task_numbers_loop_eq:
  "i + n \<le> length tasks \<Longrightarrow> i + n \<le> length out \<Longrightarrow>
   task_numbers_loop tasks i n out = Some (take i out @ take n (drop i tasks) @ drop (i + n) out)"
proof (induction n arbitrary: i out)
  case 0
  then show ?case by simp
next
  case (Suc n)
  have "task_numbers_loop tasks i (Suc n) out = task_numbers_loop tasks (Suc i) n (out[i := tasks ! i])"
    using Suc.prems by simp
  also have "\<dots> = Some (take (Suc i) (out[i := tasks ! i]) @ take n (drop (Suc i) tasks)
      @ drop (Suc i + n) (out[i := tasks ! i]))"
    using Suc.prems by (subst Suc.IH) simp_all
  also have "take (Suc i) (out[i := tasks ! i]) = take i out @ [tasks ! i]"
    using Suc.prems by (simp add: take_Suc_conv_app_nth)
  also have "take (Suc n) (drop i tasks) = tasks ! i # take n (drop (Suc i) tasks)"
    using Suc.prems by (simp add: Cons_nth_drop_Suc [symmetric])
  ultimately show ?case by simp
qed

lemma collect_list_skip: "st \<noteq> eMetricsCollectorSuccess \<Longrightarrow> collect_list st result arr = Some (st, arr, 0)"
  by (simp add: collect_list_def)

text \<open>A list query with room for ten entries.\<close>

context netstat_query
begin

lemma collect_ten:
  assumes "ok (snd ns)" and "length arr = 10"
  shows "\<exists>st' arr' num. collect_list eMetricsCollectorSuccess (query ns (Some arr) 10 (Some 0)) arr =
       Some (st', arr', num)
     \<and> length arr' = 10 \<and> (st' = eMetricsCollectorSuccess \<longleftrightarrow> fst ns = 0)
     \<and> (fst ns = 0 \<longrightarrow> unat num \<le> 10 \<and> take (unat num) arr' = take 10 (entries (snd ns)))"
proof (cases "fst ns = 0")
  case True
  then obtain mt where ns: "ns = (0, mt)" by (cases ns) simp
  with query_bounded [of mt 10 arr 0] assms obtain arr' k where
    "query ns (Some arr) 10 (Some 0) = Some (eMetricsCollectorSuccess, Some arr', Some k)"
    "length arr' = length arr" "unat k = min 10 (length (entries mt))"
    "take (unat k) arr' = take (unat k) (entries mt)"
    by auto
  with assms ns show ?thesis by (auto simp: collect_list_def min_def)
next
  case False
  then have "query ns (Some arr) 10 (Some 0) =
      Some (eMetricsCollectorCollectionFailed, Some arr, Some 0)"
    using query_failed [of "fst ns" "snd ns"] by simp
  with assms False show ?thesis by (simp add: collect_list_def)
qed

end

text \<open>What the collection leaves alone.\<close>

definition same_report_state :: "'n defender \<Rightarrow> 'n defender \<Rightarrow> bool" where
  "same_report_state s s' \<longleftrightarrow>
     def_xReportStatus s' = def_xReportStatus s
     \<and> def_pcDeviceMetricsJsonReport s' = def_pcDeviceMetricsJsonReport s
     \<and> def_ulReportId s' = def_ulReportId s \<and> def_notification s' = def_notification s
     \<and> def_payloadLength s' = def_payloadLength s \<and> def_ulReportLength s' = def_ulReportLength s
     \<and> def_queue s' = def_queue s \<and> def_sent s' = def_sent s
     \<and> def_unanswered s' = def_unanswered s"

definition collected :: "defender_sample \<Rightarrow> 'n defender \<Rightarrow> bool" where
  "collected smp s \<longleftrightarrow> metrics_ok (xDeviceMetrics s)
     \<and> (\<forall>keys rid. json_show (report_of keys (xDeviceMetrics s) 1 0 rid) = sample_report keys (rid, smp))"

lemma eGetNetworkStats_eq:
  "eGetNetworkStats ns (Some st) =
     Some (if fst ns = 0 then (eMetricsCollectorSuccess, Some (network_stats (snd ns)))
           else (eMetricsCollectorCollectionFailed, Some zero_stats))"
  by (cases ns) (simp add: eGetNetworkStats_def network_stats_def zero_stats_def)

lemma prvCollectDeviceMetrics_contract:
  assumes smp: "sample_ok smp" and arrays: "arrays_ok s"
  obtains s' where "prvCollectDeviceMetrics smp s = Some (sample_succeeds smp, s')"
    "arrays_ok s'" "same_report_state s s'" "sample_succeeds smp \<Longrightarrow> collected smp s'"
proof -
  let ?ns = "\<lambda>i. smp_netstat smp i" and ?S = eMetricsCollectorSuccess
  have ok: "netstat_ok (snd (?ns 0))" "netstat_ok (snd (?ns 1))" "netstat_ok (snd (?ns 2))" "netstat_ok (snd (?ns 3))"
    and few: "length (smp_taskNumbers smp) \<le> 10"
    using smp by (simp_all add: sample_ok_def defender_sizes)
  note arr = arrays [unfolded arrays_ok_def]
  define st0 where "st0 = (if fst (?ns 0) = 0 then ?S else eMetricsCollectorCollectionFailed)"
  define stats where "stats = (if fst (?ns 0) = 0 then network_stats (snd (?ns 0)) else zero_stats)"
  have net: "eGetNetworkStats (?ns 0) (Some (def_xNetworkStats s)) = Some (st0, Some stats)"
    by (simp add: eGetNetworkStats_eq st0_def stats_def)
  obtain st1 tcp ntcp where tcp: "collect_list st0 (eGetOpenTcpPorts (?ns 1) (Some (def_pusOpenTcpPorts s)) 10 (Some 0))
      (def_pusOpenTcpPorts s) = Some (st1, tcp, ntcp)" "length tcp = 10"
    "st1 = ?S \<longleftrightarrow> st0 = ?S \<and> fst (?ns 1) = 0"
    "st1 = ?S \<longrightarrow> unat ntcp \<le> 10 \<and> take (unat ntcp) tcp = take 10 (usTCPPortList (snd (?ns 1)))"
    using tcp.collect_ten [OF ok(2), of "def_pusOpenTcpPorts s"] arr
    by (cases "st0 = ?S") (auto simp: collect_list_skip)
  obtain st2 udp nudp where udp: "collect_list st1 (eGetOpenUdpPorts (?ns 2) (Some (def_pusOpenUdpPorts s)) 10 (Some 0))
      (def_pusOpenUdpPorts s) = Some (st2, udp, nudp)" "length udp = 10"
    "st2 = ?S \<longleftrightarrow> st1 = ?S \<and> fst (?ns 2) = 0"
    "st2 = ?S \<longrightarrow> unat nudp \<le> 10 \<and> take (unat nudp) udp = take 10 (usUDPPortList (snd (?ns 2)))"
    using udp.collect_ten [OF ok(3), of "def_pusOpenUdpPorts s"] arr
    by (cases "st1 = ?S") (auto simp: collect_list_skip)
  obtain st3 conns nconn where conns: "collect_list st2 (eGetEstablishedConnections (?ns 3) (smp_localIp smp)
        (Some (def_pxEstablishedConnections s)) 10 (Some 0))
      (def_pxEstablishedConnections s) = Some (st3, conns, nconn)" "length conns = 10"
    "st3 = ?S \<longleftrightarrow> st2 = ?S \<and> fst (?ns 3) = 0"
    "st3 = ?S \<longrightarrow> unat nconn \<le> 10
       \<and> take (unat nconn) conns = take 10 (connections (smp_localIp smp) (snd (?ns 3)))"
    using tcp_conn.collect_ten [OF ok(4), of "def_pxEstablishedConnections s" "smp_localIp smp"] arr
    by (cases "st2 = ?S") (auto simp: collect_list_skip)
  let ?tasks = "smp_taskNumbers smp"
  define ids where "ids = (if st3 = ?S \<and> ?tasks \<noteq> []
     then ?tasks @ drop (length ?tasks) (def_pulCustomMetricsTaskNumbers s)
     else def_pulCustomMetricsTaskNumbers s)"
  have loop: "task_numbers_loop ?tasks 0 (length ?tasks) (def_pulCustomMetricsTaskNumbers s) =
      Some (?tasks @ drop (length ?tasks) (def_pulCustomMetricsTaskNumbers s))"
    using few arr by (subst task_numbers_loop_eq) auto
  have succeeds: "sample_succeeds smp \<longleftrightarrow> st3 = ?S \<and> ?tasks \<noteq> []"
    unfolding sample_succeeds_def using tcp(3) udp(3) conns(3) by (auto simp: st0_def)
  have nids: "unat (of_nat (length ?tasks) :: u32) = length ?tasks"
    using few by (simp add: unat_of_nat32)
  have len_ids: "length ids = 10" using few arr by (simp add: ids_def)
  let ?s1 = "s\<lparr>def_xNetworkStats := stats, def_pusOpenTcpPorts := tcp, def_pusOpenUdpPorts := udp,
      def_pxEstablishedConnections := conns, def_pulCustomMetricsTaskNumbers := ids\<rparr>"
  let ?s' = "if sample_succeeds smp then ?s1\<lparr>def_xDeviceMetrics := Some \<lparr>
      dm_ulOpenTcpPortsArrayLength = ntcp, dm_ulOpenUdpPortsArrayLength = nudp,
      dm_ulEstablishedConnectionsArrayLength = nconn,
      dm_ulStackHighWaterMark = smp_highWaterMark smp,
      dm_ulTaskIdsArrayLength = of_nat (length ?tasks)\<rparr>\<rparr> else ?s1"
  show thesis
  proof (rule that [of ?s'])
    show "prvCollectDeviceMetrics smp s = Some (sample_succeeds smp, ?s')"
      by (simp add: prvCollectDeviceMetrics_def defender_sizes net tcp(1) udp(1) conns(1) loop succeeds
          ids_def del: One_nat_def)
    show "arrays_ok ?s'" by (simp add: arrays_ok_def tcp(2) udp(2) conns(2) len_ids)
    show "same_report_state s ?s'" by (simp add: same_report_state_def)
    assume "sample_succeeds smp"
    then show "collected smp ?s'"
      using tcp(2,4) udp(2-4) conns(2-4) len_ids nids succeeds few
      by (auto simp: collected_def metrics_ok_def array_ok_def xDeviceMetrics_def report_of_def
          sample_report_def live_def ids_def stats_def sample_succeeds_def)
  qed
qed

section \<open>What generating yields\<close>

lemma prvGenerateDeviceMetricsReport_contract:
  assumes "collected smp s" and "length (def_pcDeviceMetricsJsonReport s) = 1000"
  obtains buf len where
    "prvGenerateDeviceMetricsReport keys s =
       Some (length (sample_report keys (def_ulReportId s, smp)) < 1000,
             s\<lparr>def_pcDeviceMetricsJsonReport := buf, def_ulReportLength := len\<rparr>)"
    "length buf = 1000"
    "length (sample_report keys (def_ulReportId s, smp)) < 1000 \<Longrightarrow>
       unat len = length (sample_report keys (def_ulReportId s, smp))
       \<and> take (unat len) buf = sample_report keys (def_ulReportId s, smp)"
proof -
  let ?r = "sample_report keys (def_ulReportId s, smp)"
  have m: "metrics_ok (xDeviceMetrics s)"
    and r: "json_show (report_of keys (xDeviceMetrics s) 1 0 (def_ulReportId s)) = ?r"
    using assms(1) by (simp_all add: collected_def)
  have "\<exists>buf'. eGenerateJsonReport keys (Some (def_pcDeviceMetricsJsonReport s)) 1000
      (Some (xDeviceMetrics s)) 1 0 (def_ulReportId s) (Some (def_ulReportLength s)) =
      Some (if length ?r < 1000
            then (eReportBuilderSuccess, Some buf', Some (of_nat (length ?r)))
            else (eReportBuilderBufferTooSmall, Some buf', Some (def_ulReportLength s)))
    \<and> (length ?r < 1000 \<longrightarrow> take (length ?r) buf' = ?r) \<and> length buf' = 1000"
    using json_report_contract [OF m, of 1000 "def_pcDeviceMetricsJsonReport s" keys 1 0
        "def_ulReportId s" "def_ulReportLength s"] assms(2)
    by (auto simp: r Let_def)
  then obtain buf' where gen: "eGenerateJsonReport keys (Some (def_pcDeviceMetricsJsonReport s)) 1000
      (Some (xDeviceMetrics s)) 1 0 (def_ulReportId s) (Some (def_ulReportLength s)) =
      Some (if length ?r < 1000
            then (eReportBuilderSuccess, Some buf', Some (of_nat (length ?r)))
            else (eReportBuilderBufferTooSmall, Some buf', Some (def_ulReportLength s)))"
    "length ?r < 1000 \<Longrightarrow> take (length ?r) buf' = ?r" "length buf' = 1000" by blast
  show thesis
  proof (rule that [where buf = buf' and
        len = "if length ?r < 1000 then of_nat (length ?r) else def_ulReportLength s"])
    show "prvGenerateDeviceMetricsReport keys s = Some (length ?r < 1000,
        s\<lparr>def_pcDeviceMetricsJsonReport := buf',
          def_ulReportLength := if length ?r < 1000 then of_nat (length ?r) else def_ulReportLength s\<rparr>)"
      by (simp add: prvGenerateDeviceMetricsReport_def defender_sizes gen(1))
  qed (use gen(2,3) in \<open>auto simp: unat_of_nat32\<close>)
qed

section \<open>Invariant\<close>

text \<open>
  The buffer holds the report that is about to be published or is queued, and each report sent
  is the one that was published.
\<close>

definition defender_inv :: "defender_keys \<Rightarrow> defender_pc \<times> 'n defender \<Rightarrow> bool" where
  "defender_inv keys = (\<lambda>(pc, s).
     arrays_ok s \<and> length (def_pcDeviceMetricsJsonReport s) = 1000
     \<and> (\<forall>smp. pc = Def_generate smp \<longrightarrow> collected smp s)
     \<and> (\<forall>smp. pc = Def_publish smp \<longrightarrow> def_queue s = []
          \<and> take (unat (def_ulReportLength s)) (def_pcDeviceMetricsJsonReport s) =
              sample_report keys (def_ulReportId s, smp))
     \<and> (def_queue s = [] \<or> (\<exists>q. def_queue s = [q]
          \<and> take (def_payloadLength s) (def_pcDeviceMetricsJsonReport s) = sample_report keys q))
     \<and> (\<forall>(q, doc) \<in> set (def_sent s). doc = sample_report keys q))"

lemma collected_update [simp]:
  "collected smp (s\<lparr>def_queue := a\<rparr>) = collected smp s"
  "collected smp (s\<lparr>def_sent := b\<rparr>) = collected smp s"
  "collected smp (s\<lparr>def_xReportStatus := c\<rparr>) = collected smp s"
  "collected smp (s\<lparr>def_notification := n\<rparr>) = collected smp s"
  by (cases "def_xDeviceMetrics s"; simp add: collected_def xDeviceMetrics_def)+

lemma response_callbacks_eq:
  "prvIncomingAcceptedPublishCallback api json p s =
     map_option (\<lambda>v. s\<lparr>def_xReportStatus := if v then ReportStatusAccepted else def_xReportStatus s,
         def_notification := xTaskNotifyGive api (def_notification s)\<rparr>)
       (prvValidateDefenderResponse json (pPayload p) (payloadLength p) s)"
  "prvIncomingRejectedPublishCallback api json p s =
     map_option (\<lambda>v. s\<lparr>def_xReportStatus := if v then ReportStatusRejected else def_xReportStatus s,
         def_notification := xTaskNotifyGive api (def_notification s)\<rparr>)
       (prvValidateDefenderResponse json (pPayload p) (payloadLength p) s)"
  by (cases s; cases "prvValidateDefenderResponse json (pPayload p) (payloadLength p) s";
      simp add: prvIncomingAcceptedPublishCallback_def prvIncomingRejectedPublishCallback_def)+

lemma response_callbacks_frame:
  assumes "prvIncomingAcceptedPublishCallback api json p s = Some s'
    \<or> prvIncomingRejectedPublishCallback api json p s = Some s'"
  obtains st where "s' = s\<lparr>def_xReportStatus := st,
    def_notification := xTaskNotifyGive api (def_notification s)\<rparr>"
  using assms that by (auto simp: response_callbacks_eq)

lemma defender_inv_init: "defender_inv keys (Def_id, defender_init n)"
  by (simp add: defender_inv_def defender_init_def arrays_ok_def defender_sizes)

lemma defender_inv_step:
  assumes "defender_step env True c c'" and "defender_inv (def_keys env) c"
  shows "defender_inv (def_keys env) c'"
  using assms
proof (induction rule: defender_step.induct)
  case (def_collect smp s ok s')
  then have "arrays_ok s" by (simp add: defender_inv_def)
  from prvCollectDeviceMetrics_contract [OF def_collect.hyps(1) this] obtain s1 where
    s1: "prvCollectDeviceMetrics smp s = Some (sample_succeeds smp, s1)" "arrays_ok s1"
      "same_report_state s s1" "sample_succeeds smp \<Longrightarrow> collected smp s1" by blast
  with def_collect.hyps(2) have "s' = s1" "ok = sample_succeeds smp" by simp_all
  with s1 def_collect.prems show ?case by (auto simp: defender_inv_def same_report_state_def)
next
  case (def_generate s ok s' smp)
  then have "collected smp s" and len: "length (def_pcDeviceMetricsJsonReport s) = 1000"
    and empty: "def_queue s = []" by (auto simp: defender_inv_def)
  from prvGenerateDeviceMetricsReport_contract [OF this(1,2), of "def_keys env"] obtain buf len where
    gen: "prvGenerateDeviceMetricsReport (def_keys env) s =
       Some (length (sample_report (def_keys env) (def_ulReportId s, smp)) < 1000,
             s\<lparr>def_pcDeviceMetricsJsonReport := buf, def_ulReportLength := len\<rparr>)"
    "length buf = 1000"
    "length (sample_report (def_keys env) (def_ulReportId s, smp)) < 1000 \<Longrightarrow>
       unat len = length (sample_report (def_keys env) (def_ulReportId s, smp))
       \<and> take (unat len) buf = sample_report (def_keys env) (def_ulReportId s, smp)" by blast
  with def_generate.hyps(2) def_generate.prems empty show ?case
    by (auto simp: defender_inv_def arrays_ok_def)
next
  case (def_publish added s smp ok s')
  then show ?case
    by (auto simp: defender_inv_def arrays_ok_def prvPublishDeviceMetricsReport_def Let_def
        split: if_splits)
next
  case (def_sends s q qs doc pc)
  then have "qs = []" "take (def_payloadLength s) (def_pcDeviceMetricsJsonReport s) =
      sample_report (def_keys env) q" by (auto simp: defender_inv_def)
  moreover have "doc = take (def_payloadLength s) (def_pcDeviceMetricsJsonReport s)"
    using def_sends.hyps(2) by (simp add: mem_read_def split: if_splits)
  ultimately show ?case
    using def_sends.prems by (auto simp: defender_inv_def arrays_ok_def)
next
  case (def_accepted p s s' pc)
  then obtain st where "s' = s\<lparr>def_xReportStatus := st,
      def_notification := xTaskNotifyGive (def_api env) (def_notification s)\<rparr>"
    using response_callbacks_frame by metis
  with def_accepted.prems show ?case
    by (simp add: defender_inv_def arrays_ok_def)
next
  case (def_rejected p s s' pc)
  then obtain st where "s' = s\<lparr>def_xReportStatus := st,
      def_notification := xTaskNotifyGive (def_api env) (def_notification s)\<rparr>"
    using response_callbacks_frame by metis
  with def_rejected.prems show ?case
    by (simp add: defender_inv_def arrays_ok_def)
qed (auto simp: defender_inv_def arrays_ok_def)

lemma defender_inv_run:
  "defender_run env True c c' \<Longrightarrow> defender_inv (def_keys env) c \<Longrightarrow> defender_inv (def_keys env) c'"
  by (induction rule: rtranclp_induct) (assumption, rule defender_inv_step)

section \<open>Responses and rounds\<close>

text \<open>The number behind the report id of a response.\<close>

definition response_id :: "json_api \<Rightarrow> MQTTPublishInfo \<Rightarrow> u32 option" where
  "response_id json p =
     (case pPayload p of
        None \<Rightarrow> None
      | Some doc \<Rightarrow> if JSON_Validate json doc (payloadLength p)
                    then json_uint json doc (payloadLength p) ''reportId'' else None)"

lemma validate_eq:
  "pPayload p \<noteq> None \<Longrightarrow> prvValidateDefenderResponse json (pPayload p) (payloadLength p) s =
     Some (response_id json p = Some (def_ulReportId s))"
  by (cases "pPayload p"; cases "json_uint json (the (pPayload p)) (payloadLength p) ''reportId''")
     (simp_all add: prvValidateDefenderResponse_def response_id_def
        defenderexampleRESPONSE_REPORT_ID_FIELD_def)

lemma response_id_payload: "response_id json p = Some i \<Longrightarrow> pPayload p \<noteq> None"
  by (auto simp: response_id_def split: option.splits)

lemma accepted_response:
  "response_id json p = Some (def_ulReportId s) \<Longrightarrow>
   prvIncomingAcceptedPublishCallback api json p s =
     Some (s\<lparr>def_xReportStatus := ReportStatusAccepted,
             def_notification := xTaskNotifyGive api (def_notification s)\<rparr>)"
  by (frule response_id_payload) (simp add: response_callbacks_eq validate_eq)

text \<open>A step that the task takes by itself, other than those out of the wait and out of the delay.\<close>

definition task_step ::
  "'n defender_env \<Rightarrow> bool \<Rightarrow> defender_pc \<times> 'n defender \<Rightarrow> defender_pc \<times> 'n defender \<Rightarrow> bool" where
  "task_step env prompt c c' \<longleftrightarrow>
     defender_step env prompt c c' \<and> fst c' \<noteq> fst c \<and> fst c \<noteq> Def_wait \<and> fst c \<noteq> Def_delay"

lemma task_run_defender: "(task_step env prompt)\<^sup>*\<^sup>* c c' \<Longrightarrow> defender_run env prompt c c'"
  by (rule mono_rtranclp [rule_format, of "task_step env prompt"]) (simp_all add: task_step_def)

text \<open>The task from the head of its loop to the publishing of a report that fits.\<close>

definition ready :: "'n defender \<Rightarrow> bool" where
  "ready s \<longleftrightarrow> arrays_ok s \<and> length (def_pcDeviceMetricsJsonReport s) = 1000"

lemma ready_init: "ready (defender_init n)"
  by (simp add: ready_def arrays_ok_def defender_init_def defender_sizes)

lemma round_to_publish:
  assumes "ready s" and "sample_ok smp" "sample_succeeds smp"
    and fits: "length (sample_report (def_keys env) (rid, smp)) < 1000"
    and prompt: "prompt \<longrightarrow> def_queue s = []"
  obtains s' where "defender_run env prompt (Def_id, s) (Def_publish smp, s')" "ready s'"
    "def_ulReportId s' = rid" "def_xReportStatus s' = ReportStatusNotReceived"
    "unat (def_ulReportLength s') = length (sample_report (def_keys env) (rid, smp))"
    "take (unat (def_ulReportLength s')) (def_pcDeviceMetricsJsonReport s') =
       sample_report (def_keys env) (rid, smp)"
    "def_queue s' = def_queue s" "def_sent s' = def_sent s" "def_notification s' = def_notification s"
    "def_payloadLength s' = def_payloadLength s" "def_unanswered s' = def_unanswered s"
    "(task_step env prompt)\<^sup>*\<^sup>* (Def_id, s) (Def_publish smp, s')"
proof -
  let ?s2 = "s\<lparr>def_ulReportId := rid, def_xReportStatus := ReportStatusNotReceived\<rparr>"
  have arrays: "arrays_ok ?s2" using assms(1) by (simp add: ready_def arrays_ok_def)
  from prvCollectDeviceMetrics_contract [OF assms(2) arrays] obtain s3 where
    s3: "prvCollectDeviceMetrics smp ?s2 = Some (True, s3)" "arrays_ok s3"
      "same_report_state ?s2 s3" "collected smp s3" using assms(3) by metis
  then have len: "length (def_pcDeviceMetricsJsonReport s3) = 1000" and rid: "def_ulReportId s3 = rid"
    using assms(1) by (simp_all add: same_report_state_def ready_def)
  obtain buf n where gen: "prvGenerateDeviceMetricsReport (def_keys env) s3 =
      Some (True, s3\<lparr>def_pcDeviceMetricsJsonReport := buf, def_ulReportLength := n\<rparr>)"
    "length buf = 1000" "unat n = length (sample_report (def_keys env) (rid, smp))"
    "take (unat n) buf = sample_report (def_keys env) (rid, smp)"
  proof (rule prvGenerateDeviceMetricsReport_contract [OF s3(4) len, of "def_keys env"])
    fix buf n
    assume "prvGenerateDeviceMetricsReport (def_keys env) s3 =
        Some (length (sample_report (def_keys env) (def_ulReportId s3, smp)) < 1000,
          s3\<lparr>def_pcDeviceMetricsJsonReport := buf, def_ulReportLength := n\<rparr>)"
      "length buf = 1000"
      "length (sample_report (def_keys env) (def_ulReportId s3, smp)) < 1000 \<Longrightarrow>
       unat n = length (sample_report (def_keys env) (def_ulReportId s3, smp))
       \<and> take (unat n) buf = sample_report (def_keys env) (def_ulReportId s3, smp)"
    then show thesis using fits by (intro that [of n buf]) (auto simp: rid)
  qed
  let ?s4 = "s3\<lparr>def_pcDeviceMetricsJsonReport := buf, def_ulReportLength := n\<rparr>"
  have "task_step env prompt (Def_id, s) (Def_status, s\<lparr>def_ulReportId := rid\<rparr>)"
    by (simp add: task_step_def def_id)
  moreover have "task_step env prompt (Def_status, s\<lparr>def_ulReportId := rid\<rparr>) (Def_collect, ?s2)"
    using def_status [of env prompt "s\<lparr>def_ulReportId := rid\<rparr>"] by (simp add: task_step_def)
  moreover have "task_step env prompt (Def_collect, ?s2) (Def_generate smp, s3)"
    using def_collect [OF assms(2) s3(1), of env prompt] by (simp add: task_step_def)
  moreover have "task_step env prompt (Def_generate smp, s3) (Def_publish smp, ?s4)"
    using def_generate [OF _ gen(1), of prompt smp] s3(3) prompt
    by (simp add: task_step_def same_report_state_def)
  ultimately have run: "(task_step env prompt)\<^sup>*\<^sup>* (Def_id, s) (Def_publish smp, ?s4)"
    by (meson converse_rtranclp_into_rtranclp rtranclp.rtrancl_refl)
  show thesis
  proof (rule that [OF task_run_defender [OF run]])
    show "(task_step env prompt)\<^sup>*\<^sup>* (Def_id, s) (Def_publish smp, ?s4)" by (rule run)
  qed (use s3 gen rid in \<open>auto simp: ready_def arrays_ok_def same_report_state_def\<close>)
qed

section \<open>Rounds that are each answered once\<close>

text \<open>
  A run in which every report is answered once, in its own round, and by a network that is slower than
  the task: an answer arrives while the task is blocked in its wait, or after the wait, during the
  delay, but neither before the task has come to its wait nor when the wait has its notification
  already and so ends at once.  Other publishes may be sent at any time; nothing else comes in on
  the topics of the demo.  The numbers are the rounds completed, the answers, and the waits that have
  timed out.
\<close>

inductive timed_run ::
  "'n defender_env \<Rightarrow> bool \<Rightarrow> ('n \<Rightarrow> nat) \<Rightarrow> defender_pc \<times> 'n defender \<Rightarrow> nat \<Rightarrow> nat \<Rightarrow> nat
   \<Rightarrow> defender_pc \<times> 'n defender \<Rightarrow> bool"
  for env :: "'n defender_env" and prompt :: bool and pending :: "'n \<Rightarrow> nat"
    and c0 :: "defender_pc \<times> 'n defender" where
  tr_start: "timed_run env prompt pending c0 0 0 0 c0"
| tr_task: "timed_run env prompt pending c0 k a t c \<Longrightarrow> task_step env prompt c c' \<Longrightarrow>
    timed_run env prompt pending c0 k a t c'"
| tr_wait: "timed_run env prompt pending c0 k a t (Def_wait, s) \<Longrightarrow>
    defender_step env prompt (Def_wait, s) (pc, s') \<Longrightarrow> pc \<noteq> Def_wait \<Longrightarrow>
    timed_run env prompt pending c0 k a (if pc = Def_delay then Suc t else t) (pc, s')"
| tr_round: "timed_run env prompt pending c0 k (Suc k) t (Def_delay, s) \<Longrightarrow>
    timed_run env prompt pending c0 (Suc k) (Suc k) t (Def_id, s)"
| tr_sends: "timed_run env prompt pending c0 k a t (pc, s) \<Longrightarrow> def_queue s = q # qs \<Longrightarrow>
    mem_read (def_pcDeviceMetricsJsonReport s) 0 (def_payloadLength s) = Some doc \<Longrightarrow>
    timed_run env prompt pending c0 k a t (pc, s\<lparr>def_queue := qs, def_sent := def_sent s @ [(q, doc)]\<rparr>)"
| tr_answer: "timed_run env prompt pending c0 k a t (pc, s) \<Longrightarrow>
    pc = Def_delay \<or> pc = Def_wait \<and> pending (def_notification s) = 0 \<Longrightarrow>
    response_id (def_json env) p = Some (def_ulReportId s) \<Longrightarrow>
    prvIncomingAcceptedPublishCallback (def_api env) (def_json env) p s = Some s'
      \<or> prvIncomingRejectedPublishCallback (def_api env) (def_json env) p s = Some s' \<Longrightarrow>
    timed_run env prompt pending c0 k (Suc a) t (pc, s')"

lemma timed_run_defender: "timed_run env prompt pending c0 k a t c \<Longrightarrow> defender_run env prompt c0 c"
proof (induction rule: timed_run.induct)
  case (tr_task k a t c c')
  then show ?case by (auto simp: task_step_def intro: rtranclp.rtrancl_into_rtrancl)
next
  case (tr_round k t s)
  then show ?case by (meson rtranclp.rtrancl_into_rtrancl def_delay)
next
  case (tr_sends k a t pc s q qs doc)
  then show ?case by (blast intro: rtranclp.rtrancl_into_rtrancl defender_step.def_sends)
next
  case (tr_answer k a t pc s p s')
  then show ?case by (meson rtranclp.rtrancl_into_rtrancl def_accepted def_rejected)
qed (auto intro: rtranclp.rtrancl_into_rtrancl)

lemma timed_run_tasks:
  "(task_step env prompt)\<^sup>*\<^sup>* c c' \<Longrightarrow> timed_run env prompt pending c0 k a t c \<Longrightarrow>
   timed_run env prompt pending c0 k a t c'"
  by (induction rule: rtranclp_induct) (auto intro: tr_task)

text \<open>What the steps outside of the wait do to the notification and the status.\<close>

lemma collect_frame: "prvCollectDeviceMetrics smp s = Some (ok, s') \<Longrightarrow> same_report_state s s'"
  by (auto simp: prvCollectDeviceMetrics_def same_report_state_def Let_def bind_eq_Some_conv
      split: if_splits prod.splits)

lemma generate_frame:
  "prvGenerateDeviceMetricsReport keys s = Some (ok, s') \<Longrightarrow>
   def_notification s' = def_notification s \<and> def_xReportStatus s' = def_xReportStatus s
   \<and> def_unanswered s' = def_unanswered s"
  by (auto simp: prvGenerateDeviceMetricsReport_def bind_eq_Some_conv split: prod.splits)

lemma publish_frame:
  "prvPublishDeviceMetricsReport added q s = (ok, s') \<Longrightarrow>
   def_notification s' = def_notification s \<and> def_xReportStatus s' = def_xReportStatus s
   \<and> def_unanswered s' = def_unanswered s"
  by (auto simp: prvPublishDeviceMetricsReport_def Let_def split: if_splits)

lemma answer_frame:
  assumes "response_id json p = Some (def_ulReportId s)"
    and "prvIncomingAcceptedPublishCallback api json p s = Some s'
      \<or> prvIncomingRejectedPublishCallback api json p s = Some s'"
  shows "def_notification s' = xTaskNotifyGive api (def_notification s)
    \<and> def_xReportStatus s' \<noteq> ReportStatusNotReceived \<and> def_unanswered s' = def_unanswered s"
  using assms(2) response_id_payload [OF assms(1)] assms(1)
  by (auto simp: response_callbacks_eq validate_eq)

section \<open>A round\<close>

text \<open>And on to the wait, with the report sent at once.\<close>

lemma round_to_wait:
  assumes "ready s" and "sample_ok smp" "sample_succeeds smp"
    and fits: "length (sample_report (def_keys env) (rid, smp)) < 1000" and empty: "def_queue s = []"
  obtains s' where "defender_run env prompt (Def_id, s) (Def_wait, s')" "ready s'"
    "def_ulReportId s' = rid" "def_xReportStatus s' = ReportStatusNotReceived"
    "def_queue s' = []"
    "def_sent s' = def_sent s @ [((rid, smp), sample_report (def_keys env) (rid, smp))]"
    "def_notification s' = def_notification s" "def_unanswered s' = def_unanswered s"
    "\<And>pending c0 k a t. timed_run env prompt pending c0 k a t (Def_id, s) \<Longrightarrow>
       timed_run env prompt pending c0 k a t (Def_wait, s')"
proof -
  let ?r = "sample_report (def_keys env) (rid, smp)"
  from round_to_publish [OF assms(1-4), of prompt] empty obtain s1 where
    s1: "defender_run env prompt (Def_id, s) (Def_publish smp, s1)" "ready s1"
      "def_ulReportId s1 = rid" "def_xReportStatus s1 = ReportStatusNotReceived"
      "unat (def_ulReportLength s1) = length ?r"
      "take (unat (def_ulReportLength s1)) (def_pcDeviceMetricsJsonReport s1) = ?r"
      "def_queue s1 = []" "def_sent s1 = def_sent s" "def_notification s1 = def_notification s"
      "def_unanswered s1 = def_unanswered s"
      "(task_step env prompt)\<^sup>*\<^sup>* (Def_id, s) (Def_publish smp, s1)" by metis
  let ?s2 = "s1\<lparr>def_payloadLength := length ?r, def_queue := [(rid, smp)]\<rparr>"
  let ?s3 = "?s2\<lparr>def_queue := [], def_sent := def_sent s1 @ [((rid, smp), ?r)]\<rparr>"
  have publish: "defender_step env prompt (Def_publish smp, s1) (Def_wait, ?s2)"
    by (rule def_publish [of True _ _ True]) (simp add: prvPublishDeviceMetricsReport_def s1(3,5,7))
  moreover have sends: "defender_step env prompt (Def_wait, ?s2) (Def_wait, ?s3)"
    using def_sends [of ?s2 "(rid, smp)" "[]" ?r env prompt Def_wait] s1(2,5,6) fits
    by (simp add: mem_read_def ready_def)
  ultimately have run: "defender_run env prompt (Def_id, s) (Def_wait, ?s3)"
    using s1(1) by (meson rtranclp.rtrancl_into_rtrancl)
  have "task_step env prompt (Def_publish smp, s1) (Def_wait, ?s2)"
    using publish by (simp add: task_step_def)
  with s1(11) have tasks: "(task_step env prompt)\<^sup>*\<^sup>* (Def_id, s) (Def_wait, ?s2)"
    by (rule rtranclp.rtrancl_into_rtrancl)
  have doc: "mem_read (def_pcDeviceMetricsJsonReport ?s2) 0 (def_payloadLength ?s2) = Some ?r"
    using s1(2,5,6) fits by (simp add: mem_read_def ready_def)
  show thesis
  proof (rule that [OF run])
    fix pending c0 k a t
    assume "timed_run env prompt pending c0 k a t (Def_id, s)"
    from timed_run_tasks [OF tasks this] doc
    show "timed_run env prompt pending c0 k a t (Def_wait, ?s3)" using tr_sends [of env prompt pending c0 k a t Def_wait ?s2] by simp
  qed (use s1(2-4,6-10) in \<open>auto simp: ready_def arrays_ok_def\<close>)
qed

text \<open>A round whose answer arrives after the wait, whether this has timed out or not.\<close>

lemma late_round:
  assumes "counting (def_api env) pending" and "ready s" and "def_queue s = []"
    and smp: "sample_ok smp" "sample_succeeds smp"
    and fits: "length (sample_report (def_keys env) (rid, smp)) < 1000"
    and resp: "response_id (def_json env) p = Some rid"
    and pend: "pending (def_notification s) = m" "m \<le> 1"
    and run: "timed_run env prompt pending c0 k k t (Def_id, s)"
  obtains s' where "timed_run env prompt pending c0 (Suc k) (Suc k) (t + 1 - m) (Def_id, s')"
    "ready s'" "def_queue s' = []" "pending (def_notification s') = 1"
proof -
  from round_to_wait [OF assms(2) smp fits assms(3), of prompt] obtain s1 where
    s1: "ready s1" "def_ulReportId s1 = rid" "def_xReportStatus s1 = ReportStatusNotReceived"
      "def_queue s1 = []" "def_notification s1 = def_notification s"
      "\<And>pending c0 k a t. timed_run env prompt pending c0 k a t (Def_id, s) \<Longrightarrow>
         timed_run env prompt pending c0 k a t (Def_wait, s1)" by metis
  obtain v n where take: "ulTaskNotifyTake (def_api env) (def_notification s1) = (v, n)"
    and v: "v = 0 \<longleftrightarrow> m = 0" and n: "pending n = 0"
    using counting_take [OF assms(1), of "def_notification s1"] pend s1(5) by (metis diff_is_0_eq)
  let ?s = "s1\<lparr>def_notification := n\<rparr>"
  have "\<exists>s2. timed_run env prompt pending c0 k k (t + 1 - m) (Def_delay, s2) \<and> ready s2
      \<and> def_ulReportId s2 = rid \<and> def_queue s2 = [] \<and> def_notification s2 = n"
  proof (cases "v = 0")
    case True
    with v have "m = 0" by simp
    with tr_wait [OF s1(6) [OF run] def_wait [OF take]] True
    have "timed_run env prompt pending c0 k k (t + 1 - m) (Def_delay, ?s)" by simp
    then show ?thesis using s1 by (intro exI [of _ ?s]) (simp add: ready_def arrays_ok_def)
  next
    case False
    with v pend(2) have "m = 1" by simp
    with tr_wait [OF s1(6) [OF run] def_wait [OF take]] False
    have "timed_run env prompt pending c0 k k (t + 1 - m) (Def_check, ?s)" by simp
    moreover let ?s' = "?s\<lparr>def_unanswered := def_unanswered ?s + 1\<rparr>"
    have "task_step env prompt (Def_check, ?s) (Def_delay, ?s')"
      using def_check [of env prompt ?s] s1(3) by (simp add: task_step_def)
    ultimately have "timed_run env prompt pending c0 k k (t + 1 - m) (Def_delay, ?s')" by (rule tr_task)
    then show ?thesis using s1 by (intro exI [of _ ?s']) (simp add: ready_def arrays_ok_def)
  qed
  then obtain s2 where s2: "timed_run env prompt pending c0 k k (t + 1 - m) (Def_delay, s2)" "ready s2"
    "def_ulReportId s2 = rid" "def_queue s2 = []" "def_notification s2 = n" by blast
  let ?s3 = "s2\<lparr>def_xReportStatus := ReportStatusAccepted,
      def_notification := xTaskNotifyGive (def_api env) n\<rparr>"
  have "timed_run env prompt pending c0 k (Suc k) (t + 1 - m) (Def_delay, ?s3)"
    using s2 resp by (intro tr_answer [of env prompt pending c0 k k _ Def_delay s2 p])
      (simp_all add: accepted_response)
  then have "timed_run env prompt pending c0 (Suc k) (Suc k) (t + 1 - m) (Def_id, ?s3)" by (rule tr_round)
  then show thesis
    by (rule that) (use s2 n assms(1) in \<open>auto simp: ready_def arrays_ok_def counting_def\<close>)
qed

section \<open>The bookkeeping of the rounds\<close>

text \<open>
  With \<open>p0\<close> notifications pending and \<open>u0\<close> reports logged as unanswered at the start: the
  notifications pending at each place of the loop.  Each wait that has timed out leaves one for
  good.
\<close>

definition timed_inv ::
  "('n \<Rightarrow> nat) \<Rightarrow> nat \<Rightarrow> nat \<Rightarrow> nat \<Rightarrow> nat \<Rightarrow> nat \<Rightarrow> defender_pc \<times> 'n defender \<Rightarrow> bool" where
  "timed_inv pending p0 u0 k a t = (\<lambda>(pc, s).
     let m = pending (def_notification s); nr = (def_xReportStatus s = ReportStatusNotReceived)
     in p0 + t \<le> 1
      \<and> (case pc of
           Def_id \<Rightarrow> a = k \<and> m = p0 + t
         | Def_status \<Rightarrow> a = k \<and> m = p0 + t
         | Def_wait \<Rightarrow> a = k \<and> m = p0 + t \<and> nr \<or> a = Suc k \<and> p0 + t = 0 \<and> m = 1 \<and> \<not> nr
         | Def_check \<Rightarrow> m = 0 \<and> (a = k \<and> p0 + t = 1 \<and> nr \<or> a = Suc k \<and> p0 + t = 0 \<and> \<not> nr)
         | Def_delay \<Rightarrow> m + Suc k = p0 + t + a
         | _ \<Rightarrow> a = k \<and> m = p0 + t \<and> nr)
      \<and> (p0 = 1 \<longrightarrow> t = 0 \<and> def_unanswered s = u0 + k + (if pc = Def_delay then 1 else 0))
      \<and> (p0 + t = 0 \<longrightarrow> def_unanswered s = u0))"

lemma timed_inv_task:
  assumes "defender_step env prompt c c'"
  shows "fst c' \<noteq> fst c \<Longrightarrow> fst c \<noteq> Def_wait \<Longrightarrow> fst c \<noteq> Def_delay \<Longrightarrow>
    timed_inv pending p0 u0 k a t c \<Longrightarrow> timed_inv pending p0 u0 k a t c'"
  using assms
proof (induction rule: defender_step.induct)
  case (def_collect smp s ok s')
  with collect_frame [OF def_collect.hyps(2)] show ?case
    by (auto simp: timed_inv_def Let_def same_report_state_def)
next
  case (def_generate s ok s' smp)
  with generate_frame [OF def_generate.hyps(2)] show ?case by (auto simp: timed_inv_def Let_def)
next
  case (def_publish added s smp ok s')
  with publish_frame [OF def_publish.hyps(1)] show ?case by (auto simp: timed_inv_def Let_def)
qed (auto simp: timed_inv_def Let_def)

lemma timed_inv_wait:
  assumes "counting (def_api env) pending"
    and "defender_step env prompt (Def_wait, s) (pc, s')" and "pc \<noteq> Def_wait"
    and "timed_inv pending p0 u0 k a t (Def_wait, s)"
  shows "timed_inv pending p0 u0 k a (if pc = Def_delay then Suc t else t) (pc, s')"
proof -
  from assms(2,3) obtain v n where take: "ulTaskNotifyTake (def_api env) (def_notification s) = (v, n)"
    "pc = (if v = 0 then Def_delay else Def_check)" "s' = s\<lparr>def_notification := n\<rparr>"
    by (auto elim!: from_def_wait split: if_splits)
  moreover have "v = 0 \<longleftrightarrow> pending (def_notification s) = 0" "pending n = pending (def_notification s) - 1"
    using assms(1) take(1) by (metis counting_def fst_conv, metis counting_def snd_conv)
  ultimately show ?thesis using assms(4)
    by (cases "v = 0") (auto simp: timed_inv_def Let_def)
qed

lemma timed_inv_run:
  assumes "counting (def_api env) pending"
  shows "timed_run env prompt pending c0 k a t c \<Longrightarrow> timed_inv pending p0 u0 0 0 0 c0 \<Longrightarrow>
    timed_inv pending p0 u0 k a t c"
proof (induction rule: timed_run.induct)
  case (tr_task k a t c c')
  then show ?case by (auto simp: task_step_def intro: timed_inv_task)
next
  case (tr_wait k a t s pc s')
  then show ?case by (metis timed_inv_wait [OF assms])
next
  case (tr_round k t s)
  then show ?case by (auto simp: timed_inv_def Let_def)
next
  case (tr_sends k a t pc s q qs doc)
  then show ?case by (cases pc) (simp_all add: timed_inv_def Let_def)
next
  case (tr_answer k a t pc s p s')
  with answer_frame [OF tr_answer.hyps(3,4)] counting_give [OF assms] show ?case
    by (auto simp: timed_inv_def Let_def)
qed simp

text \<open>The identifier is the only part of a report that depends on it.\<close>

lemma json_show_first_number:
  "json_show (JObj ((k, JObj ((k', num_word w) # m # ms)) # r # rs)) =
     (''{'' @ [CHR 0x22] @ k @ [CHR 0x22] @ '': {'' @ [CHR 0x22] @ k' @ [CHR 0x22] @ '': '')
     @ dec (unat w)
     @ ('','' @ commas (map show_member (map (map_prod (\<lambda>k. k) json_show) (m # ms))) @ ''}''
        @ '','' @ commas (map show_member (map (map_prod (\<lambda>k. k) json_show) (r # rs))) @ ''}'')"
  by (simp add: show_member_def num_word_def)

lemma sample_report_split:
  obtains A B where "\<And>rid. sample_report keys (rid, smp) = A @ dec (unat rid) @ B" "B \<noteq> []"
  by (rule that) (unfold sample_report_def report_json_def header_json_def prod.case
      json_show_first_number, rule refl, simp)

text \<open>Concrete inputs: a sample, and a response that consists of its number.\<close>

definition demo_sample :: defender_sample where
  "demo_sample = \<lparr>smp_netstat = (\<lambda>i. (0, demo_metrics)), smp_localIp = 0x0A000002,
     smp_highWaterMark = 100, smp_taskNumbers = [1, 2]\<rparr>"

definition demo_defender_env :: "nat defender_env" where
  "demo_defender_env = \<lparr>def_api = demo_notify,
     def_json = \<lparr>JSON_Validate = (\<lambda>doc len. True), JSON_Search = (\<lambda>doc len key. Some 0)\<rparr>,
     def_keys = demo_keys\<rparr>"

lemma demo_sample_ok: "sample_ok demo_sample" "sample_succeeds demo_sample"
  by (simp_all add: sample_ok_def sample_succeeds_def demo_sample_def demo_metrics_def
      netstat_ok_def defender_sizes)

lemma demo_sample_length: "length (sample_report demo_keys (0, demo_sample)) = 336"
  by (simp add: sample_report_def json_defs demo_keys_def demo_sample_def demo_metrics_def
      network_stats_def connections_def connection_of_def dec.simps)

lemma demo_sample_fits: "length (sample_report demo_keys (rid, demo_sample)) < 1000"
proof -
  obtain A B where split: "\<And>rid. sample_report demo_keys (rid, demo_sample) = A @ dec (unat rid) @ B"
    using sample_report_split [of demo_keys demo_sample] by blast
  have "unat rid < 10 ^ 10" using unsigned_less [of rid, where 'a = nat] by simp
  then have "length (dec (unat rid)) \<le> 10" by (rule length_dec_le) simp
  with demo_sample_length show ?thesis by (simp add: split dec.simps [of 0])
qed

lemma demo_response: "response_id (def_json demo_defender_env) (demo_publish (dec (unat rid))) = Some rid"
proof -
  have "unat rid < 2 ^ 32" using unsigned_less [of rid, where 'a = nat] by simp
  from strtoul10_dec [OF this, of "[]"] show ?thesis
    by (simp add: response_id_def demo_defender_env_def demo_publish_def json_uint_def)
qed

section \<open>The subscriptions\<close>

text \<open>
  The completion reports success whether or not the callbacks could be stored: with a full
  subscription list the task goes on without them.
\<close>

lemma defender_subscription_unnoticed:
  assumes "list_ok l" and "topic_ok (DEFENDER_API_JSON_ACCEPTED topics)"
    "topic_ok (DEFENDER_API_JSON_REJECTED topics)"
  shows "\<exists>l'. def_prvSubscribeCommandCallback api topics True ctx (Some l) n =
      Some (True, Some l', xTaskNotifyGive api n) \<and> list_ok l' \<and> subs l \<subseteq> subs l'"
proof -
  from addSubscription_contract [OF assms(1) topic_ok_filter(1) [OF assms(2)],
      of prvIncomingAcceptedPublish "Some ctx"] obtain ok1 l1 where
    l1: "addSubscription (Some l) (Some (DEFENDER_API_JSON_ACCEPTED topics))
        (of_nat (length (DEFENDER_API_JSON_ACCEPTED topics))) (Some prvIncomingAcceptedPublish)
        (Some ctx) = Some (ok1, Some l1)" "list_ok l1" "subs l \<subseteq> subs l1" by blast
  from addSubscription_contract [OF l1(2) topic_ok_filter(1) [OF assms(3)],
      of prvIncomingRejectedPublish "Some ctx"] obtain ok2 l2 where
    l2: "addSubscription (Some l1) (Some (DEFENDER_API_JSON_REJECTED topics))
        (of_nat (length (DEFENDER_API_JSON_REJECTED topics))) (Some prvIncomingRejectedPublish)
        (Some ctx) = Some (ok2, Some l2)" "list_ok l2" "subs l1 \<subseteq> subs l2" by blast
  from l1(3) l2(3) have "subs l \<subseteq> subs l2" by blast
  with l1(1) l2(1,2) show ?thesis by (simp add: def_prvSubscribeCommandCallback_def)
qed

section \<open>Properties\<close>

text \<open>
  C14. Every report the agent sends is the right one, as long as it sends each before the next is
  generated: the JSON report of the sample that was collected for it, with the identifier it was
  published under.
\<close>

theorem defender_sends_the_report:
  assumes "defender_run env True (Def_id, defender_init n) (pc, s)"
  shows "\<forall>(q, doc) \<in> set (def_sent s). doc = sample_report (def_keys env) q"
proof -
  have "defender_inv (def_keys env) (pc, s)"
    by (rule defender_inv_run [OF assms defender_inv_init])
  then show ?thesis by (simp add: defender_inv_def)
qed

theorem defender_sends_the_report_witness:
  "\<exists>s. defender_run demo_defender_env True (Def_id, defender_init 0) (Def_wait, s)
    \<and> def_sent s \<noteq> [] \<and> (\<forall>(q, doc) \<in> set (def_sent s). doc = sample_report demo_keys q)"
proof -
  have init: "def_queue (defender_init (0 :: nat)) = []" by (simp add: defender_init_def)
  have fits: "length (sample_report (def_keys demo_defender_env) (7, demo_sample)) < 1000"
    using demo_sample_fits by (simp add: demo_defender_env_def)
  obtain s where
    s: "defender_run demo_defender_env True (Def_id, defender_init 0) (Def_wait, s)" "def_sent s \<noteq> []"
    by (rule round_to_wait [OF ready_init demo_sample_ok fits init, of True]) simp
  have "def_keys demo_defender_env = demo_keys" by (simp add: demo_defender_env_def)
  with s defender_sends_the_report [OF s(1)] show ?thesis by metis
qed

text \<open>
  C38. One answer that comes after the wait of its round puts the task out of step for good.  In
  every run in which each report is answered once, in its own round, by a network that is slower
  than the task, at most one wait ever times out; up to then every report is seen to be answered;
  and from the end of that round on, for as many rounds as there are, every wait ends at once
  with the notification of the answer before, and every single report is logged as unanswered.
  (The late answer leaves a notification that nothing clears.)
\<close>

theorem late_response_never_recovers:
  assumes "counting (def_api env) pending" and "pending n = 0"
    and "timed_run env prompt pending (Def_id, defender_init n) k a t (Def_id, s)"
    and "timed_run env prompt pending (Def_id, s) k' a' t' (Def_id, s')"
  shows "a = k \<and> t \<le> 1 \<and> pending (def_notification s) = t
    \<and> (t = 0 \<longrightarrow> def_unanswered s = 0)
    \<and> (t = 1 \<longrightarrow> a' = k' \<and> t' = 0 \<and> def_unanswered s' = def_unanswered s + k'
         \<and> pending (def_notification s') = 1)"
proof -
  have "timed_inv pending 0 0 0 0 0 (Def_id, defender_init n)"
    using assms(2) by (simp add: timed_inv_def defender_init_def)
  from timed_inv_run [OF assms(1,3) this]
  have first: "a = k" "t \<le> 1" "pending (def_notification s) = t" "t = 0 \<longrightarrow> def_unanswered s = 0"
    by (simp_all add: timed_inv_def Let_def)
  have "a' = k' \<and> t' = 0 \<and> def_unanswered s' = def_unanswered s + k' \<and> pending (def_notification s') = 1"
    if "t = 1"
  proof -
    have "timed_inv pending 1 (def_unanswered s) 0 0 0 (Def_id, s)"
      using first(3) that by (simp add: timed_inv_def)
    from timed_inv_run [OF assms(1,4) this] show ?thesis by (simp add: timed_inv_def Let_def)
  qed
  with first show ?thesis by blast
qed

text \<open>Such runs exist, with any number of rounds after the one that is answered late.\<close>

lemma late_rounds:
  assumes "counting (def_api env) pending" and "pending n = 0"
    and "sample_ok smp" and "sample_succeeds smp"
    and "\<forall>rid. length (sample_report (def_keys env) (rid, smp)) < 1000"
    and "\<forall>rid. \<exists>p. response_id (def_json env) p = Some rid"
  shows "\<exists>s s'. timed_run env prompt pending (Def_id, defender_init n) 1 1 1 (Def_id, s)
    \<and> timed_run env prompt pending (Def_id, s) k k 0 (Def_id, s')"
proof -
  obtain p where p: "response_id (def_json env) p = Some 0" using assms(6) by blast
  have init: "def_queue (defender_init n) = []" "pending (def_notification (defender_init n)) = 0"
    using assms(2) by (simp_all add: defender_init_def)
  have fits: "length (sample_report (def_keys env) (rid, smp)) < 1000" for rid using assms(5) by simp
  obtain s where s: "timed_run env prompt pending (Def_id, defender_init n) 1 1 1 (Def_id, s)" "ready s"
    "def_queue s = []" "pending (def_notification s) = 1"
    using late_round [OF assms(1) ready_init init(1) assms(3,4) fits p init(2) _ tr_start, of prompt thesis]
    by simp
  have "\<exists>s'. timed_run env prompt pending (Def_id, s) k k 0 (Def_id, s') \<and> ready s'
    \<and> def_queue s' = [] \<and> pending (def_notification s') = 1"
  proof (induction k)
    case 0
    from s show ?case by (blast intro: tr_start)
  next
    case (Suc k)
    then obtain s1 where s1: "timed_run env prompt pending (Def_id, s) k k 0 (Def_id, s1)" "ready s1"
      "def_queue s1 = []" "pending (def_notification s1) = 1" by blast
    from late_round [OF assms(1) s1(2,3) assms(3,4) fits p s1(4) _ s1(1)] show ?case by auto
  qed
  with s(1) show ?thesis by blast
qed

theorem late_response_never_recovers_witness:
  "\<exists>s s'. timed_run demo_defender_env True (\<lambda>n. n) (Def_id, defender_init 0) 1 1 1 (Def_id, s)
    \<and> timed_run demo_defender_env True (\<lambda>n. n) (Def_id, s) 100 100 0 (Def_id, s')
    \<and> def_unanswered s' = def_unanswered s + 100 \<and> def_notification s' = 1"
proof -
  have counting: "counting (def_api demo_defender_env) (\<lambda>n. n)"
    by (simp add: demo_defender_env_def demo_counting)
  moreover have "\<forall>rid. length (sample_report (def_keys demo_defender_env) (rid, demo_sample)) < 1000"
    using demo_sample_fits by (simp add: demo_defender_env_def)
  moreover have "\<forall>rid. \<exists>p. response_id (def_json demo_defender_env) p = Some rid"
    using demo_response by blast
  ultimately obtain s s' where run:
    "timed_run demo_defender_env True (\<lambda>n. n) (Def_id, defender_init 0) 1 1 1 (Def_id, s)"
    "timed_run demo_defender_env True (\<lambda>n. n) (Def_id, s) 100 100 0 (Def_id, s')"
    using late_rounds [of demo_defender_env "\<lambda>n. n" 0 demo_sample True 100, OF _ _ demo_sample_ok] by blast
  with late_response_never_recovers [OF counting refl run] show ?thesis by blast
qed

text \<open>
  C32. The identifier survives the round trip through the service: a response that repeats the
  number printed in a report is taken for the answer exactly when it is the report under way.
\<close>

theorem defender_response_roundtrip:
  assumes "JSON_Validate json doc len"
    and "JSON_Search json doc len defenderexampleRESPONSE_REPORT_ID_FIELD = Some off"
    and "drop off doc = dec (unat rid) @ rest" and "rest = [] \<or> \<not> is_digit (hd rest)"
  shows "prvValidateDefenderResponse json (Some doc) len s = Some (rid = def_ulReportId s)"
proof -
  have "unat rid < 2 ^ 32" using unsigned_less [of rid, where 'a = nat] by simp
  from strtoul10_dec [OF this assms(4)] assms(3) have "strtoul10 (drop off doc) = rid"
    by simp
  with assms(1,2) show ?thesis by (simp add: prvValidateDefenderResponse_def json_uint_def)
qed

theorem defender_response_roundtrip_witness:
  "prvValidateDefenderResponse \<lparr>JSON_Validate = (\<lambda>doc len. True), JSON_Search = (\<lambda>doc len key. Some 12)\<rparr>
     (Some (''{reportId : '' @ dec 42 @ ''}'')) 16 (defender_init 0\<lparr>def_ulReportId := 42\<rparr>) = Some True"
proof -
  have "rest = [] \<or> \<not> is_digit (hd rest)" if "rest = ''}''" for rest
    using that by (simp add: is_digit_def)
  then show ?thesis
    using defender_response_roundtrip [of "\<lparr>JSON_Validate = (\<lambda>doc len. True), JSON_Search = (\<lambda>doc len key. Some 12)\<rparr>"
        "''{reportId : '' @ dec 42 @ ''}''" 16 12 42 "''}''" "defender_init 0\<lparr>def_ulReportId := 42\<rparr>"]
    by simp
qed

text \<open>
  When the agent is slow, for instance while it reconnects, a report is not sent as it was
  published: the queue points to the report buffer, and the next round overwrites it.  The report
  9 is then sent as the report 10 without its last character.
\<close>

theorem unsent_report_is_overwritten:
  assumes "ulTaskNotifyTake (def_api env) n = (0, n)"
    and "sample_ok smp" and "sample_succeeds smp"
    and "length (sample_report (def_keys env) (10, smp)) < 1000"
  shows "\<exists>s. defender_run env False (Def_id, defender_init n) (Def_publish smp, s)
    \<and> def_sent s = [((9, smp), butlast (sample_report (def_keys env) (10, smp)))]
    \<and> butlast (sample_report (def_keys env) (10, smp)) \<noteq> sample_report (def_keys env) (9, smp)"
proof -
  let ?r = "\<lambda>rid. sample_report (def_keys env) (rid, smp)"
  obtain A B where split: "\<And>rid. ?r rid = A @ dec (unat rid) @ B" "B \<noteq> []"
    using sample_report_split [of "def_keys env" smp] by blast
  have d: "dec 9 = ''9''" "dec 10 = ''10''"
    by code_simp+
  then have len: "length (?r 10) = length (?r 9) + 1" by (simp add: split(1))
  have differ: "butlast (?r 10) \<noteq> ?r 9" using d split(2) by (simp add: split(1) butlast_append)
  have init: "def_queue (defender_init n) = []" "def_sent (defender_init n) = []"
    "def_notification (defender_init n) = n" by (simp_all add: defender_init_def)
  from round_to_publish [OF ready_init assms(2,3), of env 9 False n] len assms(4) init obtain s1 where
    s1: "defender_run env False (Def_id, defender_init n) (Def_publish smp, s1)" "ready s1"
      "def_ulReportId s1 = 9" "unat (def_ulReportLength s1) = length (?r 9)" "def_queue s1 = []"
      "def_sent s1 = []" "def_notification s1 = n" by (metis add_lessD1)
  let ?s2 = "s1\<lparr>def_payloadLength := length (?r 9), def_queue := [(9, smp)]\<rparr>"
  have n: "?s2\<lparr>def_notification := n\<rparr> = ?s2" using s1(7) by (cases s1) simp
  have "defender_step env False (Def_publish smp, s1) (Def_wait, ?s2)"
    by (rule def_publish [of True _ _ True]) (simp add: prvPublishDeviceMetricsReport_def s1(3-5))
  moreover have "defender_step env False (Def_wait, ?s2) (Def_delay, ?s2)"
    using def_wait [of env ?s2 0 n False] assms(1) s1(7) n by simp
  moreover have "defender_step env False (Def_delay, ?s2) (Def_id, ?s2)" by (rule def_delay)
  ultimately have two: "defender_run env False (Def_id, defender_init n) (Def_id, ?s2)"
    using s1(1) by (meson rtranclp.rtrancl_into_rtrancl)
  have "ready ?s2" using s1(2) by (simp add: ready_def arrays_ok_def)
  from round_to_publish [OF this assms(2-4), of False] obtain s3 where
    s3: "defender_run env False (Def_id, ?s2) (Def_publish smp, s3)" "ready s3"
      "unat (def_ulReportLength s3) = length (?r 10)"
      "take (unat (def_ulReportLength s3)) (def_pcDeviceMetricsJsonReport s3) = ?r 10"
      "def_queue s3 = [(9, smp)]" "def_sent s3 = []" "def_payloadLength s3 = length (?r 9)"
    using s1(6) by auto
  have "take (length (?r 9)) (def_pcDeviceMetricsJsonReport s3) = take (length (?r 9)) (?r 10)"
    using s3(3,4) len by (metis take_take min.absorb1 le_add1)
  also have "\<dots> = butlast (?r 10)" by (simp add: butlast_conv_take len)
  finally have doc: "mem_read (def_pcDeviceMetricsJsonReport s3) 0 (def_payloadLength s3) =
      Some (butlast (?r 10))"
    using s3(2,7) len assms(4) by (simp add: mem_read_def ready_def)
  let ?s4 = "s3\<lparr>def_queue := [], def_sent := [((9, smp), butlast (?r 10))]\<rparr>"
  have "defender_step env False (Def_publish smp, s3) (Def_publish smp, ?s4)"
    using def_sends [OF s3(5) doc, of env False] s3(6) by simp
  with two s3(1) have "defender_run env False (Def_id, defender_init n) (Def_publish smp, ?s4)"
    by (meson rtranclp_trans rtranclp.rtrancl_into_rtrancl)
  with differ show ?thesis by (intro exI [of _ ?s4]) simp
qed

theorem unsent_report_is_overwritten_witness:
  "\<exists>s. defender_run demo_defender_env False (Def_id, defender_init 0) (Def_publish demo_sample, s)
    \<and> def_sent s = [((9, demo_sample), butlast (sample_report demo_keys (10, demo_sample)))]"
proof -
  have "ulTaskNotifyTake (def_api demo_defender_env) 0 = (0, 0)"
    by (simp add: demo_defender_env_def demo_notify_def)
  moreover have "length (sample_report (def_keys demo_defender_env) (10, demo_sample)) < 1000"
    using demo_sample_fits by (simp add: demo_defender_env_def)
  ultimately show ?thesis
    using unsent_report_is_overwritten [of demo_defender_env 0, OF _ demo_sample_ok]
    by (auto simp: demo_defender_env_def)
qed

end
