(* ===== verification/Simple_Sub_Pub.thy ===== *)
theory Simple_Sub_Pub
  imports Agent_Client
begin

text \<open>
  source/demo-tasks/simple_sub_pub_demo.c: tasks that each subscribe to a topic of their own and
  publish numbered messages to it, counting how many were completed in time.

  The static variables, the variables of one task and the publish commands that the agent still
  holds for it are the record \<open>simple_pub\<close>; \<open>simple_step\<close> is one step of the task or of the
  agent.  The number of tasks, \<open>democonfigNUM_SIMPLE_SUB_PUB_TASKS_TO_CREATE\<close>, is a parameter.
\<close>

section \<open>Data\<close>

definition mqttexampleSTRING_BUFFER_LENGTH :: nat where "mqttexampleSTRING_BUFFER_LENGTH = 100"

definition mqttexamplePUBLISH_COUNT :: u32 where "mqttexamplePUBLISH_COUNT = 0xffffffff"

record pub_counters =
  ulQoS0FailCount :: "u32 list"
  ulQoS1FailCount :: "u32 list"
  ulQoS0PassCount :: "u32 list"
  ulQoS1PassCount :: "u32 list"

text \<open>The sizes of the arrays for \<open>n\<close> tasks, at least one.\<close>

definition counters_size :: "nat \<Rightarrow> nat" where
  "counters_size n = (if n > 0 then (n + 1) div 2 else 1)"

definition topicBuf_size :: "nat \<Rightarrow> nat" where
  "topicBuf_size n = (if n > 0 then n else 1)"

definition counters_init :: "nat \<Rightarrow> pub_counters" where
  "counters_init n = \<lparr>
     ulQoS0FailCount = replicate (counters_size n) 0, ulQoS1FailCount = replicate (counters_size n) 0,
     ulQoS0PassCount = replicate (counters_size n) 0, ulQoS1PassCount = replicate (counters_size n) 0\<rparr>"

text \<open>
  A command that the agent holds is known by the number it was queued with; \<open>sp_sent\<close> are the
  payloads the agent has sent, \<open>sp_completed\<close> the commands it has completed, with the status, and \<open>sp_judged\<close> the
  numbers that the task has counted, with the verdict.
\<close>

record 'n simple_pub =
  sp_counters :: pub_counters
  sp_ulValueToNotify :: u32
  sp_payloadBuf :: string
  sp_payloadLength :: nat
  sp_contextValue :: u32
  sp_notification :: 'n
  sp_queued :: "u32 list"
  sp_unacked :: "u32 list"
  sp_sent :: "(u32 \<times> string) list"
  sp_completed :: "(u32 \<times> int) list"
  sp_judged :: "(u32 \<times> bool) list"

definition simple_init :: "nat \<Rightarrow> 'n \<Rightarrow> 'n simple_pub" where
  "simple_init tasks n = \<lparr>sp_counters = counters_init tasks, sp_ulValueToNotify = 0,
     sp_payloadBuf = replicate mqttexampleSTRING_BUFFER_LENGTH (CHR 0x00), sp_payloadLength = 0,
     sp_contextValue = 0, sp_notification = n, sp_queued = [], sp_unacked = [], sp_sent = [],
     sp_completed = [], sp_judged = []\<rparr>"

section \<open>Callbacks\<close>

text \<open>The static buffer that the payload is copied to as a string.\<close>

definition sp_prvIncomingPublishCallback :: "MQTTPublishInfo \<Rightarrow> string \<Rightarrow> string option" where
  "sp_prvIncomingPublishCallback p cTerminatedString =
     (if payloadLength p < mqttexampleSTRING_BUFFER_LENGTH then do {
        bytes \<leftarrow> payload_bytes p;
        buf \<leftarrow> mem_write cTerminatedString 0 bytes;
        arr_set buf (payloadLength p) (CHR 0x00)
      }
      else do {
        doc \<leftarrow> pPayload p;
        bytes \<leftarrow> mem_read doc 0 mqttexampleSTRING_BUFFER_LENGTH;
        buf \<leftarrow> mem_write cTerminatedString 0 bytes;
        arr_set buf (mqttexampleSTRING_BUFFER_LENGTH - 1) (CHR 0x00)
      })"

text \<open>
  The completion of a publish: the context's \<open>xReturnStatus\<close> and the notification, with the
  value that the context holds now.
\<close>

definition sp_prvPublishCommandCallback ::
  "'n value_api \<Rightarrow> int \<Rightarrow> bool \<Rightarrow> u32 \<Rightarrow> 'n \<Rightarrow> int \<times> 'n" where
  "sp_prvPublishCommandCallback api returnCode hasTask ulNotificationValue n =
     (returnCode, if hasTask then xTaskNotify api ulNotificationValue n else n)"

text \<open>
  The completion of the subscribe command.  \<open>success\<close> is \<open>MQTTSuccess\<close>; the result of
  \<open>addSubscription\<close> is only logged.
\<close>

definition sp_prvSubscribeCommandCallback ::
  "'n value_api \<Rightarrow> int \<Rightarrow> int \<Rightarrow> string \<Rightarrow> (demo_callback, 'ctx) SubscriptionElement list option \<Rightarrow> 'n
   \<Rightarrow> (int \<times> (demo_callback, 'ctx) SubscriptionElement list option \<times> 'n) option" where
  "sp_prvSubscribeCommandCallback api success returnCode flt pl n = do {
     pl' \<leftarrow>
       (if returnCode = success then do {
          (added, pl1) \<leftarrow> addSubscription pl (Some flt) (of_nat (length flt))
             (Some sp_prvIncomingPublish) None;
          Some pl1
        }
        else Some pl);
     Some (returnCode, pl', xTaskNotify api (of_int returnCode) n)
   }"

section \<open>Subscribing\<close>

text \<open>
  \<open>queued\<close> says which attempts to queue the command succeed; \<open>completion\<close> is the status of
  the command when the agent completes it before the wait is over.  The return value is whether
  a notification came, whatever its value.
\<close>

definition sp_prvSubscribeToTopic ::
  "'n value_api \<Rightarrow> int \<Rightarrow> (nat \<Rightarrow> bool) \<Rightarrow> int option \<Rightarrow> string
   \<Rightarrow> (demo_callback, 'ctx) SubscriptionElement list option \<Rightarrow> 'n
   \<Rightarrow> (bool \<times> (demo_callback, 'ctx) SubscriptionElement list option \<times> 'n) option" where
  "sp_prvSubscribeToTopic api success queued completion pcTopicFilter pl n = do {
     let n1 = val_xTaskNotifyStateClear api n;
     _ \<leftarrow> subscribe_loop queued 0;
     (pl2, n2) \<leftarrow>
       (case completion of
          None \<Rightarrow> Some (pl, n1)
        | Some returnCode \<Rightarrow> do {
            (xReturnStatus, pl', n') \<leftarrow>
              sp_prvSubscribeCommandCallback api success returnCode pcTopicFilter pl n1;
            Some (pl', n')
          });
     let ((xCommandAcknowledged, ulNotifiedValue), n3) = xTaskNotifyWait api n2;
     Some (xCommandAcknowledged, pl2, n3)
   }"

section \<open>The task\<close>

definition simple_taskName :: "nat \<Rightarrow> string" where
  "simple_taskName ulTaskNumber = c_format ''Publisher%d'' [Fmt_int (sint (of_nat ulTaskNumber :: u32))]"

text \<open>The topic of a task, written to its element of \<open>topicBuf\<close>.\<close>

definition simple_topic :: "nat \<Rightarrow> string list \<Rightarrow> string list option" where
  "simple_topic ulTaskNumber topicBuf = do {
     pcTopicBuffer \<leftarrow> arr_get topicBuf ulTaskNumber;
     (r, buf) \<leftarrow> snprintf pcTopicBuffer 0 (of_nat mqttexampleSTRING_BUFFER_LENGTH)
        (c_format ''/filter/%s'' [Fmt_str (simple_taskName ulTaskNumber)]);
     arr_set topicBuf ulTaskNumber buf
   }"

definition simple_message :: "nat \<Rightarrow> u32 \<Rightarrow> string" where
  "simple_message ulTaskNumber ulValueToNotify = c_format ''%s publishing message %d''
     [Fmt_str (simple_taskName ulTaskNumber), Fmt_int (sint ulValueToNotify)]"

text \<open>\<open>strlen\<close> of the buffer that \<open>snprintf\<close> has filled.\<close>

definition simple_payload :: "nat \<Rightarrow> u32 \<Rightarrow> string \<Rightarrow> (nat \<times> string) option" where
  "simple_payload ulTaskNumber ulValueToNotify payloadBuf = do {
     (r, buf) \<leftarrow> snprintf payloadBuf 0 (of_nat mqttexampleSTRING_BUFFER_LENGTH)
        (simple_message ulTaskNumber ulValueToNotify);
     Some (length (takeWhile (\<lambda>c. c \<noteq> CHR 0x00) buf), buf)
   }"

definition bump :: "u32 list \<Rightarrow> nat \<Rightarrow> u32 list option" where
  "bump counts i = do { c \<leftarrow> arr_get counts i; arr_set counts i (c + 1) }"

text \<open>Counting a verdict: \<open>ulPassCounts[xQoS][ulTaskNumber >> 1]++\<close> or the failure.\<close>

definition count_verdict :: "nat \<Rightarrow> bool \<Rightarrow> pub_counters \<Rightarrow> pub_counters option" where
  "count_verdict ulTaskNumber passed c =
     (let xQoS = ulTaskNumber mod 2; i = ulTaskNumber div 2
      in if passed
         then (if xQoS = 0 then map_option (\<lambda>a. c\<lparr>ulQoS0PassCount := a\<rparr>) (bump (ulQoS0PassCount c) i)
               else map_option (\<lambda>a. c\<lparr>ulQoS1PassCount := a\<rparr>) (bump (ulQoS1PassCount c) i))
         else (if xQoS = 0 then map_option (\<lambda>a. c\<lparr>ulQoS0FailCount := a\<rparr>) (bump (ulQoS0FailCount c) i)
               else map_option (\<lambda>a. c\<lparr>ulQoS1FailCount := a\<rparr>) (bump (ulQoS1FailCount c) i)))"

text \<open>Where the task is in its loop; the argument is \<open>ulNotification\<close>.\<close>

datatype simple_pc = SP_format | SP_publish | SP_wait | SP_judge u32 | SP_delay | SP_end

text \<open>
  The agent sends a command and completes it later, or completes it with an error without sending
  it.  \<open>prompt\<close>
  restricts the runs to those in which each message finds the previous one completed and its
  notification consumed.  A completion of the subscribe command after its wait has ended is not
  a step: its callback then reads the locals of a function that has returned, which C leaves
  undefined.
\<close>

inductive simple_step ::
  "'n value_api \<Rightarrow> ('n \<Rightarrow> bool) \<Rightarrow> nat \<Rightarrow> bool \<Rightarrow> simple_pc \<times> 'n simple_pub \<Rightarrow> simple_pc \<times> 'n simple_pub \<Rightarrow> bool"
  for api :: "'n value_api" and pending :: "'n \<Rightarrow> bool" and ulTaskNumber :: nat and prompt :: bool where
  sp_format: "prompt \<longrightarrow> sp_queued s = [] \<and> sp_unacked s = [] \<and> \<not> pending (sp_notification s) \<Longrightarrow>
    sp_ulValueToNotify s < mqttexamplePUBLISH_COUNT \<Longrightarrow>
    simple_payload ulTaskNumber (sp_ulValueToNotify s) (sp_payloadBuf s) = Some (len, buf) \<Longrightarrow>
    simple_step api pending ulTaskNumber prompt (SP_format, s)
      (SP_publish, s\<lparr>sp_payloadBuf := buf, sp_payloadLength := len,
                     sp_contextValue := sp_ulValueToNotify s\<rparr>)"
| sp_finished: "\<not> sp_ulValueToNotify s < mqttexamplePUBLISH_COUNT \<Longrightarrow>
    simple_step api pending ulTaskNumber prompt (SP_format, s) (SP_end, s)"
| sp_publish: "simple_step api pending ulTaskNumber prompt (SP_publish, s)
      (SP_wait, s\<lparr>sp_queued := sp_queued s @ [sp_ulValueToNotify s]\<rparr>)"
| sp_wait: "xTaskNotifyWait api (sp_notification s) = ((acknowledged, ulNotification), n) \<Longrightarrow>
    simple_step api pending ulTaskNumber prompt (SP_wait, s)
      (SP_judge ulNotification, s\<lparr>sp_notification := n\<rparr>)"
| sp_judge: "count_verdict ulTaskNumber (ulNotification = sp_ulValueToNotify s) (sp_counters s) = Some c \<Longrightarrow>
    simple_step api pending ulTaskNumber prompt (SP_judge ulNotification, s)
      (SP_delay, s\<lparr>sp_counters := c, sp_judged := sp_judged s
         @ [(sp_ulValueToNotify s, ulNotification = sp_ulValueToNotify s)]\<rparr>)"
| sp_delay: "simple_step api pending ulTaskNumber prompt (SP_delay, s)
      (SP_format, s\<lparr>sp_ulValueToNotify := sp_ulValueToNotify s + 1\<rparr>)"
| sp_sends: "sp_queued s = i # ks \<Longrightarrow>
    mem_read (sp_payloadBuf s) 0 (sp_payloadLength s) = Some doc \<Longrightarrow>
    simple_step api pending ulTaskNumber prompt (pc, s)
      (pc, s\<lparr>sp_queued := ks, sp_unacked := sp_unacked s @ [i], sp_sent := sp_sent s @ [(i, doc)]\<rparr>)"
| sp_completes: "sp_unacked s = ks @ i # js \<Longrightarrow>
    sp_prvPublishCommandCallback api returnCode True (sp_contextValue s) (sp_notification s) = (status, n) \<Longrightarrow>
    simple_step api pending ulTaskNumber prompt (pc, s)
      (pc, s\<lparr>sp_unacked := ks @ js, sp_completed := (i, status) # sp_completed s, sp_notification := n\<rparr>)"
| sp_fails: "sp_queued s = i # ks \<Longrightarrow>
    sp_prvPublishCommandCallback api returnCode True (sp_contextValue s) (sp_notification s) = (status, n) \<Longrightarrow>
    simple_step api pending ulTaskNumber prompt (pc, s)
      (pc, s\<lparr>sp_queued := ks, sp_completed := (i, status) # sp_completed s, sp_notification := n\<rparr>)"

abbreviation simple_run where
  "simple_run api pending ulTaskNumber prompt \<equiv> rtranclp (simple_step api pending ulTaskNumber prompt)"

section \<open>Texts\<close>

lemma dec_no_nul: "CHR 0x00 \<notin> set (dec n)"
  using dec_digits [of n] by (auto simp: is_digit_def)

lemma dec_int_no_nul: "CHR 0x00 \<notin> set (dec_int i)"
  by (simp add: dec_int_def dec_no_nul)

lemma length_dec_int: "\<bar>i\<bar> < 10 ^ k \<Longrightarrow> 0 < k \<Longrightarrow> length (dec_int i) \<le> k + 1"
  using length_dec_le [of "nat \<bar>i\<bar>" k] by (auto simp: dec_int_def nat_less_iff)

lemma simple_taskName_eq: "simple_taskName n = ''Publisher'' @ dec_int (sint (of_nat n :: u32))"
  by (simp add: simple_taskName_def format_rules del: c_format.simps(2))

lemma simple_message_eq:
  "simple_message n v = ''Publisher'' @ dec_int (sint (of_nat n :: u32)) @ '' publishing message '' @ dec_int (sint v)"
  by (simp add: simple_message_def format_rules simple_taskName_eq del: c_format.simps(2))

lemma sint_bound: "\<bar>sint (v :: u32)\<bar> < 10 ^ 10"
  using sint_ge [of v] sint_lt [of v] by simp

text \<open>A message is never cut off, whatever the number.\<close>

lemma simple_payload_eq:
  assumes "length buf = 100" and "n < 2 ^ 32"
  obtains buf' where "simple_payload n v buf = Some (length (simple_message n v), buf')"
    "length buf' = 100" "take (length (simple_message n v)) buf' = simple_message n v"
proof -
  let ?m = "simple_message n v"
  have "length (dec_int (sint w)) \<le> 11" for w :: u32
    using length_dec_int [OF sint_bound] by simp
  from this [of v] this [of "of_nat n"] have len: "length ?m \<le> 60" by (simp add: simple_message_eq)
  have nul: "takeWhile (\<lambda>c. c \<noteq> CHR 0x00) (?m @ CHR 0x00 # xs) = ?m" for xs
    by (subst takeWhile_append2) (auto simp: simple_message_eq dec_int_no_nul)
  let ?buf = "?m @ CHR 0x00 # drop (length ?m + 1) buf"
  have "unat (of_nat mqttexampleSTRING_BUFFER_LENGTH :: u32) = 100"
    by (simp add: mqttexampleSTRING_BUFFER_LENGTH_def)
  then have "snprintf buf 0 (of_nat mqttexampleSTRING_BUFFER_LENGTH) ?m = Some (int (length ?m), ?buf)"
    using len assms(1)
    by (simp add: snprintf_def mem_write_def Let_def mqttexampleSTRING_BUFFER_LENGTH_def)
  then have "simple_payload n v buf = Some (length ?m, ?buf)"
    by (simp add: simple_payload_def nul)
  then show thesis by (rule that) (use len assms(1) in simp_all)
qed

text \<open>The incoming payload as a string, cut to fit.\<close>

lemma incoming_string:
  assumes "pPayload p = Some doc" and "payloadLength p \<le> length doc" and "length buf = 100"
  shows "\<exists>rest. sp_prvIncomingPublishCallback p buf =
    Some (take (min (payloadLength p) 99) doc @ [CHR 0x00] @ rest)"
proof (cases "payloadLength p < 100")
  case True
  have bytes: "payload_bytes p = Some (take (payloadLength p) doc)"
    using assms by (simp add: payload_bytes_def mem_read_def)
  have "sp_prvIncomingPublishCallback p buf =
      Some ((take (payloadLength p) doc @ drop (payloadLength p) buf)[payloadLength p := CHR 0x00])"
    using True assms
    by (simp add: sp_prvIncomingPublishCallback_def mqttexampleSTRING_BUFFER_LENGTH_def bytes
        mem_write_def)
  also have "\<dots> = Some (take (payloadLength p) doc @ [CHR 0x00] @ drop (payloadLength p + 1) buf)"
    using True assms by (simp add: list_update_append Cons_nth_drop_Suc [symmetric])
  finally show ?thesis using True by auto
next
  case False
  then have "sp_prvIncomingPublishCallback p buf = Some ((take 100 doc)[99 := CHR 0x00])"
    using assms
    by (simp add: sp_prvIncomingPublishCallback_def mqttexampleSTRING_BUFFER_LENGTH_def mem_read_def
        mem_write_def)
  also have "(take 100 doc)[99 := CHR 0x00] = take 99 doc @ [CHR 0x00]"
    using False assms by (simp add: upd_conv_take_nth_drop)
  finally show ?thesis using False by auto
qed

section \<open>Counters\<close>

definition counter :: "pub_counters \<Rightarrow> nat \<Rightarrow> bool \<Rightarrow> u32" where
  "counter c n passed =
     (if passed then (if n mod 2 = 0 then ulQoS0PassCount c else ulQoS1PassCount c)
      else (if n mod 2 = 0 then ulQoS0FailCount c else ulQoS1FailCount c)) ! (n div 2)"

definition counters_ok :: "nat \<Rightarrow> pub_counters \<Rightarrow> bool" where
  "counters_ok tasks c \<longleftrightarrow>
     length (ulQoS0PassCount c) = counters_size tasks \<and> length (ulQoS1PassCount c) = counters_size tasks
     \<and> length (ulQoS0FailCount c) = counters_size tasks \<and> length (ulQoS1FailCount c) = counters_size tasks"

lemma counters_ok_init: "counters_ok tasks (counters_init tasks)"
  by (simp add: counters_ok_def counters_init_def)

lemma counter_index: "n < tasks \<Longrightarrow> n div 2 < counters_size tasks"
  by (auto simp: counters_size_def)

lemma bump_eq: "i < length xs \<Longrightarrow> bump xs i = Some (xs[i := xs ! i + 1])"
  by (simp add: bump_def)

lemma same_half: "m mod 2 = n mod 2 \<Longrightarrow> (m :: nat) div 2 = n div 2 \<longleftrightarrow> m = n"
  by (metis div_mult_mod_eq)

lemma count_verdict_counts:
  assumes "n < tasks" and "counters_ok tasks c"
  obtains c' where "count_verdict n passed c = Some c'" "counters_ok tasks c'"
    "\<And>m q. m < tasks \<Longrightarrow> counter c' m q = counter c m q + (if m = n \<and> q = passed then 1 else 0)"
proof -
  note i = counter_index [OF assms(1)]
  have half: "m div 2 = n div 2 \<longleftrightarrow> m = n" if "(m mod 2 = 0) = (n mod 2 = 0)" for m
    using that by (intro same_half) presburger
  let ?c = "if passed
    then (if n mod 2 = 0 then c\<lparr>ulQoS0PassCount := (ulQoS0PassCount c)[n div 2 := ulQoS0PassCount c ! (n div 2) + 1]\<rparr>
          else c\<lparr>ulQoS1PassCount := (ulQoS1PassCount c)[n div 2 := ulQoS1PassCount c ! (n div 2) + 1]\<rparr>)
    else (if n mod 2 = 0 then c\<lparr>ulQoS0FailCount := (ulQoS0FailCount c)[n div 2 := ulQoS0FailCount c ! (n div 2) + 1]\<rparr>
          else c\<lparr>ulQoS1FailCount := (ulQoS1FailCount c)[n div 2 := ulQoS1FailCount c ! (n div 2) + 1]\<rparr>)"
  show thesis
  proof (rule that [of ?c])
    show "count_verdict n passed c = Some ?c"
      using assms(2) i by (simp add: count_verdict_def counters_ok_def Let_def bump_eq)
    show "counters_ok tasks ?c" using assms(2) by (simp add: counters_ok_def)
    fix m q assume "m < tasks"
    then show "counter ?c m q = counter c m q + (if m = n \<and> q = passed then 1 else 0)"
      using assms(2) i counter_index [of m tasks] half [of m]
      by (auto simp: counter_def counters_ok_def nth_list_update)
  qed
qed

section \<open>Invariant\<close>

definition completed :: "'n simple_pub \<Rightarrow> u32 set" where
  "completed s = fst ` set (sp_completed s)"

definition outstanding :: "'n simple_pub \<Rightarrow> u32 set" where
  "outstanding s = set (sp_queued s) \<union> set (sp_unacked s)"

definition buffer_holds :: "nat \<Rightarrow> u32 \<Rightarrow> 'n simple_pub \<Rightarrow> bool" where
  "buffer_holds n i s \<longleftrightarrow> take (sp_payloadLength s) (sp_payloadBuf s) = simple_message n i"

text \<open>
  What holds at each point of the loop, \<open>code\<close> being the notification value left by the
  subscribing: the value is that of an earlier message until the message under way is completed.
\<close>

definition pc_inv :: "('n \<Rightarrow> bool) \<Rightarrow> ('n \<Rightarrow> u32) \<Rightarrow> u32 \<Rightarrow> nat \<Rightarrow> simple_pc \<Rightarrow> 'n simple_pub \<Rightarrow> bool" where
  "pc_inv pending val code n pc s =
     (let cur = sp_ulValueToNotify s; v = val (sp_notification s);
          done = (\<lambda>x. x = cur \<longrightarrow> cur \<in> completed s \<or> cur = code)
      in case pc of
        SP_format \<Rightarrow> (outstanding s \<noteq> {} \<longrightarrow> sp_contextValue s < cur) \<and> (v < cur \<or> v = code)
      | SP_publish \<Rightarrow> outstanding s = {} \<and> sp_contextValue s = cur \<and> cur < mqttexamplePUBLISH_COUNT
          \<and> (v < cur \<or> v = code) \<and> buffer_holds n cur s
      | SP_wait \<Rightarrow> outstanding s \<subseteq> {cur} \<and> sp_contextValue s = cur \<and> cur < mqttexamplePUBLISH_COUNT
          \<and> (v \<le> cur \<or> v = code) \<and> done v
      | SP_judge x \<Rightarrow> sp_contextValue s = cur \<and> cur < mqttexamplePUBLISH_COUNT \<and> (v \<le> cur \<or> v = code)
          \<and> done x
      | SP_delay \<Rightarrow> sp_contextValue s = cur \<and> cur < mqttexamplePUBLISH_COUNT \<and> (v \<le> cur \<or> v = code)
      | SP_end \<Rightarrow> True)"

definition simple_inv :: "('n \<Rightarrow> bool) \<Rightarrow> ('n \<Rightarrow> u32) \<Rightarrow> u32 \<Rightarrow> nat \<Rightarrow> simple_pc \<times> 'n simple_pub \<Rightarrow> bool" where
  "simple_inv pending val code n = (\<lambda>(pc, s).
     length (sp_payloadBuf s) = 100
     \<and> (\<forall>i \<in> set (sp_queued s). buffer_holds n i s)
     \<and> (\<forall>(i, doc) \<in> set (sp_sent s). doc = simple_message n i)
     \<and> (\<forall>(i, passed) \<in> set (sp_judged s). passed \<longrightarrow> i \<in> completed s \<or> i = code)
     \<and> pc_inv pending val code n pc s)"

lemma next_count: "(v :: u32) < mqttexamplePUBLISH_COUNT \<Longrightarrow> x \<le> v \<Longrightarrow> x < v + 1"
  by (simp add: mqttexamplePUBLISH_COUNT_def word_le_nat_alt word_less_nat_alt unat_word_ariths)

lemma completing_inv:
  assumes inv: "simple_inv pending val code n (pc, s)" and api: "overwriting api pending val"
    and i: "i \<in> outstanding s"
    and sub: "set ks \<subseteq> set (sp_queued s)" "set js \<subseteq> set (sp_unacked s)"
    and s': "s' = s\<lparr>sp_queued := ks, sp_unacked := js, sp_completed := (i, st) # sp_completed s,
      sp_notification := xTaskNotify api (sp_contextValue s) (sp_notification s)\<rparr>"
  shows "simple_inv pending val code n (pc, s')"
proof -
  have out: "outstanding s' \<subseteq> outstanding s" and comp: "completed s' = insert i (completed s)"
    and val: "val (sp_notification s') = sp_contextValue s"
    and buf: "buffer_holds n j s' = buffer_holds n j s"
    and same: "sp_contextValue s' = sp_contextValue s" "sp_ulValueToNotify s' = sp_ulValueToNotify s"
      "sp_queued s' = ks" "sp_payloadBuf s' = sp_payloadBuf s" "sp_sent s' = sp_sent s"
      "sp_judged s' = sp_judged s" for j
    using sub api by (auto simp: s' outstanding_def completed_def overwriting_def buffer_holds_def)
  have "pc_inv pending val code n pc s" using inv by (simp add: simple_inv_def)
  then have "pc_inv pending val code n pc s'"
    using i out unfolding pc_inv_def Let_def comp val buf same
    by (cases pc) (auto split: simple_pc.splits)
  with inv sub show ?thesis unfolding simple_inv_def prod.case comp buf same by blast
qed

lemma simple_inv_init: "simple_inv pending val (val n0) n (SP_format, simple_init tasks n0)"
  by (simp add: simple_inv_def simple_init_def pc_inv_def Let_def outstanding_def
      mqttexampleSTRING_BUFFER_LENGTH_def)

lemma simple_inv_step:
  assumes "simple_step api pending n True c c'" and api: "overwriting api pending val"
    and n: "n < 2 ^ 32" and "simple_inv pending val code n c"
  shows "simple_inv pending val code n c'"
  using assms(1,4)
proof (induction rule: simple_step.induct)
  case (sp_format s len buf)
  then have "length (sp_payloadBuf s) = 100" by (simp add: simple_inv_def)
  from simple_payload_eq [OF this n, of "sp_ulValueToNotify s"] sp_format.hyps(3) have
    "length buf = 100" "take len buf = simple_message n (sp_ulValueToNotify s)" by auto
  with sp_format show ?case
    by (auto simp: simple_inv_def pc_inv_def Let_def buffer_holds_def outstanding_def completed_def)
next
  case (sp_publish s)
  then show ?case
    by (auto simp: simple_inv_def pc_inv_def Let_def buffer_holds_def outstanding_def completed_def)
next
  case (sp_wait s acknowledged v n')
  then have "v = val (sp_notification s)" "val n' = val (sp_notification s)"
    using api by (auto simp: overwriting_def dest: spec [of _ "sp_notification s"])
  with sp_wait show ?case
    by (auto simp: simple_inv_def pc_inv_def Let_def buffer_holds_def outstanding_def completed_def)
next
  case (sp_judge v s c)
  then show ?case
    by (auto simp: simple_inv_def pc_inv_def Let_def buffer_holds_def outstanding_def completed_def)
next
  case (sp_delay s)
  then show ?case
    using next_count [of "sp_ulValueToNotify s"]
    by (auto simp: simple_inv_def pc_inv_def Let_def buffer_holds_def outstanding_def completed_def)
next
  case (sp_sends s i ks doc pc)
  then have "doc = simple_message n i"
    by (auto simp: simple_inv_def buffer_holds_def mem_read_def split: if_splits)
  with sp_sends show ?case
    by (cases pc) (auto simp: simple_inv_def pc_inv_def Let_def buffer_holds_def outstanding_def completed_def)
next
  case (sp_completes s ks i js returnCode status n' pc)
  then have n': "n' = xTaskNotify api (sp_contextValue s) (sp_notification s)"
    by (simp add: sp_prvPublishCommandCallback_def)
  show ?case
    by (rule completing_inv [where i = i and ks = "sp_queued s" and js = "ks @ js" and st = status,
          OF sp_completes.prems api])
       (use sp_completes.hyps n' in \<open>auto simp: outstanding_def\<close>)
next
  case (sp_fails s i ks returnCode status n' pc)
  then have n': "n' = xTaskNotify api (sp_contextValue s) (sp_notification s)"
    by (simp add: sp_prvPublishCommandCallback_def)
  show ?case
    by (rule completing_inv [where i = i and ks = ks and js = "sp_unacked s" and st = status,
          OF sp_fails.prems api])
       (use sp_fails.hyps n' in \<open>auto simp: outstanding_def\<close>)
qed (auto simp: simple_inv_def pc_inv_def)

lemma simple_inv_run:
  assumes "simple_run api pending n True c c'" and "overwriting api pending val" and "n < 2 ^ 32"
    and "simple_inv pending val code n c"
  shows "simple_inv pending val code n c'"
  using assms by (induction rule: rtranclp_induct) (auto intro: simple_inv_step)

section \<open>Rounds\<close>

lemma round_to_publish_wait:
  assumes "length (sp_payloadBuf s) = 100" and "n < 2 ^ 32"
    and "sp_ulValueToNotify s < mqttexamplePUBLISH_COUNT"
    and "prompt \<longrightarrow> outstanding s = {} \<and> \<not> pending (sp_notification s)"
  obtains buf len where
    "simple_step api pending n prompt (SP_format, s) (SP_publish, s\<lparr>sp_payloadBuf := buf,
       sp_payloadLength := len, sp_contextValue := sp_ulValueToNotify s\<rparr>)"
    "length buf = 100" "len \<le> 100"
proof -
  from simple_payload_eq [OF assms(1,2), of "sp_ulValueToNotify s"] obtain buf where
    buf: "simple_payload n (sp_ulValueToNotify s) (sp_payloadBuf s) =
        Some (length (simple_message n (sp_ulValueToNotify s)), buf)" "length buf = 100"
      "take (length (simple_message n (sp_ulValueToNotify s))) buf =
        simple_message n (sp_ulValueToNotify s)" .
  then have "length (simple_message n (sp_ulValueToNotify s)) \<le> 100"
    by (metis length_take min.cobounded1)
  with buf(2) show thesis
    by (rule_tac that [OF sp_format [OF _ assms(3) buf(1)]])
       (use assms(4) in \<open>auto simp: outstanding_def\<close>)
qed

lemma judging:
  assumes "counters_ok tasks (sp_counters s)" and "n < tasks"
    and "xTaskNotifyWait api (sp_notification s) = ((r, v), n')"
  obtains c where "simple_run api pending n prompt (SP_wait, s) (SP_delay, s\<lparr>sp_notification := n',
      sp_counters := c, sp_judged := sp_judged s @ [(sp_ulValueToNotify s, v = sp_ulValueToNotify s)]\<rparr>)"
    "counters_ok tasks c"
proof -
  from count_verdict_counts [OF assms(2,1), of "v = sp_ulValueToNotify s"] obtain c where
    c: "count_verdict n (v = sp_ulValueToNotify s) (sp_counters s) = Some c" "counters_ok tasks c"
    by metis
  have "simple_step api pending n prompt (SP_wait, s) (SP_judge v, s\<lparr>sp_notification := n'\<rparr>)"
    by (rule sp_wait [OF assms(3)])
  moreover have "simple_step api pending n prompt (SP_judge v, s\<lparr>sp_notification := n'\<rparr>)
      (SP_delay, s\<lparr>sp_notification := n', sp_counters := c,
        sp_judged := sp_judged s @ [(sp_ulValueToNotify s, v = sp_ulValueToNotify s)]\<rparr>)"
    using sp_judge [of n v "s\<lparr>sp_notification := n'\<rparr>" c] c(1) by simp
  ultimately show thesis
    by (intro that [OF _ c(2)]) (meson converse_rtranclp_into_rtranclp rtranclp.rtrancl_refl)
qed

text \<open>
  The first message passes without having been completed, or even sent, when the value 0 is left
  over from the subscribing, which it is when that was successful and \<open>MQTTSuccess\<close> is 0.
\<close>

lemma first_message_passes_unacknowledged:
  assumes "overwriting api pending val" and "val n0 = 0" "\<not> pending n0" and "n < tasks" "n < 2 ^ 32"
  shows "\<exists>s. simple_run api pending n True (SP_format, simple_init tasks n0) (SP_delay, s)
    \<and> sp_judged s = [(0, True)] \<and> sp_completed s = [] \<and> sp_sent s = []"
proof -
  let ?i = "simple_init tasks n0"
  have i: "length (sp_payloadBuf ?i) = 100" "sp_ulValueToNotify ?i = 0" "outstanding ?i = {}"
    "sp_notification ?i = n0" "sp_judged ?i = []" "sp_completed ?i = []" "sp_sent ?i = []"
    "sp_counters ?i = counters_init tasks" "sp_queued ?i = []"
    by (simp_all add: simple_init_def outstanding_def mqttexampleSTRING_BUFFER_LENGTH_def)
  obtain buf len where one: "simple_step api pending n True (SP_format, ?i) (SP_publish, ?i\<lparr>sp_payloadBuf := buf,
      sp_payloadLength := len, sp_contextValue := 0\<rparr>)"
    by (rule round_to_publish_wait [OF i(1) assms(5), of True pending api])
       (simp_all add: i assms mqttexamplePUBLISH_COUNT_def)
  define s1 where "s1 = ?i\<lparr>sp_payloadBuf := buf, sp_payloadLength := len, sp_contextValue := 0\<rparr>"
  let ?s2 = "s1\<lparr>sp_queued := [0]\<rparr>"
  have two: "simple_step api pending n True (SP_publish, s1) (SP_wait, ?s2)"
    using sp_publish [of api pending n True s1] by (simp add: s1_def i)
  obtain r v n' where take: "xTaskNotifyWait api (sp_notification ?s2) = ((r, v), n')"
    by (metis prod.collapse)
  then have "v = 0"
    using assms(1,2) by (auto simp: s1_def i overwriting_def dest: spec [of _ n0])
  have "counters_ok tasks (sp_counters ?s2)" by (simp add: s1_def i counters_ok_init)
  from judging [OF this assms(4) take, of pending True] obtain c where
    "simple_run api pending n True (SP_wait, ?s2) (SP_delay, ?s2\<lparr>sp_notification := n',
      sp_counters := c, sp_judged := [(0, True)]\<rparr>)"
    using \<open>v = 0\<close> by (auto simp: s1_def i)
  with one two show ?thesis
    unfolding s1_def [symmetric]
    by (intro exI conjI) (rule converse_rtranclp_into_rtranclp, assumption,
        rule converse_rtranclp_into_rtranclp, assumption, assumption, simp_all add: s1_def i)
qed

section \<open>Properties\<close>

text \<open>
  C18. While every publish is completed before the next message is made, the agent sends exactly
  the message of each number, and a message is passed only when it was completed; the exception
  is the number that equals the value left in the notification by the subscribing.
\<close>

theorem simple_prompt_verdicts:
  assumes "overwriting api pending val" and "n < 2 ^ 32"
    and "simple_run api pending n True (SP_format, simple_init tasks n0) (pc, s)"
  shows "(\<forall>(i, doc) \<in> set (sp_sent s). doc = simple_message n i)
    \<and> (\<forall>(i, passed) \<in> set (sp_judged s). passed \<longrightarrow> i \<in> completed s \<or> i = val n0)"
  using simple_inv_run [OF assms(3,1,2) simple_inv_init] by (auto simp: simple_inv_def)

theorem simple_prompt_verdicts_witness:
  "\<exists>s. simple_run demo_value fst 3 True (SP_format, simple_init 4 (False, 0)) (SP_delay, s)
    \<and> sp_judged s = [(0, True)] \<and> (\<forall>(i, doc) \<in> set (sp_sent s). doc = simple_message 3 i)"
proof -
  obtain s where s: "simple_run demo_value fst 3 True (SP_format, simple_init 4 (False, 0)) (SP_delay, s)"
    "sp_judged s = [(0, True)]"
    using first_message_passes_unacknowledged [OF demo_overwriting, of "(False, 0)" 3 4] by auto
  with simple_prompt_verdicts [OF demo_overwriting _ s(1)] show ?thesis by auto
qed

text \<open>
  When a completion comes after the wait it passes the next message: the callback reads the
  number from the context that the task has already reused.  Message 1 is passed here although
  only the publish of message 0 was ever completed, with whatever status.
\<close>

theorem late_completion_passes_next:
  assumes "overwriting api pending val" and "val n0 \<noteq> 0" and "n < tasks" "n < 2 ^ 32"
  shows "\<exists>s. simple_run api pending n False (SP_format, simple_init tasks n0) (SP_delay, s)
    \<and> sp_judged s = [(0, False), (1, True)] \<and> sp_completed s = [(0, status)]"
proof -
  let ?i = "simple_init tasks n0" and ?run = "simple_run api pending n False"
  have i: "length (sp_payloadBuf ?i) = 100" "sp_ulValueToNotify ?i = 0" "sp_notification ?i = n0"
    "sp_judged ?i = []" "sp_completed ?i = []" "sp_counters ?i = counters_init tasks"
    "sp_queued ?i = []" "sp_unacked ?i = []"
    by (simp_all add: simple_init_def mqttexampleSTRING_BUFFER_LENGTH_def)
  obtain buf len where fmt0: "simple_step api pending n False (SP_format, ?i) (SP_publish, ?i\<lparr>sp_payloadBuf := buf,
      sp_payloadLength := len, sp_contextValue := 0\<rparr>)" "length buf = 100" "len \<le> 100"
    by (rule round_to_publish_wait [OF i(1) assms(4), of False pending api])
       (simp_all add: i assms mqttexamplePUBLISH_COUNT_def)
  define s1 where "s1 = ?i\<lparr>sp_payloadBuf := buf, sp_payloadLength := len, sp_contextValue := 0\<rparr>"
  define s2 where "s2 = s1\<lparr>sp_queued := [0]\<rparr>"
  have pub0: "simple_step api pending n False (SP_publish, s1) (SP_wait, s2)"
    using sp_publish [of api pending n False s1] by (simp add: s1_def s2_def i)
  have n2: "sp_notification s2 = n0" by (simp add: s1_def s2_def i)
  obtain n1 where take0: "xTaskNotifyWait api (sp_notification s2) = ((pending n0, val n0), n1)"
    unfolding n2 by (rule overwriting_wait [OF assms(1)])
  have "counters_ok tasks (sp_counters s2)" by (simp add: s1_def s2_def i counters_ok_init)
  from judging [OF this assms(3) take0, of pending False] obtain c where
    c: "?run (SP_wait, s2) (SP_delay, s2\<lparr>sp_notification := n1, sp_counters := c,
       sp_judged := [(0, False)]\<rparr>)" "counters_ok tasks c"
    using assms(2) by (auto simp: s1_def s2_def i)
  define s3 where "s3 = s2\<lparr>sp_notification := n1, sp_counters := c, sp_judged := [(0, False)],
      sp_ulValueToNotify := 1\<rparr>"
  have delay: "simple_step api pending n False (SP_delay, s2\<lparr>sp_notification := n1, sp_counters := c,
      sp_judged := [(0, False)]\<rparr>) (SP_format, s3)"
    using sp_delay [of api pending n False "s2\<lparr>sp_notification := n1, sp_counters := c,
      sp_judged := [(0, False)]\<rparr>"] by (simp add: s3_def s2_def s1_def i)
  obtain buf' len' where fmt1: "simple_step api pending n False (SP_format, s3) (SP_publish, s3\<lparr>sp_payloadBuf := buf',
      sp_payloadLength := len', sp_contextValue := 1\<rparr>)"
    by (rule round_to_publish_wait [OF _ assms(4), of s3 False pending api])
       (simp_all add: s3_def s2_def s1_def fmt0(2) mqttexamplePUBLISH_COUNT_def)
  define s4 where "s4 = s3\<lparr>sp_payloadBuf := buf', sp_payloadLength := len', sp_contextValue := 1\<rparr>"
  define s5 where "s5 = s4\<lparr>sp_queued := [], sp_completed := [(0, status)],
      sp_notification := xTaskNotify api 1 n1\<rparr>"
  have late: "simple_step api pending n False (SP_publish, s4) (SP_publish, s5)"
    using sp_fails [of s4 0 "[]" api status status "xTaskNotify api 1 n1" pending n False SP_publish]
    by (simp add: s5_def s4_def s3_def s2_def s1_def i sp_prvPublishCommandCallback_def)
  define s6 where "s6 = s5\<lparr>sp_queued := [1]\<rparr>"
  have pub1: "simple_step api pending n False (SP_publish, s5) (SP_wait, s6)"
    using sp_publish [of api pending n False s5]
    by (simp add: s6_def s5_def s4_def s3_def)
  have n6: "sp_notification s6 = xTaskNotify api 1 n1" by (simp add: s6_def s5_def)
  obtain n2 where take1: "xTaskNotifyWait api (sp_notification s6) = ((True, 1), n2)"
  proof (rule overwriting_wait [OF assms(1), of "sp_notification s6"])
    fix n'
    assume "xTaskNotifyWait api (sp_notification s6) =
        ((pending (sp_notification s6), val (sp_notification s6)), n')"
    moreover have "pending (sp_notification s6)" "val (sp_notification s6) = 1"
      using assms(1) by (simp_all add: n6 overwriting_def)
    ultimately show thesis by (intro that [of n']) simp
  qed
  have s6: "counters_ok tasks (sp_counters s6)" "sp_judged s6 = [(0, False)]"
    "sp_ulValueToNotify s6 = 1" "sp_completed s6 = [(0, status)]"
    using c(2) by (simp_all add: s6_def s5_def s4_def s3_def)
  from judging [OF s6(1) assms(3) take1, of pending False] obtain c' where
    "?run (SP_wait, s6) (SP_delay, s6\<lparr>sp_notification := n2, sp_counters := c',
       sp_judged := [(0, False), (1, True)]\<rparr>)"
    by (auto simp: s6)
  moreover have "?run (SP_format, ?i) (SP_delay, s2\<lparr>sp_notification := n1, sp_counters := c,
       sp_judged := [(0, False)]\<rparr>)"
    using fmt0(1) pub0 c(1) unfolding s1_def [symmetric]
    by (meson converse_rtranclp_into_rtranclp)
  moreover have "?run (SP_delay, s2\<lparr>sp_notification := n1, sp_counters := c,
       sp_judged := [(0, False)]\<rparr>) (SP_wait, s6)"
    using delay fmt1 late pub1 unfolding s4_def [symmetric]
    by (meson converse_rtranclp_into_rtranclp rtranclp.rtrancl_refl)
  ultimately have "?run (SP_format, ?i) (SP_delay, s6\<lparr>sp_notification := n2, sp_counters := c',
       sp_judged := [(0, False), (1, True)]\<rparr>)" by (meson rtranclp_trans)
  then show ?thesis using s6(4) by (intro exI conjI) (assumption, simp_all)
qed

theorem late_completion_passes_next_witness:
  "\<exists>s. simple_run demo_value fst 0 False (SP_format, simple_init 1 (False, 7)) (SP_delay, s)
    \<and> sp_judged s = [(0, False), (1, True)] \<and> sp_completed s = [(0, 3)]"
  by (rule late_completion_passes_next [OF demo_overwriting]) simp_all

text \<open>
  The counters of the tasks are kept apart: for every task that is created, counting a
  verdict stays inside the arrays and changes exactly the one counter of that task and verdict.
\<close>

theorem verdict_counters_separate:
  assumes "n < tasks" and "counters_ok tasks c"
  shows "\<exists>c'. count_verdict n passed c = Some c' \<and> counters_ok tasks c'
    \<and> (\<forall>m < tasks. \<forall>q. counter c' m q = counter c m q + (if m = n \<and> q = passed then 1 else 0))"
  using count_verdict_counts [OF assms, of passed] by metis

theorem verdict_counters_separate_witness:
  "\<exists>c'. count_verdict 3 True (counters_init 5) = Some c' \<and> counter c' 3 True = 1 \<and> counter c' 1 True = 0"
proof -
  have "(3 :: nat) < 5" by simp
  from verdict_counters_separate [OF this counters_ok_init, of True] obtain c' where
    "count_verdict 3 True (counters_init 5) = Some c'"
    "\<forall>m < 5. \<forall>q. counter c' m q = counter (counters_init 5) m q + (if m = 3 \<and> q = True then 1 else 0)"
    by blast
  moreover have "counter (counters_init 5) 3 True = 0" "counter (counters_init 5) 1 True = 0"
    by (simp_all add: counter_def counters_init_def counters_size_def)
  ultimately show ?thesis by (intro exI [of _ c']) simp
qed

end
