(* ===== verification/Large_Message.thy ===== *)
theory Large_Message
  imports Agent_Client
begin

text \<open>
  source/demo-tasks/large_message_sub_pub_demo.c: a task that publishes the largest message the
  network buffer holds, subscribes to it itself and compares what comes back.

  The static buffers, the two counters and the notification are the record \<open>large_message\<close>;
  \<open>large_step\<close> is one step of the task or one incoming message.
\<close>

section \<open>Data\<close>

definition MQTT_AGENT_NETWORK_BUFFER_SIZE :: nat where "MQTT_AGENT_NETWORK_BUFFER_SIZE = 5000"

definition mqttexamplePROTOCOL_OVERHEAD :: nat where "mqttexamplePROTOCOL_OVERHEAD = 50"

definition mqttexampleMAX_PAYLOAD_LENGTH :: nat where
  "mqttexampleMAX_PAYLOAD_LENGTH = MQTT_AGENT_NETWORK_BUFFER_SIZE - mqttexamplePROTOCOL_OVERHEAD"

definition large_pcTopicFilter :: string where "large_pcTopicFilter = ''/max/payload/message''"

text \<open>The last field counts the publishes that were queued.\<close>

record 'n large_message =
  lm_pcMaxPayloadMessage :: string
  lm_pcReceivedPublishPayload :: string
  lm_ulLargeMessageFailures :: u32
  lm_ulLargeMessagePasses :: u32
  lm_notification :: 'n
  lm_published :: nat

section \<open>Operations\<close>

text \<open>The loop that fills the buffer from \<open>x\<close> on, with \<open>n\<close> iterations left.\<close>

fun create_payload_loop :: "string \<Rightarrow> nat \<Rightarrow> nat \<Rightarrow> nat \<Rightarrow> string option" where
  "create_payload_loop pcBuffer xBufferSize x 0 = Some pcBuffer"
| "create_payload_loop pcBuffer xBufferSize x (Suc n) = do {
     b \<leftarrow> arr_set pcBuffer x (if x < xBufferSize div 2 then CHR ''a'' else CHR ''b'');
     create_payload_loop b xBufferSize (Suc x) n
   }"

definition prvCreateMQTTPayload :: "string \<Rightarrow> nat \<Rightarrow> string option" where
  "prvCreateMQTTPayload pcBuffer xBufferSize = create_payload_loop pcBuffer xBufferSize 0 xBufferSize"

definition large_prvIncomingPublishCallback ::
  "'n notify_api \<Rightarrow> MQTTPublishInfo \<Rightarrow> 'n large_message \<Rightarrow> 'n large_message option" where
  "large_prvIncomingPublishCallback api p s = do {
     _ \<leftarrow> configASSERT (payloadLength p \<le> mqttexampleMAX_PAYLOAD_LENGTH);
     bytes \<leftarrow> payload_bytes p;
     buf \<leftarrow> mem_write (lm_pcReceivedPublishPayload s) 0 bytes;
     Some (s\<lparr>lm_pcReceivedPublishPayload := buf,
             lm_notification := xTaskNotifyGive api (lm_notification s)\<rparr>)
   }"

text \<open>
  The completion of the subscribe command, with \<open>ctx\<close> standing for the address of the static
  context; the result of \<open>addSubscription\<close> is only logged.
\<close>

definition large_prvSubscribeCommandCallback ::
  "'n notify_api \<Rightarrow> bool \<Rightarrow> 'ctx \<Rightarrow> (demo_callback, 'ctx) SubscriptionElement list option \<Rightarrow> 'n
   \<Rightarrow> (bool \<times> (demo_callback, 'ctx) SubscriptionElement list option \<times> 'n) option" where
  "large_prvSubscribeCommandCallback api success ctx pl n = do {
     pl' \<leftarrow>
       (if success then do {
          (added, pl1) \<leftarrow> addSubscription pl (Some large_pcTopicFilter)
             (of_nat (length large_pcTopicFilter)) (Some large_prvIncomingPublish) (Some ctx);
          Some pl1
        }
        else Some pl);
     Some (success, pl', xTaskNotifyGive api n)
   }"

text \<open>\<open>queued\<close> and \<open>completion\<close> are as for the shadow tasks; the status is only logged.\<close>

definition large_prvSubscribeToTopic ::
  "'n notify_api \<Rightarrow> (nat \<Rightarrow> bool) \<Rightarrow> bool option \<Rightarrow> 'ctx
   \<Rightarrow> (demo_callback, 'ctx) SubscriptionElement list option \<Rightarrow> 'n
   \<Rightarrow> ((demo_callback, 'ctx) SubscriptionElement list option \<times> 'n) option" where
  "large_prvSubscribeToTopic api queued completion ctx pl n = do {
     let n1 = xTaskNotifyStateClear api n;
     _ \<leftarrow> subscribe_loop queued 0;
     (xReturnStatus, pl2, n2) \<leftarrow>
       (case completion of
          None \<Rightarrow> Some (False, pl, n1)
        | Some success \<Rightarrow> large_prvSubscribeCommandCallback api success ctx pl n1);
     let (ulNotificationValue, n3) = ulTaskNotifyTake api n2;
     _ \<leftarrow> configASSERT (ulNotificationValue \<noteq> 0);
     Some (pl2, n3)
   }"

section \<open>The task\<close>

text \<open>The state in which the task enters its loop; \<open>prvCreateMQTTPayload\<close> has run.\<close>

definition large_init :: "'n \<Rightarrow> 'n large_message option" where
  "large_init n = do {
     msg \<leftarrow> prvCreateMQTTPayload (replicate mqttexampleMAX_PAYLOAD_LENGTH (CHR 0x00))
              mqttexampleMAX_PAYLOAD_LENGTH;
     Some \<lparr>lm_pcMaxPayloadMessage = msg,
       lm_pcReceivedPublishPayload = replicate mqttexampleMAX_PAYLOAD_LENGTH (CHR 0x00),
       lm_ulLargeMessageFailures = 0, lm_ulLargeMessagePasses = 0, lm_notification = n,
       lm_published = 0\<rparr>
   }"

datatype large_pc = LM_clear | LM_publish | LM_wait | LM_compare | LM_delay

text \<open>A publish that is not queued fails an assertion, so there is no step for it.\<close>

inductive large_step ::
  "'n notify_api \<Rightarrow> large_pc \<times> 'n large_message \<Rightarrow> large_pc \<times> 'n large_message \<Rightarrow> bool"
  for api :: "'n notify_api" where
  lm_clear: "large_step api (LM_clear, s) (LM_publish, s\<lparr>lm_pcReceivedPublishPayload :=
      replicate mqttexampleMAX_PAYLOAD_LENGTH (CHR 0x00)\<rparr>)"
| lm_publish: "large_step api (LM_publish, s) (LM_wait, s\<lparr>lm_published := lm_published s + 1\<rparr>)"
| lm_timeout: "ulTaskNotifyTake api (lm_notification s) = (v, n) \<Longrightarrow> v \<noteq> 1 \<Longrightarrow>
    large_step api (LM_wait, s) (LM_delay, s\<lparr>lm_notification := n,
      lm_ulLargeMessageFailures := lm_ulLargeMessageFailures s + 1\<rparr>)"
| lm_notified: "ulTaskNotifyTake api (lm_notification s) = (1, n) \<Longrightarrow>
    large_step api (LM_wait, s) (LM_compare, s\<lparr>lm_notification := n\<rparr>)"
| lm_compare: "large_step api (LM_compare, s) (LM_delay,
      if lm_pcMaxPayloadMessage s = lm_pcReceivedPublishPayload s
      then s\<lparr>lm_ulLargeMessagePasses := lm_ulLargeMessagePasses s + 1\<rparr> else s)"
| lm_delay: "large_step api (LM_delay, s) (LM_clear, s)"
| lm_incoming: "large_prvIncomingPublishCallback api p s = Some s' \<Longrightarrow>
    large_step api (pc, s) (pc, s')"

abbreviation large_run ::
  "'n notify_api \<Rightarrow> large_pc \<times> 'n large_message \<Rightarrow> large_pc \<times> 'n large_message \<Rightarrow> bool" where
  "large_run api \<equiv> rtranclp (large_step api)"

section \<open>The message\<close>

lemma create_payload_loop_eq:
  "x + n \<le> length buf \<Longrightarrow> create_payload_loop buf sz x n =
     Some (take x buf @ map (\<lambda>i. if i < sz div 2 then CHR ''a'' else CHR ''b'') [x..<x + n]
           @ drop (x + n) buf)"
proof (induction n arbitrary: x buf)
  case 0
  then show ?case by simp
next
  case (Suc n)
  let ?c = "if x < sz div 2 then CHR ''a'' else CHR ''b''"
  have "create_payload_loop buf sz x (Suc n) = create_payload_loop (buf[x := ?c]) sz (Suc x) n"
    using Suc.prems by simp
  also have "\<dots> = Some (take (Suc x) (buf[x := ?c])
      @ map (\<lambda>i. if i < sz div 2 then CHR ''a'' else CHR ''b'') [Suc x..<Suc x + n]
      @ drop (Suc x + n) (buf[x := ?c]))"
    using Suc.prems by (subst Suc.IH) simp_all
  also have "take (Suc x) (buf[x := ?c]) = take x buf @ [?c]"
    using Suc.prems by (simp add: take_Suc_conv_app_nth)
  also have "[x..<x + Suc n] = x # [Suc x..<Suc x + n]" by (simp add: upt_conv_Cons)
  ultimately show ?case by simp
qed

lemma halves: "map (\<lambda>i. if i < m then a else b) [0..<m + k] = replicate m a @ replicate k b"
  by (intro nth_equalityI) (auto simp: nth_append)

lemma max_payload: "mqttexampleMAX_PAYLOAD_LENGTH = 4950"
  by (simp add: mqttexampleMAX_PAYLOAD_LENGTH_def MQTT_AGENT_NETWORK_BUFFER_SIZE_def
      mqttexamplePROTOCOL_OVERHEAD_def)

definition large_payload :: string where
  "large_payload = replicate 2475 (CHR ''a'') @ replicate 2475 (CHR ''b'')"

lemma prvCreateMQTTPayload_eq:
  assumes "length buf = mqttexampleMAX_PAYLOAD_LENGTH"
  shows "prvCreateMQTTPayload buf mqttexampleMAX_PAYLOAD_LENGTH = Some large_payload"
proof -
  have "prvCreateMQTTPayload buf mqttexampleMAX_PAYLOAD_LENGTH =
      Some (map (\<lambda>i. if i < 2475 then CHR ''a'' else CHR ''b'') [0..<2475 + 2475])"
    using assms by (simp add: prvCreateMQTTPayload_def create_payload_loop_eq max_payload)
  then show ?thesis by (simp only: halves large_payload_def)
qed

lemma length_large_payload: "length large_payload = mqttexampleMAX_PAYLOAD_LENGTH"
  by (simp add: large_payload_def max_payload)

lemma large_payload_not_clear: "replicate mqttexampleMAX_PAYLOAD_LENGTH (CHR 0x00) \<noteq> large_payload"
proof
  assume "replicate mqttexampleMAX_PAYLOAD_LENGTH (CHR 0x00) = large_payload"
  then have "hd (replicate mqttexampleMAX_PAYLOAD_LENGTH (CHR 0x00)) = hd large_payload" by simp
  then show False by (simp add: large_payload_def max_payload)
qed

section \<open>Rounds\<close>

definition echo :: MQTTPublishInfo where
  "echo = \<lparr>pub_qos = 1, pTopicName = large_pcTopicFilter,
     topicNameLength = of_nat (length large_pcTopicFilter), pPayload = Some large_payload,
     payloadLength = length large_payload\<rparr>"

lemma echo_received:
  "length (lm_pcReceivedPublishPayload s) = mqttexampleMAX_PAYLOAD_LENGTH \<Longrightarrow>
   large_prvIncomingPublishCallback api echo s = Some (s\<lparr>lm_pcReceivedPublishPayload := large_payload,
     lm_notification := xTaskNotifyGive api (lm_notification s)\<rparr>)"
  by (simp add: large_prvIncomingPublishCallback_def echo_def payload_bytes_def mem_read_def
      mem_write_def length_large_payload max_payload)

definition large_ok :: "'n large_message \<Rightarrow> bool" where
  "large_ok s \<longleftrightarrow> lm_pcMaxPayloadMessage s = large_payload
     \<and> length (lm_pcReceivedPublishPayload s) = mqttexampleMAX_PAYLOAD_LENGTH"

lemma large_init_eq:
  obtains s where "large_init n = Some s" "large_ok s" "lm_notification s = n"
    "lm_ulLargeMessagePasses s = 0" "lm_ulLargeMessageFailures s = 0" "lm_published s = 0"
proof (cases "large_init n")
  case None
  then show thesis by (simp add: large_init_def prvCreateMQTTPayload_eq)
next
  case (Some s)
  show thesis
    by (rule that [OF Some])
       (use Some in \<open>auto simp: large_init_def prvCreateMQTTPayload_eq large_ok_def\<close>)
qed

text \<open>The task up to its wait.\<close>

lemma large_to_wait:
  "large_run api (LM_clear, s) (LM_wait, s\<lparr>lm_pcReceivedPublishPayload :=
     replicate mqttexampleMAX_PAYLOAD_LENGTH (CHR 0x00), lm_published := lm_published s + 1\<rparr>)"
proof -
  let ?s = "s\<lparr>lm_pcReceivedPublishPayload := replicate mqttexampleMAX_PAYLOAD_LENGTH (CHR 0x00)\<rparr>"
  have "large_step api (LM_clear, s) (LM_publish, ?s)" by (rule lm_clear)
  moreover have "large_step api (LM_publish, ?s) (LM_wait, ?s\<lparr>lm_published := lm_published s + 1\<rparr>)"
    using lm_publish [of api ?s] by simp
  ultimately show ?thesis by (meson converse_rtranclp_into_rtranclp rtranclp.rtrancl_refl)
qed

text \<open>An echo within its round is passed.\<close>

lemma round_in_time:
  assumes "large_ok s" and "counting api pending" and "pending (lm_notification s) = 0"
    and one: "\<forall>n. pending n = 1 \<longrightarrow> fst (ulTaskNotifyTake api n) = 1"
  obtains s' where "large_run api (LM_clear, s) (LM_clear, s')" "large_ok s'"
    "pending (lm_notification s') = 0" "lm_published s' = lm_published s + 1"
    "lm_ulLargeMessagePasses s' = lm_ulLargeMessagePasses s + 1"
    "lm_ulLargeMessageFailures s' = lm_ulLargeMessageFailures s"
proof -
  let ?s1 = "s\<lparr>lm_pcReceivedPublishPayload := replicate mqttexampleMAX_PAYLOAD_LENGTH (CHR 0x00),
      lm_published := lm_published s + 1\<rparr>"
  let ?n = "xTaskNotifyGive api (lm_notification s)"
  let ?s2 = "?s1\<lparr>lm_pcReceivedPublishPayload := large_payload, lm_notification := ?n\<rparr>"
  obtain n' where n': "ulTaskNotifyTake api ?n = (1, n')" "pending n' = 0"
    using assms(2,3) one by (metis add_0 counting_def diff_self_eq_0 prod.collapse)
  let ?s3 = "?s2\<lparr>lm_notification := n'\<rparr>"
  let ?s4 = "?s3\<lparr>lm_ulLargeMessagePasses := lm_ulLargeMessagePasses s + 1\<rparr>"
  have "large_step api (LM_wait, ?s1) (LM_wait, ?s2)"
    by (rule lm_incoming [of api echo]) (simp add: echo_received)
  moreover have "large_step api (LM_wait, ?s2) (LM_compare, ?s3)"
    using lm_notified [of api ?s2] n'(1) by simp
  moreover have "large_step api (LM_compare, ?s3) (LM_delay, ?s4)"
    using lm_compare [of api ?s3] assms(1) by (simp add: large_ok_def)
  moreover have "large_step api (LM_delay, ?s4) (LM_clear, ?s4)" by (rule lm_delay)
  ultimately have "large_run api (LM_clear, s) (LM_clear, ?s4)"
    using large_to_wait [of api s] by (meson rtranclp.rtrancl_into_rtrancl)
  then show thesis
    by (rule that) (use assms(1) n'(2) in \<open>simp_all add: large_ok_def length_large_payload\<close>)
qed

text \<open>
  With a notification left over, the wait ends before the echo is there: the comparison with the
  cleared buffer fails, which changes no counter, and the echo leaves a notification again.
\<close>

lemma round_out_of_step:
  assumes "large_ok s" and "counting api pending" and "pending (lm_notification s) = 1"
    and one: "\<forall>n. pending n = 1 \<longrightarrow> fst (ulTaskNotifyTake api n) = 1"
  obtains s' where "large_run api (LM_clear, s) (LM_clear, s')" "large_ok s'"
    "pending (lm_notification s') = 1" "lm_published s' = lm_published s + 1"
    "lm_ulLargeMessagePasses s' = lm_ulLargeMessagePasses s"
    "lm_ulLargeMessageFailures s' = lm_ulLargeMessageFailures s"
proof -
  let ?s1 = "s\<lparr>lm_pcReceivedPublishPayload := replicate mqttexampleMAX_PAYLOAD_LENGTH (CHR 0x00),
      lm_published := lm_published s + 1\<rparr>"
  obtain n' where n': "ulTaskNotifyTake api (lm_notification s) = (1, n')" "pending n' = 0"
    using assms(2,3) one by (metis counting_def diff_self_eq_0 prod.collapse)
  let ?s2 = "?s1\<lparr>lm_notification := n'\<rparr>"
  let ?s3 = "?s2\<lparr>lm_pcReceivedPublishPayload := large_payload, lm_notification := xTaskNotifyGive api n'\<rparr>"
  have "large_step api (LM_wait, ?s1) (LM_compare, ?s2)"
    using lm_notified [of api ?s1] n'(1) by simp
  moreover have "large_step api (LM_compare, ?s2) (LM_delay, ?s2)"
    using lm_compare [of api ?s2] assms(1) large_payload_not_clear by (simp add: large_ok_def)
  moreover have "large_step api (LM_delay, ?s2) (LM_delay, ?s3)"
    by (rule lm_incoming [of api echo]) (simp add: echo_received)
  moreover have "large_step api (LM_delay, ?s3) (LM_clear, ?s3)" by (rule lm_delay)
  ultimately have "large_run api (LM_clear, s) (LM_clear, ?s3)"
    using large_to_wait [of api s] by (meson rtranclp.rtrancl_into_rtrancl)
  moreover have "pending (xTaskNotifyGive api n') = 1" using assms(2) n'(2) by (simp add: counting_def)
  ultimately show thesis
    by (intro that [of ?s3]) (use assms(1) in \<open>simp_all add: large_ok_def length_large_payload\<close>)
qed

text \<open>An echo after the wait is a failure, and leaves the notification.\<close>

lemma round_late:
  assumes "large_ok s" and "counting api pending" and "pending (lm_notification s) = 0"
  obtains s' where "large_run api (LM_clear, s) (LM_clear, s')" "large_ok s'"
    "pending (lm_notification s') = 1" "lm_published s' = lm_published s + 1"
    "lm_ulLargeMessagePasses s' = lm_ulLargeMessagePasses s"
    "lm_ulLargeMessageFailures s' = lm_ulLargeMessageFailures s + 1"
proof -
  let ?s1 = "s\<lparr>lm_pcReceivedPublishPayload := replicate mqttexampleMAX_PAYLOAD_LENGTH (CHR 0x00),
      lm_published := lm_published s + 1\<rparr>"
  obtain n' where n': "ulTaskNotifyTake api (lm_notification s) = (0, n')" "pending n' = 0"
    using assms(3) by (auto intro: counting_take [OF assms(2), of "lm_notification s"])
  let ?s2 = "?s1\<lparr>lm_notification := n', lm_ulLargeMessageFailures := lm_ulLargeMessageFailures s + 1\<rparr>"
  let ?s3 = "?s2\<lparr>lm_pcReceivedPublishPayload := large_payload, lm_notification := xTaskNotifyGive api n'\<rparr>"
  have "large_step api (LM_wait, ?s1) (LM_delay, ?s2)"
    using lm_timeout [of api ?s1 0 n'] n'(1) by simp
  moreover have "large_step api (LM_delay, ?s2) (LM_delay, ?s3)"
    by (rule lm_incoming [of api echo]) (simp add: echo_received)
  moreover have "large_step api (LM_delay, ?s3) (LM_clear, ?s3)" by (rule lm_delay)
  ultimately have "large_run api (LM_clear, s) (LM_clear, ?s3)"
    using large_to_wait [of api s] by (meson rtranclp.rtrancl_into_rtrancl)
  moreover have "pending (xTaskNotifyGive api n') = 1" using assms(2) n'(2) by (simp add: counting_def)
  ultimately show thesis
    by (intro that [of ?s3]) (use assms(1) in \<open>simp_all add: large_ok_def length_large_payload\<close>)
qed

text \<open>Any number of rounds of a kind.\<close>

lemma rounds_in_time:
  assumes "large_ok s" and "counting api pending" and "pending (lm_notification s) = 0"
    and one: "\<forall>n. pending n = 1 \<longrightarrow> fst (ulTaskNotifyTake api n) = 1"
  shows "\<exists>s'. large_run api (LM_clear, s) (LM_clear, s') \<and> large_ok s'
    \<and> pending (lm_notification s') = 0 \<and> lm_published s' = lm_published s + k
    \<and> lm_ulLargeMessagePasses s' = lm_ulLargeMessagePasses s + of_nat k
    \<and> lm_ulLargeMessageFailures s' = lm_ulLargeMessageFailures s"
proof (induction k)
  case 0
  then show ?case using assms by auto
next
  case (Suc k)
  then obtain s1 where s1: "large_run api (LM_clear, s) (LM_clear, s1)" "large_ok s1"
    "pending (lm_notification s1) = 0" "lm_published s1 = lm_published s + k"
    "lm_ulLargeMessagePasses s1 = lm_ulLargeMessagePasses s + of_nat k"
    "lm_ulLargeMessageFailures s1 = lm_ulLargeMessageFailures s" by blast
  from round_in_time [OF s1(2) assms(2) s1(3) one] obtain s2 where
    "large_run api (LM_clear, s1) (LM_clear, s2)" "large_ok s2" "pending (lm_notification s2) = 0"
    "lm_published s2 = lm_published s1 + 1"
    "lm_ulLargeMessagePasses s2 = lm_ulLargeMessagePasses s1 + 1"
    "lm_ulLargeMessageFailures s2 = lm_ulLargeMessageFailures s1" .
  with s1 show ?case by (intro exI [of _ s2]) auto
qed

lemma rounds_out_of_step:
  assumes "large_ok s" and "counting api pending" and "pending (lm_notification s) = 1"
    and one: "\<forall>n. pending n = 1 \<longrightarrow> fst (ulTaskNotifyTake api n) = 1"
  shows "\<exists>s'. large_run api (LM_clear, s) (LM_clear, s') \<and> large_ok s'
    \<and> pending (lm_notification s') = 1 \<and> lm_published s' = lm_published s + k
    \<and> lm_ulLargeMessagePasses s' = lm_ulLargeMessagePasses s
    \<and> lm_ulLargeMessageFailures s' = lm_ulLargeMessageFailures s"
proof (induction k)
  case 0
  then show ?case using assms by auto
next
  case (Suc k)
  then obtain s1 where s1: "large_run api (LM_clear, s) (LM_clear, s1)" "large_ok s1"
    "pending (lm_notification s1) = 1" "lm_published s1 = lm_published s + k"
    "lm_ulLargeMessagePasses s1 = lm_ulLargeMessagePasses s"
    "lm_ulLargeMessageFailures s1 = lm_ulLargeMessageFailures s" by blast
  from round_out_of_step [OF s1(2) assms(2) s1(3) one] obtain s2 where
    "large_run api (LM_clear, s1) (LM_clear, s2)" "large_ok s2" "pending (lm_notification s2) = 1"
    "lm_published s2 = lm_published s1 + 1"
    "lm_ulLargeMessagePasses s2 = lm_ulLargeMessagePasses s1"
    "lm_ulLargeMessageFailures s2 = lm_ulLargeMessageFailures s1" .
  with s1 show ?case by (intro exI [of _ s2]) auto
qed

section \<open>Properties\<close>

text \<open>
  Rounds whose echo comes in time are passed, all of them; but one echo that comes late is
  not only a failure of its round: every round after it is counted neither as passed nor as
  failed, although each of its messages comes back intact before the next.
\<close>

theorem late_echo_freezes_counters:
  assumes "counting api pending" and "pending n = 0"
    and "\<forall>n. pending n = 1 \<longrightarrow> fst (ulTaskNotifyTake api n) = 1"
  shows "\<exists>s0 s. large_init n = Some s0 \<and> large_run api (LM_clear, s0) (LM_clear, s)
    \<and> lm_published s = k + 1 + m \<and> lm_ulLargeMessagePasses s = of_nat k
    \<and> lm_ulLargeMessageFailures s = 1"
proof -
  obtain s0 where s0: "large_init n = Some s0" "large_ok s0" "lm_notification s0 = n"
    "lm_ulLargeMessagePasses s0 = 0" "lm_ulLargeMessageFailures s0 = 0" "lm_published s0 = 0"
    by (rule large_init_eq)
  from rounds_in_time [OF s0(2) assms(1) _ assms(3), of k] s0(3) assms(2) obtain s1 where
    s1: "large_run api (LM_clear, s0) (LM_clear, s1)" "large_ok s1" "pending (lm_notification s1) = 0"
      "lm_published s1 = lm_published s0 + k"
      "lm_ulLargeMessagePasses s1 = lm_ulLargeMessagePasses s0 + of_nat k"
      "lm_ulLargeMessageFailures s1 = lm_ulLargeMessageFailures s0" by auto
  from round_late [OF s1(2) assms(1) s1(3)] obtain s2 where
    s2: "large_run api (LM_clear, s1) (LM_clear, s2)" "large_ok s2" "pending (lm_notification s2) = 1"
      "lm_published s2 = lm_published s1 + 1"
      "lm_ulLargeMessagePasses s2 = lm_ulLargeMessagePasses s1"
      "lm_ulLargeMessageFailures s2 = lm_ulLargeMessageFailures s1 + 1" .
  from rounds_out_of_step [OF s2(2) assms(1) s2(3) assms(3), of m] obtain s3 where
    "large_run api (LM_clear, s2) (LM_clear, s3)" "lm_published s3 = lm_published s2 + m"
      "lm_ulLargeMessagePasses s3 = lm_ulLargeMessagePasses s2"
      "lm_ulLargeMessageFailures s3 = lm_ulLargeMessageFailures s2" by auto
  with s0 s1 s2 show ?thesis by (intro exI [of _ s0] exI [of _ s3]) (auto intro: rtranclp_trans)
qed

theorem late_echo_freezes_counters_witness:
  "\<exists>s0 s. large_init 0 = Some s0 \<and> large_run demo_notify (LM_clear, s0) (LM_clear, s)
    \<and> lm_published s = 2 + 1 + 1000 \<and> lm_ulLargeMessagePasses s = of_nat 2
    \<and> lm_ulLargeMessageFailures s = 1"
  by (rule late_echo_freezes_counters [OF demo_counting]) (simp_all add: demo_notify_def)

end
