(* ===== verification/Demo_System.thy ===== *)
theory Demo_System
  imports Mqtt_Agent_Task Shadow_Update Ota_Demo Defender_Demo Simple_Sub_Pub Large_Message
begin

text \<open>
  The tasks together.  The MQTT agent task receives every publish: its callback
  \<open>prvIncomingPublishCallback\<close> of mqtt-agent-task.c goes through the shared subscription list and
  calls what the demo tasks have registered, and hands what nobody wants to the OTA demo.
  \<open>system_step\<close> interleaves these deliveries with the steps of the tasks and their
  subscriptions.  The simple tasks take part with the buffer that their callback shares, not with
  their loops; the agent task itself is not a part, it is what delivers.

  The locale \<open>delivery\<close> shows, for any component of the system that a single callback moves by
  its own steps, that a delivery does; its interpretations carry over to the system what the
  theories of the tasks prove about their unrestricted runs.  The locale \<open>subscriber\<close> says which
  tasks a delivery reaches and which it leaves alone.
\<close>

section \<open>Starting the tasks\<close>

text \<open>
  What the task functions do before their loops: the state in which the loop is entered, or
  \<open>None\<close> when the function returns because it could not subscribe, and the subscription list.
\<close>

definition vShadowDeviceTask ::
  "'n notify_api \<Rightarrow> shadow_topics \<Rightarrow> (nat \<Rightarrow> bool) \<Rightarrow> bool option
   \<Rightarrow> (demo_callback, 'ctx) SubscriptionElement list option \<Rightarrow> 'n
   \<Rightarrow> ((shadow_pc \<times> 'n shadow_device) option
        \<times> (demo_callback, 'ctx) SubscriptionElement list option) option" where
  "vShadowDeviceTask api topics queued completion pl n = do {
     (xStatus, pl', n') \<leftarrow> dev_prvSubscribeToShadowUpdateTopics api topics queued completion pl n;
     Some (if xStatus then Some (Report_check, shadow_device_init n') else None, pl')
   }"

definition vShadowUpdateTask ::
  "'n notify_api \<Rightarrow> shadow_topics \<Rightarrow> (nat \<Rightarrow> bool) \<Rightarrow> bool option
   \<Rightarrow> (demo_callback, 'ctx) SubscriptionElement list option \<Rightarrow> 'n
   \<Rightarrow> ((update_pc \<times> 'n shadow_update) option
        \<times> (demo_callback, 'ctx) SubscriptionElement list option) option" where
  "vShadowUpdateTask api topics queued completion pl n = do {
     (xStatus, pl', n') \<leftarrow> upd_prvSubscribeToShadowUpdateTopics api topics queued completion pl n;
     Some (if xStatus then Some (Update_delay, shadow_update_init n') else None, pl')
   }"

definition prvDefenderDemoTask ::
  "'n notify_api \<Rightarrow> defender_topics \<Rightarrow> (nat \<Rightarrow> bool) \<Rightarrow> bool option \<Rightarrow> 'ctx
   \<Rightarrow> (demo_callback, 'ctx) SubscriptionElement list option \<Rightarrow> 'n
   \<Rightarrow> ((defender_pc \<times> 'n defender) option
        \<times> (demo_callback, 'ctx) SubscriptionElement list option) option" where
  "prvDefenderDemoTask api topics queued completion ctx pl n = do {
     (xStatus, pl', n') \<leftarrow> prvSubscribeToDefenderTopics api topics queued completion ctx pl n;
     Some (if xStatus then Some (Def_id, defender_init n') else None, pl')
   }"

definition prvLargeMessageSubscribePublishTask ::
  "'n notify_api \<Rightarrow> (nat \<Rightarrow> bool) \<Rightarrow> bool option \<Rightarrow> 'ctx
   \<Rightarrow> (demo_callback, 'ctx) SubscriptionElement list option \<Rightarrow> 'n
   \<Rightarrow> ((large_pc \<times> 'n large_message)
        \<times> (demo_callback, 'ctx) SubscriptionElement list option) option" where
  "prvLargeMessageSubscribePublishTask api queued completion ctx pl n = do {
     s \<leftarrow> large_init n;
     (pl', n') \<leftarrow> large_prvSubscribeToTopic api queued completion ctx pl n;
     Some ((LM_clear, s\<lparr>lm_notification := n'\<rparr>), pl')
   }"

text \<open>
  The simple tasks do not look at the result of their subscribing; the topic is the string in
  the task's element of \<open>topicBuf\<close>, and \<open>success\<close> is \<open>MQTTSuccess\<close>.
\<close>

definition prvSimpleSubscribePublishTask ::
  "'n value_api \<Rightarrow> int \<Rightarrow> (nat \<Rightarrow> bool) \<Rightarrow> int option \<Rightarrow> nat \<Rightarrow> nat \<Rightarrow> string list
   \<Rightarrow> (demo_callback, 'ctx) SubscriptionElement list option \<Rightarrow> 'n
   \<Rightarrow> ((simple_pc \<times> 'n simple_pub) \<times> string list
        \<times> (demo_callback, 'ctx) SubscriptionElement list option) option" where
  "prvSimpleSubscribePublishTask api success queued completion tasks ulTaskNumber topicBuf pl n = do {
     topicBuf' \<leftarrow> simple_topic ulTaskNumber topicBuf;
     pcTopicBuffer \<leftarrow> arr_get topicBuf' ulTaskNumber;
     (acknowledged, pl', n') \<leftarrow> sp_prvSubscribeToTopic api success queued completion
        (takeWhile (\<lambda>c. c \<noteq> CHR 0x00) pcTopicBuffer) pl n;
     Some ((SP_format, simple_init tasks n'), topicBuf', pl')
   }"

section \<open>The system\<close>

text \<open>
  Each task with the place it is at, the static buffer in which the callback of the simple tasks
  keeps its last message, the OTA demo and the subscription list.
\<close>

record ('n, 'ctx) demo_system =
  sys_dev :: "shadow_pc \<times> 'n shadow_device"
  sys_upd :: "update_pc \<times> 'n shadow_update"
  sys_def :: "defender_pc \<times> 'n defender"
  sys_large :: "large_pc \<times> 'n large_message"
  sys_cTerminatedString :: string
  sys_ota :: ota_demo
  sys_list :: "(demo_callback, 'ctx) SubscriptionElement list option"

record 'n system_env =
  env_notify :: "'n notify_api"
  env_json :: json_api
  env_keys :: defender_keys
  env_match :: match_topic
  env_clientId :: string
  env_blockSize :: nat
  env_config :: demo_config

definition shadow_env_of :: "'n system_env \<Rightarrow> 'n shadow_env" where
  "shadow_env_of env = \<lparr>dev_api = env_notify env, dev_json = env_json env\<rparr>"

definition defender_env_of :: "'n system_env \<Rightarrow> 'n defender_env" where
  "defender_env_of env = \<lparr>def_api = env_notify env, def_json = env_json env, def_keys = env_keys env\<rparr>"

text \<open>Running a registered callback, on the state of the task that registered it.\<close>

definition on_dev ::
  "('n shadow_device \<Rightarrow> 'n shadow_device option) \<Rightarrow> ('n, 'ctx) demo_system \<Rightarrow> ('n, 'ctx) demo_system option" where
  "on_dev f w = map_option (\<lambda>s'. w\<lparr>sys_dev := (fst (sys_dev w), s')\<rparr>) (f (snd (sys_dev w)))"

definition on_upd ::
  "('n shadow_update \<Rightarrow> 'n shadow_update option) \<Rightarrow> ('n, 'ctx) demo_system \<Rightarrow> ('n, 'ctx) demo_system option" where
  "on_upd f w = map_option (\<lambda>s'. w\<lparr>sys_upd := (fst (sys_upd w), s')\<rparr>) (f (snd (sys_upd w)))"

definition on_def ::
  "('n defender \<Rightarrow> 'n defender option) \<Rightarrow> ('n, 'ctx) demo_system \<Rightarrow> ('n, 'ctx) demo_system option" where
  "on_def f w = map_option (\<lambda>s'. w\<lparr>sys_def := (fst (sys_def w), s')\<rparr>) (f (snd (sys_def w)))"

definition on_large ::
  "('n large_message \<Rightarrow> 'n large_message option) \<Rightarrow> ('n, 'ctx) demo_system \<Rightarrow> ('n, 'ctx) demo_system option" where
  "on_large f w = map_option (\<lambda>s'. w\<lparr>sys_large := (fst (sys_large w), s')\<rparr>) (f (snd (sys_large w)))"

fun demo_invoke :: "'n system_env \<Rightarrow> (demo_callback, 'ctx, ('n, 'ctx) demo_system) invoke" where
  "demo_invoke env prvIncomingPublishUpdateDelta ctx p w =
     on_dev (dev_prvIncomingPublishUpdateDeltaCallback (env_json env) (Some p)) w"
| "demo_invoke env prvIncomingPublishUpdateAccepted ctx p w =
     on_dev (dev_prvIncomingPublishUpdateAcceptedCallback (env_notify env) (env_json env) (Some p)) w"
| "demo_invoke env prvIncomingPublishUpdateRejected ctx p w =
     on_dev (dev_prvIncomingPublishUpdateRejectedCallback (env_notify env) (env_json env) (Some p)) w"
| "demo_invoke env upd_IncomingPublishUpdateAccepted ctx p w =
     on_upd (upd_prvIncomingPublishUpdateAcceptedCallback (env_notify env) (env_json env) (Some p)) w"
| "demo_invoke env upd_IncomingPublishUpdateRejected ctx p w =
     on_upd (upd_prvIncomingPublishUpdateRejectedCallback (env_notify env) (env_json env) (Some p)) w"
| "demo_invoke env prvIncomingAcceptedPublish ctx p w =
     on_def (prvIncomingAcceptedPublishCallback (env_notify env) (env_json env) p) w"
| "demo_invoke env prvIncomingRejectedPublish ctx p w =
     on_def (prvIncomingRejectedPublishCallback (env_notify env) (env_json env) p) w"
| "demo_invoke env sp_prvIncomingPublish ctx p w =
     map_option (\<lambda>b. w\<lparr>sys_cTerminatedString := b\<rparr>)
       (sp_prvIncomingPublishCallback p (sys_cTerminatedString w))"
| "demo_invoke env large_prvIncomingPublish ctx p w =
     on_large (large_prvIncomingPublishCallback (env_notify env) p) w"

text \<open>
  A publish arrives: \<open>buf\<close> is the network buffer and \<open>topic_at\<close> the place of the topic in it;
  \<open>accepted\<close> is whether the OTA library accepts an event.  The result is the system, the
  buffer and what is logged of a publish that nobody handled.
\<close>

definition deliver ::
  "'n system_env \<Rightarrow> bool \<Rightarrow> string \<Rightarrow> nat \<Rightarrow> MQTTPublishInfo \<Rightarrow> ('n, 'ctx) demo_system
   \<Rightarrow> (('n, 'ctx) demo_system \<times> string \<times> string option) option" where
  "deliver env accepted buf topic_at p w =
     prvIncomingPublishCallback (env_config env)
       (\<lambda>w. handleIncomingPublishes (env_match env) (demo_invoke env) (sys_list w) (Some p) w)
       (\<lambda>w. map_option (\<lambda>(handled, ota). (handled, w\<lparr>sys_ota := ota\<rparr>))
          (vOTAProcessMessage (env_match env) (env_clientId env) (env_blockSize env) True accepted p
             (sys_ota w)))
       buf topic_at (topicNameLength p) w"

text \<open>
  A step that a task does by itself moves it to another place; the steps that leave it where it
  is are what the agent task does for it.  The OTA library gives event buffers back.
\<close>

inductive system_step ::
  "'n system_env \<Rightarrow> ('n, 'ctx) demo_system \<Rightarrow> ('n, 'ctx) demo_system \<Rightarrow> bool"
  for env :: "'n system_env" where
  sys_deliver: "deliver env accepted buf topic_at p w = Some (w', buf', logged) \<Longrightarrow>
    system_step env w w'"
| sys_device: "shadow_step (shadow_env_of env) False (sys_dev w) c \<Longrightarrow> fst c \<noteq> fst (sys_dev w) \<Longrightarrow>
    system_step env w (w\<lparr>sys_dev := c\<rparr>)"
| sys_device_sends: "sys_dev w = (pc, s) \<Longrightarrow> q \<in> set (dev_held s) \<Longrightarrow>
    system_step env w
      (w\<lparr>sys_dev := (pc, s\<lparr>dev_sent := dev_sent s @ [(q, dev_pcUpdateDocument s)]\<rparr>)\<rparr>)"
| sys_device_finishes: "sys_dev w = (pc, s) \<Longrightarrow> dev_held s = qs @ q # qs' \<Longrightarrow>
    system_step env w (w\<lparr>sys_dev := (pc, s\<lparr>dev_held := qs @ qs'\<rparr>)\<rparr>)"
| sys_update: "update_step (shadow_env_of env) False (sys_upd w) c \<Longrightarrow> fst c \<noteq> fst (sys_upd w) \<Longrightarrow>
    system_step env w (w\<lparr>sys_upd := c\<rparr>)"
| sys_update_sends: "sys_upd w = (upc, u) \<Longrightarrow> uq \<in> set (upd_held u) \<Longrightarrow>
    system_step env w
      (w\<lparr>sys_upd := (upc, u\<lparr>upd_sent := upd_sent u @ [(uq, upd_pcDesiredDocument u)]\<rparr>)\<rparr>)"
| sys_update_finishes: "sys_upd w = (upc, u) \<Longrightarrow> upd_held u = us @ uq # us' \<Longrightarrow>
    system_step env w (w\<lparr>sys_upd := (upc, u\<lparr>upd_held := us @ us'\<rparr>)\<rparr>)"
| sys_defender: "defender_step (defender_env_of env) False (sys_def w) c \<Longrightarrow> fst c \<noteq> fst (sys_def w) \<Longrightarrow>
    system_step env w (w\<lparr>sys_def := c\<rparr>)"
| sys_report_sent: "sys_def w = (pc, s) \<Longrightarrow> def_queue s = q # qs \<Longrightarrow>
    mem_read (def_pcDeviceMetricsJsonReport s) 0 (def_payloadLength s) = Some doc \<Longrightarrow>
    system_step env w (w\<lparr>sys_def := (pc, s\<lparr>def_queue := qs, def_sent := def_sent s @ [(q, doc)]\<rparr>)\<rparr>)"
| sys_large_message: "large_step (env_notify env) (sys_large w) c \<Longrightarrow> fst c \<noteq> fst (sys_large w) \<Longrightarrow>
    system_step env w (w\<lparr>sys_large := c\<rparr>)"
| sys_event_processed: "pending_events (sys_ota w) = es @ (ev, i, msg) # es' \<Longrightarrow>
    otaAppCallback True OtaJobEventProcessed (Some i) ((sys_ota w)\<lparr>pending_events := es @ es'\<rparr>) =
      Some (cs, ota) \<Longrightarrow>
    system_step env w (w\<lparr>sys_ota := ota\<rparr>)"
| sys_subscribe: "addSubscription (sys_list w) (Some f) (of_nat (length f)) (Some cb) ctx = Some (ok, pl) \<Longrightarrow>
    system_step env w (w\<lparr>sys_list := pl\<rparr>)"
| sys_refused: "removeSubscription (sys_list w) (Some f) len = Some pl \<Longrightarrow>
    system_step env w (w\<lparr>sys_list := pl\<rparr>)"

abbreviation system_run ::
  "'n system_env \<Rightarrow> ('n, 'ctx) demo_system \<Rightarrow> ('n, 'ctx) demo_system \<Rightarrow> bool" where
  "system_run env \<equiv> rtranclp (system_step env)"

section \<open>Deliveries and the parts of the system\<close>

text \<open>
  A part of a system whose callbacks move it by steps of its own; the contract of a task with
  the agent task that runs its callbacks.
\<close>

locale delivery =
  fixes run_callback :: "('cb, 'ctx, 'w) invoke"
    and part :: "'w \<Rightarrow> 'c"
    and step :: "'c \<Rightarrow> 'c \<Rightarrow> bool"
  assumes callback: "run_callback cb ctx p w = Some w' \<Longrightarrow> step\<^sup>*\<^sup>* (part w) (part w')"
begin

text \<open>So does any publish, whatever is in the list and whatever the library says of a match.\<close>

lemma scanned:
  "handle_scan matches run_callback l p i n m h w = Some (h', w') \<Longrightarrow> step\<^sup>*\<^sup>* (part w) (part w')"
proof (induction n arbitrary: i m h w)
  case (Suc n)
  from Suc.prems show ?case
    by (auto simp: handle_scan.simps(2) Let_def split: if_splits
        dest!: Suc.IH callback intro: rtranclp_trans)
qed simp

lemma handled:
  "handleIncomingPublishes matches run_callback pl pp w = Some (h, w') \<Longrightarrow>
   step\<^sup>*\<^sup>* (part w) (part w')"
  by (auto simp: handleIncomingPublishes_def split: option.splits dest: scanned)

end

lemma deliver_parts:
  assumes "deliver env accepted buf topic_at p w = Some (w', buf', logged)"
  obtains h w1 where
    "handleIncomingPublishes (env_match env) (demo_invoke env) (sys_list w) (Some p) w = Some (h, w1)"
    "w' = w1 \<or> (\<exists>handled ota. w' = w1\<lparr>sys_ota := ota\<rparr>
       \<and> vOTAProcessMessage (env_match env) (env_clientId env) (env_blockSize env) True accepted p
           (sys_ota w1) = Some (handled, ota))"
  using assms by (auto simp: deliver_def prvIncomingPublishCallback_def Let_def split: if_splits)

lemma on_part_eq_Some:
  "on_dev f w = Some w' \<longleftrightarrow> (\<exists>s'. f (snd (sys_dev w)) = Some s' \<and> w' = w\<lparr>sys_dev := (fst (sys_dev w), s')\<rparr>)"
  "on_upd g w = Some w' \<longleftrightarrow> (\<exists>s'. g (snd (sys_upd w)) = Some s' \<and> w' = w\<lparr>sys_upd := (fst (sys_upd w), s')\<rparr>)"
  "on_def h w = Some w' \<longleftrightarrow> (\<exists>s'. h (snd (sys_def w)) = Some s' \<and> w' = w\<lparr>sys_def := (fst (sys_def w), s')\<rparr>)"
  "on_large k w = Some w' \<longleftrightarrow> (\<exists>s'. k (snd (sys_large w)) = Some s' \<and> w' = w\<lparr>sys_large := (fst (sys_large w), s')\<rparr>)"
  by (auto simp: on_dev_def on_upd_def on_def_def on_large_def)

lemma env_of_simps [simp]:
  "dev_api (shadow_env_of env) = env_notify env" "dev_json (shadow_env_of env) = env_json env"
  "def_api (defender_env_of env) = env_notify env" "def_json (defender_env_of env) = env_json env"
  "def_keys (defender_env_of env) = env_keys env"
  by (simp_all add: shadow_env_of_def defender_env_of_def)

lemma device_callback_runs:
  "dev_prvIncomingPublishUpdateDeltaCallback (env_json env) p s = Some s' \<Longrightarrow>
   shadow_run (shadow_env_of env) False (pc, s) (pc, s')"
  "dev_prvIncomingPublishUpdateAcceptedCallback (env_notify env) (env_json env) p s = Some s' \<Longrightarrow>
   shadow_run (shadow_env_of env) False (pc, s) (pc, s')"
  "dev_prvIncomingPublishUpdateRejectedCallback (env_notify env) (env_json env) p s = Some s' \<Longrightarrow>
   shadow_run (shadow_env_of env) False (pc, s) (pc, s')"
proof -
  show "dev_prvIncomingPublishUpdateDeltaCallback (env_json env) p s = Some s' \<Longrightarrow>
      shadow_run (shadow_env_of env) False (pc, s) (pc, s')"
    by (rule r_into_rtranclp [where r = "shadow_step (shadow_env_of env) False"], rule shadow_step.delta) simp
  show "dev_prvIncomingPublishUpdateAcceptedCallback (env_notify env) (env_json env) p s = Some s' \<Longrightarrow>
      shadow_run (shadow_env_of env) False (pc, s) (pc, s')"
    by (rule r_into_rtranclp [where r = "shadow_step (shadow_env_of env) False"], rule shadow_step.accepted) simp
  show "dev_prvIncomingPublishUpdateRejectedCallback (env_notify env) (env_json env) p s = Some s' \<Longrightarrow>
      shadow_run (shadow_env_of env) False (pc, s) (pc, s')"
    by (rule r_into_rtranclp [where r = "shadow_step (shadow_env_of env) False"], rule shadow_step.rejected) simp
qed

lemma update_callback_runs:
  "upd_prvIncomingPublishUpdateAcceptedCallback (env_notify env) (env_json env) p s = Some s' \<Longrightarrow>
   update_run (shadow_env_of env) False (pc, s) (pc, s')"
  "upd_prvIncomingPublishUpdateRejectedCallback (env_notify env) (env_json env) p s = Some s' \<Longrightarrow>
   update_run (shadow_env_of env) False (pc, s) (pc, s')"
proof -
  show "upd_prvIncomingPublishUpdateAcceptedCallback (env_notify env) (env_json env) p s = Some s' \<Longrightarrow>
      update_run (shadow_env_of env) False (pc, s) (pc, s')"
    by (rule r_into_rtranclp [where r = "update_step (shadow_env_of env) False"], rule update_step.upd_accepted) simp
  show "upd_prvIncomingPublishUpdateRejectedCallback (env_notify env) (env_json env) p s = Some s' \<Longrightarrow>
      update_run (shadow_env_of env) False (pc, s) (pc, s')"
    by (rule r_into_rtranclp [where r = "update_step (shadow_env_of env) False"], rule update_step.upd_rejected) simp
qed

lemma defender_callback_runs:
  "prvIncomingAcceptedPublishCallback (env_notify env) (env_json env) q s = Some s' \<Longrightarrow>
   defender_run (defender_env_of env) False (pc, s) (pc, s')"
  "prvIncomingRejectedPublishCallback (env_notify env) (env_json env) q s = Some s' \<Longrightarrow>
   defender_run (defender_env_of env) False (pc, s) (pc, s')"
proof -
  show "prvIncomingAcceptedPublishCallback (env_notify env) (env_json env) q s = Some s' \<Longrightarrow>
      defender_run (defender_env_of env) False (pc, s) (pc, s')"
    by (rule r_into_rtranclp [where r = "defender_step (defender_env_of env) False"], rule defender_step.def_accepted) simp
  show "prvIncomingRejectedPublishCallback (env_notify env) (env_json env) q s = Some s' \<Longrightarrow>
      defender_run (defender_env_of env) False (pc, s) (pc, s')"
    by (rule r_into_rtranclp [where r = "defender_step (defender_env_of env) False"], rule defender_step.def_rejected) simp
qed

lemma large_callback_runs:
  "large_prvIncomingPublishCallback api p s = Some s' \<Longrightarrow> large_run api (pc, s) (pc, s')"
  by (rule r_into_rtranclp [where r = "large_step api"], rule large_step.lm_incoming)

lemma ota_message_run:
  "vOTAProcessMessage matches cid blockSize True accepted p s = Some (h, s') \<Longrightarrow>
   ota_run matches cid blockSize s s'"
  by (rule r_into_rtranclp [where r = "ota_step matches cid blockSize"], rule ota_step.ota_received)

interpretation dev_part: delivery "demo_invoke env" sys_dev "shadow_step (shadow_env_of env) False" for env
proof
  fix cb ctx p and w w' :: "('a, 'b) demo_system"
  assume "demo_invoke env cb ctx p w = Some w'"
  then show "(shadow_step (shadow_env_of env) False)\<^sup>*\<^sup>* (sys_dev w) (sys_dev w')"
    by (cases cb; cases "sys_dev w")
      (auto simp: on_part_eq_Some intro: device_callback_runs)
qed

interpretation upd_part: delivery "demo_invoke env" sys_upd "update_step (shadow_env_of env) False" for env
proof
  fix cb ctx p and w w' :: "('a, 'b) demo_system"
  assume "demo_invoke env cb ctx p w = Some w'"
  then show "(update_step (shadow_env_of env) False)\<^sup>*\<^sup>* (sys_upd w) (sys_upd w')"
    by (cases cb; cases "sys_upd w")
      (auto simp: on_part_eq_Some intro: update_callback_runs)
qed

interpretation def_part: delivery "demo_invoke env" sys_def "defender_step (defender_env_of env) False" for env
proof
  fix cb ctx p and w w' :: "('a, 'b) demo_system"
  assume "demo_invoke env cb ctx p w = Some w'"
  then show "(defender_step (defender_env_of env) False)\<^sup>*\<^sup>* (sys_def w) (sys_def w')"
    by (cases cb; cases "sys_def w")
      (auto simp: on_part_eq_Some intro: defender_callback_runs)
qed

interpretation large_part: delivery "demo_invoke env" sys_large "large_step (env_notify env)" for env
proof
  fix cb ctx p and w w' :: "('a, 'b) demo_system"
  assume "demo_invoke env cb ctx p w = Some w'"
  then show "(large_step (env_notify env))\<^sup>*\<^sup>* (sys_large w) (sys_large w')"
    by (cases cb; cases "sys_large w")
      (auto simp: on_part_eq_Some intro: large_callback_runs)
qed

text \<open>A callback touches neither the OTA demo nor the list.\<close>

interpretation ota_part: delivery "demo_invoke env" sys_ota "(=)" for env
proof
  fix cb ctx p and w w' :: "('a, 'b) demo_system"
  assume "demo_invoke env cb ctx p w = Some w'"
  then show "(=)\<^sup>*\<^sup>* (sys_ota w) (sys_ota w')"
    by (cases cb) (auto simp: on_part_eq_Some)
qed

lemma equals_rtranclp [simp]: "(=)\<^sup>*\<^sup>* = ((=) :: 'c \<Rightarrow> 'c \<Rightarrow> bool)"
proof (intro ext iffI)
  fix a b :: 'c
  assume "(=)\<^sup>*\<^sup>* a b"
  then show "a = b" by induction simp_all
qed simp

section \<open>The parts of a run\<close>

text \<open>The parts of \<open>w'\<close> are reached by the tasks' own steps from those of \<open>w\<close>.\<close>

definition parts_run :: "'n system_env \<Rightarrow> ('n, 'ctx) demo_system \<Rightarrow> ('n, 'ctx) demo_system \<Rightarrow> bool" where
  "parts_run env w w' \<longleftrightarrow>
     shadow_run (shadow_env_of env) False (sys_dev w) (sys_dev w')
     \<and> update_run (shadow_env_of env) False (sys_upd w) (sys_upd w')
     \<and> defender_run (defender_env_of env) False (sys_def w) (sys_def w')
     \<and> large_run (env_notify env) (sys_large w) (sys_large w')
     \<and> ota_run (env_match env) (env_clientId env) (env_blockSize env) (sys_ota w) (sys_ota w')"

lemma parts_run_refl: "parts_run env w w"
  by (simp add: parts_run_def)

lemma parts_run_trans: "parts_run env w w1 \<Longrightarrow> parts_run env w1 w2 \<Longrightarrow> parts_run env w w2"
  by (auto simp: parts_run_def intro: rtranclp_trans)

lemma deliver_parts_run:
  assumes "deliver env accepted buf topic_at p w = Some (w', buf', logged)"
  shows "parts_run env w w'"
proof -
  from assms obtain h w1 where
    h: "handleIncomingPublishes (env_match env) (demo_invoke env) (sys_list w) (Some p) w = Some (h, w1)"
    and w': "w' = w1 \<or> (\<exists>handled ota. w' = w1\<lparr>sys_ota := ota\<rparr>
       \<and> vOTAProcessMessage (env_match env) (env_clientId env) (env_blockSize env) True accepted p
           (sys_ota w1) = Some (handled, ota))" by (rule deliver_parts)
  have "sys_ota w1 = sys_ota w" using ota_part.handled [OF h] by simp
  moreover have "ota_run (env_match env) (env_clientId env) (env_blockSize env) (sys_ota w1) (sys_ota w')"
    using w' ota_message_run by auto
  ultimately show ?thesis
    using dev_part.handled [OF h] upd_part.handled [OF h] def_part.handled [OF h]
      large_part.handled [OF h] w'
    by (auto simp: parts_run_def)
qed

lemma system_step_parts: "system_step env w w' \<Longrightarrow> parts_run env w w'"
proof (induction rule: system_step.induct)
  case (sys_deliver accepted buf topic_at p w w' buf' logged)
  then show ?case by (rule deliver_parts_run)
next
  case (sys_device_sends w pc s q)
  from shadow_step.sends [OF this(2), of "shadow_env_of env" False pc] sys_device_sends
  show ?case by (auto simp: parts_run_def)
next
  case (sys_device_finishes w pc s qs q qs')
  from shadow_step.finishes [OF this(2), of "shadow_env_of env" False pc] sys_device_finishes
  show ?case by (auto simp: parts_run_def)
next
  case (sys_update_sends w upc u uq)
  from update_step.upd_sends [OF this(2), of "shadow_env_of env" False upc] sys_update_sends
  show ?case by (auto simp: parts_run_def)
next
  case (sys_update_finishes w upc u us uq us')
  from update_step.upd_finishes [OF this(2), of "shadow_env_of env" False upc] sys_update_finishes
  show ?case by (auto simp: parts_run_def)
next
  case (sys_report_sent w pc s q qs doc)
  from defender_step.def_sends [OF this(2), of doc "defender_env_of env" False pc] sys_report_sent
  show ?case by (auto simp: parts_run_def)
next
  case (sys_event_processed w es ev i msg es' cs ota)
  from ota_step.ota_processed [OF this] have "ota_run (env_match env) (env_clientId env)
      (env_blockSize env) (sys_ota w) ota" by (rule r_into_rtranclp)
  then show ?case by (simp add: parts_run_def)
qed (auto simp: parts_run_def)

lemma system_run_parts: "system_run env w w' \<Longrightarrow> parts_run env w w'"
  by (induction rule: rtranclp_induct)
    (auto intro: parts_run_refl parts_run_trans system_step_parts)

section \<open>Publishes on the topic of a task\<close>

definition topic_of :: "MQTTPublishInfo \<Rightarrow> string" where
  "topic_of p = take (unat (topicNameLength p)) (pTopicName p)"

definition plain_topic :: "string \<Rightarrow> bool" where
  "plain_topic f \<longleftrightarrow> CHR ''+'' \<notin> set f \<and> CHR ''#'' \<notin> set f"

text \<open>As MQTT says: a filter without wildcards matches the topic that it is.\<close>

definition plain_match :: "(string \<Rightarrow> u16 \<Rightarrow> string \<Rightarrow> u16 \<Rightarrow> bool) \<Rightarrow> bool" where
  "plain_match m \<longleftrightarrow> (\<forall>t tl f fl. plain_topic (take (unat fl) f) \<longrightarrow>
     m t tl f fl = (take (unat fl) f = take (unat tl) t))"

lemma filter_unique:
  assumes "i < length xs" and "\<forall>j < length xs. P (xs ! j) \<longleftrightarrow> j = i"
  shows "filter P xs = [xs ! i]"
proof -
  have "filter P (take i xs) = []" "filter P (drop (Suc i) xs) = []"
    using assms by (auto simp: filter_empty_conv in_set_conv_nth)
  then have "filter P (take i xs @ xs ! i # drop (Suc i) xs) = [xs ! i]"
    using assms by simp
  then show ?thesis using id_take_nth_drop [OF assms(1)] by simp
qed

text \<open>
  A part of the system together with the callbacks that are its own: those move it as \<open>handles\<close>
  says, and the callbacks of others leave it alone.
\<close>

locale subscriber =
  fixes run_callback :: "('cb, 'ctx, 'w) invoke"
    and part :: "'w \<Rightarrow> 'c"
    and mine :: "'cb \<Rightarrow> bool"
    and handles :: "MQTTPublishInfo \<Rightarrow> 'cb \<Rightarrow> 'c \<Rightarrow> 'c option"
  assumes own_callback: "mine cb \<Longrightarrow> run_callback cb ctx p w = Some w' \<Longrightarrow>
      handles p cb (part w) = Some (part w')"
    and other_callback: "\<not> mine cb \<Longrightarrow> run_callback cb ctx p w = Some w' \<Longrightarrow> part w' = part w"
begin

fun handles_all :: "MQTTPublishInfo \<Rightarrow> 'cb list \<Rightarrow> 'c \<Rightarrow> 'c option" where
  "handles_all p [] c = Some c"
| "handles_all p (cb # cbs) c = Option.bind (handles p cb c) (handles_all p cbs)"

lemma invoked:
  "invoke_all run_callback p es w = Some w' \<Longrightarrow>
   handles_all p (filter mine (map (\<lambda>e. the (pxIncomingPublishCallback e)) es)) (part w) =
     Some (part w')"
proof (induction es arbitrary: w)
  case (Cons e es)
  then obtain cb w1 where e: "pxIncomingPublishCallback e = Some cb"
    "run_callback cb (pvIncomingPublishCallbackContext e) p w = Some w1"
    "invoke_all run_callback p es w1 = Some w'" by auto
  with Cons.IH [OF e(3)] own_callback [OF _ e(2)] other_callback [OF _ e(2)] show ?case
    by (cases "mine cb") auto
qed simp

lemma untouched:
  assumes "invoke_all run_callback p es w = Some w'"
    and "\<forall>e \<in> set es. \<not> mine (the (pxIncomingPublishCallback e))"
  shows "part w' = part w"
proof -
  have "filter mine (map (\<lambda>e. the (pxIncomingPublishCallback e)) es) = []"
    using assms(2) by (simp add: filter_empty_conv)
  with invoked [OF assms(1)] show ?thesis by simp
qed

text \<open>
  A publish on a topic that the part has subscribed to, once, is handled by the callback it
  registered for it, once.
\<close>

lemma reached:
  assumes l: "list_ok l" and key: "(topic_of p, cb0, ctx0) \<in> subs l" and "mine cb0"
    and only: "\<forall>(f, cb, ctx) \<in> subs l. mine cb \<longrightarrow>
      plain_topic f \<and> (f = topic_of p \<longrightarrow> cb = cb0 \<and> ctx = ctx0)"
    and m: "plain_match m"
    and run: "handleIncomingPublishes (\<lambda>t tl f fl. Some (m t tl f fl)) run_callback (Some l) (Some p) w =
      Some (h, w')"
  shows "h \<and> handles p cb0 (part w) = Some (part w')"
proof -
  let ?cb = "\<lambda>e. the (pxIncomingPublishCallback e)"
  let ?m = "\<lambda>e. used e \<and> m (pTopicName p) (topicNameLength p) (the (pcSubscriptionFilterString e))
    (usFilterStringLength e)"
  from key obtain i where i: "i < length l" "used (l ! i)" "sub_key (l ! i) = (topic_of p, cb0, ctx0)"
    by (auto simp: subs_def in_set_conv_nth)
  have key_cb: "?cb e = cb \<and> plain_topic f \<and> (?m e \<longleftrightarrow> f = topic_of p)"
    if "used e" "e \<in> set l" "sub_key e = (f, cb, ctx)" "mine cb" for e f cb ctx
  proof -
    have "plain_topic f" using only that by (force simp: subs_def)
    then show ?thesis
      using m that(1,3) by (auto simp: sub_key_def plain_match_def topic_of_def)
  qed
  have "\<forall>j < length l. (?m (l ! j) \<and> mine (?cb (l ! j))) \<longleftrightarrow> j = i"
  proof (intro allI impI iffI)
    fix j assume j: "j < length l" "?m (l ! j) \<and> mine (?cb (l ! j))"
    obtain f cb ctx where k: "sub_key (l ! j) = (f, cb, ctx)" by (cases "sub_key (l ! j)")
    then have cb: "cb = ?cb (l ! j)" by (simp add: sub_key_def)
    with key_cb [of "l ! j", OF _ _ k] j have "f = topic_of p" by simp
    moreover from this only j k cb have "cb = cb0 \<and> ctx = ctx0" by (force simp: subs_def)
    ultimately have "sub_key (l ! j) = sub_key (l ! i)" using k i(3) by simp
    with l j i(1,2) show "j = i" by (auto simp: list_ok_def)
  next
    fix j assume "j < length l" "j = i"
    with key_cb [OF i(2) _ i(3) \<open>mine cb0\<close>] i \<open>mine cb0\<close> show "?m (l ! j) \<and> mine (?cb (l ! j))"
      by simp
  qed
  then have "filter (\<lambda>e. ?m e \<and> mine (?cb e)) l = [l ! i]" by (intro filter_unique i(1))
  moreover have "?cb (l ! i) = cb0" using i(3) by (simp add: sub_key_def)
  moreover have "filter mine (map ?cb (matching m p l)) = map ?cb (filter (\<lambda>e. ?m e \<and> mine (?cb e)) l)"
    by (simp add: matching_def filter_map comp_def conj_commute)
  ultimately have "filter mine (map ?cb (matching m p l)) = [cb0]" by simp
  moreover from run obtain "invoke_all run_callback p (matching m p l) w = Some w'"
    "h = (matching m p l \<noteq> [])"
    by (auto simp: handleIncomingPublishes_eq [OF l])
  ultimately show ?thesis using invoked by (fastforce split: bind_splits)
qed

text \<open>The same, when the subscriptions of the part are known.\<close>

lemma reached_subscription:
  assumes "list_ok l" and ks: "{k \<in> subs l. mine (fst (snd k))} = set ks" "distinct (map fst ks)"
    and plain: "\<forall>k \<in> set ks. plain_topic (fst k)" and key: "(topic_of p, cb0, ctx0) \<in> set ks"
    and "plain_match m"
    and "handleIncomingPublishes (\<lambda>t tl f fl. Some (m t tl f fl)) run_callback (Some l) (Some p) w =
      Some (h, w')"
  shows "h \<and> handles p cb0 (part w) = Some (part w')"
proof (rule reached [OF assms(1)])
  have all: "k \<in> subs l \<and> mine (fst (snd k)) \<longleftrightarrow> k \<in> set ks" for k using ks(1) by blast
  from all [of "(topic_of p, cb0, ctx0)"] key
  show "(topic_of p, cb0, ctx0) \<in> subs l" "mine cb0" by simp_all
  have "plain_topic f \<and> (f = topic_of p \<longrightarrow> cb = cb0 \<and> ctx = ctx0)"
    if "(f, cb, ctx) \<in> subs l" "mine cb" for f cb ctx
  proof -
    have k: "(f, cb, ctx) \<in> set ks" using all [of "(f, cb, ctx)"] that by simp
    then have "plain_topic f" using plain by force
    moreover have "f = topic_of p \<longrightarrow> (cb, ctx) = (cb0, ctx0)"
      using eq_key_imp_eq_value [OF ks(2)] k key by blast
    ultimately show ?thesis by simp
  qed
  then show "\<forall>(f, cb, ctx) \<in> subs l. mine cb \<longrightarrow>
      plain_topic f \<and> (f = topic_of p \<longrightarrow> cb = cb0 \<and> ctx = ctx0)" by blast
qed fact+

end

fun dev_handles ::
  "'n system_env \<Rightarrow> MQTTPublishInfo \<Rightarrow> demo_callback \<Rightarrow> shadow_pc \<times> 'n shadow_device
   \<Rightarrow> (shadow_pc \<times> 'n shadow_device) option" where
  "dev_handles env p prvIncomingPublishUpdateDelta (pc, s) = map_option (Pair pc)
     (dev_prvIncomingPublishUpdateDeltaCallback (env_json env) (Some p) s)"
| "dev_handles env p prvIncomingPublishUpdateAccepted (pc, s) = map_option (Pair pc)
     (dev_prvIncomingPublishUpdateAcceptedCallback (env_notify env) (env_json env) (Some p) s)"
| "dev_handles env p prvIncomingPublishUpdateRejected (pc, s) = map_option (Pair pc)
     (dev_prvIncomingPublishUpdateRejectedCallback (env_notify env) (env_json env) (Some p) s)"
| "dev_handles env p _ (pc, s) = Some (pc, s)"

definition dev_mine :: "demo_callback \<Rightarrow> bool" where
  "dev_mine cb \<longleftrightarrow> cb \<in> {prvIncomingPublishUpdateDelta, prvIncomingPublishUpdateAccepted,
     prvIncomingPublishUpdateRejected}"

fun upd_handles ::
  "'n system_env \<Rightarrow> MQTTPublishInfo \<Rightarrow> demo_callback \<Rightarrow> update_pc \<times> 'n shadow_update
   \<Rightarrow> (update_pc \<times> 'n shadow_update) option" where
  "upd_handles env p upd_IncomingPublishUpdateAccepted (pc, s) = map_option (Pair pc)
     (upd_prvIncomingPublishUpdateAcceptedCallback (env_notify env) (env_json env) (Some p) s)"
| "upd_handles env p upd_IncomingPublishUpdateRejected (pc, s) = map_option (Pair pc)
     (upd_prvIncomingPublishUpdateRejectedCallback (env_notify env) (env_json env) (Some p) s)"
| "upd_handles env p _ (pc, s) = Some (pc, s)"

definition upd_mine :: "demo_callback \<Rightarrow> bool" where
  "upd_mine cb \<longleftrightarrow> cb \<in> {upd_IncomingPublishUpdateAccepted, upd_IncomingPublishUpdateRejected}"

interpretation device: subscriber "demo_invoke env" sys_dev dev_mine "dev_handles env" for env
proof
  fix cb ctx p and w w' :: "('a, 'b) demo_system"
  assume "demo_invoke env cb ctx p w = Some w'"
  then show "dev_mine cb \<Longrightarrow> dev_handles env p cb (sys_dev w) = Some (sys_dev w')"
    and "\<not> dev_mine cb \<Longrightarrow> sys_dev w' = sys_dev w"
    by (cases cb; cases "sys_dev w"; auto simp: on_part_eq_Some dev_mine_def)+
qed

interpretation updater: subscriber "demo_invoke env" sys_upd upd_mine "upd_handles env" for env
proof
  fix cb ctx p and w w' :: "('a, 'b) demo_system"
  assume "demo_invoke env cb ctx p w = Some w'"
  then show "upd_mine cb \<Longrightarrow> upd_handles env p cb (sys_upd w) = Some (sys_upd w')"
    and "\<not> upd_mine cb \<Longrightarrow> sys_upd w' = sys_upd w"
    by (cases cb; cases "sys_upd w"; auto simp: on_part_eq_Some upd_mine_def)+
qed

text \<open>The other tasks, and the one that has nothing to do with callbacks.\<close>

fun def_handles ::
  "'n system_env \<Rightarrow> MQTTPublishInfo \<Rightarrow> demo_callback \<Rightarrow> defender_pc \<times> 'n defender
   \<Rightarrow> (defender_pc \<times> 'n defender) option" where
  "def_handles env p prvIncomingAcceptedPublish (pc, s) = map_option (Pair pc)
     (prvIncomingAcceptedPublishCallback (env_notify env) (env_json env) p s)"
| "def_handles env p prvIncomingRejectedPublish (pc, s) = map_option (Pair pc)
     (prvIncomingRejectedPublishCallback (env_notify env) (env_json env) p s)"
| "def_handles env p _ (pc, s) = Some (pc, s)"

definition def_mine :: "demo_callback \<Rightarrow> bool" where
  "def_mine cb \<longleftrightarrow> cb \<in> {prvIncomingAcceptedPublish, prvIncomingRejectedPublish}"

definition large_mine :: "demo_callback \<Rightarrow> bool" where
  "large_mine cb \<longleftrightarrow> cb = large_prvIncomingPublish"

definition large_handles ::
  "'n system_env \<Rightarrow> MQTTPublishInfo \<Rightarrow> demo_callback \<Rightarrow> large_pc \<times> 'n large_message
   \<Rightarrow> (large_pc \<times> 'n large_message) option" where
  "large_handles env p cb c = (if large_mine cb
     then map_option (Pair (fst c)) (large_prvIncomingPublishCallback (env_notify env) p (snd c))
     else Some c)"

definition simple_mine :: "demo_callback \<Rightarrow> bool" where
  "simple_mine cb \<longleftrightarrow> cb = sp_prvIncomingPublish"

interpretation defender: subscriber "demo_invoke env" sys_def def_mine "def_handles env" for env
proof
  fix cb ctx p and w w' :: "('a, 'b) demo_system"
  assume "demo_invoke env cb ctx p w = Some w'"
  then show "def_mine cb \<Longrightarrow> def_handles env p cb (sys_def w) = Some (sys_def w')"
    and "\<not> def_mine cb \<Longrightarrow> sys_def w' = sys_def w"
    by (cases cb; cases "sys_def w"; auto simp: on_part_eq_Some def_mine_def)+
qed

interpretation large: subscriber "demo_invoke env" sys_large large_mine "large_handles env" for env
proof
  fix cb ctx p and w w' :: "('a, 'b) demo_system"
  assume "demo_invoke env cb ctx p w = Some w'"
  then show "large_mine cb \<Longrightarrow> large_handles env p cb (sys_large w) = Some (sys_large w')"
    and "\<not> large_mine cb \<Longrightarrow> sys_large w' = sys_large w"
    by (cases cb; cases "sys_large w"; auto simp: on_part_eq_Some large_mine_def large_handles_def)+
qed

interpretation simple: subscriber "demo_invoke env" sys_cTerminatedString simple_mine
  "\<lambda>p cb. sp_prvIncomingPublishCallback p" for env
proof
  fix cb ctx p and w w' :: "('a, 'b) demo_system"
  assume "demo_invoke env cb ctx p w = Some w'"
  then show "simple_mine cb \<Longrightarrow>
      sp_prvIncomingPublishCallback p (sys_cTerminatedString w) = Some (sys_cTerminatedString w')"
    and "\<not> simple_mine cb \<Longrightarrow> sys_cTerminatedString w' = sys_cTerminatedString w"
    by (cases cb; auto simp: on_part_eq_Some simple_mine_def)+
qed

interpretation nobody: subscriber "demo_invoke env" "\<lambda>w. (sys_ota w, sys_list w)" "\<lambda>cb. False"
  "\<lambda>p cb c. None" for env
proof
  fix cb ctx p and w w' :: "('a, 'b) demo_system"
  assume "demo_invoke env cb ctx p w = Some w'"
  then show "(sys_ota w', sys_list w') = (sys_ota w, sys_list w)"
    by (cases cb) (auto simp: on_part_eq_Some)
qed simp

text \<open>
  The list as the two shadow tasks leave it: in any order, and with any other subscriptions.
\<close>

definition upd_subscriptions :: "shadow_topics \<Rightarrow> (string \<times> demo_callback \<times> 'ctx option) list" where
  "upd_subscriptions topics =
     [(SHADOW_TOPIC_UPDATE_ACCEPTED topics, upd_IncomingPublishUpdateAccepted, None),
      (SHADOW_TOPIC_UPDATE_REJECTED topics, upd_IncomingPublishUpdateRejected, None)]"

definition shadow_topics_ok :: "shadow_topics \<Rightarrow> bool" where
  "shadow_topics_ok topics \<longleftrightarrow>
     (let ts = [SHADOW_TOPIC_UPDATE_DELTA topics, SHADOW_TOPIC_UPDATE_ACCEPTED topics,
        SHADOW_TOPIC_UPDATE_REJECTED topics]
      in distinct ts \<and> (\<forall>f \<in> set ts. topic_ok f \<and> plain_topic f))"

text \<open>What a delivery is when the list handles the publish.\<close>

lemma deliver_handled:
  assumes "deliver env accepted buf topic_at p w = Some (w', buf', logged)"
    and "\<And>h w1. handleIncomingPublishes (env_match env) (demo_invoke env) (sys_list w) (Some p) w =
      Some (h, w1) \<Longrightarrow> h"
  shows "handleIncomingPublishes (env_match env) (demo_invoke env) (sys_list w) (Some p) w =
      Some (True, w') \<and> buf' = buf \<and> logged = None"
  using assms
  by (auto simp: deliver_def prvIncomingPublishCallback_def Let_def split: if_splits)

lemma takeWhile_stops:
  "takeWhile (\<lambda>c. c \<noteq> z) (xs @ z # ys) = takeWhile (\<lambda>c. c \<noteq> z) xs"
  by (induction xs) simp_all

lemma printed_topic:
  assumes "a + n < length buf"
  shows "takeWhile (\<lambda>c. c \<noteq> CHR 0x00) (drop a (buf[a + n := CHR 0x00])) =
    takeWhile (\<lambda>c. c \<noteq> CHR 0x00) (take n (drop a buf))"
proof -
  have "drop a (buf[a + n := CHR 0x00]) = take n (drop a buf) @ CHR 0x00 # drop (Suc (a + n)) buf"
    using assms by (simp add: upd_conv_take_nth_drop drop_take)
  then show ?thesis by (simp only: takeWhile_stops)
qed

text \<open>The publish that nobody has subscribed to: the OTA demo, if it is built in, then the log.\<close>

definition unmatched ::
  "'n system_env \<Rightarrow> bool \<Rightarrow> string \<Rightarrow> nat \<Rightarrow> MQTTPublishInfo \<Rightarrow> ('n, 'ctx) demo_system
   \<Rightarrow> (('n, 'ctx) demo_system \<times> string \<times> string option) option" where
  "unmatched env accepted buf topic_at p w = do {
     (handled, ota) \<leftarrow>
       (if democonfigCREATE_CODE_SIGNING_OTA_DEMO (env_config env)
        then vOTAProcessMessage (env_match env) (env_clientId env) (env_blockSize env) True accepted p
          (sys_ota w)
        else Some (False, sys_ota w));
     if handled then Some (w\<lparr>sys_ota := ota\<rparr>, buf, None)
     else if topic_at + unat (topicNameLength p) < length buf
     then Some (w\<lparr>sys_ota := ota\<rparr>, buf,
       Some (takeWhile (\<lambda>c. c \<noteq> CHR 0x00) (take (unat (topicNameLength p)) (drop topic_at buf))))
     else None
   }"

lemma unmatched_frame:
  "unmatched env accepted buf topic_at p w = Some (w', buf', logged) \<Longrightarrow>
   buf' = buf \<and> (\<exists>ota. w' = w\<lparr>sys_ota := ota\<rparr>)"
  by (auto simp: unmatched_def split: if_splits prod.splits intro: exI [of _ "sys_ota w"])

definition log_unhandled ::
  "string \<Rightarrow> nat \<Rightarrow> MQTTPublishInfo \<Rightarrow> bool \<Rightarrow> 'w \<Rightarrow> ('w \<times> string \<times> string option) option" where
  "log_unhandled buf topic_at p handled w2 =
     (if \<not> handled then do {
        cOriginalChar \<leftarrow> arr_get buf (topic_at + unat (topicNameLength p));
        buf1 \<leftarrow> arr_set buf (topic_at + unat (topicNameLength p)) (CHR 0x00);
        let printed = takeWhile (\<lambda>c. c \<noteq> CHR 0x00) (drop topic_at buf1);
        buf2 \<leftarrow> arr_set buf1 (topic_at + unat (topicNameLength p)) cOriginalChar;
        Some (w2, buf2, Some printed)
      }
      else Some (w2, buf, None))"

lemma log_unhandled_eq:
  "log_unhandled buf topic_at p handled w2 =
     (if handled then Some (w2, buf, None)
      else if topic_at + unat (topicNameLength p) < length buf
      then Some (w2, buf,
        Some (takeWhile (\<lambda>c. c \<noteq> CHR 0x00) (take (unat (topicNameLength p)) (drop topic_at buf))))
      else None)"
proof (cases "topic_at + unat (topicNameLength p) < length buf")
  case True
  then show ?thesis unfolding log_unhandled_def by (simp add: printed_topic del: take_drop)
qed (simp add: log_unhandled_def arr_get_def)

lemma deliver_eq:
  assumes "list_ok l" and "sys_list w = Some l"
    and "env_match env = (\<lambda>t tl f fl. Some (m t tl f fl))"
  shows "deliver env accepted buf topic_at p w =
    (if matching m p l \<noteq> []
     then map_option (\<lambda>w'. (w', buf, None)) (invoke_all (demo_invoke env) p (matching m p l) w)
     else unmatched env accepted buf topic_at p w)"
proof (cases "matching m p l = []")
  case True
  then have h: "handleIncomingPublishes (env_match env) (demo_invoke env) (Some l) (Some p) w =
      Some (False, w)"
    using assms(3) by (simp add: handleIncomingPublishes_eq [OF assms(1)])
  let ?v = "vOTAProcessMessage (env_match env) (env_clientId env) (env_blockSize env) True accepted p
      (sys_ota w)"
  let ?ota = "democonfigCREATE_CODE_SIGNING_OTA_DEMO (env_config env)"
  have "deliver env accepted buf topic_at p w = do {
      (handled, w2) \<leftarrow> (if ?ota then map_option (\<lambda>(handled, ota). (handled, w\<lparr>sys_ota := ota\<rparr>)) ?v
        else Some (False, w));
      log_unhandled buf topic_at p handled w2}"
    unfolding deliver_def prvIncomingPublishCallback_def log_unhandled_def assms(2) h by simp
  also have "\<dots> = unmatched env accepted buf topic_at p w"
    by (cases ?ota; cases ?v) (auto simp: unmatched_def log_unhandled_eq)
  finally show ?thesis using True by simp
next
  case False
  then show ?thesis
    using assms(2,3) handleIncomingPublishes_eq [OF assms(1), of m "demo_invoke env" p w]
    by (cases "invoke_all (demo_invoke env) p (matching m p l) w")
       (simp_all add: deliver_def prvIncomingPublishCallback_def)
qed

lemma device_reached:
  fixes l :: "(demo_callback, 'ctx) SubscriptionElement list"
  assumes "list_ok l" and "sys_list w = Some l" and "shadow_topics_ok topics"
    and "{k \<in> subs l. dev_mine (fst (snd k))} = set (dev_subscriptions topics)"
    and "(topic_of p, cb, None :: 'ctx option) \<in> set (dev_subscriptions topics)"
    and "env_match env = (\<lambda>t tl f fl. Some (m t tl f fl))" and "plain_match m"
    and "deliver env accepted buf topic_at p w = Some (w', buf', logged)"
  shows "dev_handles env p cb (sys_dev w) = Some (sys_dev w') \<and> logged = None"
proof -
  have "distinct (map fst (dev_subscriptions topics :: (string \<times> demo_callback \<times> 'ctx option) list))"
    "\<forall>k \<in> set (dev_subscriptions topics :: (string \<times> demo_callback \<times> 'ctx option) list).
       plain_topic (fst k)"
    using assms(3) by (auto simp: dev_subscriptions_def shadow_topics_ok_def Let_def)
  note reached = device.reached_subscription [OF assms(1,4) this assms(5,7)]
  from assms(8) have "handleIncomingPublishes (env_match env) (demo_invoke env) (sys_list w) (Some p) w =
      Some (True, w') \<and> buf' = buf \<and> logged = None"
    by (rule deliver_handled) (use reached assms(2,6) in auto)
  with reached [of env w True w'] assms(2,6) show ?thesis by simp
qed

lemma updater_reached:
  fixes l :: "(demo_callback, 'ctx) SubscriptionElement list"
  assumes "list_ok l" and "sys_list w = Some l" and "shadow_topics_ok topics"
    and "{k \<in> subs l. upd_mine (fst (snd k))} = set (upd_subscriptions topics)"
    and "(topic_of p, cb, None :: 'ctx option) \<in> set (upd_subscriptions topics)"
    and "env_match env = (\<lambda>t tl f fl. Some (m t tl f fl))" and "plain_match m"
    and "deliver env accepted buf topic_at p w = Some (w', buf', logged)"
  shows "upd_handles env p cb (sys_upd w) = Some (sys_upd w') \<and> logged = None"
proof -
  have "distinct (map fst (upd_subscriptions topics :: (string \<times> demo_callback \<times> 'ctx option) list))"
    "\<forall>k \<in> set (upd_subscriptions topics :: (string \<times> demo_callback \<times> 'ctx option) list).
       plain_topic (fst k)"
    using assms(3) by (auto simp: upd_subscriptions_def shadow_topics_ok_def Let_def)
  note reached = updater.reached_subscription [OF assms(1,4) this assms(5,7)]
  from assms(8) have "handleIncomingPublishes (env_match env) (demo_invoke env) (sys_list w) (Some p) w =
      Some (True, w') \<and> buf' = buf \<and> logged = None"
    by (rule deliver_handled) (use reached assms(2,6) in auto)
  with reached [of env w True w'] assms(2,6) show ?thesis by simp
qed

section \<open>What the start of the shadow tasks leaves in the list\<close>

lemma upd_subscribe_callback_eq:
  "upd_prvSubscribeCommandCallback api topics success pl n =
     (if success then do {
        (ok, pl') \<leftarrow> add_all pl (upd_subscriptions topics);
        Some (ok, pl', xTaskNotifyGive api n)
      } else Some (False, pl, xTaskNotifyGive api n))"
  by (auto simp: upd_prvSubscribeCommandCallback_def upd_subscriptions_def
      split: Option.bind_split prod.splits if_splits)

text \<open>A task enters its loop only with all its subscriptions added.\<close>

lemma shadow_started:
  "vShadowDeviceTask api topics queued completion pl n = Some (Some c, pl1) \<Longrightarrow>
   add_all pl (dev_subscriptions topics) = Some (True, pl1)
   \<and> (\<exists>n'. c = (Report_check, shadow_device_init n'))"
  "vShadowUpdateTask api topics queued completion pl n = Some (Some d, pl1) \<Longrightarrow>
   add_all pl (upd_subscriptions topics) = Some (True, pl1)
   \<and> (\<exists>n'. d = (Update_delay, shadow_update_init n'))"
  by (auto simp: vShadowDeviceTask_def vShadowUpdateTask_def Let_def
      dev_prvSubscribeToShadowUpdateTopics_def upd_prvSubscribeToShadowUpdateTopics_def
      dev_subscribe_callback_eq upd_subscribe_callback_eq split: option.splits if_splits prod.splits)

lemma add_all_exact:
  assumes "list_ok l" and "\<forall>(f, cb, ctx) \<in> set ks. topic_ok f"
    and "add_all (Some l) ks = Some (True, pl)"
  obtains l' where "pl = Some l'" "list_ok l'" "subs l' = subs l \<union> set ks"
proof -
  from add_all_contract [OF assms(2,1)] assms(3) obtain l' where "pl = Some l'" "list_ok l'"
    "subs l \<subseteq> subs l'" "subs l' \<subseteq> subs l \<union> set ks" "set ks \<subseteq> subs l'" by auto
  with that show ?thesis by blast
qed

lemma shadow_tasks_started:
  assumes "list_ok l" and "\<forall>(f, cb, ctx) \<in> subs l. \<not> dev_mine cb \<and> \<not> upd_mine cb"
    and "shadow_topics_ok topics"
    and "vShadowDeviceTask api topics queued completion (Some l) n = Some (Some c, pl1)"
    and "vShadowUpdateTask api topics queued' completion' pl1 n' = Some (Some d, pl2)"
  obtains l' where "pl2 = Some l'" "list_ok l'"
    "subs l' = subs l \<union> set (dev_subscriptions topics) \<union> set (upd_subscriptions topics)"
    "{k \<in> subs l'. dev_mine (fst (snd k))} = set (dev_subscriptions topics)"
    "{k \<in> subs l'. upd_mine (fst (snd k))} = set (upd_subscriptions topics)"
proof -
  have topics: "\<forall>(f, cb, ctx) \<in> set (dev_subscriptions topics). topic_ok f"
    "\<forall>(f, cb, ctx) \<in> set (upd_subscriptions topics). topic_ok f"
    using assms(3) by (auto simp: dev_subscriptions_def upd_subscriptions_def shadow_topics_ok_def Let_def)
  from shadow_started(1) [OF assms(4)] have "add_all (Some l) (dev_subscriptions topics) = Some (True, pl1)"
    by simp
  with assms(1) topics(1) obtain l1 where l1: "pl1 = Some l1" "list_ok l1"
    "subs l1 = subs l \<union> set (dev_subscriptions topics)" by (rule add_all_exact)
  from shadow_started(2) [OF assms(5)] l1(1)
  have "add_all (Some l1) (upd_subscriptions topics) = Some (True, pl2)" by simp
  with l1(2) topics(2) obtain l2 where l2: "pl2 = Some l2" "list_ok l2"
    "subs l2 = subs l1 \<union> set (upd_subscriptions topics)" by (rule add_all_exact)
  show ?thesis
  proof (rule that [OF l2(1,2)])
    show "subs l2 = subs l \<union> set (dev_subscriptions topics) \<union> set (upd_subscriptions topics)"
      using l1(3) l2(3) by simp
    then show "{k \<in> subs l2. dev_mine (fst (snd k))} = set (dev_subscriptions topics)"
      "{k \<in> subs l2. upd_mine (fst (snd k))} = set (upd_subscriptions topics)"
      using assms(2)
      by (auto simp: dev_subscriptions_def upd_subscriptions_def dev_mine_def upd_mine_def)
  qed
qed

section \<open>A concrete system\<close>

definition demo_topics :: shadow_topics where
  "demo_topics = \<lparr>SHADOW_TOPIC_UPDATE = ''u'', SHADOW_TOPIC_UPDATE_DELTA = ''d'',
     SHADOW_TOPIC_UPDATE_ACCEPTED = ''a'', SHADOW_TOPIC_UPDATE_REJECTED = ''r''\<rparr>"

definition same_topic :: "string \<Rightarrow> u16 \<Rightarrow> string \<Rightarrow> u16 \<Rightarrow> bool" where
  "same_topic t tlen f flen \<longleftrightarrow> take (unat flen) f = take (unat tlen) t"

definition demo_system_env :: "nat system_env" where
  "demo_system_env = \<lparr>env_notify = demo_notify, env_json = demo_json, env_keys = demo_keys,
     env_match = (\<lambda>t tl f fl. Some (same_topic t tl f fl)), env_clientId = ''thing'',
     env_blockSize = 4096, env_config = demo_settings\<rparr>"

text \<open>The list after both shadow tasks have subscribed.\<close>

definition demo_element :: "string \<times> demo_callback \<times> nat option \<Rightarrow> (demo_callback, nat) SubscriptionElement" where
  "demo_element = (\<lambda>(f, cb, ctx). \<lparr>pxIncomingPublishCallback = Some cb,
     pvIncomingPublishCallbackContext = ctx, usFilterStringLength = of_nat (length f),
     pcSubscriptionFilterString = Some f\<rparr>)"

definition demo_subscribed :: "(demo_callback, nat) SubscriptionElement list" where
  "demo_subscribed = map demo_element (dev_subscriptions demo_topics @ upd_subscriptions demo_topics)
     @ replicate 5 zero_element"

definition demo_system_start :: "(nat, nat) demo_system" where
  "demo_system_start = \<lparr>sys_dev = (Report_wait, demo_waiting),
     sys_upd = (Update_wait, (shadow_update_init 0)\<lparr>upd_ulClientToken := 9\<rparr>),
     sys_def = (Def_id, defender_init 0),
     sys_large = (LM_clear, \<lparr>lm_pcMaxPayloadMessage = [], lm_pcReceivedPublishPayload = [],
       lm_ulLargeMessageFailures = 0, lm_ulLargeMessagePasses = 0, lm_notification = 0,
       lm_published = 0\<rparr>),
     sys_cTerminatedString = [], sys_ota = ota_demo_init 4096, sys_list = Some demo_subscribed\<rparr>"

definition demo_message :: "string \<Rightarrow> string \<Rightarrow> MQTTPublishInfo" where
  "demo_message topic doc = \<lparr>pub_qos = 1, pTopicName = topic, topicNameLength = of_nat (length topic),
     pPayload = Some doc, payloadLength = length doc\<rparr>"

lemma demo_plain: "plain_match same_topic"
  by (simp add: plain_match_def same_topic_def)

lemma demo_topics_ok: "shadow_topics_ok demo_topics"
  by (simp add: shadow_topics_ok_def demo_topics_def topic_ok_def plain_topic_def Let_def)

lemma demo_add_all:
  "add_all (Some empty_list) (dev_subscriptions demo_topics) =
     Some (True, Some (map demo_element (dev_subscriptions demo_topics) @ replicate 7 zero_element))"
  "add_all (Some (map demo_element (dev_subscriptions demo_topics) @ replicate 7 zero_element))
     (upd_subscriptions demo_topics) = Some (True, Some demo_subscribed)"
  by code_simp+

lemma demo_started:
  "vShadowDeviceTask demo_notify demo_topics (\<lambda>_. True) (Some True)
     (Some (empty_list :: (demo_callback, nat) SubscriptionElement list)) 0 =
   Some (Some (Report_check, shadow_device_init 0),
     Some (map demo_element (dev_subscriptions demo_topics) @ replicate 7 zero_element))"
  "vShadowUpdateTask demo_notify demo_topics (\<lambda>_. True) (Some True)
     (Some (map demo_element (dev_subscriptions demo_topics) @ replicate 7 zero_element)) 0 =
   Some (Some (Update_delay, shadow_update_init 0), Some demo_subscribed)"
  by (simp_all add: vShadowDeviceTask_def vShadowUpdateTask_def dev_prvSubscribeToShadowUpdateTopics_def
      upd_prvSubscribeToShadowUpdateTopics_def dev_subscribe_callback_eq upd_subscribe_callback_eq
      demo_add_all subscribe_loop_returns) (simp_all add: demo_notify_def)

lemma demo_subscribed_ok:
  "list_ok demo_subscribed"
  "{k \<in> subs demo_subscribed. dev_mine (fst (snd k))} = set (dev_subscriptions demo_topics)"
  "{k \<in> subs demo_subscribed. upd_mine (fst (snd k))} = set (upd_subscriptions demo_topics)"
proof -
  have "\<forall>(f, cb, ctx) \<in> subs (empty_list :: (demo_callback, nat) SubscriptionElement list).
      \<not> dev_mine cb \<and> \<not> upd_mine cb" by (simp add: subs_empty)
  from list_ok_empty this demo_topics_ok demo_started obtain l' where
    "Some demo_subscribed = Some l'" and l': "list_ok l'"
    "{k \<in> subs l'. dev_mine (fst (snd k))} = set (dev_subscriptions demo_topics)"
    "{k \<in> subs l'. upd_mine (fst (snd k))} = set (upd_subscriptions demo_topics)"
    by (rule shadow_tasks_started)
  then have "l' = demo_subscribed" by (simp only: option.inject)
  with l' show "list_ok demo_subscribed"
    "{k \<in> subs demo_subscribed. dev_mine (fst (snd k))} = set (dev_subscriptions demo_topics)"
    "{k \<in> subs demo_subscribed. upd_mine (fst (snd k))} = set (upd_subscriptions demo_topics)"
    by (simp_all only:)
qed

lemma demo_numbers: "strtoul10 ''3,1'' = 3" "strtoul10 ''1'' = 1" "strtoul10 ''9,1'' = 9"
  by (simp_all add: strtoul10_def digits_value_def digit_val_def is_digit_def is_space_def)

lemma demo_matching:
  "matching same_topic (demo_message ''d'' doc) demo_subscribed =
     [demo_element (''d'', prvIncomingPublishUpdateDelta, None)]"
  "matching same_topic (demo_message ''a'' doc) demo_subscribed =
     [demo_element (''a'', prvIncomingPublishUpdateAccepted, None),
      demo_element (''a'', upd_IncomingPublishUpdateAccepted, None)]"
  by (simp_all add: matching_def demo_subscribed_def dev_subscriptions_def upd_subscriptions_def
      demo_topics_def demo_element_def demo_message_def same_topic_def zero_element_def)

lemma demo_deliver:
  assumes "invoke_all (demo_invoke demo_system_env) p (matching same_topic p demo_subscribed)
      demo_system_start = Some w'"
    and "matching same_topic p demo_subscribed \<noteq> []"
  shows "deliver demo_system_env accepted buf topic_at p demo_system_start = Some (w', buf, None)"
proof -
  have "env_match demo_system_env = (\<lambda>t tl f fl. Some (same_topic t tl f fl))"
    "sys_list demo_system_start = Some demo_subscribed"
    by (simp_all add: demo_system_env_def demo_system_start_def)
  then have "handleIncomingPublishes (env_match demo_system_env) (demo_invoke demo_system_env)
      (sys_list demo_system_start) (Some p) demo_system_start = Some (True, w')"
    using assms by (simp add: handleIncomingPublishes_eq [OF demo_subscribed_ok(1)])
  then show ?thesis by (simp add: deliver_def prvIncomingPublishCallback_def)
qed

lemma demo_parts:
  "env_notify demo_system_env = demo_notify" "env_json demo_system_env = demo_json"
  "env_match demo_system_env = (\<lambda>t tl f fl. Some (same_topic t tl f fl))"
  "sys_dev demo_system_start = (Report_wait, demo_waiting)"
  "sys_upd demo_system_start = (Update_wait, (shadow_update_init 0)\<lparr>upd_ulClientToken := 9\<rparr>)"
  "sys_list demo_system_start = Some demo_subscribed"
  "dev_ulClientToken demo_waiting = 7" "dev_notification demo_waiting = 0"
  "dev_ulCurrentVersion demo_waiting = 0"
  by (simp_all add: demo_system_env_def demo_system_start_def demo_waiting_def shadow_device_init_def)

lemma demo_delta:
  "pPayload (demo_message ''d'' ''3,1'') = Some ''3,1''"
  "delta_version demo_json (demo_message ''d'' ''3,1'') = Some 3"
  "json_uint demo_json ''3,1'' (payloadLength (demo_message ''d'' ''3,1'')) ''state.powerOn'' = Some 1"
  "topic_of (demo_message ''d'' ''3,1'') = SHADOW_TOPIC_UPDATE_DELTA demo_topics"
  by (simp_all add: demo_message_def delta_version_def demo_json_def json_uint_def demo_numbers
      topic_of_def demo_topics_def)

lemma demo_response_message:
  "pPayload (demo_message ''a'' ''9,1'') = Some ''9,1''"
  "response_token demo_json (demo_message ''a'' ''9,1'') = Some 9"
  "topic_of (demo_message ''a'' ''9,1'') = SHADOW_TOPIC_UPDATE_ACCEPTED demo_topics"
  by (simp_all add: demo_message_def response_token_def demo_json_def json_uint_def demo_numbers
      topic_of_def demo_topics_def)

lemma demo_delivers_delta:
  obtains w' where "deliver demo_system_env True ''d'' 0 (demo_message ''d'' ''3,1'') demo_system_start =
     Some (w', ''d'', None)"
proof -
  obtain w' where "invoke_all (demo_invoke demo_system_env) (demo_message ''d'' ''3,1'')
      (matching same_topic (demo_message ''d'' ''3,1'') demo_subscribed) demo_system_start = Some w'"
    by (simp add: demo_matching demo_element_def on_dev_def demo_parts delta_eq [OF demo_delta(1)])
  from that [OF demo_deliver [OF this]] show ?thesis by (simp add: demo_matching)
qed

lemma demo_delivers_response:
  obtains w' where "deliver demo_system_env True ''a'' 0 (demo_message ''a'' ''9,1'') demo_system_start =
     Some (w', ''a'', None)"
proof -
  obtain w' where "invoke_all (demo_invoke demo_system_env) (demo_message ''a'' ''9,1'')
      (matching same_topic (demo_message ''a'' ''9,1'') demo_subscribed) demo_system_start = Some w'"
    by (simp add: demo_matching demo_element_def on_dev_def on_upd_def demo_parts
        accepted_eq [OF demo_response_message(1)] upd_prvIncomingPublishUpdateAcceptedCallback_def
        upd_response_eq [OF demo_response_message(1)] demo_response_message(2))
  from that [OF demo_deliver [OF this]] show ?thesis by (simp add: demo_matching)
qed

section \<open>Properties\<close>

text \<open>
  C3. Each publish goes to those who asked for it, and to the OTA demo only when nobody did.  With a
  well-formed list the delivery calls the callbacks of exactly the subscriptions that match,
  each once and in the order of the list, logs nothing and leaves the OTA demo, the list, the
  buffer and every task that registered none of these callbacks as they were.  If there is no
  match no task is touched: the OTA demo gets the publish, if it is built in, and when that does
  not take it either, exactly the topic is logged, with the buffer as before; the call faults if
  there is no character behind the topic.
\<close>

theorem deliver_dispatches:
  assumes "list_ok l" and "sys_list w = Some l"
    and "env_match env = (\<lambda>t tl f fl. Some (m t tl f fl))"
  shows "deliver env accepted buf topic_at p w =
      (if matching m p l \<noteq> []
       then map_option (\<lambda>w'. (w', buf, None)) (invoke_all (demo_invoke env) p (matching m p l) w)
       else unmatched env accepted buf topic_at p w)
    \<and> (\<forall>w' buf' logged. deliver env accepted buf topic_at p w = Some (w', buf', logged) \<longrightarrow>
       buf' = buf \<and> sys_list w' = sys_list w
       \<and> (matching m p l \<noteq> [] \<longrightarrow> sys_ota w' = sys_ota w)
       \<and> (let none = (\<lambda>own. \<forall>e \<in> set (matching m p l). \<not> own (the (pxIncomingPublishCallback e)))
          in (none dev_mine \<longrightarrow> sys_dev w' = sys_dev w) \<and> (none upd_mine \<longrightarrow> sys_upd w' = sys_upd w)
           \<and> (none def_mine \<longrightarrow> sys_def w' = sys_def w) \<and> (none large_mine \<longrightarrow> sys_large w' = sys_large w)
           \<and> (none simple_mine \<longrightarrow> sys_cTerminatedString w' = sys_cTerminatedString w)))"
proof (intro conjI allI impI)
  show eq: "deliver env accepted buf topic_at p w =
      (if matching m p l \<noteq> []
       then map_option (\<lambda>w'. (w', buf, None)) (invoke_all (demo_invoke env) p (matching m p l) w)
       else unmatched env accepted buf topic_at p w)" for accepted buf topic_at
    by (rule deliver_eq [OF assms])
  fix w' buf' logged
  assume d: "deliver env accepted buf topic_at p w = Some (w', buf', logged)"
  consider (matched) "matching m p l \<noteq> []" "invoke_all (demo_invoke env) p (matching m p l) w = Some w'"
      "buf' = buf"
    | (unmatched) ota where "matching m p l = []" "w' = w\<lparr>sys_ota := ota\<rparr>" "buf' = buf"
    using d unmatched_frame [of env accepted buf topic_at p w w' buf' logged]
    by (cases "matching m p l = []") (auto simp: eq)
  then show "buf' = buf" "sys_list w' = sys_list w"
    "matching m p l \<noteq> [] \<Longrightarrow> sys_ota w' = sys_ota w"
    "let none = (\<lambda>own. \<forall>e \<in> set (matching m p l). \<not> own (the (pxIncomingPublishCallback e)))
     in (none dev_mine \<longrightarrow> sys_dev w' = sys_dev w) \<and> (none upd_mine \<longrightarrow> sys_upd w' = sys_upd w)
       \<and> (none def_mine \<longrightarrow> sys_def w' = sys_def w) \<and> (none large_mine \<longrightarrow> sys_large w' = sys_large w)
       \<and> (none simple_mine \<longrightarrow> sys_cTerminatedString w' = sys_cTerminatedString w)"
    by (cases; simp add: Let_def nobody.untouched [simplified] device.untouched updater.untouched
        defender.untouched large.untouched simple.untouched)+
qed

theorem deliver_dispatches_witness:
  "\<exists>w'. deliver demo_system_env True ''d'' 0 (demo_message ''d'' ''3,1'') demo_system_start =
      Some (w', ''d'', None)
    \<and> dev_ulCurrentPowerOnState (snd (sys_dev w')) = 1
    \<and> sys_upd w' = sys_upd demo_system_start \<and> sys_ota w' = sys_ota demo_system_start"
proof -
  obtain w' where d: "deliver demo_system_env True ''d'' 0 (demo_message ''d'' ''3,1'') demo_system_start =
     Some (w', ''d'', None)" by (rule demo_delivers_delta)
  note all = deliver_dispatches [OF demo_subscribed_ok(1) demo_parts(6,3),
      of True "''d''" 0 "demo_message ''d'' ''3,1''"]
  let ?i = "invoke_all (demo_invoke demo_system_env) (demo_message ''d'' ''3,1'')
      (matching same_topic (demo_message ''d'' ''3,1'') demo_subscribed) demo_system_start"
  have "map_option (\<lambda>w'. (w', ''d'', None :: string option)) ?i = Some (w', ''d'', None)"
    using conjunct1 [OF all, symmetric] unfolding d by (simp only: demo_matching if_True list.distinct not_False_eq_True)
  then have "?i = Some w'" by (cases ?i) simp_all
  then have "dev_ulCurrentPowerOnState (snd (sys_dev w')) = 1"
    by (simp add: demo_matching demo_element_def on_dev_def demo_parts delta_eq [OF demo_delta(1)]
        demo_delta apply_delta_def Let_def) auto
  moreover have "sys_upd w' = sys_upd demo_system_start \<and> sys_ota w' = sys_ota demo_system_start"
    using all d by (simp add: demo_matching demo_element_def upd_mine_def Let_def)
  ultimately show ?thesis using d by blast
qed

text \<open>
  C9. A delta reaches the device.  With the subscriptions that the shadow tasks make in the list,
  among any others, a publish on the delta topic is handled: the device has the requested state
  and the version if that is new, and is left as it was if not, and nothing is logged as
  unhandled.
\<close>

theorem delta_reaches_device:
  fixes l :: "(demo_callback, 'ctx) SubscriptionElement list"
  assumes "list_ok l" and "sys_list w = Some l" and "shadow_topics_ok topics"
    and "{k \<in> subs l. dev_mine (fst (snd k))} = set (dev_subscriptions topics)"
    and "env_match env = (\<lambda>t tl f fl. Some (m t tl f fl))" and "plain_match m"
    and "topic_of p = SHADOW_TOPIC_UPDATE_DELTA topics" and "pPayload p = Some doc"
    and "delta_version (env_json env) p = Some v"
    and "json_uint (env_json env) doc (payloadLength p) ''state.powerOn'' = Some x"
    and "deliver env accepted buf topic_at p w = Some (w', buf', logged)"
  shows "fst (sys_dev w') = fst (sys_dev w) \<and> logged = None
    \<and> snd (sys_dev w') = (if v \<le> dev_ulCurrentVersion (snd (sys_dev w)) then snd (sys_dev w)
        else (snd (sys_dev w))\<lparr>dev_ulCurrentVersion := v, dev_ulCurrentPowerOnState := x\<rparr>)"
proof -
  have "(topic_of p, prvIncomingPublishUpdateDelta, None :: 'ctx option) \<in> set (dev_subscriptions topics)"
    by (simp add: assms(7) dev_subscriptions_def)
  from device_reached [OF assms(1-4) this assms(5,6,11)]
  show ?thesis
    by (cases "sys_dev w"; cases "sys_dev w'") (auto simp: delta_eq [OF assms(8)] assms(9,10) apply_delta_def Let_def
        split: if_splits)
qed

theorem delta_reaches_device_witness:
  "\<exists>w'. deliver demo_system_env True ''d'' 0 (demo_message ''d'' ''3,1'') demo_system_start =
      Some (w', ''d'', None)
    \<and> dev_ulCurrentPowerOnState (snd (sys_dev w')) = 1 \<and> dev_ulCurrentVersion (snd (sys_dev w')) = 3"
proof -
  obtain w' where d: "deliver demo_system_env True ''d'' 0 (demo_message ''d'' ''3,1'') demo_system_start =
     Some (w', ''d'', None)" by (rule demo_delivers_delta)
  from delta_reaches_device [OF demo_subscribed_ok(1) demo_parts(6) demo_topics_ok demo_subscribed_ok(2)
      demo_parts(3) demo_plain demo_delta(4,1) _ _ d]
  have "snd (sys_dev w') = demo_waiting\<lparr>dev_ulCurrentVersion := 3, dev_ulCurrentPowerOnState := 1\<rparr>"
    by (simp add: demo_parts demo_delta)
  with d show ?thesis by simp
qed

text \<open>
  C13. A response reaches the task that asked.  Both shadow tasks subscribe to the accepted topic.
  A response published there notifies the device task exactly if it carries the device's token,
  and the update task exactly if it carries the token of that task.
\<close>

theorem response_reaches_requester:
  fixes l :: "(demo_callback, 'ctx) SubscriptionElement list"
  assumes "list_ok l" and "sys_list w = Some l" and "shadow_topics_ok topics"
    and "{k \<in> subs l. dev_mine (fst (snd k))} = set (dev_subscriptions topics)"
    and "{k \<in> subs l. upd_mine (fst (snd k))} = set (upd_subscriptions topics)"
    and "env_match env = (\<lambda>t tl f fl. Some (m t tl f fl))" and "plain_match m"
    and "topic_of p = SHADOW_TOPIC_UPDATE_ACCEPTED topics" and "pPayload p \<noteq> None"
    and "counting (env_notify env) pending"
    and "deliver env accepted buf topic_at p w = Some (w', buf', logged)"
  shows "pending (dev_notification (snd (sys_dev w'))) = pending (dev_notification (snd (sys_dev w)))
      + (if response_token (env_json env) p = Some (dev_ulClientToken (snd (sys_dev w))) then 1 else 0)
    \<and> pending (upd_notification (snd (sys_upd w'))) = pending (upd_notification (snd (sys_upd w)))
      + (if response_token (env_json env) p = Some (upd_ulClientToken (snd (sys_upd w))) then 1 else 0)"
proof -
  obtain doc where doc: "pPayload p = Some doc" using assms(9) by auto
  have keys: "(topic_of p, prvIncomingPublishUpdateAccepted, None :: 'ctx option) \<in> set (dev_subscriptions topics)"
    "(topic_of p, upd_IncomingPublishUpdateAccepted, None :: 'ctx option) \<in> set (upd_subscriptions topics)"
    by (simp_all add: assms(8) dev_subscriptions_def upd_subscriptions_def)
  note dev = device_reached [OF assms(1-4) keys(1) assms(6,7,11)]
  note upd = updater_reached [OF assms(1-3,5) keys(2) assms(6,7,11)]
  have "pending (dev_notification (snd (sys_dev w'))) = pending (dev_notification (snd (sys_dev w)))
      + (if response_token (env_json env) p = Some (dev_ulClientToken (snd (sys_dev w))) then 1 else 0)"
    using dev counting_give [OF assms(10)]
    by (cases "sys_dev w"; cases "sys_dev w'") (auto simp: accepted_eq [OF doc] split: if_splits option.splits)
  moreover have "pending (upd_notification (snd (sys_upd w'))) = pending (upd_notification (snd (sys_upd w)))
      + (if response_token (env_json env) p = Some (upd_ulClientToken (snd (sys_upd w))) then 1 else 0)"
    using upd counting_give [OF assms(10)]
    by (cases "sys_upd w"; cases "sys_upd w'") (auto simp: upd_prvIncomingPublishUpdateAcceptedCallback_def
        upd_response_eq [OF doc] split: if_splits)
  ultimately show ?thesis by simp
qed

theorem response_reaches_requester_witness:
  "\<exists>w'. deliver demo_system_env True ''a'' 0 (demo_message ''a'' ''9,1'') demo_system_start =
      Some (w', ''a'', None)
    \<and> dev_notification (snd (sys_dev w')) = 0 \<and> upd_notification (snd (sys_upd w')) = 1"
proof -
  obtain w' where d: "deliver demo_system_env True ''a'' 0 (demo_message ''a'' ''9,1'') demo_system_start =
     Some (w', ''a'', None)" by (rule demo_delivers_response)
  have "counting (env_notify demo_system_env) (\<lambda>n. n)" "pPayload (demo_message ''a'' ''9,1'') \<noteq> None"
    by (simp_all add: demo_parts demo_counting demo_response_message)
  from response_reaches_requester [OF demo_subscribed_ok(1) demo_parts(6) demo_topics_ok
      demo_subscribed_ok(2,3) demo_parts(3) demo_plain demo_response_message(3) this(2,1) d] d
  show ?thesis by (simp add: demo_parts demo_response_message(2) shadow_update_init_def)
qed

text \<open>
  C24. The shadow tasks subscribe before they work.  When both have entered their loops, the
  list, well-formed as before, holds the earlier subscriptions and the five of the two tasks,
  so that the premises of the two statements above hold.
\<close>

theorem shadow_tasks_subscribe_first:
  assumes "list_ok l" and "\<forall>(f, cb, ctx) \<in> subs l. \<not> dev_mine cb \<and> \<not> upd_mine cb"
    and "shadow_topics_ok topics"
    and "vShadowDeviceTask api topics queued completion (Some l) n = Some (Some c, pl1)"
    and "vShadowUpdateTask api topics queued' completion' pl1 n' = Some (Some d, pl2)"
  shows "\<exists>l'. pl2 = Some l' \<and> list_ok l'
    \<and> subs l' = subs l \<union> set (dev_subscriptions topics) \<union> set (upd_subscriptions topics)
    \<and> {k \<in> subs l'. dev_mine (fst (snd k))} = set (dev_subscriptions topics)
    \<and> {k \<in> subs l'. upd_mine (fst (snd k))} = set (upd_subscriptions topics)"
  by (rule shadow_tasks_started [OF assms]) blast

theorem shadow_tasks_subscribe_first_witness:
  "\<exists>l'. Some demo_subscribed = Some l' \<and> list_ok l'
    \<and> subs l' = set (dev_subscriptions demo_topics) \<union> set (upd_subscriptions demo_topics)"
proof -
  have "\<forall>(f, cb, ctx) \<in> subs (empty_list :: (demo_callback, nat) SubscriptionElement list).
      \<not> dev_mine cb \<and> \<not> upd_mine cb" by (simp add: subs_empty)
  from shadow_tasks_subscribe_first [OF list_ok_empty this demo_topics_ok demo_started]
  show ?thesis unfolding subs_empty by blast
qed

end
