(* ===== verification/Application.thy ===== *)
theory Application
  imports Demo_System Platform_Port "HOL-Library.Sublist"
begin

text \<open>
  The application from source/main.c to the demo tasks: \<open>main\<close>, the network event hook, the
  connection task and the functions \<open>vStart...\<close> that create the tasks; and the hooks of main.c
  that do not return.

  The kernel is a submodule.  Of it the model has the list of the tasks created, and \<open>room\<close>,
  whether the heap has the memory for another one.
\<close>

section \<open>Creating tasks\<close>

datatype task_code =
    Code_ConnectAndCreateDemoTasks | Code_LargeMessageSubscribePublish
  | Code_SimpleSubscribePublish | Code_OTADemo | Code_Defender | Code_ShadowDevice
  | Code_ShadowUpdate

text \<open>The arguments of \<open>xTaskCreate\<close>; \<open>NULL\<close> as \<open>pvParameters\<close> is 0.\<close>

record rtos_task =
  pxTaskCode :: task_code
  pcName :: string
  uxStackDepth :: nat
  pvParameters :: u32
  uxPriority :: nat

type_synonym task_room = "rtos_task list \<Rightarrow> rtos_task \<Rightarrow> bool"

definition tskIDLE_PRIORITY :: nat where "tskIDLE_PRIORITY = 0"

definition xTaskCreate :: "task_room \<Rightarrow> rtos_task \<Rightarrow> rtos_task list \<Rightarrow> bool \<times> rtos_task list" where
  "xTaskCreate room t ts = (if room ts t then (True, ts @ [t]) else (False, ts))"

definition vStartMQTTAgentDemo :: "task_room \<Rightarrow> nat \<Rightarrow> rtos_task list \<Rightarrow> rtos_task list" where
  "vStartMQTTAgentDemo room demo_stacksize ts =
     snd (xTaskCreate room
       \<lparr>pxTaskCode = Code_ConnectAndCreateDemoTasks, pcName = ''ConnectManager'',
        uxStackDepth = demo_stacksize, pvParameters = 0, uxPriority = tskIDLE_PRIORITY + 1\<rparr> ts)"

definition vStartLargeMessageSubscribePublishTask ::
  "task_room \<Rightarrow> nat \<Rightarrow> nat \<Rightarrow> rtos_task list \<Rightarrow> rtos_task list" where
  "vStartLargeMessageSubscribePublishTask room uxStackSize priority ts =
     snd (xTaskCreate room
       \<lparr>pxTaskCode = Code_LargeMessageSubscribePublish, pcName = ''LargeSubPub'',
        uxStackDepth = uxStackSize, pvParameters = 0, uxPriority = priority\<rparr> ts)"

text \<open>
  The loop from task \<open>i\<close> on, with \<open>n\<close> tasks left; the name is read from the buffer as a string.
\<close>

fun simple_start_loop ::
  "task_room \<Rightarrow> nat \<Rightarrow> nat \<Rightarrow> nat \<Rightarrow> nat \<Rightarrow> rtos_task list \<Rightarrow> rtos_task list option" where
  "simple_start_loop room uxStackSize priority i 0 ts = Some ts"
| "simple_start_loop room uxStackSize priority i (Suc n) ts = do {
     let ulTaskNumber = (of_nat i :: u32);
     (r, pcTaskNameBuf) \<leftarrow> snprintf (replicate 15 (CHR 0x00)) 0 10
        (c_format ''SubPub%d'' [Fmt_int (sint ulTaskNumber)]);
     let (created, ts') = xTaskCreate room
       \<lparr>pxTaskCode = Code_SimpleSubscribePublish,
        pcName = takeWhile (\<lambda>c. c \<noteq> CHR 0x00) pcTaskNameBuf, uxStackDepth = uxStackSize,
        pvParameters = ulTaskNumber, uxPriority = priority\<rparr> ts;
     simple_start_loop room uxStackSize priority (i + 1) n ts'
   }"

definition vStartSimpleSubscribePublishTask ::
  "task_room \<Rightarrow> u32 \<Rightarrow> nat \<Rightarrow> nat \<Rightarrow> rtos_task list \<Rightarrow> rtos_task list option" where
  "vStartSimpleSubscribePublishTask room ulNumberToCreate uxStackSize priority ts =
     simple_start_loop room uxStackSize priority 0 (unat ulNumberToCreate) ts"

text \<open>The only one of these functions that looks at the result of \<open>xTaskCreate\<close>.\<close>

definition vStartOTACodeSigningDemo ::
  "task_room \<Rightarrow> nat \<Rightarrow> nat \<Rightarrow> rtos_task list \<Rightarrow> rtos_task list option" where
  "vStartOTACodeSigningDemo room uxStackSize priority ts = do {
     let (xResult, ts') = xTaskCreate room
       \<lparr>pxTaskCode = Code_OTADemo, pcName = ''OTADemoTask'', uxStackDepth = uxStackSize,
        pvParameters = 0, uxPriority = priority\<rparr> ts;
     _ \<leftarrow> configASSERT xResult;
     Some ts'
   }"

definition vStartDefenderDemo :: "task_room \<Rightarrow> nat \<Rightarrow> nat \<Rightarrow> rtos_task list \<Rightarrow> rtos_task list" where
  "vStartDefenderDemo room uxStackSize priority ts =
     snd (xTaskCreate room
       \<lparr>pxTaskCode = Code_Defender, pcName = ''Defender'', uxStackDepth = uxStackSize,
        pvParameters = 0, uxPriority = priority\<rparr> ts)"

definition shadowexampleENABLE_UPDATE_TASK :: bool where "shadowexampleENABLE_UPDATE_TASK = True"

definition vStartShadowDemo :: "task_room \<Rightarrow> nat \<Rightarrow> nat \<Rightarrow> rtos_task list \<Rightarrow> rtos_task list" where
  "vStartShadowDemo room uxStackSize priority ts =
     (let ts1 = snd (xTaskCreate room
            \<lparr>pxTaskCode = Code_ShadowDevice, pcName = ''ShadowDevice'', uxStackDepth = uxStackSize,
             pvParameters = 0, uxPriority = priority\<rparr> ts)
      in if shadowexampleENABLE_UPDATE_TASK then
           snd (xTaskCreate room
            \<lparr>pxTaskCode = Code_ShadowUpdate, pcName = ''ShadowUpdate'', uxStackDepth = uxStackSize,
             pvParameters = 0, uxPriority = priority\<rparr> ts1)
         else ts1)"

text \<open>The constants of demo_config.h that select the demos.\<close>

record demo_selection =
  democonfigDEMO_STACKSIZE :: nat
  democonfigCREATE_LARGE_MESSAGE_SUB_PUB_TASK :: bool
  democonfigLARGE_MESSAGE_SUB_PUB_TASK_STACK_SIZE :: nat
  democonfigNUM_SIMPLE_SUB_PUB_TASKS_TO_CREATE :: u32
  democonfigSIMPLE_SUB_PUB_TASK_STACK_SIZE :: nat
  democonfigCODE_SIGNING_OTA_TASK_STACK_SIZE :: nat
  democonfigCREATE_DEFENDER_DEMO :: bool
  democonfigDEFENDER_TASK_STACK_SIZE :: nat
  democonfigCREATE_SHADOW_DEMO :: bool
  democonfigSHADOW_TASK_STACK_SIZE :: nat

text \<open>What \<open>prvConnectAndCreateDemoTasks\<close> does between connecting and becoming the agent task.\<close>

definition create_demo_tasks ::
  "task_room \<Rightarrow> demo_config \<Rightarrow> demo_selection \<Rightarrow> rtos_task list \<Rightarrow> rtos_task list option" where
  "create_demo_tasks room cfg sel ts = do {
     let ts1 = (if democonfigCREATE_LARGE_MESSAGE_SUB_PUB_TASK sel
        then vStartLargeMessageSubscribePublishTask room
          (democonfigLARGE_MESSAGE_SUB_PUB_TASK_STACK_SIZE sel) tskIDLE_PRIORITY ts else ts);
     ts2 \<leftarrow> (if democonfigNUM_SIMPLE_SUB_PUB_TASKS_TO_CREATE sel > 0
        then vStartSimpleSubscribePublishTask room (democonfigNUM_SIMPLE_SUB_PUB_TASKS_TO_CREATE sel)
          (democonfigSIMPLE_SUB_PUB_TASK_STACK_SIZE sel) tskIDLE_PRIORITY ts1 else Some ts1);
     ts3 \<leftarrow> (if democonfigCREATE_CODE_SIGNING_OTA_DEMO cfg
        then vStartOTACodeSigningDemo room (democonfigCODE_SIGNING_OTA_TASK_STACK_SIZE sel)
          (tskIDLE_PRIORITY + 1) ts2 else Some ts2);
     let ts4 = (if democonfigCREATE_DEFENDER_DEMO sel
        then vStartDefenderDemo room (democonfigDEFENDER_TASK_STACK_SIZE sel) tskIDLE_PRIORITY ts3
        else ts3);
     Some (if democonfigCREATE_SHADOW_DEMO sel
        then vStartShadowDemo room (democonfigSHADOW_TASK_STACK_SIZE sel) tskIDLE_PRIORITY ts4
        else ts4)
   }"

definition connect_task ::
  "('b, 'cb, 'ctx) agent_env \<Rightarrow> 'q queue_api \<Rightarrow> 'c pool_layout \<Rightarrow> demo_config \<Rightarrow> task_room
   \<Rightarrow> demo_selection \<Rightarrow> rtos_task list \<Rightarrow> ('q, 'c, 'cb, 'ctx) agent_state
   \<Rightarrow> (rtos_task list \<times> ('q, 'c, 'cb, 'ctx) agent_state) option" where
  "connect_task env api lay cfg room sel =
     prvConnectAndCreateDemoTasks env api lay cfg (create_demo_tasks room cfg sel) 0"

section \<open>main.c\<close>

text \<open>
  A loop on a volatile variable; \<open>stays i\<close> is whether its condition holds at the reading with
  number \<open>i\<close>.
\<close>

partial_function (option) spin :: "(nat \<Rightarrow> bool) \<Rightarrow> nat \<Rightarrow> nat option" where
  "spin stays i = (if stays i then spin stays (i + 1) else Some i)"

text \<open>
  The variable has the value \<open>ulBlockVariable i\<close> at reading \<open>i\<close>: only a debugger can change it.
\<close>

definition vAssertCalled :: "(nat \<Rightarrow> u32) \<Rightarrow> unit option" where
  "vAssertCalled ulBlockVariable = do {
     _ \<leftarrow> spin (\<lambda>i. ulBlockVariable i = 0) 0;
     Some ()
   }"

definition vApplicationStackOverflowHook :: "(nat \<Rightarrow> u32) \<Rightarrow> unit option" where
  "vApplicationStackOverflowHook ulSetToZeroToStepOut = do {
     _ \<leftarrow> spin (\<lambda>i. ulSetToZeroToStepOut i \<noteq> 0) 0;
     Some ()
   }"

text \<open>The memory of the kernel's own tasks: static objects, and the size of the stack in words.\<close>

datatype static_object = xIdleTaskTCB | uxIdleTaskStack | xTimerTaskTCB | uxTimerTaskStack

record kernel_constants =
  configMINIMAL_STACK_SIZE :: u32
  configTIMER_TASK_STACK_DEPTH :: u32

fun stack_words :: "kernel_constants \<Rightarrow> static_object \<Rightarrow> u32" where
  "stack_words c uxIdleTaskStack = configMINIMAL_STACK_SIZE c"
| "stack_words c uxTimerTaskStack = configTIMER_TASK_STACK_DEPTH c"
| "stack_words c _ = 0"

definition vApplicationGetIdleTaskMemory ::
  "kernel_constants \<Rightarrow> static_object \<times> static_object \<times> u32" where
  "vApplicationGetIdleTaskMemory c = (xIdleTaskTCB, uxIdleTaskStack, configMINIMAL_STACK_SIZE c)"

definition vApplicationGetTimerTaskMemory ::
  "kernel_constants \<Rightarrow> static_object \<times> static_object \<times> u32" where
  "vApplicationGetTimerTaskMemory c =
     (xTimerTaskTCB, uxTimerTaskStack, configTIMER_TASK_STACK_DEPTH c)"

text \<open>The two tasks share no memory, and each stack has the size that the kernel is told.\<close>

lemma kernel_task_memory:
  "vApplicationGetIdleTaskMemory c = (tcb, stack, n) \<Longrightarrow> stack_words c stack = n"
  "vApplicationGetTimerTaskMemory c = (tcb', stack', n') \<Longrightarrow> stack_words c stack' = n'"
  "vApplicationGetIdleTaskMemory c = (tcb, stack, n) \<Longrightarrow>
   vApplicationGetTimerTaskMemory c = (tcb', stack', n') \<Longrightarrow> {tcb, stack} \<inter> {tcb', stack'} = {}"
  by (auto simp: vApplicationGetIdleTaskMemory_def vApplicationGetTimerTaskMemory_def)

text \<open>The arguments of \<open>FreeRTOS_IPInit\<close>.\<close>

record network_addresses =
  ucIPAddress :: "u8 list"
  ucNetMask :: "u8 list"
  ucGatewayAddress :: "u8 list"
  ucDNSServerAddress :: "u8 list"
  ucMACAddress :: "u8 list"

record application =
  app_ulNextRand :: u32
  app_addresses :: "network_addresses option"
  app_hook :: "rtos_task list hook_state"

definition application_init :: application where
  "application_init = \<lparr>app_ulNextRand = 0, app_addresses = None, app_hook = hook_init []\<rparr>"

text \<open>\<open>main\<close> up to \<open>vTaskStartScheduler\<close>, and as a whole.\<close>

definition main_to_scheduler ::
  "bool \<Rightarrow> network_addresses \<Rightarrow> nat \<Rightarrow> application \<Rightarrow> application" where
  "main_to_scheduler debug addresses xTimeNow a =
     a\<lparr>app_ulNextRand := prvMiscInitialisation debug xTimeNow, app_addresses := Some addresses\<rparr>"

definition main ::
  "(application \<Rightarrow> application option) \<Rightarrow> bool \<Rightarrow> network_addresses \<Rightarrow> nat \<Rightarrow> application
   \<Rightarrow> application option" where
  "main vTaskStartScheduler debug addresses xTimeNow a = do {
     a' \<leftarrow> vTaskStartScheduler (main_to_scheduler debug addresses xTimeNow a);
     _ \<leftarrow> spin (\<lambda>_. True) 0;
     Some a'
   }"

text \<open>What FreeRTOS+TCP calls of main.c while the scheduler runs.\<close>

datatype ip_call = Network_event eIPCallbackEvent | Random_number | Sequence_number u32 u16 u32 u16

fun ip_calls :: "task_room \<Rightarrow> nat \<Rightarrow> application \<Rightarrow> ip_call \<Rightarrow> application" where
  "ip_calls room demo_stacksize a (Network_event e) =
     a\<lparr>app_hook := vApplicationIPNetworkEventHook (vStartMQTTAgentDemo room demo_stacksize) e (app_hook a)\<rparr>"
| "ip_calls room demo_stacksize a Random_number =
     a\<lparr>app_ulNextRand := snd (snd (xApplicationGetRandomNumber (app_ulNextRand a)))\<rparr>"
| "ip_calls room demo_stacksize a (Sequence_number sa sp da dp) =
     a\<lparr>app_ulNextRand := snd (ulApplicationGetNextSequenceNumber sa sp da dp (app_ulNextRand a))\<rparr>"

section \<open>Loops that do not end\<close>

lemma spin_returns:
  assumes "spin stays i = Some k"
  shows "\<not> stays k"
  by (rule spin.raw_induct [OF _ assms]) (auto split: if_splits)

lemma spin_ends: "\<not> stays (i + d) \<Longrightarrow> spin stays i \<noteq> None"
proof (induction d arbitrary: i)
  case 0
  then show ?case by (subst spin.simps) simp
next
  case (Suc d)
  then have "spin stays (i + 1) \<noteq> None" by simp
  then show ?case by (subst spin.simps) simp
qed

lemma spin_None: "spin stays 0 = None \<longleftrightarrow> (\<forall>i. stays i)"
  using spin_returns [of stays 0] spin_ends [of stays 0] by (cases "spin stays 0") auto

lemma assert_called_None: "vAssertCalled ulBlockVariable = None \<longleftrightarrow> (\<forall>i. ulBlockVariable i = 0)"
  using spin_None [of "\<lambda>i. ulBlockVariable i = 0"]
  by (cases "spin (\<lambda>i. ulBlockVariable i = 0) 0") (simp_all add: vAssertCalled_def)

text \<open>\<open>main\<close> never returns, whether the scheduler runs or not.\<close>

lemma main_never_returns: "main sched debug addresses xTimeNow a = None"
proof -
  have "spin (\<lambda>_. True) 0 = None" by (simp add: spin_None)
  then show ?thesis by (auto simp: main_def split: Option.bind_split)
qed

section \<open>The tasks that are created\<close>

definition connect_manager :: "nat \<Rightarrow> rtos_task" where
  "connect_manager depth = \<lparr>pxTaskCode = Code_ConnectAndCreateDemoTasks, pcName = ''ConnectManager'',
     uxStackDepth = depth, pvParameters = 0, uxPriority = 1\<rparr>"

text \<open>The name of a simple task, of which there is room for nine characters.\<close>

definition simple_name :: "nat \<Rightarrow> string" where
  "simple_name i = ''SubPub'' @ dec_int (sint (of_nat i :: u32))"

definition simple_task :: "nat \<Rightarrow> nat \<Rightarrow> rtos_task" where
  "simple_task depth i = \<lparr>pxTaskCode = Code_SimpleSubscribePublish,
     pcName = take 9 (simple_name i), uxStackDepth = depth,
     pvParameters = of_nat i, uxPriority = 0\<rparr>"

definition other_task :: "task_code \<Rightarrow> string \<Rightarrow> nat \<Rightarrow> nat \<Rightarrow> rtos_task" where
  "other_task code name depth priority = \<lparr>pxTaskCode = code, pcName = name, uxStackDepth = depth,
     pvParameters = 0, uxPriority = priority\<rparr>"

definition early_tasks :: "demo_selection \<Rightarrow> rtos_task list" where
  "early_tasks sel =
     (if democonfigCREATE_LARGE_MESSAGE_SUB_PUB_TASK sel
      then [other_task Code_LargeMessageSubscribePublish ''LargeSubPub''
              (democonfigLARGE_MESSAGE_SUB_PUB_TASK_STACK_SIZE sel) 0] else [])
     @ map (simple_task (democonfigSIMPLE_SUB_PUB_TASK_STACK_SIZE sel))
         [0 ..< unat (democonfigNUM_SIMPLE_SUB_PUB_TASKS_TO_CREATE sel)]"

definition ota_tasks :: "demo_config \<Rightarrow> demo_selection \<Rightarrow> rtos_task list" where
  "ota_tasks cfg sel =
     (if democonfigCREATE_CODE_SIGNING_OTA_DEMO cfg
      then [other_task Code_OTADemo ''OTADemoTask'' (democonfigCODE_SIGNING_OTA_TASK_STACK_SIZE sel) 1]
      else [])"

definition late_tasks :: "demo_selection \<Rightarrow> rtos_task list" where
  "late_tasks sel =
     (if democonfigCREATE_DEFENDER_DEMO sel
      then [other_task Code_Defender ''Defender'' (democonfigDEFENDER_TASK_STACK_SIZE sel) 0] else [])
     @ (if democonfigCREATE_SHADOW_DEMO sel
        then [other_task Code_ShadowDevice ''ShadowDevice'' (democonfigSHADOW_TASK_STACK_SIZE sel) 0,
              other_task Code_ShadowUpdate ''ShadowUpdate'' (democonfigSHADOW_TASK_STACK_SIZE sel) 0]
        else [])"

definition selected_tasks :: "demo_config \<Rightarrow> demo_selection \<Rightarrow> rtos_task list" where
  "selected_tasks cfg sel = early_tasks sel @ ota_tasks cfg sel @ late_tasks sel"

text \<open>Creating tasks one after the other, as far as there is room.\<close>

definition create_all :: "task_room \<Rightarrow> rtos_task list \<Rightarrow> rtos_task list \<Rightarrow> rtos_task list" where
  "create_all room new ts = foldl (\<lambda>ts t. snd (xTaskCreate room t ts)) ts new"

lemma create_all_simps [simp]:
  "create_all room [] ts = ts"
  "create_all room (t # new) ts = create_all room new (snd (xTaskCreate room t ts))"
  "create_all room (new @ new') ts = create_all room new' (create_all room new ts)"
  by (simp_all add: create_all_def)

lemma create_all_subseq:
  obtains made where "create_all room new ts = ts @ made" "subseq made new"
    "(\<forall>us t. room us t) \<longrightarrow> made = new"
proof -
  have "\<exists>made. create_all room new ts = ts @ made \<and> subseq made new
      \<and> ((\<forall>us t. room us t) \<longrightarrow> made = new)"
  proof (induction new arbitrary: ts)
    case (Cons t new)
    then obtain made where made: "create_all room new (snd (xTaskCreate room t ts)) =
        snd (xTaskCreate room t ts) @ made" "subseq made new" "(\<forall>us t. room us t) \<longrightarrow> made = new"
      by blast
    show ?case
    proof (cases "room ts t")
      case True
      with made have "create_all room (t # new) ts = ts @ (t # made) \<and> subseq (t # made) (t # new)
          \<and> ((\<forall>us t. room us t) \<longrightarrow> t # made = t # new)" by (simp add: xTaskCreate_def)
      then show ?thesis by blast
    next
      case False
      with made have "create_all room (t # new) ts = ts @ made \<and> subseq made (t # new)"
        by (simp add: xTaskCreate_def list_emb_Cons)
      with False show ?thesis by blast
    qed
  qed simp
  with that show thesis by blast
qed

lemma name_buffer:
  "snprintf (replicate 15 (CHR 0x00)) 0 10 s =
     Some (if length s < 2 ^ 31 then int (length s) else - 1,
       (take 9 s @ [CHR 0x00]) @ replicate (14 - length (take 9 s)) (CHR 0x00))"
proof -
  have "length (take 9 s) \<le> 9" by simp
  then show ?thesis by (simp add: snprintf_def mem_write_def Let_def)
qed

lemma name_string:
  "takeWhile (\<lambda>c. c \<noteq> CHR 0x00) ((take 9 (simple_name i) @ [CHR 0x00]) @ xs) = take 9 (simple_name i)"
proof -
  have "\<forall>c \<in> set (take 9 (simple_name i)). c \<noteq> CHR 0x00"
    using dec_int_no_nul [of "sint (of_nat i :: u32)"] by (auto simp: simple_name_def dest: in_set_takeD)
  then show ?thesis by simp
qed

lemma simple_start_loop_eq:
  "simple_start_loop room depth tskIDLE_PRIORITY i n ts =
     Some (create_all room (map (simple_task depth) [i ..< i + n]) ts)"
proof (induction n arbitrary: i ts)
  case (Suc n)
  have fmt: "c_format ''SubPub%d'' [Fmt_int (sint (of_nat i :: u32))] = simple_name i"
    by (simp add: simple_name_def format_rules del: c_format.simps(2))
  have step: "simple_start_loop room depth tskIDLE_PRIORITY i (Suc n) ts =
      simple_start_loop room depth tskIDLE_PRIORITY (i + 1) n (snd (xTaskCreate room (simple_task depth i) ts))"
    by (simp only: simple_start_loop.simps Let_def fmt name_buffer Option.bind.bind_lunit
        prod.sel name_string simple_task_def tskIDLE_PRIORITY_def split_def)
  have "[i ..< i + Suc n] = i # [i + 1 ..< (i + 1) + n]" by (simp add: upt_rec)
  then show ?case unfolding step Suc.IH by simp
qed simp

text \<open>Each part of \<open>create_demo_tasks\<close> creates its tasks in turn.\<close>

lemma large_start_eq:
  "(if c then vStartLargeMessageSubscribePublishTask room d tskIDLE_PRIORITY ts else ts) =
     create_all room (if c then [other_task Code_LargeMessageSubscribePublish ''LargeSubPub'' d 0] else []) ts"
  by (simp add: vStartLargeMessageSubscribePublishTask_def other_task_def tskIDLE_PRIORITY_def)

lemma simple_start_eq:
  "(if 0 < n then vStartSimpleSubscribePublishTask room n d tskIDLE_PRIORITY ts else Some ts) =
     Some (create_all room (map (simple_task d) [0 ..< unat n]) ts)"
proof (cases "0 < n")
  case False
  then have "n = 0" by (simp add: word_gt_0)
  then show ?thesis by simp
qed (simp add: vStartSimpleSubscribePublishTask_def simple_start_loop_eq)

lemma ota_start_eq:
  "(if democonfigCREATE_CODE_SIGNING_OTA_DEMO cfg
    then vStartOTACodeSigningDemo room (democonfigCODE_SIGNING_OTA_TASK_STACK_SIZE sel)
      (tskIDLE_PRIORITY + 1) ts else Some ts) =
   (if democonfigCREATE_CODE_SIGNING_OTA_DEMO cfg \<and> create_all room (ota_tasks cfg sel) ts = ts then None
    else Some (create_all room (ota_tasks cfg sel) ts))"
  by (simp add: vStartOTACodeSigningDemo_def ota_tasks_def other_task_def tskIDLE_PRIORITY_def xTaskCreate_def)

lemma defender_start_eq:
  "(if c then vStartDefenderDemo room d tskIDLE_PRIORITY ts else ts) =
     create_all room (if c then [other_task Code_Defender ''Defender'' d 0] else []) ts"
  by (simp add: vStartDefenderDemo_def other_task_def tskIDLE_PRIORITY_def)

lemma shadow_start_eq:
  "(if c then vStartShadowDemo room d tskIDLE_PRIORITY ts else ts) =
     create_all room (if c then [other_task Code_ShadowDevice ''ShadowDevice'' d 0,
       other_task Code_ShadowUpdate ''ShadowUpdate'' d 0] else []) ts"
  by (simp add: vStartShadowDemo_def shadowexampleENABLE_UPDATE_TASK_def other_task_def tskIDLE_PRIORITY_def)

lemma bind_unless: "Option.bind (if c then None else Some x) f = (if c then None else f x)"
  by simp

lemma create_demo_tasks_eq:
  "create_demo_tasks room cfg sel ts =
     (let ts2 = create_all room (early_tasks sel) ts;
          ts3 = create_all room (ota_tasks cfg sel) ts2
      in if democonfigCREATE_CODE_SIGNING_OTA_DEMO cfg \<and> ts3 = ts2 then None
         else Some (create_all room (late_tasks sel) ts3))"
  unfolding create_demo_tasks_def large_start_eq simple_start_eq ota_start_eq defender_start_eq
    shadow_start_eq early_tasks_def late_tasks_def create_all_simps(3) Let_def Option.bind.bind_lunit
  by (simp only: bind_unless)

text \<open>However the calls of FreeRTOS+TCP are interleaved, the hook sees the events among them.\<close>

definition network_events :: "ip_call list \<Rightarrow> eIPCallbackEvent list" where
  "network_events cs = concat (map (\<lambda>c. case c of Network_event e \<Rightarrow> [e] | _ \<Rightarrow> []) cs)"

lemma ip_calls_hook:
  "app_hook (foldl (ip_calls room depth) a cs) =
     foldl (\<lambda>s e. vApplicationIPNetworkEventHook (vStartMQTTAgentDemo room depth) e s) (app_hook a)
       (network_events cs)"
proof (induction cs arbitrary: a)
  case (Cons c cs)
  then show ?case by (cases c) (simp_all add: network_events_def)
qed (simp add: network_events_def)

lemma network_events_up: "eNetworkUp \<in> set (network_events cs) \<longleftrightarrow> Network_event eNetworkUp \<in> set cs"
  by (force simp: network_events_def split: ip_call.splits)

lemma tasks_after_main:
  assumes "\<forall>us t. room us t"
  shows "hook_kernel (app_hook (foldl (ip_calls room depth)
      (main_to_scheduler debug addresses xTimeNow application_init) cs)) =
    (if Network_event eNetworkUp \<in> set cs then [connect_manager depth] else [])"
  using assms
  by (simp add: ip_calls_hook main_to_scheduler_def application_init_def hook_events network_events_up
      vStartMQTTAgentDemo_def xTaskCreate_def connect_manager_def tskIDLE_PRIORITY_def)

lemma created_all:
  assumes "\<forall>us t. room us t"
  shows "create_demo_tasks room cfg sel ts = Some (ts @ selected_tasks cfg sel)"
proof -
  have all: "create_all room new us = us @ new" for new us
    by (rule create_all_subseq [of room new us]) (use assms in simp)
  show ?thesis
  proof (cases "democonfigCREATE_CODE_SIGNING_OTA_DEMO cfg")
    case True
    then have "ota_tasks cfg sel \<noteq> []" by (simp add: ota_tasks_def)
    then show ?thesis by (simp add: create_demo_tasks_eq all selected_tasks_def Let_def)
  next
    case False
    then show ?thesis by (simp add: create_demo_tasks_eq all selected_tasks_def Let_def)
  qed
qed

text \<open>Three digits: the names of the simple tasks.\<close>

lemma dec_inj: "dec m = dec n \<Longrightarrow> m = n"
  by (metis digits_value_dec)

lemma simple_name_eq: "i < 2 ^ 31 \<Longrightarrow> simple_name i = ''SubPub'' @ dec i"
proof -
  assume i: "i < 2 ^ 31"
  then have "unat (of_nat i :: u32) = i" by (intro unat_of_nat32) simp
  with i have "sint (of_nat i :: u32) = int i" by (simp add: sint_small)
  then show ?thesis by (simp add: simple_name_def dec_int_def)
qed

lemma simple_pcName: "i < 1000 \<Longrightarrow> pcName (simple_task depth i) = ''SubPub'' @ dec i"
proof -
  assume i: "i < 1000"
  then have "length (dec i) \<le> 3" by (intro length_dec_le) simp_all
  with i show ?thesis by (simp add: simple_task_def simple_name_eq)
qed

lemma thousandth_name: "pcName (simple_task depth 1000) = pcName (simple_task depth 100)"
proof -
  have "dec 1000 = ''1000''" "dec 100 = ''100''" by code_simp+
  then show ?thesis by (simp add: simple_task_def simple_name_eq)
qed

lemma simple_names_distinct:
  "distinct (map (\<lambda>i. pcName (simple_task depth i)) [0 ..< n]) \<longleftrightarrow> n \<le> 1000"
proof
  assume distinct: "distinct (map (\<lambda>i. pcName (simple_task depth i)) [0 ..< n])"
  show "n \<le> 1000"
  proof (rule ccontr)
    assume "\<not> n \<le> 1000"
    then have "100 \<in> {0 ..< n}" "1000 \<in> {0 ..< n}" by simp_all
    moreover have "inj_on (\<lambda>i. pcName (simple_task depth i)) {0 ..< n}"
      using distinct by (simp add: distinct_map)
    ultimately have "(1000 :: nat) = 100" using thousandth_name [of depth] by (metis inj_onD)
    then show False by simp
  qed
next
  assume "n \<le> 1000"
  then show "distinct (map (\<lambda>i. pcName (simple_task depth i)) [0 ..< n])"
    by (auto simp: distinct_map inj_on_def simple_pcName dest: dec_inj)
qed

section \<open>Properties\<close>

text \<open>
  C22. The demos run once, all that are selected.  When the kernel has memory for every task, the
  tasks that exist once the connection task has created the demo tasks are that task itself and
  the selected ones in their order, each once, however often the network has gone down and come
  back and whatever else FreeRTOS+TCP has called.
\<close>

theorem application_tasks:
  assumes "\<forall>us t. room us t" and "Network_event eNetworkUp \<in> set cs"
  shows "create_demo_tasks room cfg sel
      (hook_kernel (app_hook (foldl (ip_calls room depth)
        (main_to_scheduler debug addresses xTimeNow application_init) cs))) =
    Some (connect_manager depth # selected_tasks cfg sel)"
  using assms by (simp add: tasks_after_main created_all)

text \<open>The settings of demo_config.h.\<close>

definition demo_selection_default :: demo_selection where
  "demo_selection_default = \<lparr>democonfigDEMO_STACKSIZE = 500,
     democonfigCREATE_LARGE_MESSAGE_SUB_PUB_TASK = False,
     democonfigLARGE_MESSAGE_SUB_PUB_TASK_STACK_SIZE = 500,
     democonfigNUM_SIMPLE_SUB_PUB_TASKS_TO_CREATE = 1, democonfigSIMPLE_SUB_PUB_TASK_STACK_SIZE = 500,
     democonfigCODE_SIGNING_OTA_TASK_STACK_SIZE = 500, democonfigCREATE_DEFENDER_DEMO = False,
     democonfigDEFENDER_TASK_STACK_SIZE = 500, democonfigCREATE_SHADOW_DEMO = False,
     democonfigSHADOW_TASK_STACK_SIZE = 500\<rparr>"

theorem application_tasks_witness:
  "map pcName (the (create_demo_tasks (\<lambda>_ _. True)
      (demo_settings\<lparr>democonfigCREATE_CODE_SIGNING_OTA_DEMO := True\<rparr>)
      (demo_selection_default\<lparr>democonfigCREATE_SHADOW_DEMO := True\<rparr>)
      (hook_kernel (app_hook (foldl (ip_calls (\<lambda>_ _. True) 500)
        (main_to_scheduler True
          \<lparr>ucIPAddress = [10, 0, 2, 15], ucNetMask = [255, 255, 255, 0],
           ucGatewayAddress = [10, 0, 2, 2], ucDNSServerAddress = [8, 8, 8, 8],
           ucMACAddress = [0, 0x11, 0x22, 0x33, 0x44, 0x55]\<rparr> 1700000000 application_init)
        [Random_number, Network_event eNetworkUp, Network_event eNetworkDown, Network_event eNetworkUp]))))) =
   [''ConnectManager'', ''SubPub0'', ''OTADemoTask'', ''ShadowDevice'', ''ShadowUpdate'']"
proof -
  have "map (pcName \<circ> simple_task d) [0 ..< 1] = [''SubPub0'']" for d
  proof -
    have "dec 0 = ''0''" by code_simp
    then show ?thesis by (simp add: simple_pcName)
  qed
  then show ?thesis
    by (subst application_tasks)
      (simp_all add: selected_tasks_def early_tasks_def ota_tasks_def late_tasks_def connect_manager_def
        demo_selection_default_def other_task_def)
qed

text \<open>
  C23. What the lack of memory does.  The connection task stops at an assertion exactly if the
  OTA task is selected and cannot be created.  Otherwise it goes on with whatever could be
  created: the new tasks are among the selected ones, in their order.
\<close>

theorem missing_task_detected_iff_ota:
  "case create_demo_tasks room cfg sel ts of
     None \<Rightarrow> democonfigCREATE_CODE_SIGNING_OTA_DEMO cfg
       \<and> create_all room (early_tasks sel @ ota_tasks cfg sel) ts = create_all room (early_tasks sel) ts
   | Some ts' \<Rightarrow> \<exists>made. ts' = ts @ made \<and> subseq made (selected_tasks cfg sel)
       \<and> (set (ota_tasks cfg sel) \<subseteq> set made)"
proof -
  obtain m1 where m1: "create_all room (early_tasks sel) ts = ts @ m1" "subseq m1 (early_tasks sel)"
    by (rule create_all_subseq)
  obtain m2 where m2: "create_all room (ota_tasks cfg sel) (ts @ m1) = (ts @ m1) @ m2"
    "subseq m2 (ota_tasks cfg sel)" by (rule create_all_subseq)
  obtain m3 where m3: "create_all room (late_tasks sel) (ts @ m1 @ m2) = (ts @ m1 @ m2) @ m3"
    "subseq m3 (late_tasks sel)" by (rule create_all_subseq)
  show ?thesis
  proof (cases "democonfigCREATE_CODE_SIGNING_OTA_DEMO cfg \<and> m2 = []")
    case True
    with m1 m2 show ?thesis by (simp add: create_demo_tasks_eq Let_def)
  next
    case False
    then have create: "create_demo_tasks room cfg sel ts = Some (ts @ m1 @ m2 @ m3)"
      using m1 m2 m3 by (simp add: create_demo_tasks_eq Let_def)
    have "set (ota_tasks cfg sel) \<subseteq> set m2"
      using False m2(2) by (cases m2) (auto simp: ota_tasks_def list_emb_Nil2 split: if_splits)
    moreover have "subseq (m1 @ m2 @ m3) (selected_tasks cfg sel)"
      unfolding selected_tasks_def using m1 m2 m3 by (intro list_emb_append_mono)
    ultimately show ?thesis unfolding create by auto
  qed
qed

text \<open>
  A failed assertion stops the caller.  The assertion function returns exactly if something
  outside the program changes its variable, so that \<open>configASSERT\<close> is what this development
  takes it to be: no statement behind a failed one is executed.
\<close>

theorem failed_assert_never_returns:
  "configASSERT b = (if b then Some () else vAssertCalled (\<lambda>_. 0))
   \<and> (vAssertCalled ulBlockVariable = None \<longleftrightarrow> (\<forall>i. ulBlockVariable i = 0))"
proof -
  have stops: "vAssertCalled (\<lambda>_. 0) = None" by (simp add: assert_called_None)
  have "configASSERT b = (if b then Some () else vAssertCalled (\<lambda>_. 0))"
    unfolding stops by (simp add: configASSERT_def)
  then show ?thesis by (simp only: assert_called_None simp_thms)
qed

text \<open>
  C40. The names of the simple tasks are their own exactly as long as there are at most a
  thousand of them: the buffer cuts the number to three digits.
\<close>

theorem simple_task_names_distinct:
  "\<exists>ts. vStartSimpleSubscribePublishTask (\<lambda>_ _. True) n depth tskIDLE_PRIORITY [] = Some ts
    \<and> map pvParameters ts = map of_nat [0 ..< unat n]
    \<and> (distinct (map pcName ts) \<longleftrightarrow> unat n \<le> 1000)"
proof -
  have "create_all (\<lambda>_ _. True) new [] = new" for new
    by (rule create_all_subseq [of "\<lambda>_ _. True" new "[]"]) simp
  then show ?thesis
    by (simp add: vStartSimpleSubscribePublishTask_def simple_start_loop_eq comp_def simple_names_distinct)
      (simp add: simple_task_def)
qed

end
