(* ===== verification/Log_Text.thy ===== *)
theory Log_Text
  imports Prelude
begin

text \<open>
  The rewriting of IP addresses in the log messages of FreeRTOS+TCP, which
  \<open>vTCPLoggingPrintf\<close> of both build targets does (logging_output_qemu.c and
  logging_output_windows.c): a hexadecimal number that is followed by \<open>ip\<close> becomes a dotted
  quad.

  The loop writes into the output buffer, and looks for the first digit of the number in what
  it has written.  \<open>expand_loop\<close> is that loop on the buffer; \<open>ips\<close> says what it does to the
  text, without a buffer.
\<close>

section \<open>Hexadecimal numbers and dotted quads\<close>

definition char_code :: "char \<Rightarrow> nat" where
  "char_code c = of_char c"

definition isxdigit :: "char \<Rightarrow> bool" where
  "isxdigit c \<longleftrightarrow> (48 \<le> char_code c \<and> char_code c \<le> 57) \<or> (65 \<le> char_code c \<and> char_code c \<le> 70)
     \<or> (97 \<le> char_code c \<and> char_code c \<le> 102)"

definition xdigit_val :: "char \<Rightarrow> nat" where
  "xdigit_val c = (if char_code c \<le> 57 then char_code c - 48
     else if char_code c \<le> 70 then char_code c - 55 else char_code c - 87)"

definition hex_value :: "string \<Rightarrow> u32" where
  "hex_value ds = foldl (\<lambda>v c. 16 * v + of_nat (xdigit_val c)) 0 ds"

text \<open>\<open>sscanf (s, "%8X", ..)\<close> on a text that starts with a hexadecimal digit.\<close>

definition sscanf_8X :: "string \<Rightarrow> u32" where
  "sscanf_8X s = hex_value (takeWhile isxdigit (take 8 s))"

definition dotted :: "u32 \<Rightarrow> string" where
  "dotted a = c_format ''%lu.%lu.%lu.%lu''
     [Fmt_uint (unat (drop_bit 24 a)), Fmt_uint (unat (and (drop_bit 16 a) 0xff)),
      Fmt_uint (unat (and (drop_bit 8 a) 0xff)), Fmt_uint (unat (and a 0xff))]"

definition ip_mark :: "string \<Rightarrow> bool" where
  "ip_mark s = (case s of
      a # b # c # _ \<Rightarrow> isxdigit a \<and> b = CHR ''i'' \<and> c = CHR ''p''
    | _ \<Rightarrow> False)"

section \<open>The loop\<close>

text \<open>
  The inner loop goes back over at most \<open>n\<close> digits in front of index \<open>t\<close>; at index 0 it reads
  in front of the buffer.
\<close>

fun scan_back :: "string \<Rightarrow> nat \<Rightarrow> nat \<Rightarrow> nat option" where
  "scan_back out t 0 = Some t"
| "scan_back out t (Suc n) =
     (case t of
        0 \<Rightarrow> None
      | Suc t' \<Rightarrow> do { c \<leftarrow> arr_get out t'; if isxdigit c then scan_back out t' n else Some t })"

text \<open>\<open>pcSource\<close> is the rest of the source string, \<open>pcTarget\<close> an index into \<open>out\<close>.\<close>

function expand_loop :: "string \<Rightarrow> string \<Rightarrow> nat \<Rightarrow> (string \<times> nat) option" where
  "expand_loop [] out pcTarget = Some (out, pcTarget)"
| "expand_loop (c # pcSource) out pcTarget = do {
     out1 \<leftarrow> arr_set out pcTarget c;
     if ip_mark pcSource
     then do {
       out2 \<leftarrow> arr_set out1 (pcTarget + 1) (hd pcSource);
       out3 \<leftarrow> arr_set out2 (pcTarget + 2) (CHR 0x00);
       t \<leftarrow> scan_back out3 (pcTarget + 2) 8;
       let quad = dotted (sscanf_8X (drop t out3));
       out4 \<leftarrow> mem_write out3 t (quad @ [CHR 0x00]);
       expand_loop (drop 3 pcSource) out4 (t + length quad)
     }
     else expand_loop pcSource out1 (pcTarget + 1)
   }"
  by pat_completeness auto
termination
  by (relation "measure (\<lambda>(src, out, t). length src)") auto

section \<open>What the loop does to the text\<close>

text \<open>The digits at the end of \<open>w\<close>, at most eight.\<close>

definition hex_tail :: "string \<Rightarrow> nat" where
  "hex_tail w = length (takeWhile isxdigit (take 8 (rev w)))"

text \<open>\<open>sofar\<close> is the text written; \<open>None\<close> when fewer than eight digits begin the text.\<close>

function ips :: "string \<Rightarrow> string \<Rightarrow> string option" where
  "ips sofar [] = Some sofar"
| "ips sofar (c # src) =
     (if ip_mark src
      then let w = sofar @ [c, hd src];
               k = hex_tail w
           in if k = length w \<and> k < 8 then None
              else ips (take (length w - k) w @ dotted (hex_value (drop (length w - k) w)))
                       (drop 3 src)
      else ips (sofar @ [c]) src)"
  by pat_completeness auto
termination
  by (relation "measure (\<lambda>(sofar, src). length src)") (auto simp: ip_mark_def split: list.splits)

lemma hex_tail_le: "hex_tail w \<le> length w" "hex_tail w \<le> 8"
  using length_takeWhile_le [of isxdigit "take 8 (rev w)"] by (simp_all add: hex_tail_def)

lemma scan_back_takeWhile:
  "t \<le> length out \<Longrightarrow>
   scan_back out t n =
     (let k = length (takeWhile isxdigit (take n (rev (take t out)))) in
      if k = t \<and> k < n then None else Some (t - k))"
proof (induction n arbitrary: t)
  case 0
  then show ?case by simp
next
  case (Suc n)
  show ?case
  proof (cases t)
    case 0
    then show ?thesis by simp
  next
    case (Suc t')
    with Suc.prems have "rev (take t out) = out ! t' # rev (take t' out)"
      by (simp add: take_Suc_conv_app_nth)
    moreover have "t' < n \<Longrightarrow> take n (rev (take t' out)) = rev (take t' out)" by simp
    ultimately show ?thesis
      using Suc Suc.prems Suc.IH [of t'] by (cases "t' < n") (auto simp: Let_def)
  qed
qed

lemma xdigits_hex_tail:
  "\<forall>c \<in> set (drop (length w - hex_tail w) w). isxdigit c"
proof -
  have "drop (length w - hex_tail w) w = rev (takeWhile isxdigit (take 8 (rev w)))"
    using takeWhile_eq_take [of isxdigit "take 8 (rev w)"] hex_tail_le [of w]
    by (simp add: hex_tail_def [symmetric] rev_take min_def)
  then show ?thesis by (auto dest: set_takeWhileD)
qed

lemma not_xdigit_NUL [simp]: "\<not> isxdigit (CHR 0x00)"
  by (simp add: isxdigit_def char_code_def)

lemma sscanf_tail:
  assumes "\<forall>c \<in> set ds. isxdigit c" and "length ds \<le> 8"
  shows "sscanf_8X (ds @ CHR 0x00 # rest) = hex_value ds"
proof -
  have "take 8 (ds @ CHR 0x00 # rest) = ds @ take (8 - length ds) (CHR 0x00 # rest)"
    using assms(2) by simp
  moreover have "takeWhile isxdigit (take (8 - length ds) (CHR 0x00 # rest)) = []"
    by (cases "8 - length ds") simp_all
  ultimately show ?thesis using assms(1) by (simp add: sscanf_8X_def takeWhile_append2)
qed

section \<open>The loop implements it\<close>

lemma marked_buffer:
  assumes "t + 2 < length out"
  shows "out[t := c, t + 1 := d, t + 2 := e] = take t out @ [c, d, e] @ drop (t + 3) out"
proof (rule nth_equalityI)
  show "length (out[t := c, t + 1 := d, t + 2 := e]) = length (take t out @ [c, d, e] @ drop (t + 3) out)"
    using assms by simp
next
  fix i
  assume "i < length (out[t := c, t + 1 := d, t + 2 := e])"
  then consider "i < t" | "i = t" | "i = t + 1" | "i = t + 2" | j where "i = t + 3 + j" "i < length out"
    by (metis add_2_eq_Suc' add_Suc_right le_Suc_ex length_list_update linorder_less_linear
        numeral_3_eq_3 Suc_eq_plus1 not_less_eq less_Suc_eq add.commute plus_nat.add_0
        not_less less_antisym)
  then show "out[t := c, t + 1 := d, t + 2 := e] ! i = (take t out @ [c, d, e] @ drop (t + 3) out) ! i"
    using assms by cases (auto simp: nth_append nth_Cons')
qed

lemma mark_step:
  assumes "ip_mark src" and "t + 2 < length out"
  shows "expand_loop (c # src) out t =
    (let w = take t out @ [c, hd src]; k = hex_tail w; i = length w - k;
         q = dotted (hex_value (drop i w))
     in if k = length w \<and> k < 8 \<or> length out < i + length q + 1 then None
        else expand_loop (drop 3 src)
          (take i w @ q @ CHR 0x00 # drop (i + length q + 1) (w @ CHR 0x00 # drop (t + 3) out))
          (i + length q))"
proof -
  define w where "w = take t out @ [c, hd src]"
  define rest where "rest = CHR 0x00 # drop (t + 3) out"
  let ?k = "hex_tail w" and ?q = "\<lambda>i. dotted (hex_value (drop i w))"
  have lw: "length w = t + 2" and l3: "length (w @ rest) = length out"
    using assms(2) by (simp_all add: w_def rest_def)
  have o3: "out[t := c, t + 1 := hd src, t + 2 := CHR 0x00] = w @ rest"
    using marked_buffer [OF assms(2)] by (simp add: w_def rest_def)
  have sb: "scan_back (w @ rest) (t + 2) 8 =
      (if ?k = length w \<and> ?k < 8 then None else Some (length w - ?k))"
  proof -
    have "take (t + 2) (w @ rest) = w" using lw by simp
    moreover have "t + 2 \<le> length (w @ rest)" using l3 assms(2) by simp
    ultimately show ?thesis
      using scan_back_takeWhile [of "t + 2" "w @ rest" 8] by (simp only: hex_tail_def Let_def lw)
  qed
  have run: "expand_loop (c # src) out t = do {
      i \<leftarrow> scan_back (w @ rest) (t + 2) 8;
      let quad = dotted (sscanf_8X (drop i (w @ rest)));
      out4 \<leftarrow> mem_write (w @ rest) i (quad @ [CHR 0x00]);
      expand_loop (drop 3 src) out4 (i + length quad)
    }"
    using assms o3 by (simp only: expand_loop.simps) simp
  have goal: ?thesis if "\<And>i q. i = length w - ?k \<Longrightarrow> q = ?q i \<Longrightarrow> \<not> (?k = length w \<and> ?k < 8) \<Longrightarrow>
      expand_loop (c # src) out t = (if length out < i + length q + 1 then None
        else expand_loop (drop 3 src) (take i w @ q @ CHR 0x00 # drop (i + length q + 1) (w @ rest))
          (i + length q))"
    using run sb that by (cases "?k = length w \<and> ?k < 8") (auto simp: Let_def w_def rest_def)
  show ?thesis
  proof (rule goal)
    fix i q
    assume i: "i = length w - ?k" and q: "q = ?q i" and k: "\<not> (?k = length w \<and> ?k < 8)"
    then have iw: "i \<le> length w" "length w - i \<le> 8" using hex_tail_le [of w] by simp_all
    have "sscanf_8X (drop i w @ rest) = hex_value (drop i w)"
      unfolding rest_def
      by (rule sscanf_tail) (use xdigits_hex_tail [of w] iw i in auto)
    then have sc: "sscanf_8X (drop i (w @ rest)) = hex_value (drop i w)" using iw(1) by simp
    have tk: "take i (w @ rest) = take i w" using iw(1) by simp
    have "scan_back (w @ rest) (t + 2) 8 = Some i" unfolding sb i using k by simp
    then have "expand_loop (c # src) out t = do {
        out4 \<leftarrow> mem_write (w @ rest) i (q @ [CHR 0x00]);
        expand_loop (drop 3 src) out4 (i + length q) }"
      by (simp only: run bind.bind_lunit Let_def sc q)
    then show "expand_loop (c # src) out t = (if length out < i + length q + 1 then None
        else expand_loop (drop 3 src) (take i w @ q @ CHR 0x00 # drop (i + length q + 1) (w @ rest))
          (i + length q))"
      unfolding mem_write_def l3 tk by simp
  qed
qed

lemma mark_short: "ip_mark src \<Longrightarrow> length out \<le> t + 2 \<Longrightarrow> expand_loop (c # src) out t = None"
  by (simp add: arr_set_def)

lemma ip_mark_length: "ip_mark src \<Longrightarrow> 3 \<le> length src"
  by (auto simp: ip_mark_def split: list.splits)

lemma hex_tail_mark: "ip_mark src \<Longrightarrow> 0 < hex_tail (sofar @ [c, hd src])"
  by (auto simp: ip_mark_def hex_tail_def split: list.splits)

text \<open>What the loop writes is what \<open>ips\<close> says, and it stays inside the buffer.\<close>

lemma expand_refines:
  "t \<le> length out \<Longrightarrow> expand_loop src out t = Some (out', t') \<Longrightarrow>
   ips (take t out) src = Some (take t' out') \<and> length out' = length out \<and> t' \<le> length out"
proof (induction src arbitrary: out t rule: measure_induct_rule [where f = length])
  case (less src)
  show ?case
  proof (cases src)
    case Nil
    with less.prems show ?thesis by simp
  next
    case (Cons c src')
    show ?thesis
    proof (cases "ip_mark src'")
      case False
      with less.prems Cons have t: "t < length out"
        "expand_loop src' (out[t := c]) (t + 1) = Some (out', t')"
        by (auto simp: arr_set_def split: if_splits)
      with less.IH [of src' "t + 1" "out[t := c]"] Cons False show ?thesis
        by (simp add: take_Suc_conv_app_nth)
    next
      case True
      with less.prems Cons mark_short [OF True, of out t c] have t: "t + 2 < length out"
        by (metis not_le option.distinct(1))
      define w where "w = take t out @ [c, hd src']"
      define i where "i = length w - hex_tail w"
      define q where "q = dotted (hex_value (drop i w))"
      let ?out = "take i w @ q @ CHR 0x00 # drop (i + length q + 1) (w @ CHR 0x00 # drop (t + 3) out)"
      have lw: "length w = t + 2" using t by (simp add: w_def)
      have iw: "i \<le> length w" by (simp add: i_def)
      from less.prems(2) Cons mark_step [OF True t, of c]
      have n: "\<not> (hex_tail w = length w \<and> hex_tail w < 8)" "i + length q + 1 \<le> length out"
        "expand_loop (drop 3 src') ?out (i + length q) = Some (out', t')"
        by (auto simp: Let_def w_def [symmetric] i_def [symmetric] q_def [symmetric] split: if_splits)
      have lo: "length ?out = length out" using iw lw t n(2) by simp
      have "length (drop 3 src') < length src" using Cons by simp
      from less.IH [OF this _ n(3)] lo n(2) iw
      have ih: "ips (take i w @ q) (drop 3 src') = Some (take t' out')" "length out' = length out"
        "t' \<le> length out" by simp_all
      have "ips (take t out) src = ips (take i w @ q) (drop 3 src')"
        using Cons True n(1)
        by (auto simp: Let_def w_def [symmetric] i_def [symmetric] q_def [symmetric])
      with ih show ?thesis by simp
    qed
  qed
qed

lemma length_dec_byte: "n < 256 \<Longrightarrow> length (dec n) \<le> 3"
  by (rule length_dec_le) simp_all

lemma dotted_eq:
  "dotted a = dec (unat (drop_bit 24 a)) @ ''.'' @ dec (unat (and (drop_bit 16 a) 0xff)) @ ''.''
     @ dec (unat (and (drop_bit 8 a) 0xff)) @ ''.'' @ dec (unat (and a 0xff))"
  unfolding dotted_def by (simp add: format_rules del: c_format.simps(2))

lemma length_dotted: "length (dotted a) \<le> 15"
proof -
  have b: "unat (and x 0xff) < 256" for x :: u32
  proof -
    have "and x 0xff = take_bit 8 x" by (simp add: take_bit_eq_mask mask_eq_exp_minus_1)
    moreover have "unat (take_bit 8 x) = take_bit 8 (unat x)" by (rule unsigned_take_bit_eq)
    ultimately show ?thesis using take_bit_nat_less_exp [of 8 "unat x"] by simp
  qed
  have "unat a div 2 ^ 24 < 256" using unsigned_less [of a, where 'a = nat] by (simp add: less_mult_imp_div_less)
  moreover have "unat (drop_bit 24 a) = drop_bit 24 (unat a)" by (rule unat_drop_bit_eq)
  ultimately have "length (dec (unat (drop_bit 24 a))) \<le> 3"
    using length_dec_byte by (simp add: drop_bit_eq_div [where 'a = nat])
  with length_dec_byte [OF b [of "drop_bit 16 a"]] length_dec_byte [OF b [of "drop_bit 8 a"]]
    length_dec_byte [OF b [of a]] show ?thesis
    by (simp add: dotted_eq)
qed

text \<open>
  A character of the source becomes at most four of the output, so that a buffer of four times
  the length of the message is enough; the loop then only fails in front of the buffer.
\<close>

lemma expand_fits:
  "t + 4 * length src < length out \<Longrightarrow> ips (take t out) src \<noteq> None \<Longrightarrow>
   expand_loop src out t \<noteq> None"
proof (induction src arbitrary: out t rule: measure_induct_rule [where f = length])
  case (less src)
  show ?case
  proof (cases src)
    case Nil
    then show ?thesis by simp
  next
    case (Cons c src')
    show ?thesis
    proof (cases "ip_mark src'")
      case False
      have "ips (take (t + 1) (out[t := c])) src' \<noteq> None"
        using less.prems Cons False by (simp add: take_Suc_conv_app_nth)
      with less.IH [of src' "t + 1" "out[t := c]"] less.prems(1) Cons False show ?thesis by simp
    next
      case True
      have t: "t + 2 < length out" using less.prems(1) Cons ip_mark_length [OF True] by simp
      define w where "w = take t out @ [c, hd src']"
      define i where "i = length w - hex_tail w"
      define q where "q = dotted (hex_value (drop i w))"
      let ?out = "take i w @ q @ CHR 0x00 # drop (i + length q + 1) (w @ CHR 0x00 # drop (t + 3) out)"
      have lw: "length w = t + 2" using t by (simp add: w_def)
      have iw: "i \<le> t + 1" using lw hex_tail_mark [OF True, of "take t out" c] by (simp add: i_def w_def)
      have lq: "length q \<le> 15" by (simp add: q_def length_dotted)
      have fits: "i + length q + 1 \<le> length out"
        using iw lq less.prems(1) Cons ip_mark_length [OF True] by simp
      have n: "\<not> (hex_tail w = length w \<and> hex_tail w < 8)"
        "ips (take i w @ q) (drop 3 src') \<noteq> None"
        using less.prems(2) Cons True
        by (simp_all add: Let_def w_def [symmetric] i_def [symmetric] q_def [symmetric] split: if_splits)
      have lo: "length ?out = length out" using iw lw t fits by simp
      have tk: "take (i + length q) ?out = take i w @ q" using iw lw by simp
      have room: "(i + length q) + 4 * length (drop 3 src') < length ?out"
        using iw lq less.prems(1) Cons ip_mark_length [OF True] lo by simp
      have "length (drop 3 src') < length src" using Cons by simp
      from less.IH [OF this room] n(2) tk have "expand_loop (drop 3 src') ?out (i + length q) \<noteq> None"
        by simp
      then show ?thesis
        using Cons mark_step [OF True t, of c] n(1) fits
        by (simp add: Let_def w_def [symmetric] i_def [symmetric] q_def [symmetric] del: expand_loop.simps)
    qed
  qed
qed

section \<open>Texts without and with an address\<close>

definition no_ip :: "string \<Rightarrow> bool" where
  "no_ip s \<longleftrightarrow> (\<forall>u v. s \<noteq> u @ ''ip'' @ v)"

lemma no_ip_tl: "no_ip (c # s) \<Longrightarrow> no_ip s"
  unfolding no_ip_def by (metis append_Cons)

lemma no_ip_mark: "no_ip src \<Longrightarrow> \<not> ip_mark src"
  unfolding no_ip_def ip_mark_def
  by (auto split: list.splits) (metis append_Cons append_Nil)

lemma ips_plain: "no_ip src \<Longrightarrow> ips sofar src = Some (sofar @ src)"
proof (induction src arbitrary: sofar)
  case (Cons c src)
  then have "no_ip src" "\<not> ip_mark src" using no_ip_tl no_ip_mark by blast+
  with Cons.IH show ?case by simp
qed simp

lemma no_ip_nth: "no_ip s \<longleftrightarrow> (\<forall>i. Suc i < length s \<longrightarrow> \<not> (s ! i = CHR ''i'' \<and> s ! Suc i = CHR ''p''))"
proof
  assume n: "no_ip s"
  show "\<forall>i. Suc i < length s \<longrightarrow> \<not> (s ! i = CHR ''i'' \<and> s ! Suc i = CHR ''p'')"
  proof (intro allI impI notI)
    fix i
    assume i: "Suc i < length s" and "s ! i = CHR ''i'' \<and> s ! Suc i = CHR ''p''"
    moreover from i have "s = take i s @ s ! i # s ! Suc i # drop (Suc (Suc i)) s"
      by (simp add: Cons_nth_drop_Suc)
    ultimately show False using n by (metis no_ip_def append_Cons append_Nil)
  qed
next
  assume n: "\<forall>i. Suc i < length s \<longrightarrow> \<not> (s ! i = CHR ''i'' \<and> s ! Suc i = CHR ''p'')"
  show "no_ip s"
    unfolding no_ip_def
  proof (intro allI notI)
    fix u v
    assume "s = u @ ''ip'' @ v"
    with n [rule_format, of "length u"] show False by (simp add: nth_append)
  qed
qed

lemma no_ip_digits:
  assumes "no_ip pre" and "\<forall>c \<in> set ds. isxdigit c"
  shows "no_ip (pre @ ds)"
  unfolding no_ip_nth
proof (intro allI impI notI)
  fix i
  let ?s = "pre @ ds"
  assume i: "Suc i < length ?s" and ip: "?s ! i = CHR ''i'' \<and> ?s ! Suc i = CHR ''p''"
  have x: "\<not> isxdigit (CHR ''i'')" "\<not> isxdigit (CHR ''p'')"
    by (simp_all add: isxdigit_def char_code_def)
  show False
  proof (cases "Suc i < length pre")
    case True
    with assms(1) ip show False by (auto simp: no_ip_nth nth_append)
  next
    case False
    then have "?s ! Suc i \<in> set ds" using i by (simp add: nth_append)
    with assms(2) ip x show False by auto
  qed
qed

lemma not_marked:
  assumes "no_ip (v @ [c, d])" and "d \<noteq> CHR ''i''"
  shows "\<not> ip_mark (v @ c # d # rest)"
proof
  assume m: "ip_mark (v @ c # d # rest)"
  then obtain a w where "v @ c # d # rest = a # ''ip'' @ w"
    by (auto simp: ip_mark_def split: list.splits)
  then consider "v = []" "d = CHR ''i''" | "v = [a]" "c = CHR ''i''" "d = CHR ''p''"
    | v' where "v = a # CHR ''i'' # v'" "v' @ c # d # rest = CHR ''p'' # w"
    by (cases v; cases "tl v") auto
  then show False
  proof cases
    case 1
    with assms(2) show False by simp
  next
    case 2
    with assms(1) have "no_ip (a # ''ip'')" by simp
    then show False unfolding no_ip_def by (metis append_Cons append_Nil append_Nil2)
  next
    case (3 v')
    then have "\<exists>y. v' @ [c] = CHR ''p'' # y" by (cases v') auto
    then obtain y where "v @ [c, d] = [a] @ ''ip'' @ y @ [d]" using 3(1) by auto
    with assms(1) show False unfolding no_ip_def by blast
  qed
qed

lemma ips_copy:
  "(\<And>u v. xs = u @ v \<Longrightarrow> u \<noteq> [] \<Longrightarrow> \<not> ip_mark (v @ src)) \<Longrightarrow>
   ips sofar (xs @ src) = ips (sofar @ xs) src"
proof (induction xs arbitrary: sofar)
  case (Cons x xs)
  from Cons.prems [of "[x]" xs] have "\<not> ip_mark (xs @ src)" by simp
  moreover have "ips (sofar @ [x]) (xs @ src) = ips ((sofar @ [x]) @ xs) src"
    by (rule Cons.IH) (use Cons.prems [of "x # u" for u] in auto)
  ultimately show ?case by simp
qed simp

text \<open>
  A number of one to eight digits behind a text that does not end in a digit becomes the quad.
\<close>

lemma ips_address:
  assumes pre: "no_ip pre" "pre \<noteq> []" "\<not> isxdigit (last pre)"
    and ds: "\<forall>c \<in> set ds. isxdigit c" "ds \<noteq> []" "length ds \<le> 8"
  shows "ips sofar (pre @ ds @ ''ip'' @ post) = ips (sofar @ pre @ dotted (hex_value ds)) post"
proof -
  let ?full = "pre @ ds"
  obtain xs c d where xs: "?full = xs @ [c, d]" "d = last ds"
  proof -
    have "butlast ?full \<noteq> []" using pre(2) ds(2) by (simp add: butlast_append)
    then have "?full = butlast (butlast ?full) @ [last (butlast ?full), last ?full]"
      by (metis append_Cons append_Nil append_assoc append_butlast_last_id butlast.simps(1))
    with that ds(2) show ?thesis by simp
  qed
  have d: "isxdigit d" using xs(2) ds(1,2) by simp
  then have di: "d \<noteq> CHR ''i''" by (auto simp: isxdigit_def char_code_def)
  have n: "no_ip ?full" using pre(1) ds(1) by (rule no_ip_digits)
  have "\<not> ip_mark (v @ c # d # ''ip'' @ post)" if "xs = u @ v" for u v
  proof (rule not_marked)
    show "no_ip (v @ [c, d])" using n xs(1) that unfolding no_ip_def by (metis append_assoc)
  qed (rule di)
  then have "ips sofar (xs @ c # d # ''ip'' @ post) = ips (sofar @ xs) (c # d # ''ip'' @ post)"
    by (intro ips_copy) simp
  moreover have "xs @ c # d # ''ip'' @ post = pre @ ds @ ''ip'' @ post"
    using xs(1) by (metis append_assoc append_Cons append_Nil)
  moreover have "ip_mark (d # ''ip'' @ post)" using d by (simp add: ip_mark_def)
  moreover have w: "(sofar @ xs) @ [c, hd (d # ''ip'' @ post)] = sofar @ pre @ ds"
    using xs(1) by simp
  moreover have k: "hex_tail (sofar @ pre @ ds) = length ds"
  proof -
    obtain p b where "pre = p @ [b]" using pre(2) by (cases pre rule: rev_cases) auto
    then have r: "rev (sofar @ pre @ ds) = rev ds @ last pre # rev (sofar @ butlast pre)" by simp
    have "take 8 (rev (sofar @ pre @ ds)) =
        rev ds @ take (8 - length ds) (last pre # rev (sofar @ butlast pre))"
      unfolding r take_append by (simp add: ds(3))
    moreover have "takeWhile isxdigit (take (8 - length ds) (last pre # rev (sofar @ butlast pre))) = []"
      using pre(3) by (cases "8 - length ds") simp_all
    moreover have "takeWhile isxdigit (rev ds @ R) = rev ds @ takeWhile isxdigit R" for R
      using ds(1) by (intro takeWhile_append2) simp
    ultimately show ?thesis
      by (simp only: hex_tail_def append_Nil2 length_rev)
  qed
  moreover have "length (sofar @ pre @ ds) - length ds = length (sofar @ pre)" by simp
  ultimately show ?thesis
    using pre(2) by (simp only: ips.simps if_True Let_def) simp
qed

text \<open>Short numbers make the text longer: each four characters become eight.\<close>

lemma ips_short_numbers:
  "ips sofar (concat (replicate n ''.1ip'')) = Some (sofar @ concat (replicate n ''.0.0.0.1''))"
proof (induction n arbitrary: sofar)
  case (Suc n)
  have q: "dotted (hex_value ''1'') = ''0.0.0.1''" by code_simp
  have k: "hex_tail (sofar @ ''.1'') = 1"
    by (simp add: hex_tail_def isxdigit_def char_code_def numeral_eq_Suc)
  have m: "ip_mark (''1ip'' @ rest)" for rest by (simp add: ip_mark_def isxdigit_def char_code_def)
  have "ips sofar (''.'' @ ''1ip'' @ rest) = ips (sofar @ ''.0.0.0.1'') rest" for rest
    using m [of rest] k q by (simp add: Let_def)
  with Suc show ?case by simp
qed simp

lemma expand_short_numbers:
  assumes "length out < t + 8 * n" and "t \<le> length out"
  shows "expand_loop (concat (replicate n ''.1ip'')) out t = None"
proof (rule ccontr)
  assume "expand_loop (concat (replicate n ''.1ip'')) out t \<noteq> None"
  then obtain out' t' where e: "expand_loop (concat (replicate n ''.1ip'')) out t = Some (out', t')"
    by auto
  from expand_refines [OF assms(2) e] have "t' \<le> length out" "length out' = length out"
    and "take t' out' = take t out @ concat (replicate n ''.0.0.0.1'')"
    by (simp_all add: ips_short_numbers)
  moreover have "length (concat (replicate n ''.0.0.0.1'')) = 8 * n" by (induction n) simp_all
  ultimately have "t' = t + 8 * n" using assms(2) by (metis length_append length_take min.absorb2)
  with \<open>t' \<le> length out\<close> assms(1) show False by simp
qed

end
