(* ===== verification/Logger.thy ===== *)
theory Logger
  imports Log_Text
begin

text \<open>
  What the tasks rely on when they log, on either target.

  A log macro of logging_config.h makes two calls: \<open>xLoggingPrintMetadata\<close> takes a mutex and
  prints a header, \<open>vLoggingPrintf\<close> prints the message and gives the mutex back.  FreeRTOS+TCP
  logs with \<open>vTCPLoggingPrintf\<close>, which takes and gives the mutex itself.  The locale
  \<open>task_logger\<close> says what each call does to the output, and shows that the calls of
  different tasks, however they are interleaved, never cut a message off its header.
\<close>

section \<open>The mutex of the kernel\<close>

text \<open>
  A task is a handle, which is 0 for \<open>NULL\<close>.  \<open>xSemaphoreTake t m\<close> is the call of task \<open>t\<close> at
  the end of its wait.
\<close>

record 'm mutex_api =
  xSemaphoreTake :: "u32 \<Rightarrow> 'm \<Rightarrow> bool \<times> 'm"
  xSemaphoreGive :: "'m \<Rightarrow> 'm"
  xSemaphoreGetMutexHolder :: "'m \<Rightarrow> u32"

text \<open>The documented behaviour: only a free mutex is taken, and its taker is its holder.\<close>

definition exclusive :: "'m mutex_api \<Rightarrow> bool" where
  "exclusive api \<longleftrightarrow>
     (\<forall>t m. t \<noteq> 0 \<longrightarrow>
        fst (xSemaphoreTake api t m) = (xSemaphoreGetMutexHolder api m = 0)
        \<and> xSemaphoreGetMutexHolder api (snd (xSemaphoreTake api t m)) =
            (if xSemaphoreGetMutexHolder api m = 0 then t else xSemaphoreGetMutexHolder api m))
     \<and> (\<forall>m. xSemaphoreGetMutexHolder api (xSemaphoreGive api m) = 0)"

lemma exclusive_take:
  assumes "exclusive api" and "t \<noteq> 0"
  obtains m' where "xSemaphoreTake api t m = (xSemaphoreGetMutexHolder api m = 0, m')"
    "xSemaphoreGetMutexHolder api m' =
       (if xSemaphoreGetMutexHolder api m = 0 then t else xSemaphoreGetMutexHolder api m)"
proof (rule that)
  show "xSemaphoreTake api t m =
      (xSemaphoreGetMutexHolder api m = 0, snd (xSemaphoreTake api t m))"
    using assms by (intro prod_eqI) (simp_all add: exclusive_def)
qed (use assms in \<open>simp add: exclusive_def\<close>)

lemma exclusive_give: "exclusive api \<Longrightarrow> xSemaphoreGetMutexHolder api (xSemaphoreGive api m) = 0"
  by (simp add: exclusive_def)

text \<open>A mutex as its holder.\<close>

definition holder_mutex :: "u32 mutex_api" where
  "holder_mutex = \<lparr>xSemaphoreTake = (\<lambda>t m. (m = 0, if m = 0 then t else m)),
     xSemaphoreGive = (\<lambda>m. 0), xSemaphoreGetMutexHolder = (\<lambda>m. m)\<rparr>"

lemma holder_mutex_exclusive: "exclusive holder_mutex"
  by (simp add: exclusive_def holder_mutex_def)

section \<open>The calls\<close>

text \<open>
  The task that calls, and the text its arguments render to.  The header has the level, the
  name of the task, which is \<open>None\<close> before the scheduler runs, and the tick count.
\<close>

datatype log_call =
    Metadata u32 string "string option" u32
  | Print u32 string
  | Tcp_print u32 string

fun caller :: "log_call \<Rightarrow> u32" where
  "caller (Metadata t _ _ _) = t"
| "caller (Print t _) = t"
| "caller (Tcp_print t _) = t"

definition header_text :: "string \<Rightarrow> string option \<Rightarrow> u32 \<Rightarrow> u32 \<Rightarrow> string" where
  "header_text pcLevel pcTaskName xMessageNumber ticks =
     c_format ''%s: %s %lu %lu --- ''
       [Fmt_str pcLevel, Fmt_str (case pcTaskName of Some n \<Rightarrow> n | None \<Rightarrow> ''None''),
        Fmt_uint (unat xMessageNumber), Fmt_uint (unat ticks)]"

fun run_calls :: "('e \<Rightarrow> 's \<Rightarrow> 's option) \<Rightarrow> 'e list \<Rightarrow> 's \<Rightarrow> 's option" where
  "run_calls call [] s = Some s"
| "run_calls call (e # es) s = Option.bind (call e s) (run_calls call es)"

text \<open>
  \<open>whole_lines o cs h\<close>: the calls \<open>cs\<close> are whole messages, each header followed at once by the
  message of the same task, from the holder \<open>o\<close> to the holder \<open>h\<close>.
\<close>

fun whole_lines :: "u32 \<Rightarrow> log_call list \<Rightarrow> u32 \<Rightarrow> bool" where
  "whole_lines h [] h' \<longleftrightarrow> h = h'"
| "whole_lines h (Metadata t _ _ _ # cs) h' \<longleftrightarrow> h = 0 \<and> whole_lines t cs h'"
| "whole_lines h (Print t _ # cs) h' \<longleftrightarrow> h = t \<and> whole_lines 0 cs h'"
| "whole_lines h (Tcp_print t _ # cs) h' \<longleftrightarrow> h = 0 \<and> whole_lines 0 cs h'"

text \<open>
  The events of a run, each with the state it happens in, and those of them that are calls which
  have the mutex: a header or a message of FreeRTOS+TCP when it is free, and the message of its
  holder.
\<close>

fun trace :: "('e \<Rightarrow> 's \<Rightarrow> 's option) \<Rightarrow> 'e list \<Rightarrow> 's \<Rightarrow> ('s \<times> 'e) list" where
  "trace call [] s = []"
| "trace call (e # es) s =
     (s, e) # (case call e s of None \<Rightarrow> [] | Some s' \<Rightarrow> trace call es s')"

fun speaks :: "log_call \<Rightarrow> u32 \<Rightarrow> bool" where
  "speaks (Metadata t _ _ _) h \<longleftrightarrow> h = 0"
| "speaks (Print t _) h \<longleftrightarrow> h = t"
| "speaks (Tcp_print t _) h \<longleftrightarrow> h = 0"

definition spoken ::
  "('e \<Rightarrow> log_call option) \<Rightarrow> ('s \<Rightarrow> u32) \<Rightarrow> ('e \<Rightarrow> 's \<Rightarrow> 's option) \<Rightarrow> 'e list \<Rightarrow> 's
   \<Rightarrow> ('s \<times> 'e) list" where
  "spoken kind holder event es s =
     filter (\<lambda>(s, e). case kind e of Some c \<Rightarrow> speaks c (holder s) | None \<Rightarrow> False) (trace event es s)"

lemma spoken_simps [simp]:
  "spoken kind holder event [] s = []"
  "event e s = Some s' \<Longrightarrow> spoken kind holder event (e # es) s =
     (if case kind e of Some c \<Rightarrow> speaks c (holder s) | None \<Rightarrow> False
      then (s, e) # spoken kind holder event es s' else spoken kind holder event es s')"
  by (simp_all add: spoken_def)

lemma spoken_events: "(s', e) \<in> set (spoken kind holder event es s) \<Longrightarrow> e \<in> set es"
proof -
  have "(s', e) \<in> set (trace event es s) \<Longrightarrow> e \<in> set es" for s
    by (induction es arbitrary: s) (auto split: option.splits)
  then show "(s', e) \<in> set (spoken kind holder event es s) \<Longrightarrow> e \<in> set es"
    by (auto simp: spoken_def)
qed

section \<open>The contract of a logger\<close>

text \<open>
  \<open>kind e\<close> is the log call that the event \<open>e\<close> is, or \<open>None\<close> for an event inside the logger;
  \<open>shown\<close> is the text that has been or will be printed, \<open>holder\<close> the task that holds the
  mutex; \<open>says s e x\<close> holds for the texts \<open>x\<close> that the call \<open>e\<close> may print in the state \<open>s\<close>, and
  \<open>fits e\<close> for the events that the logger is made for.
\<close>

locale task_logger =
  fixes kind :: "'e \<Rightarrow> log_call option"
    and event :: "'e \<Rightarrow> 's \<Rightarrow> 's option"
    and good :: "'s \<Rightarrow> bool"
    and shown :: "'s \<Rightarrow> string"
    and holder :: "'s \<Rightarrow> u32"
    and says :: "'s \<Rightarrow> 'e \<Rightarrow> string \<Rightarrow> bool"
    and fits :: "'e \<Rightarrow> bool"
  assumes internal: "good s \<Longrightarrow> fits e \<Longrightarrow> kind e = None \<Longrightarrow> event e s = Some s' \<Longrightarrow>
      good s' \<and> shown s' = shown s \<and> holder s' = holder s"
    and metadata: "good s \<Longrightarrow> fits e \<Longrightarrow> kind e = Some (Metadata t l n k) \<Longrightarrow> t \<noteq> 0 \<Longrightarrow> event e s = Some s' \<Longrightarrow>
      good s' \<and> (if holder s = 0
        then holder s' = t \<and> (\<exists>x. shown s' = shown s @ x \<and> says s e x)
        else holder s' = holder s \<and> shown s' = shown s)"
    and print: "good s \<Longrightarrow> fits e \<Longrightarrow> kind e = Some (Print t txt) \<Longrightarrow> t \<noteq> 0 \<Longrightarrow> event e s = Some s' \<Longrightarrow>
      good s' \<and> (if holder s = t
        then holder s' = 0 \<and> (\<exists>x. shown s' = shown s @ x \<and> says s e x)
        else holder s' = holder s \<and> shown s' = shown s)"
    and tcp_print: "good s \<Longrightarrow> fits e \<Longrightarrow> kind e = Some (Tcp_print t txt) \<Longrightarrow> t \<noteq> 0 \<Longrightarrow> event e s = Some s' \<Longrightarrow>
      good s' \<and> holder s' = holder s \<and> (if holder s = 0
        then \<exists>x. shown s' = shown s @ x \<and> says s e x
        else shown s' = shown s)"
begin

text \<open>
  One event adds nothing, or the text of its call in its place between the others.
\<close>

lemma one_event:
  assumes "good s" and "fits e" and "event e s = Some s'" and "\<forall>c. kind e = Some c \<longrightarrow> caller c \<noteq> 0"
  obtains "good s'" "shown s' = shown s" "holder s' = holder s"
      "\<not> (case kind e of Some c \<Rightarrow> speaks c (holder s) | None \<Rightarrow> False)"
  | c x where "good s'" "kind e = Some c" "shown s' = shown s @ x" "says s e x" "speaks c (holder s)"
      "\<And>cs h. whole_lines (holder s') cs h \<Longrightarrow> whole_lines (holder s) (c # cs) h"
proof (cases "kind e")
  case None
  with internal [OF assms(1,2) None assms(3)] that(1) show ?thesis by simp
next
  case (Some c)
  show ?thesis
  proof (cases c)
    case (Metadata t l n k)
    with metadata [OF assms(1,2) _ _ assms(3)] assms(4) Some that show ?thesis
      by (cases "holder s = 0") fastforce+
  next
    case (Print t msg)
    with print [OF assms(1,2) _ _ assms(3)] assms(4) Some that show ?thesis
      by (cases "holder s = t") fastforce+
  next
    case (Tcp_print t msg)
    with tcp_print [OF assms(1,2) _ _ assms(3)] assms(4) Some that show ?thesis
      by (cases "holder s = 0") fastforce+
  qed
qed

text \<open>
  The output of any run is made of the texts of the calls that have the mutex, and those calls are
  whole messages.
\<close>

lemma lines_are_whole:
  assumes "good s" and "run_calls event es s = Some s'"
    and "\<forall>e \<in> set es. fits e" and "\<forall>e \<in> set es. \<forall>c. kind e = Some c \<longrightarrow> caller c \<noteq> 0"
  shows "\<exists>texts. shown s' = shown s @ concat texts
    \<and> list_all2 (\<lambda>(s, e) x. says s e x) (spoken kind holder event es s) texts
    \<and> whole_lines (holder s) (map (\<lambda>(s, e). the (kind e)) (spoken kind holder event es s)) (holder s')"
  using assms
proof (induction es arbitrary: s)
  case Nil
  then show ?case by (intro exI [of _ "[]"]) simp
next
  case (Cons e es)
  then obtain s1 where s1: "event e s = Some s1" "run_calls event es s1 = Some s'" by auto
  have callers: "\<forall>c. kind e = Some c \<longrightarrow> caller c \<noteq> 0"
    "\<forall>e \<in> set es. \<forall>c. kind e = Some c \<longrightarrow> caller c \<noteq> 0"
    using Cons.prems(4) by auto
  from Cons.prems(3) have fit: "fits e" "\<forall>e \<in> set es. fits e" by auto
  show ?case
  proof (cases rule: one_event [OF Cons.prems(1) fit(1) s1(1) callers(1)])
    case 1
    with Cons.IH [OF 1(1) s1(2) fit(2) callers(2)] show ?thesis by (simp add: s1(1))
  next
    case (2 c x)
    with Cons.IH [OF 2(1) s1(2) fit(2) callers(2)] obtain texts where p:
      "shown s' = (shown s @ x) @ concat texts"
      "list_all2 (\<lambda>(s, e) x. says s e x) (spoken kind holder event es s1) texts"
      "whole_lines (holder s1) (map (\<lambda>(s, e). the (kind e)) (spoken kind holder event es s1)) (holder s')"
      by auto
    then show ?thesis
      using 2 by (intro exI [of _ "x # texts"]) (simp add: s1(1))
  qed
qed

text \<open>The same as one list of calls and texts.\<close>

lemma lines_printed:
  assumes "good s" and "run_calls event es s = Some s'"
    and "\<forall>e \<in> set es. fits e" and "\<forall>e \<in> set es. \<forall>c. kind e = Some c \<longrightarrow> caller c \<noteq> 0"
  shows "\<exists>printed. shown s' = shown s @ concat (map snd printed)
    \<and> whole_lines (holder s) (map fst printed) (holder s')
    \<and> (\<forall>(c, x) \<in> set printed. \<exists>s e. e \<in> set es \<and> c = the (kind e) \<and> says s e x)"
proof -
  from lines_are_whole [OF assms] obtain texts where t: "shown s' = shown s @ concat texts"
    "list_all2 (\<lambda>(s, e) x. says s e x) (spoken kind holder event es s) texts"
    "whole_lines (holder s) (map (\<lambda>(s, e). the (kind e)) (spoken kind holder event es s)) (holder s')"
    by blast
  let ?calls = "map (\<lambda>(s, e). the (kind e)) (spoken kind holder event es s)"
  have len: "length ?calls = length texts" using list_all2_lengthD [OF t(2)] by simp
  have "\<exists>s e. e \<in> set es \<and> c = the (kind e) \<and> says s e x" if cx: "(c, x) \<in> set (zip ?calls texts)" for c x
  proof -
    from cx obtain i where i: "i < length ?calls" "i < length texts" "c = ?calls ! i" "x = texts ! i"
      by (auto simp: set_zip)
    obtain s1 e where e: "spoken kind holder event es s ! i = (s1, e)" by (rule prod.exhaust)
    from i(1) have il: "i < length (spoken kind holder event es s)" by simp
    with e have "e \<in> set es" by (metis nth_mem spoken_events)
    moreover have "says s1 e x" using list_all2_nthD [OF t(2) il] e i(4) by simp
    moreover have "c = the (kind e)" using i(3) il e by simp
    ultimately show ?thesis by blast
  qed
  then show ?thesis
    using t(1,3) len by (intro exI [of _ "zip ?calls texts"]) auto
qed

end

end
