(* ===== verification/Logging_Qemu.thy ===== *)
theory Logging_Qemu
  imports Logger
begin

text \<open>
  build/Cortex-M3_MPS2_QEMU_GCC/target-specific-source/logging_output_qemu.c: logging to the
  UART of the emulated board, and \<open>_write\<close> of startup.c beside it.

  The state is the file's static variables and the characters the UART has sent.  The UART
  always gets room for the next character, so that the busy-waiting in \<open>_write\<close> is left out.
  \<open>xMutex\<close> is \<open>None\<close> before \<open>vLoggingInit\<close>.  The message number counts modulo \<open>2 ^ 32\<close>.
\<close>

section \<open>Data\<close>

definition dlMAX_PRINT_STRING_LENGTH :: u32 where
  "dlMAX_PRINT_STRING_LENGTH = 2048"

definition pcNewline :: string where
  "pcNewline = [CHR 0x0D, CHR 0x0A]"

record 'm qemu_log =
  q_cPrintString :: string
  q_cOutputString :: string
  q_xMutex :: "'m option"
  q_xMessageNumber :: u32
  q_console :: string

section \<open>Operations\<close>

text \<open>\<open>_write (0, buf, len)\<close> with the \<open>int\<close> length of startup.c.\<close>

definition uart_write :: "string \<Rightarrow> int \<Rightarrow> 'm qemu_log \<Rightarrow> 'm qemu_log option" where
  "uart_write buf len s = do {
     bytes \<leftarrow> mem_read buf 0 (nat len);
     Some (s\<lparr>q_console := q_console s @ bytes\<rparr>)
   }"

definition qemu_xLoggingPrintMetadata ::
  "'m mutex_api \<Rightarrow> u32 \<Rightarrow> string \<Rightarrow> string option \<Rightarrow> u32 \<Rightarrow> 'm qemu_log \<Rightarrow> (int \<times> 'm qemu_log) option" where
  "qemu_xLoggingPrintMetadata api t pcLevel pcTaskName ticks s = do {
     m \<leftarrow> q_xMutex s;
     let (taken, m') = xSemaphoreTake api t m;
     let s1 = s\<lparr>q_xMutex := Some m'\<rparr>;
     if taken
     then do {
       (iLength, buf) \<leftarrow> snprintf (q_cPrintString s1) 0 dlMAX_PRINT_STRING_LENGTH
          (header_text pcLevel pcTaskName (q_xMessageNumber s1) ticks);
       let s2 = s1\<lparr>q_cPrintString := buf, q_xMessageNumber := q_xMessageNumber s1 + 1\<rparr>;
       s3 \<leftarrow> uart_write buf iLength s2;
       Some (iLength, s3)
     }
     else Some (0, s1)
   }"

definition qemu_vLoggingPrintf ::
  "'m mutex_api \<Rightarrow> u32 \<Rightarrow> string \<Rightarrow> 'm qemu_log \<Rightarrow> 'm qemu_log option" where
  "qemu_vLoggingPrintf api t txt s = do {
     m \<leftarrow> q_xMutex s;
     if xSemaphoreGetMutexHolder api m = t
     then do {
       (iLength, buf) \<leftarrow> snprintf (q_cPrintString s) 0 dlMAX_PRINT_STRING_LENGTH txt;
       let s1 = s\<lparr>q_cPrintString := buf\<rparr>;
       s2 \<leftarrow> uart_write buf iLength s1;
       s3 \<leftarrow> uart_write pcNewline (int (length pcNewline)) s2;
       Some (s3\<lparr>q_xMutex := Some (xSemaphoreGive api m)\<rparr>)
     }
     else Some s
   }"

definition qemu_vTCPLoggingPrintf ::
  "'m mutex_api \<Rightarrow> u32 \<Rightarrow> string \<Rightarrow> 'm qemu_log \<Rightarrow> 'm qemu_log option" where
  "qemu_vTCPLoggingPrintf api t txt s = do {
     m \<leftarrow> q_xMutex s;
     let (taken, m') = xSemaphoreTake api t m;
     let s1 = s\<lparr>q_xMutex := Some m'\<rparr>;
     if taken
     then do {
       (_, buf) \<leftarrow> snprintf (q_cPrintString s1) 0 dlMAX_PRINT_STRING_LENGTH txt;
       (out, pcTarget) \<leftarrow> expand_loop (takeWhile (\<lambda>c. c \<noteq> CHR 0x00) buf) (q_cOutputString s1) 0;
       let s2 = s1\<lparr>q_cPrintString := buf, q_cOutputString := out\<rparr>;
       s3 \<leftarrow> uart_write out (int pcTarget) s2;
       s4 \<leftarrow> uart_write pcNewline (int (length pcNewline)) s3;
       Some (s4\<lparr>q_xMutex := Some (xSemaphoreGive api m')\<rparr>)
     }
     else Some s1
   }"

text \<open>\<open>vLoggingInit\<close> with the result of \<open>xSemaphoreCreateMutex\<close>.\<close>

definition qemu_vLoggingInit :: "'m option \<Rightarrow> 'm qemu_log \<Rightarrow> 'm qemu_log" where
  "qemu_vLoggingInit created s = s\<lparr>q_xMutex := created\<rparr>"

text \<open>The static variables at start.\<close>

definition qemu_start :: "'m qemu_log" where
  "qemu_start = \<lparr>q_cPrintString = replicate 2048 (CHR 0x00), q_cOutputString = replicate 2048 (CHR 0x00),
     q_xMutex = None, q_xMessageNumber = 0, q_console = []\<rparr>"

fun qemu_call :: "'m mutex_api \<Rightarrow> log_call \<Rightarrow> 'm qemu_log \<Rightarrow> 'm qemu_log option" where
  "qemu_call api (Metadata t l n k) s = map_option snd (qemu_xLoggingPrintMetadata api t l n k s)"
| "qemu_call api (Print t txt) s = qemu_vLoggingPrintf api t txt s"
| "qemu_call api (Tcp_print t txt) s = qemu_vTCPLoggingPrintf api t txt s"

section \<open>What the calls print\<close>

text \<open>The buffers have their size, and the mutex has been created.\<close>

definition qemu_good :: "'m qemu_log \<Rightarrow> bool" where
  "qemu_good s \<longleftrightarrow> length (q_cPrintString s) = 2048 \<and> length (q_cOutputString s) = 2048
     \<and> q_xMutex s \<noteq> None"

definition qemu_holder :: "'m mutex_api \<Rightarrow> 'm qemu_log \<Rightarrow> u32" where
  "qemu_holder api s = (case q_xMutex s of Some m \<Rightarrow> xSemaphoreGetMutexHolder api m | None \<Rightarrow> 0)"

text \<open>
  The first characters of a buffer of 2048 characters after \<open>snprintf\<close>, as many as the text
  has: for a text of exactly 2048 characters the last one is the NUL.  (For a length that is not
  an \<open>int\<close>, \<open>snprintf\<close> answers a negative number, and nothing is printed.)
\<close>

definition printed :: "string \<Rightarrow> string" where
  "printed txt = take (if length txt < 2 ^ 31 then length txt else 0) (take 2047 txt @ [CHR 0x00])"

lemma printed_short: "length txt < 2048 \<Longrightarrow> printed txt = txt"
  by (simp add: printed_def)

text \<open>The source string that the rewriting reads.\<close>

definition tcp_source :: "string \<Rightarrow> string" where
  "tcp_source txt = takeWhile (\<lambda>c. c \<noteq> CHR 0x00) (take 2047 txt)"

fun qemu_says :: "log_call \<Rightarrow> string \<Rightarrow> bool" where
  "qemu_says (Metadata t l n k) x \<longleftrightarrow> (\<exists>i. x = printed (header_text l n i k))"
| "qemu_says (Print t txt) x \<longleftrightarrow> x = printed txt @ pcNewline"
| "qemu_says (Tcp_print t txt) x \<longleftrightarrow> (\<exists>y. ips [] (tcp_source txt) = Some y \<and> x = y @ pcNewline)"

definition int_length :: "string \<Rightarrow> int" where
  "int_length txt = (if length txt < 2 ^ 31 then int (length txt) else - 1)"

definition print_buffer :: "string \<Rightarrow> string \<Rightarrow> string" where
  "print_buffer buf txt = take 2047 txt @ CHR 0x00 # drop (min (length txt) 2047 + 1) buf"

lemma snprintf_2048:
  "length buf = 2048 \<Longrightarrow>
   snprintf buf 0 dlMAX_PRINT_STRING_LENGTH txt = Some (int_length txt, print_buffer buf txt)"
  by (simp add: snprintf_def dlMAX_PRINT_STRING_LENGTH_def Let_def min_def int_length_def
      print_buffer_def)

lemma length_print_buffer [simp]: "length buf = 2048 \<Longrightarrow> length (print_buffer buf txt) = 2048"
  by (simp add: print_buffer_def)

lemma write_printed:
  assumes "length buf = 2048"
  shows "uart_write (print_buffer buf txt) (int_length txt) s =
    (if 2048 < length txt \<and> length txt < 2 ^ 31 then None
     else Some (s\<lparr>q_console := q_console s @ printed txt\<rparr>))"
  using assms
  by (auto simp: uart_write_def mem_read_def printed_def print_buffer_def int_length_def min_def)

lemma write_newline:
  "uart_write pcNewline (int (length pcNewline)) s =
     Some (s\<lparr>q_console := q_console s @ pcNewline\<rparr>)"
  by (simp add: uart_write_def pcNewline_def mem_read_def)

lemma source_string:
  "takeWhile (\<lambda>c. c \<noteq> CHR 0x00) (print_buffer buf txt) = tcp_source txt"
  by (simp add: tcp_source_def print_buffer_def takeWhile_tail)

text \<open>The three calls on a good state.\<close>

lemma qemu_metadata_run:
  assumes "exclusive api" and "t \<noteq> 0" and "qemu_good s"
    and "qemu_xLoggingPrintMetadata api t l n k s = Some (r, s')"
  shows "qemu_good s' \<and> (if qemu_holder api s = 0
    then qemu_holder api s' = t
      \<and> q_console s' = q_console s @ printed (header_text l n (q_xMessageNumber s) k)
    else qemu_holder api s' = qemu_holder api s \<and> q_console s' = q_console s)"
proof -
  from assms(3) obtain m where m: "q_xMutex s = Some m" "length (q_cPrintString s) = 2048"
    by (auto simp: qemu_good_def)
  from assms(1,2) obtain m' where
    "xSemaphoreTake api t m = (xSemaphoreGetMutexHolder api m = 0, m')"
    "xSemaphoreGetMutexHolder api m' =
       (if xSemaphoreGetMutexHolder api m = 0 then t else xSemaphoreGetMutexHolder api m)"
    by (rule exclusive_take)
  with assms(3,4) m show ?thesis
    by (auto simp: qemu_xLoggingPrintMetadata_def qemu_holder_def qemu_good_def snprintf_2048
        write_printed Let_def split: if_splits)
qed

lemma qemu_print_eq:
  assumes "qemu_good s" and "q_xMutex s = Some m"
  shows "qemu_vLoggingPrintf api t txt s =
    (if xSemaphoreGetMutexHolder api m \<noteq> t then Some s
     else if 2048 < length txt \<and> length txt < 2 ^ 31 then None
     else Some (s\<lparr>q_cPrintString := print_buffer (q_cPrintString s) txt,
       q_console := q_console s @ printed txt @ pcNewline, q_xMutex := Some (xSemaphoreGive api m)\<rparr>))"
  using assms by (simp add: qemu_vLoggingPrintf_def qemu_good_def snprintf_2048 write_printed write_newline)

lemma write_expanded:
  assumes "length out = 2048" and "expand_loop src out 0 = Some (out', n)"
  shows "ips [] src = Some (take n out') \<and> length out' = 2048
    \<and> uart_write out' (int n) s = Some (s\<lparr>q_console := q_console s @ take n out'\<rparr>)"
  using expand_refines [OF _ assms(2)] assms(1) by (simp add: uart_write_def)

lemma qemu_tcp_run:
  assumes "exclusive api" and "t \<noteq> 0" and "qemu_good s"
    and "qemu_vTCPLoggingPrintf api t txt s = Some s'"
  shows "qemu_good s' \<and> qemu_holder api s' = qemu_holder api s \<and> (if qemu_holder api s = 0
    then \<exists>y. ips [] (tcp_source txt) = Some y \<and> q_console s' = q_console s @ y @ pcNewline
    else q_console s' = q_console s)"
proof -
  from assms(3) obtain m where m: "q_xMutex s = Some m" "length (q_cPrintString s) = 2048"
    "length (q_cOutputString s) = 2048"
    by (auto simp: qemu_good_def)
  from assms(1,2) obtain m' where m':
    "xSemaphoreTake api t m = (xSemaphoreGetMutexHolder api m = 0, m')"
    "xSemaphoreGetMutexHolder api m' =
       (if xSemaphoreGetMutexHolder api m = 0 then t else xSemaphoreGetMutexHolder api m)"
    by (rule exclusive_take)
  show ?thesis
  proof (cases "xSemaphoreGetMutexHolder api m = 0")
    case False
    with assms(3,4) m m' show ?thesis
      by (auto simp: qemu_vTCPLoggingPrintf_def qemu_holder_def qemu_good_def)
  next
    case True
    with assms(4) m m' obtain out n s3 where
      e: "expand_loop (tcp_source txt) (q_cOutputString s) 0 = Some (out, n)"
      and s3: "uart_write out (int n) (s\<lparr>q_xMutex := Some m',
          q_cPrintString := print_buffer (q_cPrintString s) txt, q_cOutputString := out\<rparr>) = Some s3"
      and s': "s' = s3\<lparr>q_console := q_console s3 @ pcNewline, q_xMutex := Some (xSemaphoreGive api m')\<rparr>"
      by (auto simp: qemu_vTCPLoggingPrintf_def snprintf_2048 source_string write_newline)
    from write_expanded [OF m(3) e, of "s\<lparr>q_xMutex := Some m',
        q_cPrintString := print_buffer (q_cPrintString s) txt, q_cOutputString := out\<rparr>"] s3
    have "ips [] (tcp_source txt) = Some (take n out)" "length out = 2048"
      "s3 = s\<lparr>q_xMutex := Some m', q_cPrintString := print_buffer (q_cPrintString s) txt,
         q_cOutputString := out, q_console := q_console s @ take n out\<rparr>" by auto
    with s' True m exclusive_give [OF assms(1)] show ?thesis
      by (simp add: qemu_good_def qemu_holder_def)
  qed
qed

text \<open>
  The contract, for every mutex that behaves as documented: the kernel's mutex functions are
  carried along with the state.
\<close>

definition qemu_event ::
  "log_call \<Rightarrow> 'm mutex_api \<times> 'm qemu_log \<Rightarrow> ('m mutex_api \<times> 'm qemu_log) option" where
  "qemu_event c = (\<lambda>(api, s). map_option (Pair api) (qemu_call api c s))"

lemma qemu_event_eq_Some:
  "qemu_event c (api, s) = Some as' \<longleftrightarrow> (\<exists>s'. as' = (api, s') \<and> qemu_call api c s = Some s')"
  by (auto simp: qemu_event_def)

lemma qemu_runs:
  "run_calls qemu_event cs (api, s) = map_option (Pair api) (run_calls (qemu_call api) cs s)"
proof (induction cs arbitrary: s)
  case (Cons c cs)
  then show ?case by (cases "qemu_call api c s") (simp_all add: qemu_event_def)
qed simp

interpretation qemu: task_logger Some qemu_event
  "\<lambda>(api, s). exclusive api \<and> qemu_good s" "\<lambda>(api, s). q_console s"
  "\<lambda>(api, s). qemu_holder api s" "\<lambda>s. qemu_says" "\<lambda>c. True"
proof (unfold_locales, goal_cases)
  case (2 as e t l n k as')
  then obtain api s s' r where s: "as = (api, s)" "as' = (api, s')" "exclusive api" "qemu_good s"
    "qemu_xLoggingPrintMetadata api t l n k s = Some (r, s')"
    by (auto simp: qemu_event_def)
  from qemu_metadata_run [OF s(3) 2(4) s(4,5)] s 2(3) show ?case by auto
next
  case (3 as e t msg as')
  then obtain api s s' m where s: "as = (api, s)" "as' = (api, s')" "exclusive api" "qemu_good s"
    "q_xMutex s = Some m" "qemu_vLoggingPrintf api t msg s = Some s'"
    by (auto simp: qemu_event_def qemu_good_def)
  with 3(3,4) qemu_print_eq [OF s(4,5), of api t msg] exclusive_give [OF s(3), of m] show ?case
    by (auto simp: qemu_holder_def qemu_good_def split: if_splits)
next
  case (4 as e t msg as')
  then obtain api s s' where s: "as = (api, s)" "as' = (api, s')" "exclusive api" "qemu_good s"
    "qemu_vTCPLoggingPrintf api t msg s = Some s'"
    by (auto simp: qemu_event_def)
  from qemu_tcp_run [OF s(3) 4(4) s(4,5)] s 4(3) show ?case by auto
qed simp

lemma qemu_tcp_eq:
  assumes "exclusive api" and "t \<noteq> 0" and "qemu_good s" and "qemu_holder api s = 0"
  shows "(qemu_vTCPLoggingPrintf api t txt s = None) =
    (expand_loop (tcp_source txt) (q_cOutputString s) 0 = None)"
proof -
  from assms(3) obtain m where m: "q_xMutex s = Some m" "length (q_cPrintString s) = 2048"
    "length (q_cOutputString s) = 2048"
    by (auto simp: qemu_good_def)
  from assms(1,2) obtain m' where
    "xSemaphoreTake api t m = (xSemaphoreGetMutexHolder api m = 0, m')"
    by (rule exclusive_take)
  then have m': "xSemaphoreTake api t m = (True, m')"
    using m(1) assms(4) by (simp add: qemu_holder_def)
  show ?thesis
  proof (cases "expand_loop (tcp_source txt) (q_cOutputString s) 0")
    case None
    with m m' show ?thesis
      by (simp add: qemu_vTCPLoggingPrintf_def snprintf_2048 source_string)
  next
    case (Some p)
    then obtain out n where e: "expand_loop (tcp_source txt) (q_cOutputString s) 0 = Some (out, n)"
      by (cases p) auto
    have "uart_write out (int n) s2 = Some (s2\<lparr>q_console := q_console s2 @ take n out\<rparr>)"
      for s2 :: "'a qemu_log"
      using write_expanded [OF m(3) e] by blast
    with m m' e show ?thesis
      by (simp add: qemu_vTCPLoggingPrintf_def snprintf_2048 source_string write_newline)
  qed
qed

lemma tcp_source_plain:
  "length txt < 2048 \<Longrightarrow> CHR 0x00 \<notin> set txt \<Longrightarrow> tcp_source txt = txt"
  by (auto simp: tcp_source_def takeWhile_eq_all_conv)

section \<open>Properties\<close>

text \<open>
  C25. Log messages are never torn.  In any run of logging calls by running tasks, in any order,
  the UART gets, after what it had, the texts of some of those calls, each exactly what its
  call is to print, and every header is directly followed by the message of the same task;
  a task that does not get the mutex in time prints nothing.
\<close>

theorem qemu_lines_whole:
  assumes "exclusive api" and "qemu_good s" and "qemu_holder api s = 0"
    and "\<forall>c \<in> set cs. caller c \<noteq> 0" and "run_calls (qemu_call api) cs s = Some s'"
  shows "\<exists>printed. q_console s' = q_console s @ concat (map snd printed)
    \<and> whole_lines 0 (map fst printed) (qemu_holder api s')
    \<and> (\<forall>(c, x) \<in> set printed. c \<in> set cs \<and> qemu_says c x)"
  using qemu.lines_printed [of "(api, s)" cs "(api, s')"] assms
  by (simp add: qemu_runs split_beta)

lemma qemu_metadata_returns:
  assumes "exclusive api" and "t \<noteq> 0" and "qemu_good s"
    and "length (header_text l n (q_xMessageNumber s) k) \<le> 2048"
  shows "\<exists>r s'. qemu_xLoggingPrintMetadata api t l n k s = Some (r, s')"
proof -
  from assms(3) obtain m where m: "q_xMutex s = Some m" "length (q_cPrintString s) = 2048"
    by (auto simp: qemu_good_def)
  from assms(1,2) obtain m' where
    "xSemaphoreTake api t m = (xSemaphoreGetMutexHolder api m = 0, m')"
    by (rule exclusive_take)
  with assms(4) m show ?thesis
    by (simp add: qemu_xLoggingPrintMetadata_def snprintf_2048 write_printed Let_def)
qed

text \<open>Two tasks whose calls interleave: the second one does not get the mutex.\<close>

definition two_tasks :: "log_call list" where
  "two_tasks = [Metadata 1 ''INFO'' (Some ''A'') 7, Metadata 2 ''WARN'' (Some ''B'') 8,
     Print 2 ''late'', Print 1 ''hello'']"

lemma two_tasks_run:
  "\<exists>s'. run_calls (qemu_call holder_mutex) two_tasks (qemu_vLoggingInit (Some 0) qemu_start) = Some s'
     \<and> q_console s' = ''INFO: A 0 7 --- hello'' @ pcNewline \<and> qemu_holder holder_mutex s' = 0"
proof -
  let ?s = "qemu_vLoggingInit (Some (0 :: u32)) qemu_start"
  note ex = holder_mutex_exclusive
  have g: "qemu_good ?s" "qemu_holder holder_mutex ?s = 0" "q_console ?s = []" "q_xMessageNumber ?s = 0"
    by (simp_all add: qemu_good_def qemu_start_def qemu_vLoggingInit_def qemu_holder_def
        holder_mutex_def)
  have h: "header_text ''INFO'' (Some ''A'') 0 7 = ''INFO: A 0 7 --- ''"
    "\<And>i. length (header_text ''WARN'' (Some ''B'') i 8) \<le> 2048"
  proof -
    show "header_text ''INFO'' (Some ''A'') 0 7 = ''INFO: A 0 7 --- ''" by code_simp
  next
    fix i :: u32
    have "length (dec (unat i)) \<le> 10"
      by (rule length_dec_le) (use unsigned_less [of i, where 'a = nat] in simp_all)
    moreover have "length (dec (unat (8 :: u32))) \<le> 10"
      by (rule length_dec_le) simp_all
    ultimately show "length (header_text ''WARN'' (Some ''B'') i 8) \<le> 2048"
      by (simp add: header_text_def format_rules del: c_format.simps(2))
  qed
  obtain r1 s1 where s1: "qemu_xLoggingPrintMetadata holder_mutex 1 ''INFO'' (Some ''A'') 7 ?s =
      Some (r1, s1)"
    using qemu_metadata_returns [OF ex _ g(1), of 1 "''INFO''" "Some ''A''" 7] h(1) g(4) by auto
  from qemu_metadata_run [OF ex _ g(1) s1] g h(1) have s1':
    "qemu_good s1" "qemu_holder holder_mutex s1 = 1" "q_console s1 = ''INFO: A 0 7 --- ''"
    by (simp_all add: printed_short)
  obtain r2 s2 where s2: "qemu_xLoggingPrintMetadata holder_mutex 2 ''WARN'' (Some ''B'') 8 s1 =
      Some (r2, s2)"
    using qemu_metadata_returns [OF ex _ s1'(1), of 2 "''WARN''" "Some ''B''" 8] h(2) by auto
  from qemu_metadata_run [OF ex _ s1'(1) s2] s1' have s2':
    "qemu_good s2" "qemu_holder holder_mutex s2 = 1" "q_console s2 = ''INFO: A 0 7 --- ''" by simp_all
  then obtain m where m: "q_xMutex s2 = Some m" "xSemaphoreGetMutexHolder holder_mutex m = 1"
    by (auto simp: qemu_good_def qemu_holder_def)
  from s1 s2 s2'(3) m show ?thesis
    by (simp add: two_tasks_def qemu_print_eq [OF s2'(1) m(1)] printed_short qemu_holder_def)
       (simp add: holder_mutex_def)
qed

theorem qemu_lines_whole_witness:
  "\<exists>s' printed. run_calls (qemu_call holder_mutex) two_tasks (qemu_vLoggingInit (Some 0) qemu_start) =
      Some s'
    \<and> q_console s' = ''INFO: A 0 7 --- hello'' @ pcNewline
    \<and> q_console s' = concat (map snd printed) \<and> whole_lines 0 (map fst printed) 0"
proof -
  let ?s = "qemu_vLoggingInit (Some (0 :: u32)) qemu_start"
  obtain s' where s': "run_calls (qemu_call holder_mutex) two_tasks ?s = Some s'"
    "q_console s' = ''INFO: A 0 7 --- hello'' @ pcNewline" "qemu_holder holder_mutex s' = 0"
    using two_tasks_run by blast
  have g: "qemu_good ?s" "qemu_holder holder_mutex ?s = 0" "q_console ?s = []"
    by (simp_all add: qemu_good_def qemu_start_def qemu_vLoggingInit_def qemu_holder_def
        holder_mutex_def)
  have "\<forall>c \<in> set two_tasks. caller c \<noteq> 0" by (simp add: two_tasks_def)
  from qemu_lines_whole [OF holder_mutex_exclusive g(1,2) this s'(1)] g(3) s' show ?thesis
    by auto
qed

text \<open>
  The limit of a log message.  The holder's vLoggingPrintf returns exactly for a message of
  at most 2048 characters: vsnprintf cuts a longer one off, but its answer, the length of the
  whole message, is what _write is asked to read from the buffer of 2048.
\<close>

theorem qemu_message_limit:
  assumes "qemu_good s" and "q_xMutex s = Some m" and "xSemaphoreGetMutexHolder api m = t"
    and "length txt < 2 ^ 31"
  shows "qemu_vLoggingPrintf api t txt s = None \<longleftrightarrow> 2048 < length txt"
  using assms by (simp add: qemu_print_eq)

theorem qemu_message_limit_witness:
  "qemu_vLoggingPrintf holder_mutex 1 (replicate 2049 (CHR ''x''))
     (qemu_vLoggingInit (Some 1) qemu_start) = None
   \<and> qemu_vLoggingPrintf holder_mutex 1 (replicate 2048 (CHR ''x''))
       (qemu_vLoggingInit (Some 1) qemu_start) \<noteq> None"
proof -
  let ?s = "qemu_vLoggingInit (Some (1 :: u32)) qemu_start"
  have g: "qemu_good ?s" "q_xMutex ?s = Some 1" "xSemaphoreGetMutexHolder holder_mutex 1 = 1"
    by (simp_all add: qemu_good_def qemu_start_def qemu_vLoggingInit_def holder_mutex_def)
  from qemu_message_limit [OF g, of "replicate 2049 (CHR ''x'')"]
    qemu_message_limit [OF g, of "replicate 2048 (CHR ''x'')"] show ?thesis by simp
qed

text \<open>
  C36. Addresses are printed as dotted quads.  A message of fewer than 512 characters in which a
  number of one to eight hexadecimal digits and ip follow a text that does not end in such a
  digit is printed with the dotted quad of the number in their place, and nothing else changed.
\<close>

theorem qemu_prints_address:
  assumes "exclusive api" and "t \<noteq> 0" and "qemu_good s" and "qemu_holder api s = 0"
    and "no_ip pre" "pre \<noteq> []" "\<not> isxdigit (last pre)"
    and "\<forall>c \<in> set ds. isxdigit c" "ds \<noteq> []" "length ds \<le> 8" and "no_ip post"
    and "length (pre @ ds @ ''ip'' @ post) < 512" and "CHR 0x00 \<notin> set (pre @ ds @ ''ip'' @ post)"
  shows "\<exists>s'. qemu_vTCPLoggingPrintf api t (pre @ ds @ ''ip'' @ post) s = Some s'
    \<and> q_console s' = q_console s @ pre @ dotted (hex_value ds) @ post @ pcNewline
    \<and> qemu_holder api s' = 0"
proof -
  let ?txt = "pre @ ds @ ''ip'' @ post"
  have src: "tcp_source ?txt = ?txt" by (rule tcp_source_plain) (use assms(12,13) in auto)
  have ips: "ips [] ?txt = Some (pre @ dotted (hex_value ds) @ post)"
    using ips_address [OF assms(5-10), of "[]" post] ips_plain [OF assms(11)] by simp
  have "length (q_cOutputString s) = 2048" using assms(3) by (simp add: qemu_good_def)
  then have "expand_loop ?txt (q_cOutputString s) 0 \<noteq> None"
    using expand_fits [of 0 ?txt "q_cOutputString s"] assms(12) ips by simp
  then obtain s' where s': "qemu_vTCPLoggingPrintf api t ?txt s = Some s'"
    using qemu_tcp_eq [OF assms(1-4), of ?txt] src by auto
  from qemu_tcp_run [OF assms(1-3) s'] s' assms(4) src ips show ?thesis by auto
qed

theorem qemu_prints_address_witness:
  "\<exists>s'. qemu_vTCPLoggingPrintf holder_mutex 3 ''IP: c0a80001ip'' (qemu_vLoggingInit (Some 0) qemu_start) =
      Some s' \<and> q_console s' = ''IP: 192.168.0.1'' @ pcNewline"
proof -
  let ?s = "qemu_vLoggingInit (Some (0 :: u32)) qemu_start"
  have g: "qemu_good ?s" "qemu_holder holder_mutex ?s = 0" "q_console ?s = []"
    by (simp_all add: qemu_good_def qemu_start_def qemu_vLoggingInit_def qemu_holder_def
        holder_mutex_def)
  have d: "dotted (hex_value ''c0a80001'') = ''192.168.0.1''" by code_simp
  have n: "no_ip ''IP: ''" "no_ip ''''" by (simp_all add: no_ip_nth less_Suc_eq nth_Cons')
  have x: "\<forall>c \<in> set ''c0a80001''. isxdigit c" "\<not> isxdigit (last ''IP: '')"
    by (simp_all add: isxdigit_def char_code_def)
  have "\<exists>s'. qemu_vTCPLoggingPrintf holder_mutex 3 (''IP: '' @ ''c0a80001'' @ ''ip'' @ '''') ?s = Some s'
      \<and> q_console s' = q_console ?s @ ''IP: '' @ dotted (hex_value ''c0a80001'') @ '''' @ pcNewline
      \<and> qemu_holder holder_mutex s' = 0"
    by (rule qemu_prints_address [OF holder_mutex_exclusive _ g(1,2) n(1) _ x(2,1) _ _ n(2)]) simp_all
  then show ?thesis unfolding d g(3) by (simp only: append.simps) blast
qed

text \<open>
  Short numbers overflow the output buffer.  A message that fits the input buffer and
  repeats .1ip more than 256 times is rewritten beyond the end of the output buffer: each four
  characters become eight.
\<close>

theorem qemu_address_overflow:
  assumes "exclusive api" and "t \<noteq> 0" and "qemu_good s" and "qemu_holder api s = 0"
    and "256 < n" and "n < 512"
  shows "qemu_vTCPLoggingPrintf api t (concat (replicate n ''.1ip'')) s = None"
proof -
  let ?txt = "concat (replicate n ''.1ip'')"
  have "length ?txt = 4 * n" "CHR 0x00 \<notin> set ?txt" by (induction n) simp_all
  then have src: "tcp_source ?txt = ?txt" by (intro tcp_source_plain) (use assms(6) in auto)
  have "length (q_cOutputString s) = 2048" using assms(3) by (simp add: qemu_good_def)
  then have "expand_loop ?txt (q_cOutputString s) 0 = None"
    by (intro expand_short_numbers) (use assms(5) in auto)
  then show ?thesis using qemu_tcp_eq [OF assms(1-4), of ?txt] src by simp
qed

theorem qemu_address_overflow_witness:
  "qemu_vTCPLoggingPrintf holder_mutex 3 (concat (replicate 257 ''.1ip''))
     (qemu_vLoggingInit (Some 0) qemu_start) = None"
  by (rule qemu_address_overflow)
     (simp_all add: holder_mutex_exclusive qemu_good_def qemu_start_def qemu_vLoggingInit_def
        qemu_holder_def, simp add: holder_mutex_def)

end
