(* ===== verification/Logging_Windows.thy ===== *)
theory Logging_Windows
  imports Logging_Qemu
begin

text \<open>
  build/VisualStudio/target-specific-source/logging_output_windows.c: logging through a stream
  buffer that a Win32 thread empties to the standard output.

  The stream buffer is FreeRTOS+TCP code and enters as the record \<open>stream_api\<close> with its
  documented behaviour \<open>fifo_bytes\<close>.  Each message is a frame, its length in four bytes and its
  characters.  The local arrays of the C functions start with contents that nothing sets,
  here arguments of the functions.  \<open>size_t\<close> has 32 bits.

  The steps of the printing thread are its accesses to the stream buffer, so that it interleaves with
  the logging calls, which the mutex keeps apart from each other and of which each adds its frame in one
  access.  While the thread has not started, the calls empty the buffer themselves, here within
  one event; the code does not keep the thread out of a call that is doing so when it starts
  (\<open>startup_flush_race\<close>), and what is stated of whole runs is stated from its start on.
\<close>

section \<open>Data\<close>

record 'b stream_api =
  uxStreamBufferGetSpace :: "'b \<Rightarrow> nat"
  uxStreamBufferGetSize :: "'b \<Rightarrow> nat"
  uxStreamBufferAdd :: "string \<Rightarrow> 'b \<Rightarrow> 'b"
  uxStreamBufferGet :: "nat \<Rightarrow> 'b \<Rightarrow> string \<times> 'b"

text \<open>A first-in first-out store of \<open>cap\<close> bytes.\<close>

definition fifo_bytes :: "'b stream_api \<Rightarrow> ('b \<Rightarrow> string) \<Rightarrow> nat \<Rightarrow> bool" where
  "fifo_bytes api contents cap \<longleftrightarrow>
     (\<forall>b. uxStreamBufferGetSize api b = length (contents b)
        \<and> uxStreamBufferGetSpace api b = cap - length (contents b))
     \<and> (\<forall>b bs. length bs \<le> uxStreamBufferGetSpace api b \<longrightarrow>
          contents (uxStreamBufferAdd api bs b) = contents b @ bs)
     \<and> (\<forall>n b. fst (uxStreamBufferGet api n b) = take n (contents b)
          \<and> contents (snd (uxStreamBufferGet api n b)) = drop n (contents b))"

definition dlLOGGING_STREAM_BUFFER_SIZE :: nat where
  "dlLOGGING_STREAM_BUFFER_SIZE = 32768"

definition iMessageLengthBytes :: nat where
  "iMessageLengthBytes = 4"

record ('m, 'b) win_env =
  w_mutex_api :: "'m mutex_api"
  w_stream_api :: "'b stream_api"

record ('m, 'b) win_log =
  xStreamBufferMutex :: "'m option"
  xLogStreamBuffer :: "'b option"
  w_xMessageNumber :: u32
  xDirectPrint :: bool
  pvLoggingThreadEvent :: bool
  w_xLength :: "nat option"
  w_console :: string

text \<open>
  \<open>w_xLength\<close> is the local \<open>xLength\<close> of the printing thread while it has taken the length of a
  message from the stream buffer and not yet the message.
\<close>

section \<open>Lengths in four bytes\<close>

text \<open>An \<open>int32_t\<close> in memory, and the \<open>size_t\<close> that the flush reads there.\<close>

definition int32_bytes :: "int \<Rightarrow> string" where
  "int32_bytes i =
     (let n = unat (of_int i :: u32) in
      [char_of n, char_of (n div 2 ^ 8), char_of (n div 2 ^ 16), char_of (n div 2 ^ 24)])"

definition size_of_bytes :: "string \<Rightarrow> nat" where
  "size_of_bytes bs = (case bs of
      [a, b, c, d] \<Rightarrow> char_code a + 2 ^ 8 * char_code b + 2 ^ 16 * char_code c + 2 ^ 24 * char_code d
    | _ \<Rightarrow> 0)"

lemma char_code_of: "char_code (char_of n) = n mod 256"
  by (simp add: char_code_def)

lemma int32_round_trip: "n < 2 ^ 32 \<Longrightarrow> size_of_bytes (int32_bytes (int n)) = n"
proof -
  assume n: "n < 2 ^ 32"
  have "unat (of_int (int n) :: u32) = n" using unat_of_nat32 [OF n] by simp
  moreover have "n div 2 ^ 24 < 256" using n by (simp add: less_mult_imp_div_less)
  moreover have "n mod 256 + 2 ^ 8 * (n div 2 ^ 8 mod 256) + 2 ^ 16 * (n div 2 ^ 16 mod 256)
      + 2 ^ 24 * (n div 2 ^ 24) = n"
  proof -
    have "n div 256 div 256 = n div 65536" "n div 65536 div 256 = n div 16777216"
      by (simp_all add: div_mult2_eq [symmetric])
    moreover have "(2 :: nat) ^ 8 = 256" "(2 :: nat) ^ 16 = 65536" "(2 :: nat) ^ 24 = 16777216"
      by simp_all
    ultimately show ?thesis
      using div_mult_mod_eq [of n 256] div_mult_mod_eq [of "n div 256" 256]
        div_mult_mod_eq [of "n div 65536" 256] by (simp only:)
  qed
  ultimately show ?thesis
    by (simp add: size_of_bytes_def int32_bytes_def Let_def char_code_of)
qed

lemma length_int32_bytes [simp]: "length (int32_bytes i) = 4"
  by (simp add: int32_bytes_def Let_def)

section \<open>Operations\<close>

definition until_nul :: "string \<Rightarrow> string" where
  "until_nul = takeWhile (\<lambda>c. c \<noteq> CHR 0x00)"

text \<open>
  \<open>prvLoggingFlushBuffer\<close>, the two accesses to the stream buffer of a turn of its loop and the
  loop.  \<open>cPrintString\<close> is zeroed for each message, so that what is written ends at the first NUL
  of the message or at its end.
\<close>

definition flush_length ::
  "'b stream_api \<Rightarrow> ('m, 'b) win_log \<Rightarrow> (nat option \<times> ('m, 'b) win_log) option" where
  "flush_length api s = do {
     b \<leftarrow> xLogStreamBuffer s;
     if uxStreamBufferGetSize api b > 4
     then do {
       let (lengthBytes, b1) = uxStreamBufferGet api 4 b;
       let xLength = size_of_bytes lengthBytes;
       _ \<leftarrow> configASSERT (xLength < 2048);
       Some (Some xLength, s\<lparr>xLogStreamBuffer := Some b1\<rparr>)
     }
     else Some (None, s)
   }"

definition flush_print ::
  "'b stream_api \<Rightarrow> nat \<Rightarrow> ('m, 'b) win_log \<Rightarrow> ('m, 'b) win_log option" where
  "flush_print api xLength s = do {
     b \<leftarrow> xLogStreamBuffer s;
     let (bytes, b2) = uxStreamBufferGet api xLength b;
     Some (s\<lparr>xLogStreamBuffer := Some b2, w_console := w_console s @ until_nul bytes\<rparr>)
   }"

partial_function (option) prvLoggingFlushBuffer ::
  "'b stream_api \<Rightarrow> ('m, 'b) win_log \<Rightarrow> ('m, 'b) win_log option" where
  "prvLoggingFlushBuffer api s = do {
     (more, s1) \<leftarrow> flush_length api s;
     case more of
       None \<Rightarrow> Some s1
     | Some xLength \<Rightarrow> do {
         s2 \<leftarrow> flush_print api xLength s1;
         prvLoggingFlushBuffer api s2
       }
   }"

text \<open>
  The end of the three logging functions: the first \<open>iLength\<close> bytes of the array go into the
  stream buffer when there is room, and are printed now, or the thread is woken.
\<close>

definition win_enqueue ::
  "('m, 'b) win_env \<Rightarrow> string \<Rightarrow> int \<Rightarrow> ('m, 'b) win_log \<Rightarrow> ('m, 'b) win_log option" where
  "win_enqueue env cPrintString iLength s = do {
     b \<leftarrow> xLogStreamBuffer s;
     let n = unat (of_int iLength :: u32);
     if uxStreamBufferGetSpace (w_stream_api env) b \<ge> n
     then do {
       bytes \<leftarrow> mem_read cPrintString 0 n;
       let s1 = s\<lparr>xLogStreamBuffer := Some (uxStreamBufferAdd (w_stream_api env) bytes b)\<rparr>;
       if xDirectPrint s1 then prvLoggingFlushBuffer (w_stream_api env) s1
       else Some s1
     }
     else Some s
   }"

definition win_xLoggingPrintMetadata ::
  "('m, 'b) win_env \<Rightarrow> string \<Rightarrow> u32 \<Rightarrow> string \<Rightarrow> string option \<Rightarrow> u32 \<Rightarrow> ('m, 'b) win_log
   \<Rightarrow> (int \<times> ('m, 'b) win_log) option" where
  "win_xLoggingPrintMetadata env array t pcLevel pcTaskName ticks s = do {
     m \<leftarrow> xStreamBufferMutex s;
     let (taken, m') = xSemaphoreTake (w_mutex_api env) t m;
     let s1 = s\<lparr>xStreamBufferMutex := Some m'\<rparr>;
     if taken
     then do {
       (iLength, str) \<leftarrow> snprintf array iMessageLengthBytes
          (dlMAX_PRINT_STRING_LENGTH - of_nat iMessageLengthBytes)
          (header_text pcLevel pcTaskName (w_xMessageNumber s1) ticks);
       let s2 = s1\<lparr>w_xMessageNumber := w_xMessageNumber s1 + 1\<rparr>;
       str \<leftarrow> mem_write str 0 (int32_bytes iLength);
       let iLength = iLength + int iMessageLengthBytes;
       s3 \<leftarrow> win_enqueue env str iLength s2;
       Some (iLength, s3)
     }
     else Some (0, s1)
   }"

definition strcat :: "string \<Rightarrow> nat \<Rightarrow> string \<Rightarrow> string option" where
  "strcat buf p src = mem_write buf (p + length (until_nul (drop p buf))) (src @ [CHR 0x00])"

definition win_vLoggingPrintf ::
  "('m, 'b) win_env \<Rightarrow> string \<Rightarrow> u32 \<Rightarrow> string \<Rightarrow> ('m, 'b) win_log \<Rightarrow> ('m, 'b) win_log option" where
  "win_vLoggingPrintf env array t txt s = do {
     m \<leftarrow> xStreamBufferMutex s;
     if xSemaphoreGetMutexHolder (w_mutex_api env) m = t
     then do {
       (iLength, str) \<leftarrow> snprintf array iMessageLengthBytes
          (dlMAX_PRINT_STRING_LENGTH - of_nat iMessageLengthBytes - of_nat (length pcNewline)) txt;
       str \<leftarrow> strcat str iMessageLengthBytes pcNewline;
       let iLength = iLength + int (length pcNewline);
       str \<leftarrow> mem_write str 0 (int32_bytes iLength);
       let iLength = iLength + int iMessageLengthBytes;
       s1 \<leftarrow> win_enqueue env str iLength s;
       Some (s1\<lparr>xStreamBufferMutex := Some (xSemaphoreGive (w_mutex_api env) m)\<rparr>)
     }
     else Some s
   }"

definition win_vTCPLoggingPrintf ::
  "('m, 'b) win_env \<Rightarrow> string \<Rightarrow> string \<Rightarrow> u32 \<Rightarrow> string \<Rightarrow> ('m, 'b) win_log \<Rightarrow> ('m, 'b) win_log option" where
  "win_vTCPLoggingPrintf env printArray outputArray t txt s = do {
     (_, str) \<leftarrow> snprintf printArray 0 dlMAX_PRINT_STRING_LENGTH txt;
     (out, pcTarget) \<leftarrow> expand_loop (until_nul str) outputArray iMessageLengthBytes;
     let iLength = int pcTarget - int iMessageLengthBytes;
     out \<leftarrow> mem_write out 0 (int32_bytes iLength);
     _ \<leftarrow> configASSERT (xLogStreamBuffer s \<noteq> None);
     m \<leftarrow> xStreamBufferMutex s;
     let (taken, m') = xSemaphoreTake (w_mutex_api env) t m;
     let s1 = s\<lparr>xStreamBufferMutex := Some m'\<rparr>;
     if taken
     then do {
       s2 \<leftarrow> win_enqueue env out (iLength + int iMessageLengthBytes) s1;
       Some (s2\<lparr>xStreamBufferMutex := Some (xSemaphoreGive (w_mutex_api env) m')\<rparr>)
     }
     else Some s1
   }"

text \<open>
  \<open>vLoggingInit\<close> with the results of \<open>xSemaphoreCreateMutex\<close>, \<open>malloc\<close> (the stream buffer as
  the code initialises it), \<open>CreateEvent\<close> and \<open>CreateThread\<close>.
\<close>

definition win_vLoggingInit ::
  "bool \<Rightarrow> 'm option \<Rightarrow> 'b option \<Rightarrow> bool \<Rightarrow> bool \<Rightarrow> ('m, 'b) win_log \<Rightarrow> ('m, 'b) win_log option" where
  "win_vLoggingInit schedulerNotStarted mutex stream eventCreated threadCreated s = do {
     _ \<leftarrow> configASSERT schedulerNotStarted;
     _ \<leftarrow> configASSERT (stream \<noteq> None);
     _ \<leftarrow> configASSERT threadCreated;
     Some (s\<lparr>xStreamBufferMutex := mutex, xLogStreamBuffer := stream,
             pvLoggingThreadEvent := eventCreated\<rparr>)
   }"

text \<open>
  The Win32 thread: its start, its accesses to the stream buffer one by one, and a turn of its loop to
  the end, from wherever it is in the flush.
\<close>

definition prvWin32LoggingThread_start :: "('m, 'b) win_log \<Rightarrow> ('m, 'b) win_log" where
  "prvWin32LoggingThread_start s = s\<lparr>xDirectPrint := False\<rparr>"

definition prvWin32LoggingThread_read ::
  "('m, 'b) win_env \<Rightarrow> ('m, 'b) win_log \<Rightarrow> ('m, 'b) win_log option" where
  "prvWin32LoggingThread_read env s =
     map_option (\<lambda>(more, s1). s1\<lparr>w_xLength := more\<rparr>) (flush_length (w_stream_api env) s)"

definition prvWin32LoggingThread_print ::
  "('m, 'b) win_env \<Rightarrow> ('m, 'b) win_log \<Rightarrow> ('m, 'b) win_log option" where
  "prvWin32LoggingThread_print env s = do {
     xLength \<leftarrow> w_xLength s;
     s1 \<leftarrow> flush_print (w_stream_api env) xLength s;
     Some (s1\<lparr>w_xLength := None\<rparr>)
   }"

definition prvWin32LoggingThread_turn ::
  "('m, 'b) win_env \<Rightarrow> ('m, 'b) win_log \<Rightarrow> ('m, 'b) win_log option" where
  "prvWin32LoggingThread_turn env s = do {
     s1 \<leftarrow> (if w_xLength s = None then Some s else prvWin32LoggingThread_print env s);
     prvLoggingFlushBuffer (w_stream_api env) s1
   }"

text \<open>
  The events of a run: a logging call, with what its local arrays hold at first, the start of
  the thread, and its steps, which need that it has started.
\<close>

datatype win_event = Log string string log_call | Thread_start | Thread_read | Thread_print | Thread_turn

fun win_call ::
  "('m, 'b) win_env \<Rightarrow> win_event \<Rightarrow> ('m, 'b) win_log \<Rightarrow> ('m, 'b) win_log option" where
  "win_call env (Log a b (Metadata t l n k)) s =
     map_option snd (win_xLoggingPrintMetadata env a t l n k s)"
| "win_call env (Log a b (Print t txt)) s = win_vLoggingPrintf env a t txt s"
| "win_call env (Log a b (Tcp_print t txt)) s = win_vTCPLoggingPrintf env a b t txt s"
| "win_call env Thread_start s = Some (prvWin32LoggingThread_start s)"
| "win_call env Thread_read s =
     (if xDirectPrint s \<or> w_xLength s \<noteq> None then None else prvWin32LoggingThread_read env s)"
| "win_call env Thread_print s = (if xDirectPrint s then None else prvWin32LoggingThread_print env s)"
| "win_call env Thread_turn s = (if xDirectPrint s then None else prvWin32LoggingThread_turn env s)"

section \<open>Frames\<close>

definition frame :: "string \<Rightarrow> string" where
  "frame m = int32_bytes (int (length m)) @ m"

text \<open>The text of the frames in the stream buffer: what a flush will print.\<close>

function unframe :: "string \<Rightarrow> string" where
  "unframe bs =
     (if length bs < 4 then []
      else let n = size_of_bytes (take 4 bs)
           in until_nul (take n (drop 4 bs)) @ unframe (drop (4 + n) bs))"
  by pat_completeness auto
termination
  by (relation "measure length") auto

declare unframe.simps [simp del]

definition short :: "string list \<Rightarrow> bool" where
  "short ms \<longleftrightarrow> (\<forall>m \<in> set ms. length m < 2048)"

lemma length_frame [simp]: "length (frame m) = 4 + length m"
  by (simp add: frame_def)

lemma frame_parts:
  "take 4 (frame m @ rest) = int32_bytes (int (length m))" "drop 4 (frame m @ rest) = m @ rest"
  by (simp_all add: frame_def)

lemma unframe_frame:
  assumes "length m < 2 ^ 32"
  shows "unframe (frame m @ rest) = until_nul m @ unframe rest"
proof -
  have "drop (4 + length m) (frame m @ rest) = rest" "\<not> length (frame m @ rest) < 4"
    by (simp_all add: frame_def)
  moreover have "take (length m) (m @ rest) = m" by simp
  ultimately show ?thesis
    using int32_round_trip [OF assms] unframe.simps [of "frame m @ rest"]
    by (simp only: frame_parts Let_def if_False)
qed

lemma unframe_frames: "short ms \<Longrightarrow> unframe (concat (map frame ms)) = concat (map until_nul ms)"
proof (induction ms)
  case Nil
  then show ?case by (simp add: unframe.simps)
next
  case (Cons m ms)
  then show ?case by (simp add: short_def unframe_frame)
qed

section \<open>Flushing\<close>

lemma fifo_get:
  assumes "fifo_bytes api contents cap"
  obtains b' where "uxStreamBufferGet api n b = (take n (contents b), b')" "contents b' = drop n (contents b)"
proof -
  from assms have "fst (uxStreamBufferGet api n b) = take n (contents b)"
    "contents (snd (uxStreamBufferGet api n b)) = drop n (contents b)"
    by (simp_all add: fifo_bytes_def)
  with that show ?thesis by (metis prod.collapse)
qed

lemma flush_stops:
  "xLogStreamBuffer s = Some b \<Longrightarrow> uxStreamBufferGetSize api b \<le> 4 \<Longrightarrow>
   prvLoggingFlushBuffer api s = Some s"
  by (subst prvLoggingFlushBuffer.simps) (simp add: flush_length_def)

text \<open>The flush returns, and prints every message; at most an empty one stays behind.\<close>

lemma flush_frames:
  assumes fifo: "fifo_bytes api contents cap" and "short ms"
    and "xLogStreamBuffer s = Some b" and "contents b = concat (map frame ms)"
  shows "\<exists>b' ms'. prvLoggingFlushBuffer api s = Some (s\<lparr>xLogStreamBuffer := Some b',
      w_console := w_console s @ concat (map until_nul ms)\<rparr>)
    \<and> contents b' = concat (map frame ms') \<and> set ms' \<subseteq> {[]}"
  using assms(2-4)
proof (induction ms arbitrary: s b)
  case Nil
  then have "uxStreamBufferGetSize api b = 0" using fifo by (simp add: fifo_bytes_def)
  with Nil flush_stops [of s b api] show ?case
    by (intro exI [of _ b] exI [of _ "[]"]) simp
next
  case (Cons m ms)
  have size: "uxStreamBufferGetSize api b = length (contents b)"
    using fifo by (simp add: fifo_bytes_def)
  show ?case
  proof (cases "length (contents b) \<le> 4")
    case True
    with Cons.prems(3) have "m = []" "length (concat (map frame ms)) = 0" by auto
    moreover from this(2) have "ms = []" by (cases ms) simp_all
    ultimately show ?thesis
      using flush_stops [of s b api] True size Cons.prems
      by (intro exI [of _ b] exI [of _ "[[]]"]) (simp add: until_nul_def)
  next
    case False
    obtain b1 where b1: "uxStreamBufferGet api 4 b = (take 4 (contents b), b1)"
      "contents b1 = drop 4 (contents b)" using fifo by (rule fifo_get)
    obtain b2 where b2: "uxStreamBufferGet api (length m) b1 = (take (length m) (contents b1), b2)"
      "contents b2 = drop (length m) (contents b1)" using fifo by (rule fifo_get)
    have c: "contents b = frame m @ concat (map frame ms)" using Cons.prems(3) by simp
    have lm: "length m < 2048" "short ms" using Cons.prems(1) by (simp_all add: short_def)
    have parts: "take 4 (contents b) = int32_bytes (int (length m))"
      "contents b1 = m @ concat (map frame ms)" "contents b2 = concat (map frame ms)"
      using b1(2) b2(2) unfolding c by (simp_all only: frame_parts) simp_all
    let ?s = "s\<lparr>xLogStreamBuffer := Some b2, w_console := w_console s @ until_nul m\<rparr>"
    have "prvLoggingFlushBuffer api s = prvLoggingFlushBuffer api ?s"
      using Cons.prems(2) False size b1(1) b2(1) lm
      by (subst prvLoggingFlushBuffer.simps)
        (simp add: flush_length_def flush_print_def parts int32_round_trip)
    with Cons.IH [OF lm(2), of ?s b2] parts(3) show ?thesis by auto
  qed
qed

text \<open>
  A caller that prints directly has taken the length of a message from the buffer when the thread
  starts: the thread takes the first characters of the message for a length, and its assertion fails.
\<close>

lemma startup_flush_race:
  assumes fifo: "fifo_bytes api contents cap" and b: "xLogStreamBuffer s = Some b" "contents b = frame m"
    and m: "4 < length m" "length m < 2048" "2048 \<le> size_of_bytes (take 4 m)"
  obtains s1 where "flush_length api s = Some (Some (length m), s1)"
    "flush_length api (prvWin32LoggingThread_start s1) = None"
proof -
  have size: "uxStreamBufferGetSize api c = length (contents c)" for c
    using fifo by (simp add: fifo_bytes_def)
  obtain b1 where b1: "uxStreamBufferGet api 4 b = (take 4 (contents b), b1)"
    "contents b1 = drop 4 (contents b)" using fifo by (rule fifo_get)
  obtain b2 where b2: "uxStreamBufferGet api 4 b1 = (take 4 (contents b1), b2)"
    using fifo by (rule fifo_get) blast
  have c: "contents b1 = m" "take 4 (frame m) = int32_bytes (int (length m))"
    using b1(2) b(2) by (simp_all add: frame_def)
  have "m \<noteq> []" using m(1) by auto
  then have "flush_length api s = Some (Some (length m), s\<lparr>xLogStreamBuffer := Some b1\<rparr>)"
    using b m(1,2) b1(1) by (simp add: flush_length_def size c(2) int32_round_trip Let_def)
  then show thesis
    by (rule that)
      (use m b2 in \<open>simp add: flush_length_def prvWin32LoggingThread_start_def size c(1) configASSERT_def Let_def\<close>)
qed

lemma startup_flush_race_example:
  "2048 \<le> size_of_bytes (take 4 ''INFO: A 0 7 --- '')"
  by (simp add: size_of_bytes_def char_code_def)

section \<open>What the calls print\<close>

text \<open>
  The buffer holds whole frames, after the rest of the one that the thread is printing, and the
  mutex exists; the text shown is what has been printed and what the buffer still holds.
\<close>

definition win_good :: "('b \<Rightarrow> string) \<Rightarrow> ('m, 'b) win_log \<Rightarrow> bool" where
  "win_good contents s \<longleftrightarrow> xStreamBufferMutex s \<noteq> None
     \<and> (w_xLength s \<noteq> None \<longrightarrow> \<not> xDirectPrint s)
     \<and> (\<exists>b m0 ms. xLogStreamBuffer s = Some b \<and> contents b = m0 @ concat (map frame ms) \<and> short ms
          \<and> (case w_xLength s of None \<Rightarrow> m0 = [] | Some n \<Rightarrow> length m0 = n))"

definition win_shown :: "('b \<Rightarrow> string) \<Rightarrow> ('m, 'b) win_log \<Rightarrow> string" where
  "win_shown contents s =
     w_console s @ (case xLogStreamBuffer s of
         Some b \<Rightarrow> (case w_xLength s of
             None \<Rightarrow> unframe (contents b)
           | Some n \<Rightarrow> until_nul (take n (contents b)) @ unframe (drop n (contents b)))
       | None \<Rightarrow> [])"

definition win_holder :: "('m, 'b) win_env \<Rightarrow> ('m, 'b) win_log \<Rightarrow> u32" where
  "win_holder env s =
     (case xStreamBufferMutex s of Some m \<Rightarrow> xSemaphoreGetMutexHolder (w_mutex_api env) m | None \<Rightarrow> 0)"

lemma win_good_mutex [simp]:
  "win_good contents s \<Longrightarrow> win_good contents (s\<lparr>xStreamBufferMutex := Some m\<rparr>)"
  "win_good contents (s\<lparr>w_xMessageNumber := i\<rparr>) = win_good contents s"
  "win_good contents s \<Longrightarrow> win_good contents (prvWin32LoggingThread_start s)"
  "win_shown contents (s\<lparr>xStreamBufferMutex := m'\<rparr>) = win_shown contents s"
  "win_shown contents (prvWin32LoggingThread_start s) = win_shown contents s"
  "win_shown contents (s\<lparr>w_xMessageNumber := i\<rparr>) = win_shown contents s"
  by (simp_all add: win_good_def win_shown_def prvWin32LoggingThread_start_def cong: option.case_cong)

lemma until_nul_Nil [simp]: "until_nul [] = []"
  by (simp add: until_nul_def)

lemma win_shown_frames:
  assumes "xLogStreamBuffer s = Some b" and "contents b = m0 @ concat (map frame ms)" and "short ms"
    and "case w_xLength s of None \<Rightarrow> m0 = [] | Some n \<Rightarrow> length m0 = n"
  shows "win_shown contents s = w_console s @ until_nul m0 @ concat (map until_nul ms)"
  using assms by (auto simp: win_shown_def unframe_frames split: option.splits)

lemma win_goodE:
  assumes "win_good contents s"
  obtains m b m0 ms where "xStreamBufferMutex s = Some m" "xLogStreamBuffer s = Some b"
    "contents b = m0 @ concat (map frame ms)" "short ms"
    "case w_xLength s of None \<Rightarrow> m0 = [] | Some n \<Rightarrow> length m0 = n"
    "win_shown contents s = w_console s @ until_nul m0 @ concat (map until_nul ms)"
proof -
  from assms obtain m b m0 ms where "xStreamBufferMutex s = Some m" and b: "xLogStreamBuffer s = Some b"
    "contents b = m0 @ concat (map frame ms)" "short ms"
    "case w_xLength s of None \<Rightarrow> m0 = [] | Some n \<Rightarrow> length m0 = n"
    by (auto simp: win_good_def)
  with that win_shown_frames [of s b contents m0 ms, OF b] show thesis by blast
qed

lemma flush_good:
  assumes "fifo_bytes api contents cap" and "win_good contents s" and "w_xLength s = None"
  obtains s' where "prvLoggingFlushBuffer api s = Some s'" "win_good contents s'"
    "win_shown contents s' = win_shown contents s" "w_console s' = win_shown contents s"
    "xStreamBufferMutex s' = xStreamBufferMutex s" "xDirectPrint s' = xDirectPrint s"
proof -
  from assms(2) obtain m b m0 ms where b: "xStreamBufferMutex s = Some m" "xLogStreamBuffer s = Some b"
    "contents b = m0 @ concat (map frame ms)" "short ms"
    "case w_xLength s of None \<Rightarrow> m0 = [] | Some n \<Rightarrow> length m0 = n"
    "win_shown contents s = w_console s @ until_nul m0 @ concat (map until_nul ms)" by (rule win_goodE)
  then have m0: "m0 = []" using assms(3) by simp
  then have "contents b = concat (map frame ms)" using b(3) by simp
  from flush_frames [OF assms(1) b(4,2) this] obtain b' ms' where
    f: "prvLoggingFlushBuffer api s = Some (s\<lparr>xLogStreamBuffer := Some b',
      w_console := w_console s @ concat (map until_nul ms)\<rparr>)" (is "_ = Some ?s'")
    and ms': "contents b' = concat (map frame ms')" "set ms' \<subseteq> {[]}" by blast
  have sh: "short ms'" using ms'(2) by (auto simp: short_def)
  moreover have "concat (map until_nul ms') = []" using ms'(2) by (auto simp: until_nul_def)
  ultimately have "win_shown contents ?s' = w_console ?s'"
    using ms'(1) assms(3) by (simp add: win_shown_def unframe_frames)
  moreover have "win_good contents ?s'" using ms'(1) sh b(1) assms(3) by (auto simp: win_good_def)
  ultimately show ?thesis using that [OF f] b(6) m0 by simp
qed

text \<open>The single steps of the thread.\<close>

lemma thread_read_good:
  assumes fifo: "fifo_bytes (w_stream_api env) contents cap" and good: "win_good contents s"
    and "w_xLength s = None" and direct: "\<not> xDirectPrint s"
    and run: "prvWin32LoggingThread_read env s = Some s'"
  shows "win_good contents s' \<and> win_shown contents s' = win_shown contents s
    \<and> xStreamBufferMutex s' = xStreamBufferMutex s"
proof -
  from good obtain m b m0 ms where b: "xStreamBufferMutex s = Some m" "xLogStreamBuffer s = Some b"
    "contents b = m0 @ concat (map frame ms)" "short ms"
    "case w_xLength s of None \<Rightarrow> m0 = [] | Some n \<Rightarrow> length m0 = n"
    "win_shown contents s = w_console s @ until_nul m0 @ concat (map until_nul ms)" by (rule win_goodE)
  with assms(3) have c: "contents b = concat (map frame ms)" by simp
  have size: "uxStreamBufferGetSize (w_stream_api env) b = length (contents b)"
    using fifo by (simp add: fifo_bytes_def)
  show ?thesis
  proof (cases "4 < length (contents b)")
    case False
    with run size b(2) assms(3) have "s' = s"
      by (auto simp: prvWin32LoggingThread_read_def flush_length_def)
    with good show ?thesis by simp
  next
    case True
    with c obtain x xs where ms: "ms = x # xs" by (cases ms) auto
    obtain b1 where b1: "uxStreamBufferGet (w_stream_api env) 4 b = (take 4 (contents b), b1)"
      "contents b1 = drop 4 (contents b)" using fifo by (rule fifo_get)
    have x: "length x < 2048" "short xs" using b(4) by (simp_all add: ms short_def)
    have parts: "take 4 (contents b) = int32_bytes (int (length x))"
      "contents b1 = x @ concat (map frame xs)"
      using b1(2) c unfolding ms by (simp_all only: list.map concat.simps frame_parts)
    from run True size b(2) b1(1) x have s': "s' = s\<lparr>xLogStreamBuffer := Some b1, w_xLength := Some (length x)\<rparr>"
      by (auto simp: prvWin32LoggingThread_read_def flush_length_def parts(1) int32_round_trip)
    have "win_good contents s'" using parts(2) x(2) b(1) direct by (auto simp: win_good_def s')
    moreover have "win_shown contents s' = w_console s' @ until_nul x @ concat (map until_nul xs)"
      using win_shown_frames [of s' b1 contents x xs, OF _ parts(2) x(2)] by (simp add: s')
    ultimately show ?thesis using b(5,6) assms(3) by (simp add: s' ms)
  qed
qed

lemma thread_print_good:
  assumes fifo: "fifo_bytes (w_stream_api env) contents cap" and good: "win_good contents s"
    and "w_xLength s \<noteq> None"
  obtains s' where "prvWin32LoggingThread_print env s = Some s'" "win_good contents s'"
    "win_shown contents s' = win_shown contents s" "xStreamBufferMutex s' = xStreamBufferMutex s"
    "w_xLength s' = None" "xDirectPrint s' = xDirectPrint s"
proof -
  from good obtain m b m0 ms where b: "xStreamBufferMutex s = Some m" "xLogStreamBuffer s = Some b"
    "contents b = m0 @ concat (map frame ms)" "short ms"
    "case w_xLength s of None \<Rightarrow> m0 = [] | Some n \<Rightarrow> length m0 = n"
    "win_shown contents s = w_console s @ until_nul m0 @ concat (map until_nul ms)" by (rule win_goodE)
  with assms(3) have n: "w_xLength s = Some (length m0)" by auto
  obtain b2 where b2: "uxStreamBufferGet (w_stream_api env) (length m0) b = (take (length m0) (contents b), b2)"
    "contents b2 = drop (length m0) (contents b)" using fifo by (rule fifo_get)
  let ?s = "s\<lparr>xLogStreamBuffer := Some b2, w_console := w_console s @ until_nul m0, w_xLength := None\<rparr>"
  have "prvWin32LoggingThread_print env s = Some ?s"
    using b(2,3) b2(1) by (simp add: prvWin32LoggingThread_print_def flush_print_def n)
  moreover have c: "contents b2 = [] @ concat (map frame ms)" using b2(2) b(3) by simp
  then have "win_good contents ?s" using b(1,4) by (auto simp: win_good_def)
  moreover have "win_shown contents ?s = w_console ?s @ until_nul [] @ concat (map until_nul ms)"
    using win_shown_frames [of ?s b2 contents "[]" ms, OF _ c b(4)] by simp
  ultimately show ?thesis using b(6) by (intro that [of ?s]) simp_all
qed

lemma thread_turn_good:
  assumes fifo: "fifo_bytes (w_stream_api env) contents cap" and good: "win_good contents s"
  obtains s' where "prvWin32LoggingThread_turn env s = Some s'" "win_good contents s'"
    "win_shown contents s' = win_shown contents s" "w_console s' = win_shown contents s"
    "xStreamBufferMutex s' = xStreamBufferMutex s"
proof (cases "w_xLength s = None")
  case True
  from fifo good True obtain s' where s': "prvLoggingFlushBuffer (w_stream_api env) s = Some s'"
    "win_good contents s'" "win_shown contents s' = win_shown contents s"
    "w_console s' = win_shown contents s" "xStreamBufferMutex s' = xStreamBufferMutex s"
    by (rule flush_good)
  show thesis
    by (rule that [OF _ s'(2-5)]) (simp add: prvWin32LoggingThread_turn_def True s'(1))
next
  case False
  from fifo good False obtain s1 where s1: "prvWin32LoggingThread_print env s = Some s1"
    "win_good contents s1" "win_shown contents s1 = win_shown contents s"
    "xStreamBufferMutex s1 = xStreamBufferMutex s" "w_xLength s1 = None" by (rule thread_print_good)
  from fifo s1(2,5) obtain s' where s': "prvLoggingFlushBuffer (w_stream_api env) s1 = Some s'"
    "win_good contents s'" "win_shown contents s' = win_shown contents s1"
    "w_console s' = win_shown contents s1" "xStreamBufferMutex s' = xStreamBufferMutex s1"
    by (rule flush_good)
  show thesis
    by (rule that [OF _ s'(2) s'(3-5) [unfolded s1(3,4)]])
       (simp add: prvWin32LoggingThread_turn_def False s1(1) s'(1))
qed

text \<open>
  A message of \<open>len\<close> characters behind its length, in an array of 2048: dropped when there is
  no room, read beyond the array when it is longer, or appended to the frames.
\<close>

definition enqueued :: "('m, 'b) win_env \<Rightarrow> string \<Rightarrow> 'b \<Rightarrow> nat \<Rightarrow> ('m, 'b) win_log \<Rightarrow> ('m, 'b) win_log" where
  "enqueued env arr b len s =
     s\<lparr>xLogStreamBuffer := Some (uxStreamBufferAdd (w_stream_api env) (take (len + 4) arr) b)\<rparr>"

lemma enqueue_eq:
  assumes arr: "length arr = 2048" "len + 4 < 2 ^ 31" and b: "xLogStreamBuffer s = Some b"
  shows "win_enqueue env arr (int len + 4) s =
    (if uxStreamBufferGetSpace (w_stream_api env) b < len + 4 then Some s
     else if 2044 < len then None
     else if xDirectPrint s then prvLoggingFlushBuffer (w_stream_api env) (enqueued env arr b len s)
     else Some (enqueued env arr b len s))"
proof -
  have "int len + 4 = int (len + 4)" by simp
  then have n: "unat (of_int (int len + 4) :: u32) = len + 4"
    using unat_of_nat32 [OF order_less_trans [OF arr(2)]] by (simp only: of_int_of_nat_eq) simp
  show ?thesis
    unfolding win_enqueue_def Let_def n using b arr(1)
    by (simp add: mem_read_def enqueued_def not_less)
qed

lemma enqueued_good:
  assumes fifo: "fifo_bytes (w_stream_api env) contents cap" and good: "win_good contents s"
    and arr: "length arr = 2048" "take 4 arr = int32_bytes (int len)" "len \<le> 2044"
    and b: "xLogStreamBuffer s = Some b" "len + 4 \<le> uxStreamBufferGetSpace (w_stream_api env) b"
  shows "win_good contents (enqueued env arr b len s)
    \<and> win_shown contents (enqueued env arr b len s) =
        win_shown contents s @ until_nul (take len (drop 4 arr))"
proof -
  let ?m = "take len (drop 4 arr)"
  from good b(1) obtain m m0 ms where ms: "xStreamBufferMutex s = Some m"
    "contents b = m0 @ concat (map frame ms)" "short ms"
    "win_shown contents s = w_console s @ until_nul m0 @ concat (map until_nul ms)"
    and m0: "case w_xLength s of None \<Rightarrow> m0 = [] | Some n \<Rightarrow> length m0 = n"
    by (auto elim: win_goodE)
  have lm: "length ?m = len" using arr(1,3) by simp
  have fr: "take (len + 4) arr = frame ?m"
    using take_add [of 4 len arr] arr(2) lm by (simp add: frame_def add.commute)
  have "contents (uxStreamBufferAdd (w_stream_api env) (take (len + 4) arr) b) =
      contents b @ take (len + 4) arr"
    using fifo b(2) arr(1,3) by (simp add: fifo_bytes_def)
  then have cb: "contents (uxStreamBufferAdd (w_stream_api env) (take (len + 4) arr) b) =
      m0 @ concat (map frame (ms @ [?m]))" using fr ms(2) by simp
  have sh: "short (ms @ [?m])" using ms(3) lm arr(3) by (simp add: short_def)
  have "win_good contents (enqueued env arr b len s)"
    unfolding win_good_def enqueued_def using good
    by (intro conjI exI [of _ "uxStreamBufferAdd (w_stream_api env) (take (len + 4) arr) b"]
      exI [of _ m0] exI [of _ "ms @ [?m]"] cb sh) (simp_all add: ms(1) m0 win_good_def)
  moreover have "win_shown contents (enqueued env arr b len s) =
      win_shown contents s @ until_nul ?m"
  proof -
    have "win_shown contents (enqueued env arr b len s) =
        w_console s @ until_nul m0 @ concat (map until_nul (ms @ [?m]))"
      using win_shown_frames [of "enqueued env arr b len s"
          "uxStreamBufferAdd (w_stream_api env) (take (len + 4) arr) b" contents m0 "ms @ [?m]", OF _ cb sh] m0 by (simp add: enqueued_def)
    then show ?thesis using ms(4) by simp
  qed
  ultimately show ?thesis by simp
qed

text \<open>Whether the stream buffer has room for a message of \<open>len\<close> characters and its length.\<close>

definition room :: "('m, 'b) win_env \<Rightarrow> ('m, 'b) win_log \<Rightarrow> nat \<Rightarrow> bool" where
  "room env s len \<longleftrightarrow> (case xLogStreamBuffer s of
       None \<Rightarrow> False
     | Some b \<Rightarrow> len + iMessageLengthBytes \<le> uxStreamBufferGetSpace (w_stream_api env) b)"

lemma room_simps [simp]:
  "room env (s\<lparr>xStreamBufferMutex := m\<rparr>) len = room env s len"
  "room env (s\<lparr>w_xMessageNumber := i\<rparr>) len = room env s len"
  by (simp_all add: room_def)

lemma enqueue_good:
  assumes fifo: "fifo_bytes (w_stream_api env) contents cap" and good: "win_good contents s"
    and arr: "length arr = 2048" "take 4 arr = int32_bytes (int len)" "len + 4 < 2 ^ 31"
    and run: "win_enqueue env arr (int len + 4) s = Some s'"
  shows "win_good contents s' \<and> xStreamBufferMutex s' = xStreamBufferMutex s
    \<and> win_shown contents s' = win_shown contents s
        @ (if room env s len then until_nul (take len (drop 4 arr)) else [])"
proof -
  from good obtain b where b: "xLogStreamBuffer s = Some b" by (auto simp: win_good_def)
  note eq = enqueue_eq [where env = env, OF arr(1,3) b]
  let ?s = "enqueued env arr b len s"
  show ?thesis
  proof (cases "room env s len")
    case False
    then have "uxStreamBufferGetSpace (w_stream_api env) b < len + 4"
      using b by (simp add: room_def iMessageLengthBytes_def)
    with run eq good False show ?thesis by simp
  next
    case True
    then have space: "len + 4 \<le> uxStreamBufferGetSpace (w_stream_api env) b"
      using b by (simp add: room_def iMessageLengthBytes_def)
    with run eq have len: "len \<le> 2044" by (auto split: if_splits)
    have g: "win_good contents ?s"
      "win_shown contents ?s = win_shown contents s @ until_nul (take len (drop 4 arr))"
      using enqueued_good [OF fifo good arr(1,2) len b space] by simp_all
    have m: "xStreamBufferMutex ?s = xStreamBufferMutex s" by (simp add: enqueued_def)
    show ?thesis
    proof (cases "xDirectPrint s")
      case False
      with run eq space len g m True show ?thesis by simp
    next
      case direct: True
      with good have "w_xLength ?s = None" by (auto simp: win_good_def enqueued_def)
      with fifo g(1) obtain s2 where "prvLoggingFlushBuffer (w_stream_api env) ?s = Some s2"
        "win_good contents s2" "win_shown contents s2 = win_shown contents ?s"
        "xStreamBufferMutex s2 = xStreamBufferMutex ?s" by (rule flush_good)
      with run eq space len g m True direct show ?thesis by simp
    qed
  qed
qed

text \<open>With room for it, such a message is read within the array, or the call fails.\<close>

lemma enqueue_returns:
  assumes fifo: "fifo_bytes (w_stream_api env) contents cap" and good: "win_good contents s"
    and arr: "length arr = 2048" "take 4 arr = int32_bytes (int len)" "len + 4 < 2 ^ 31"
    and b: "xLogStreamBuffer s = Some b" "length (contents b) + len + 4 \<le> cap"
  shows "win_enqueue env arr (int len + 4) s = None \<longleftrightarrow> 2044 < len"
proof -
  note eq = enqueue_eq [where env = env, OF arr(1,3) b(1)]
  have room: "len + 4 \<le> uxStreamBufferGetSpace (w_stream_api env) b"
    using fifo b(2) by (simp add: fifo_bytes_def)
  show ?thesis
  proof (cases "2044 < len")
    case True
    with eq room show ?thesis by simp
  next
    case False
    then have g: "win_good contents (enqueued env arr b len s)"
      using enqueued_good [OF fifo good arr(1,2) _ b(1) room] by simp
    have "xDirectPrint s \<Longrightarrow> \<exists>s2. prvLoggingFlushBuffer (w_stream_api env) (enqueued env arr b len s) = Some s2"
    proof -
      assume "xDirectPrint s"
      with good have "w_xLength (enqueued env arr b len s) = None" by (auto simp: win_good_def enqueued_def)
      from flush_good [OF fifo g this] show ?thesis by blast
    qed
    with eq room False show ?thesis by auto
  qed
qed

text \<open>Once the thread runs, a message that fits is appended, and nothing else happens.\<close>

lemma enqueue_shown:
  assumes fifo: "fifo_bytes (w_stream_api env) contents cap" and good: "win_good contents s"
    and arr: "length arr = 2048" "take 4 arr = int32_bytes (int len)" "len \<le> 2044"
    and b: "xLogStreamBuffer s = Some b" "length (contents b) + len + 4 \<le> cap"
    and thread: "\<not> xDirectPrint s"
  obtains s' b' where "win_enqueue env arr (int len + 4) s = Some s'" "win_good contents s'"
    "win_shown contents s' = win_shown contents s @ until_nul (take len (drop 4 arr))"
    "xStreamBufferMutex s' = xStreamBufferMutex s" "\<not> xDirectPrint s'"
    "xLogStreamBuffer s' = Some b'" "length (contents b') = length (contents b) + len + 4"
proof -
  have room: "len + 4 \<le> uxStreamBufferGetSpace (w_stream_api env) b"
    using fifo b(2) by (simp add: fifo_bytes_def)
  have "len + 4 < 2 ^ 31" using arr(3) by simp
  from enqueue_eq [OF arr(1) this b(1), of env]
  have e: "win_enqueue env arr (int len + 4) s = Some (enqueued env arr b len s)"
    using room arr(3) thread by simp
  have "length (contents (uxStreamBufferAdd (w_stream_api env) (take (len + 4) arr) b)) =
      length (contents b) + len + 4"
    using fifo room arr(1,3) by (simp add: fifo_bytes_def)
  then show ?thesis
    using enqueued_good [OF fifo good arr b(1) room]
    by (intro that [OF e]) (auto simp: enqueued_def thread)
qed

text \<open>
  What a call that has the mutex puts into the stream buffer: the length of its message and the text of
  it, cut off where the array ends; nothing when there is no room.
\<close>

fun win_message :: "win_event \<Rightarrow> ('m, 'b) win_log \<Rightarrow> nat \<times> string" where
  "win_message (Log a b (Metadata t l n k)) s =
     (let h = header_text l n (w_xMessageNumber s) k in (length h, until_nul (take 2043 h)))"
| "win_message (Log a b (Print t txt)) s = (length txt + 2, take 2041 txt @ pcNewline)"
| "win_message (Log a b (Tcp_print t txt)) s =
     (case ips (take 4 b) (tcp_source txt) of
        None \<Rightarrow> (0, [])
      | Some z \<Rightarrow> (length (drop 4 z), until_nul (drop 4 z)))"
| "win_message _ s = (0, [])"

definition win_prints :: "('m, 'b) win_env \<Rightarrow> win_event \<Rightarrow> ('m, 'b) win_log \<Rightarrow> string" where
  "win_prints env e s =
     (if room env s (fst (win_message e s)) then snd (win_message e s) else [])"

text \<open>
  The local arrays have their size, the output array does not start with what looks like
  digits, the messages are C strings and their lengths are those of an \<open>int\<close>.
\<close>

fun win_fits :: "win_event \<Rightarrow> bool" where
  "win_fits (Log a b c) \<longleftrightarrow> length a = 2048 \<and> length b = 2048 \<and> \<not> isxdigit (b ! 3)
     \<and> (case c of
          Metadata _ l n k \<Rightarrow> \<forall>i. length (header_text l n i k) + 4 < 2 ^ 31
        | Print _ txt \<Rightarrow> length txt + 6 < 2 ^ 31 \<and> CHR 0x00 \<notin> set txt
        | Tcp_print _ txt \<Rightarrow> True)"
| "win_fits _ \<longleftrightarrow> True"

section \<open>The arrays\<close>

lemma snprintf_frame:
  assumes "length a = 2048" and "length txt < 2 ^ 31" and "k \<le> 2043"
  shows "snprintf a iMessageLengthBytes (of_nat (Suc k)) txt =
    Some (int (length txt), take 4 a @ take k txt @ CHR 0x00 # drop (5 + min (length txt) k) a)"
proof -
  have "unat (of_nat (Suc k) :: u32) = Suc k" by (rule unat_of_nat32) (use assms(3) in simp)
  moreover from this have "(of_nat (Suc k) :: u32) \<noteq> 0" by (metis nat.simps(3) unat_0)
  moreover have "mem_write a 4 (take k txt @ [CHR 0x00]) =
      Some (take 4 a @ take k txt @ CHR 0x00 # drop (5 + min (length txt) k) a)"
    using assms(1,3) by (simp add: mem_write_def)
  ultimately show ?thesis
    using assms(2) by (simp add: snprintf_def iMessageLengthBytes_def del: of_nat_Suc mem_write_in)
qed

lemma sizes:
  "dlMAX_PRINT_STRING_LENGTH - of_nat iMessageLengthBytes = of_nat (Suc 2043)"
  "dlMAX_PRINT_STRING_LENGTH - of_nat iMessageLengthBytes - of_nat (length pcNewline) = of_nat (Suc 2041)"
  by (simp_all add: dlMAX_PRINT_STRING_LENGTH_def iMessageLengthBytes_def pcNewline_def)

lemma write_length:
  "4 \<le> length a \<Longrightarrow> mem_write (take 4 a @ rest) 0 (int32_bytes i) = Some (int32_bytes i @ rest)"
  by (simp add: mem_write_def)

lemma until_nul_take:
  assumes "length w \<le> n"
  shows "until_nul (take n (w @ CHR 0x00 # rest)) = until_nul w"
proof -
  have "take n (w @ CHR 0x00 # rest) = w @ take (n - length w) (CHR 0x00 # rest)"
    using assms by simp
  then show ?thesis
    unfolding until_nul_def by (cases "n - length w") (simp_all add: takeWhile_tail)
qed

lemma until_nul_id: "CHR 0x00 \<notin> set w \<Longrightarrow> until_nul w = w"
  by (auto simp: until_nul_def takeWhile_eq_all_conv)

lemma strcat_frame:
  assumes "length a = 2048" and "CHR 0x00 \<notin> set w" and "length w \<le> 2041"
  shows "\<exists>rest'. strcat (take 4 a @ w @ CHR 0x00 # rest) iMessageLengthBytes pcNewline =
      (if length rest < 2 then None else Some (take 4 a @ w @ pcNewline @ CHR 0x00 # rest'))
    \<and> (2 \<le> length rest \<longrightarrow> length rest' = length rest - 2)"
proof -
  have u: "until_nul (w @ CHR 0x00 # rest) = w"
    using assms(2) unfolding until_nul_def
    by (simp add: takeWhile_tail takeWhile_eq_all_conv)
      (metis takeWhile_eq_all_conv)
  have l4: "length (take 4 a) = 4" using assms(1) by simp
  have "drop 4 (take 4 a @ w @ CHR 0x00 # rest) = w @ CHR 0x00 # rest" using l4 by simp
  then have "strcat (take 4 a @ w @ CHR 0x00 # rest) iMessageLengthBytes pcNewline =
      mem_write (take 4 a @ w @ CHR 0x00 # rest) (4 + length w) (pcNewline @ [CHR 0x00])"
    by (simp add: strcat_def iMessageLengthBytes_def u)
  also have "\<dots> = (if length rest < 2 then None
      else Some (take 4 a @ w @ pcNewline @ CHR 0x00 # drop 2 rest))"
    using l4 by (auto simp: mem_write_def pcNewline_def numeral_2_eq_2)
  finally show ?thesis by (intro exI [of _ "drop 2 rest"]) simp
qed

section \<open>The three calls\<close>

lemma win_metadata_array:
  assumes a: "length a = 2048" and len: "length (header_text l n (w_xMessageNumber s) k) + 4 < 2 ^ 31"
    and m: "xStreamBufferMutex s = Some m" "xSemaphoreTake (w_mutex_api env) t m = (True, m')"
  obtains arr where "length arr = 2048"
    "take 4 arr = int32_bytes (int (length (header_text l n (w_xMessageNumber s) k)))"
    "until_nul (take (length (header_text l n (w_xMessageNumber s) k)) (drop 4 arr)) =
       until_nul (take 2043 (header_text l n (w_xMessageNumber s) k))"
    "win_xLoggingPrintMetadata env a t l n k s =
      map_option (Pair (int (length (header_text l n (w_xMessageNumber s) k)) + 4))
        (win_enqueue env arr (int (length (header_text l n (w_xMessageNumber s) k)) + 4)
          (s\<lparr>xStreamBufferMutex := Some m', w_xMessageNumber := w_xMessageNumber s + 1\<rparr>))"
proof -
  let ?h = "header_text l n (w_xMessageNumber s) k"
  let ?rest = "drop (5 + min (length ?h) 2043) a"
  let ?arr = "int32_bytes (int (length ?h)) @ take 2043 ?h @ CHR 0x00 # ?rest"
  let ?s2 = "s\<lparr>xStreamBufferMutex := Some m', w_xMessageNumber := w_xMessageNumber s + 1\<rparr>"
  have larr: "length ?arr = 2048" and bytes: "take 4 ?arr = int32_bytes (int (length ?h))"
    using a by simp_all
  have "until_nul (take (length ?h) (take 2043 ?h @ CHR 0x00 # ?rest)) = until_nul (take 2043 ?h)"
    by (rule until_nul_take) simp
  then have shown: "until_nul (take (length ?h) (drop 4 ?arr)) = until_nul (take 2043 ?h)" by simp
  have "snprintf a iMessageLengthBytes (of_nat (Suc 2043)) ?h =
      Some (int (length ?h), take 4 a @ take 2043 ?h @ CHR 0x00 # ?rest)"
    using a len by (intro snprintf_frame) auto
  with m a have "win_xLoggingPrintMetadata env a t l n k s =
      map_option (Pair (int (length ?h) + 4)) (win_enqueue env ?arr (int (length ?h) + 4) ?s2)"
    by (cases "win_enqueue env ?arr (int (length ?h) + 4) ?s2")
      (simp_all add: win_xLoggingPrintMetadata_def sizes write_length Let_def, simp_all add: iMessageLengthBytes_def)
  from that [OF larr bytes shown this] show ?thesis .
qed

lemma win_metadata_run:
  assumes mutex: "exclusive (w_mutex_api env)" and fifo: "fifo_bytes (w_stream_api env) contents cap"
    and t: "t \<noteq> 0" and good: "win_good contents s" and a: "length a = 2048"
    and len: "\<forall>i. length (header_text l n i k) + 4 < 2 ^ 31"
    and run: "win_xLoggingPrintMetadata env a t l n k s = Some (r, s')"
  shows "win_good contents s' \<and> (if win_holder env s = 0
    then win_holder env s' = t
      \<and> win_shown contents s' = win_shown contents s @ win_prints env (Log a b (Metadata t l n k)) s
    else win_holder env s' = win_holder env s \<and> win_shown contents s' = win_shown contents s)"
proof -
  from good obtain m where m: "xStreamBufferMutex s = Some m" by (auto simp: win_good_def)
  from mutex t obtain m' where m':
    "xSemaphoreTake (w_mutex_api env) t m = (xSemaphoreGetMutexHolder (w_mutex_api env) m = 0, m')"
    "xSemaphoreGetMutexHolder (w_mutex_api env) m' =
       (if xSemaphoreGetMutexHolder (w_mutex_api env) m = 0 then t
        else xSemaphoreGetMutexHolder (w_mutex_api env) m)"
    by (rule exclusive_take)
  show ?thesis
  proof (cases "xSemaphoreGetMutexHolder (w_mutex_api env) m = 0")
    case False
    with run m m' good show ?thesis
      by (auto simp: win_xLoggingPrintMetadata_def win_holder_def)
  next
    case True
    let ?h = "header_text l n (w_xMessageNumber s) k"
    let ?s2 = "s\<lparr>xStreamBufferMutex := Some m', w_xMessageNumber := w_xMessageNumber s + 1\<rparr>"
    have lh: "length ?h + 4 < 2 ^ 31" using len by blast
    have tk: "xSemaphoreTake (w_mutex_api env) t m = (True, m')" using m'(1) True by simp
    from win_metadata_array [OF a lh m tk] obtain arr where
      arr: "length arr = 2048" "take 4 arr = int32_bytes (int (length ?h))"
        "until_nul (take (length ?h) (drop 4 arr)) = until_nul (take 2043 ?h)"
      and eq: "win_xLoggingPrintMetadata env a t l n k s =
        map_option (Pair (int (length ?h) + 4)) (win_enqueue env arr (int (length ?h) + 4) ?s2)"
      by blast
    from run eq have q: "win_enqueue env arr (int (length ?h) + 4) ?s2 = Some s'" by auto
    have g2: "win_good contents ?s2" using good by simp
    have "win_shown contents ?s2 = win_shown contents s" by simp
    with enqueue_good [OF fifo g2 arr(1,2) lh q] arr(3)
    have "win_good contents s'" "xStreamBufferMutex s' = Some m'"
      "win_shown contents s' = win_shown contents s @ win_prints env (Log a b (Metadata t l n k)) s"
      by (simp_all add: win_prints_def Let_def)
    then show ?thesis
      using True m m' by (auto simp: win_holder_def)
  qed
qed

text \<open>The array that the message is put into, cut off where it has to be.\<close>

lemma win_print_array:
  assumes a: "length a = 2048" and str: "length txt + 6 < 2 ^ 31" "CHR 0x00 \<notin> set txt"
    and m: "xStreamBufferMutex s = Some m" "xSemaphoreGetMutexHolder (w_mutex_api env) m = t"
  obtains arr where "length arr = 2048" "take 4 arr = int32_bytes (int (length txt + 2))"
    "until_nul (take (length txt + 2) (drop 4 arr)) = take 2041 txt @ pcNewline"
    "win_vLoggingPrintf env a t txt s =
      map_option (\<lambda>s1. s1\<lparr>xStreamBufferMutex := Some (xSemaphoreGive (w_mutex_api env) m)\<rparr>)
        (win_enqueue env arr (int (length txt + 2) + 4) s)"
proof -
  let ?w = "take 2041 txt" and ?rest = "drop (5 + min (length txt) 2041) a"
  have sn: "snprintf a iMessageLengthBytes (of_nat (Suc 2041)) txt =
      Some (int (length txt), take 4 a @ ?w @ CHR 0x00 # ?rest)"
    using a str(1) by (intro snprintf_frame) auto
  have lr: "2 \<le> length ?rest" using a by simp
  have nw: "CHR 0x00 \<notin> set ?w" using str(2) by (auto dest: in_set_takeD)
  from strcat_frame [OF a nw, of ?rest] lr obtain rest' where
    sc: "strcat (take 4 a @ ?w @ CHR 0x00 # ?rest) iMessageLengthBytes pcNewline =
      Some (take 4 a @ ?w @ pcNewline @ CHR 0x00 # rest')"
    and lr': "length rest' = length ?rest - 2" by (auto simp: not_less)
  let ?len = "length txt + 2"
  let ?arr = "int32_bytes (int ?len) @ ?w @ pcNewline @ CHR 0x00 # rest'"
  have nl: "length pcNewline = 2" by (simp add: pcNewline_def)
  have arr: "length ?arr = 2048" using a lr' by (simp add: nl)
  have bytes: "take 4 ?arr = int32_bytes (int ?len)" by simp
  have wl: "mem_write (take 4 a @ ?w @ pcNewline @ CHR 0x00 # rest') 0 (int32_bytes i) =
      Some (int32_bytes i @ ?w @ pcNewline @ CHR 0x00 # rest')" for i
    by (rule write_length) (simp add: a)
  note steps = sn [simplified] sc
  have run: "win_vLoggingPrintf env a t txt s =
      map_option (\<lambda>s1. s1\<lparr>xStreamBufferMutex := Some (xSemaphoreGive (w_mutex_api env) m)\<rparr>)
        (win_enqueue env ?arr (int ?len + 4) s)"
    unfolding win_vLoggingPrintf_def sizes(2) using m
    by (cases "win_enqueue env ?arr (int ?len + 4) s")
      (simp_all add: steps [unfolded iMessageLengthBytes_def] iMessageLengthBytes_def wl Let_def nl
        add.commute)
  have "until_nul (take ?len ((?w @ pcNewline) @ CHR 0x00 # rest')) = ?w @ pcNewline"
  proof -
    have "CHR 0x00 \<notin> set (?w @ pcNewline)" using nw by (simp add: pcNewline_def)
    moreover have "length (?w @ pcNewline) \<le> ?len" by (simp add: nl)
    ultimately show ?thesis using until_nul_take until_nul_id by metis
  qed
  then have "until_nul (take ?len (drop 4 ?arr)) = ?w @ pcNewline" by simp
  from that [OF arr bytes this run] show ?thesis .
qed

lemma win_print_run:
  assumes mutex: "exclusive (w_mutex_api env)" and fifo: "fifo_bytes (w_stream_api env) contents cap"
    and t: "t \<noteq> 0" and good: "win_good contents s" and a: "length a = 2048"
    and str: "length txt + 6 < 2 ^ 31" "CHR 0x00 \<notin> set txt"
    and run: "win_vLoggingPrintf env a t txt s = Some s'"
  shows "win_good contents s' \<and> (if win_holder env s = t
    then win_holder env s' = 0
      \<and> win_shown contents s' = win_shown contents s @ win_prints env (Log a b (Print t txt)) s
    else win_holder env s' = win_holder env s \<and> win_shown contents s' = win_shown contents s)"
proof -
  from good obtain m where m: "xStreamBufferMutex s = Some m" by (auto simp: win_good_def)
  show ?thesis
  proof (cases "xSemaphoreGetMutexHolder (w_mutex_api env) m = t")
    case False
    with run m good show ?thesis by (auto simp: win_vLoggingPrintf_def win_holder_def)
  next
    case True
    from win_print_array [OF a str m True] obtain arr where
      arr: "length arr = 2048" "take 4 arr = int32_bytes (int (length txt + 2))"
        "until_nul (take (length txt + 2) (drop 4 arr)) = take 2041 txt @ pcNewline"
      and eq: "win_vLoggingPrintf env a t txt s =
        map_option (\<lambda>s1. s1\<lparr>xStreamBufferMutex := Some (xSemaphoreGive (w_mutex_api env) m)\<rparr>)
          (win_enqueue env arr (int (length txt + 2) + 4) s)" by blast
    from run eq obtain s1 where q: "win_enqueue env arr (int (length txt + 2) + 4) s = Some s1"
      and s': "s' = s1\<lparr>xStreamBufferMutex := Some (xSemaphoreGive (w_mutex_api env) m)\<rparr>" by auto
    have len: "length txt + 2 + 4 < 2 ^ 31" using str(1) by simp
    from enqueue_good [OF fifo good arr(1,2) len q] arr(3)
    have "win_good contents s1"
      "win_shown contents s1 = win_shown contents s @ win_prints env (Log a b (Print t txt)) s"
      by (simp_all add: win_prints_def)
    then show ?thesis
      using True m s' exclusive_give [OF mutex]
      by (auto simp: win_holder_def)
  qed
qed

text \<open>The rewriting does not look beyond a character that is no digit.\<close>

lemma length_takeWhile_take: "length (takeWhile P (take n xs)) \<le> length (takeWhile P xs)"
proof (induction xs arbitrary: n)
  case (Cons x xs)
  then show ?case by (cases n) simp_all
qed simp

lemma ips_prefix:
  assumes "p \<noteq> []" and "\<not> isxdigit (last p)"
  shows "ips (p @ w) src = Some r \<Longrightarrow> \<exists>y. r = p @ y"
proof (induction src arbitrary: w rule: measure_induct_rule [where f = length])
  case (less src)
  show ?case
  proof (cases src)
    case Nil
    with less.prems show ?thesis by auto
  next
    case (Cons c src')
    show ?thesis
    proof (cases "ip_mark src'")
      case False
      with less.prems less.IH [of src' "w @ [c]"] Cons show ?thesis by simp
    next
      case True
      let ?v = "w @ [c, hd src']"
      let ?k = "hex_tail (p @ ?v)"
      obtain q b where p: "p = q @ [b]" "\<not> isxdigit b"
        using assms by (cases p rule: rev_cases) auto
      have "?k \<le> length ?v"
      proof -
        have "takeWhile isxdigit (rev ?v @ b # rev q) = takeWhile isxdigit (rev ?v)"
          using p(2) by (simp add: takeWhile_tail)
        then have "length (takeWhile isxdigit (rev (p @ ?v))) \<le> length ?v"
          using length_takeWhile_le [of isxdigit "rev ?v"] by (simp add: p(1))
        moreover have "?k \<le> length (takeWhile isxdigit (rev (p @ ?v)))"
          unfolding hex_tail_def by (rule length_takeWhile_take)
        ultimately show ?thesis by simp
      qed
      then have tk: "take (length (p @ ?v) - ?k) (p @ ?v) = p @ take (length ?v - ?k) ?v" by simp
      let ?q = "dotted (hex_value (drop (length (p @ ?v) - ?k) (p @ ?v)))"
      have "ips (p @ take (length ?v - ?k) ?v @ ?q) (drop 3 src') = Some r"
        using less.prems Cons True tk by (auto simp: Let_def split: if_splits)
      with less.IH [of "drop 3 src'" "take (length ?v - ?k) ?v @ ?q"] Cons show ?thesis by simp
    qed
  qed
qed

lemma win_tcp_run:
  assumes mutex: "exclusive (w_mutex_api env)" and fifo: "fifo_bytes (w_stream_api env) contents cap"
    and t: "t \<noteq> 0" and good: "win_good contents s" and ab: "length a = 2048" "length b = 2048"
    and junk: "\<not> isxdigit (b ! 3)"
    and run: "win_vTCPLoggingPrintf env a b t txt s = Some s'"
  shows "win_good contents s' \<and> win_holder env s' = win_holder env s \<and> (if win_holder env s = 0
    then win_shown contents s' = win_shown contents s @ win_prints env (Log a b (Tcp_print t txt)) s
    else win_shown contents s' = win_shown contents s)"
proof -
  from good obtain m where m: "xStreamBufferMutex s = Some m" by (auto simp: win_good_def)
  from mutex t obtain m' where m':
    "xSemaphoreTake (w_mutex_api env) t m = (xSemaphoreGetMutexHolder (w_mutex_api env) m = 0, m')"
    "xSemaphoreGetMutexHolder (w_mutex_api env) m' =
       (if xSemaphoreGetMutexHolder (w_mutex_api env) m = 0 then t
        else xSemaphoreGetMutexHolder (w_mutex_api env) m)"
    by (rule exclusive_take)
  have src: "until_nul (print_buffer a txt) = tcp_source txt"
    by (simp add: until_nul_def source_string)
  from run m m' obtain out n str where
    e: "expand_loop (tcp_source txt) b 4 = Some (out, n)"
    and str: "mem_write out 0 (int32_bytes (int n - 4)) = Some str"
    and rest: "if xSemaphoreGetMutexHolder (w_mutex_api env) m = 0
      then (\<exists>s2. win_enqueue env str (int n) (s\<lparr>xStreamBufferMutex := Some m'\<rparr>) = Some s2
        \<and> s' = s2\<lparr>xStreamBufferMutex := Some (xSemaphoreGive (w_mutex_api env) m')\<rparr>)
      else s' = s\<lparr>xStreamBufferMutex := Some m'\<rparr>"
    by (auto simp: win_vTCPLoggingPrintf_def snprintf_2048 ab(1) src iMessageLengthBytes_def
        split: if_splits)
  show ?thesis
  proof (cases "xSemaphoreGetMutexHolder (w_mutex_api env) m = 0")
    case False
    with rest m m' good show ?thesis
      by (auto simp: win_holder_def)
  next
    case True
    let ?p = "take 4 b"
    have lp: "length ?p = 4" using ab(2) by simp
    then have ne: "?p \<noteq> []" by (metis list.size(3) zero_neq_numeral)
    have "last ?p = ?p ! (length ?p - 1)" by (rule last_conv_nth [OF ne])
    then have p: "?p \<noteq> []" "last ?p = b ! 3" using ne unfolding lp by simp_all
    from expand_refines [OF _ e] ab(2) have ips: "ips ?p (tcp_source txt) = Some (take n out)"
      and lo: "length out = 2048" "n \<le> 2048" by simp_all
    from ips_prefix [of ?p "[]"] p junk ips obtain y where y: "take n out = ?p @ y" by auto
    then have "length (take n out) = length (?p @ y)" by simp
    then have n: "n = length y + 4" using lo ab(2) by simp
    let ?s1 = "s\<lparr>xStreamBufferMutex := Some m'\<rparr>"
    have str': "str = int32_bytes (int (length y)) @ drop 4 out"
      using str lo n by (auto simp: mem_write_eq_Some)
    have larr: "length str = 2048" "take 4 str = int32_bytes (int (length y))"
      "length y + 4 < 2 ^ 31" using str' lo n by simp_all
    have text_y: "take (length y) (drop 4 str) = y"
    proof -
      have "take (length y) (drop 4 out) = drop 4 (take n out)" by (simp add: n drop_take)
      also have "\<dots> = y" using y ab(2) by simp
      finally show ?thesis by (simp add: str')
    qed
    from rest True obtain s2 where q: "win_enqueue env str (int (length y) + 4) ?s1 = Some s2"
      and s': "s' = s2\<lparr>xStreamBufferMutex := Some (xSemaphoreGive (w_mutex_api env) m')\<rparr>"
      by (auto simp: n add.commute)
    have g1: "win_good contents ?s1" using good by simp
    have "win_shown contents ?s1 = win_shown contents s" by simp
    moreover have "win_message (Log a b (Tcp_print t txt)) s = (length y, until_nul y)"
      using ips y lp by simp
    ultimately have "win_good contents s2"
      "win_shown contents s2 = win_shown contents s @ win_prints env (Log a b (Tcp_print t txt)) s"
      using enqueue_good [OF fifo g1 larr q] text_y by (simp_all add: win_prints_def)
    then show ?thesis
      using True m s' exclusive_give [OF mutex]
      by (auto simp: win_holder_def)
  qed
qed

section \<open>The Windows logger keeps the contract\<close>

definition win_event ::
  "win_event \<Rightarrow> (('m, 'b) win_env \<times> ('b \<Rightarrow> string)) \<times> ('m, 'b) win_log
   \<Rightarrow> ((('m, 'b) win_env \<times> ('b \<Rightarrow> string)) \<times> ('m, 'b) win_log) option" where
  "win_event e = (\<lambda>((env, contents), s). map_option (Pair (env, contents)) (win_call env e s))"

fun win_kind :: "win_event \<Rightarrow> log_call option" where
  "win_kind (Log a b c) = Some c"
| "win_kind _ = None"

lemma win_runs:
  "run_calls win_event es ((env, contents), s) =
     map_option (Pair (env, contents)) (run_calls (win_call env) es s)"
proof (induction es arbitrary: s)
  case (Cons e es)
  then show ?case by (cases "win_call env e s") (simp_all add: win_event_def)
qed simp

definition win_env_ok :: "('m, 'b) win_env \<Rightarrow> ('b \<Rightarrow> string) \<Rightarrow> bool" where
  "win_env_ok env contents \<longleftrightarrow> exclusive (w_mutex_api env)
     \<and> fifo_bytes (w_stream_api env) contents dlLOGGING_STREAM_BUFFER_SIZE"

lemma win_event_eq_Some:
  "win_event e ((env, contents), s) = Some es' \<longleftrightarrow>
     (\<exists>s'. es' = ((env, contents), s') \<and> win_call env e s = Some s')"
  by (auto simp: win_event_def)

lemma win_kindE:
  assumes "win_kind e = Some c"
  obtains a b where "e = Log a b c"
  using assms by (cases e) simp_all

interpretation windows: task_logger win_kind win_event
  "\<lambda>((env, contents), s). win_env_ok env contents \<and> win_good contents s"
  "\<lambda>((env, contents), s). win_shown contents s" "\<lambda>((env, contents), s). win_holder env s"
  "\<lambda>((env, contents), s) e x. x = win_prints env e s" win_fits
proof (unfold_locales, goal_cases)
  case (1 es e es')
  obtain env contents s where es: "es = ((env, contents), s)" by (metis prod.collapse)
  with 1 obtain s' where s: "es' = ((env, contents), s')" "win_env_ok env contents"
    "win_good contents s" "win_call env e s = Some s'"
    by (auto simp: win_event_eq_Some)
  from s(2) have fifo: "fifo_bytes (w_stream_api env) contents dlLOGGING_STREAM_BUFFER_SIZE"
    by (simp add: win_env_ok_def)
  from 1(3) consider "e = Thread_start" | "e = Thread_read" | "e = Thread_print" | "e = Thread_turn"
    by (cases e) auto
  then have "win_good contents s' \<and> win_shown contents s' = win_shown contents s
      \<and> xStreamBufferMutex s' = xStreamBufferMutex s"
  proof cases
    case 1
    with s have "s' = prvWin32LoggingThread_start s" by simp
    with s(3) show ?thesis by simp (simp add: prvWin32LoggingThread_start_def)
  next
    case 2
    with s(4) have "w_xLength s = None" "\<not> xDirectPrint s" "prvWin32LoggingThread_read env s = Some s'"
      by (auto split: if_splits)
    with fifo s(3) show ?thesis by (rule thread_read_good)
  next
    case 3
    with s(4) have run: "prvWin32LoggingThread_print env s = Some s'" by (auto split: if_splits)
    then have "w_xLength s \<noteq> None" by (auto simp: prvWin32LoggingThread_print_def)
    with fifo s(3) show ?thesis by (rule thread_print_good) (use run in simp)
  next
    case 4
    with s(4) have run: "prvWin32LoggingThread_turn env s = Some s'" by (auto split: if_splits)
    from fifo s(3) show ?thesis by (rule thread_turn_good) (use run in simp)
  qed
  with es s show ?case by (simp add: win_holder_def)
next
  case (2 es e t l n k es')
  obtain env contents s where es: "es = ((env, contents), s)" by (metis prod.collapse)
  from 2(3) obtain a b where e: "e = Log a b (Metadata t l n k)" by (rule win_kindE)
  from 2(1,5) obtain r s' where s: "es' = ((env, contents), s')" "win_env_ok env contents"
    "win_good contents s" "win_xLoggingPrintMetadata env a t l n k s = Some (r, s')"
    unfolding es e by (auto simp: win_event_eq_Some)
  note ok = s(2) [unfolded win_env_ok_def]
  from 2(2) have "length a = 2048" "\<forall>i. length (header_text l n i k) + 4 < 2 ^ 31"
    unfolding e by simp_all
  from win_metadata_run [OF conjunct1 [OF ok] conjunct2 [OF ok] 2(4) s(3) this s(4)] s(2)
  show ?case unfolding es s(1) by (simp add: e)
next
  case (3 es e t msg es')
  obtain env contents s where es: "es = ((env, contents), s)" by (metis prod.collapse)
  from 3(3) obtain a b where e: "e = Log a b (Print t msg)" by (rule win_kindE)
  from 3(1,5) obtain s' where s: "es' = ((env, contents), s')" "win_env_ok env contents"
    "win_good contents s" "win_vLoggingPrintf env a t msg s = Some s'"
    unfolding es e by (auto simp: win_event_eq_Some)
  note ok = s(2) [unfolded win_env_ok_def]
  from 3(2) have "length a = 2048" "length msg + 6 < 2 ^ 31" "CHR 0x00 \<notin> set msg"
    unfolding e by simp_all
  from win_print_run [OF conjunct1 [OF ok] conjunct2 [OF ok] 3(4) s(3) this s(4)] s(2)
  show ?case unfolding es s(1) by (simp add: e)
next
  case (4 es e t msg es')
  obtain env contents s where es: "es = ((env, contents), s)" by (metis prod.collapse)
  from 4(3) obtain a b where e: "e = Log a b (Tcp_print t msg)" by (rule win_kindE)
  from 4(1,5) obtain s' where s: "es' = ((env, contents), s')" "win_env_ok env contents"
    "win_good contents s" "win_vTCPLoggingPrintf env a b t msg s = Some s'"
    unfolding es e by (auto simp: win_event_eq_Some)
  note ok = s(2) [unfolded win_env_ok_def]
  from 4(2) have "length a = 2048" "length b = 2048" "\<not> isxdigit (b ! 3)"
    unfolding e by simp_all
  from win_tcp_run [OF conjunct1 [OF ok] conjunct2 [OF ok] 4(4) s(3) this s(4)] s(2)
  show ?case unfolding es s(1) by (simp add: e)
qed

section \<open>Properties\<close>

lemma win_spoken:
  "spoken win_kind (\<lambda>((env, contents), s). win_holder env s) win_event es ((env, contents), s) =
     map (\<lambda>(s, e). (((env, contents), s), e)) (spoken win_kind (win_holder env) (win_call env) es s)"
proof (induction es arbitrary: s)
  case (Cons e es)
  then show ?case
    by (cases "win_call env e s") (simp_all add: spoken_def win_event_def split: option.splits)
qed simp

text \<open>
  C26. Log messages are never torn on Windows.  From the start of the printing thread on, in any run
  of logging calls by running tasks and of the single steps of the thread, in any order, what has
  been printed and what waits in the stream buffer grow by exactly the texts of the calls that have
  the mutex, in their order: a header when the mutex is free, followed among those calls directly
  by the message of the same task, and whole messages of FreeRTOS+TCP.  A text goes in whole, cut
  off only at the end of the array, exactly if the stream buffer has room for it and its length
  at the time of its call; if not, it is dropped, which is how a header can lose its message and a
  message its header.
\<close>

theorem win_lines_whole:
  assumes "win_env_ok env contents" and "win_good contents s" and "win_holder env s = 0"
    and "\<not> xDirectPrint s"
    and "\<forall>e \<in> set es. win_fits e" and "\<forall>e \<in> set es. \<forall>c. win_kind e = Some c \<longrightarrow> caller c \<noteq> 0"
    and "run_calls (win_call env) es s = Some s'"
  shows "let calls = spoken win_kind (win_holder env) (win_call env) es s
    in win_shown contents s' = win_shown contents s
         @ concat (map (\<lambda>(s, e). win_prints env e s) calls)
     \<and> whole_lines 0 (map (\<lambda>(s, e). the (win_kind e)) calls) (win_holder env s')"
proof -
  let ?calls = "spoken win_kind (win_holder env) (win_call env) es s"
  obtain texts where t: "win_shown contents s' = win_shown contents s @ concat texts"
    "list_all2 (\<lambda>(st, e) x. (\<lambda>((env, contents), s) e x. x = win_prints env e s) st e x)
       (map (\<lambda>(s, e). (((env, contents), s), e)) ?calls) texts"
    "whole_lines 0 (map (\<lambda>(s, e). the (win_kind e)) (map (\<lambda>(s, e). (((env, contents), s), e)) ?calls))
       (win_holder env s')"
    using windows.lines_are_whole [of "((env, contents), s)" es "((env, contents), s')"] assms
    by (auto simp: win_runs win_spoken)
  from t(2) have "texts = map (\<lambda>(s, e). win_prints env e s) ?calls"
    by (auto simp: list_all2_conv_all_nth split_beta intro!: nth_equalityI)
  with t(1,3) show ?thesis by (simp add: Let_def comp_def case_prod_unfold)
qed

text \<open>A stream buffer as the bytes it holds.\<close>

definition byte_fifo :: "nat \<Rightarrow> string stream_api" where
  "byte_fifo cap = \<lparr>uxStreamBufferGetSpace = (\<lambda>b. cap - length b), uxStreamBufferGetSize = length,
     uxStreamBufferAdd = (\<lambda>bs b. b @ bs), uxStreamBufferGet = (\<lambda>n b. (take n b, drop n b))\<rparr>"

definition win_demo_env :: "(u32, string) win_env" where
  "win_demo_env = \<lparr>w_mutex_api = holder_mutex, w_stream_api = byte_fifo dlLOGGING_STREAM_BUFFER_SIZE\<rparr>"

definition win_start :: "('m, 'b) win_log" where
  "win_start = \<lparr>xStreamBufferMutex = None, xLogStreamBuffer = None, w_xMessageNumber = 0,
     xDirectPrint = True, pvLoggingThreadEvent = False, w_xLength = None, w_console = []\<rparr>"

definition win_ready :: "(u32, string) win_log" where
  "win_ready = win_start\<lparr>xStreamBufferMutex := Some 0, xLogStreamBuffer := Some [],
     pvLoggingThreadEvent := True, xDirectPrint := False\<rparr>"

lemma win_demo_ok: "win_env_ok win_demo_env id"
  by (simp add: win_env_ok_def win_demo_env_def holder_mutex_exclusive fifo_bytes_def byte_fifo_def)

lemma win_ready_init:
  "map_option prvWin32LoggingThread_start (win_vLoggingInit True (Some 0) (Some []) True True win_start) =
     Some win_ready"
  by (simp add: win_vLoggingInit_def prvWin32LoggingThread_start_def win_ready_def)

lemma win_ready_good:
  "win_good id win_ready" "win_shown id win_ready = []" "win_holder win_demo_env win_ready = 0"
  "xLogStreamBuffer win_ready = Some []" "w_console win_ready = []"
proof -
  show "win_good id win_ready"
    unfolding win_good_def
    by (intro conjI exI [of _ "[]"]) (simp_all add: win_ready_def win_start_def short_def)
qed (simp_all add: win_ready_def win_start_def win_shown_def unframe.simps win_holder_def
  win_demo_env_def holder_mutex_def)

text \<open>
  The limit of a log message on Windows.  With room in the stream buffer, the holder's
  vLoggingPrintf returns exactly for a message of at most 2042 characters: for a longer one it
  reads beyond the end of its array, by the length that vsnprintf answered.
\<close>

theorem win_message_limit:
  assumes "fifo_bytes (w_stream_api env) contents cap" and "win_good contents s"
    and "xStreamBufferMutex s = Some m" and "xSemaphoreGetMutexHolder (w_mutex_api env) m = t"
    and "xLogStreamBuffer s = Some b" and "length (contents b) + length txt + 6 \<le> cap"
    and "length a = 2048" and "length txt + 6 < 2 ^ 31" and "CHR 0x00 \<notin> set txt"
  shows "win_vLoggingPrintf env a t txt s = None \<longleftrightarrow> 2042 < length txt"
proof -
  have len: "length txt + 2 + 4 < 2 ^ 31" and room: "length (contents b) + (length txt + 2) + 4 \<le> cap"
    using assms(6,8) by simp_all
  from win_print_array [OF assms(7-9,3,4)] obtain arr where
    arr: "length arr = 2048" "take 4 arr = int32_bytes (int (length txt + 2))"
    and run: "win_vLoggingPrintf env a t txt s =
      map_option (\<lambda>s1. s1\<lparr>xStreamBufferMutex := Some (xSemaphoreGive (w_mutex_api env) m)\<rparr>)
        (win_enqueue env arr (int (length txt + 2) + 4) s)" by blast
  have "win_enqueue env arr (int (length txt + 2) + 4) s = None \<longleftrightarrow> 2044 < length txt + 2"
    by (rule enqueue_returns [OF assms(1,2) arr len assms(5) room])
  then show ?thesis by (simp add: run)
qed

theorem win_message_limit_witness:
  "win_vLoggingPrintf win_demo_env (replicate 2048 (CHR 0x00)) 0 (replicate 2043 (CHR ''x'')) win_ready = None
   \<and> win_vLoggingPrintf win_demo_env (replicate 2048 (CHR 0x00)) 0 (replicate 2042 (CHR ''x'')) win_ready \<noteq> None"
proof -
  have fifo: "fifo_bytes (w_stream_api win_demo_env) id dlLOGGING_STREAM_BUFFER_SIZE"
    using win_demo_ok by (simp add: win_env_ok_def)
  have m: "xStreamBufferMutex win_ready = Some 0"
    "xSemaphoreGetMutexHolder (w_mutex_api win_demo_env) 0 = 0"
    by (simp_all add: win_ready_def win_demo_env_def holder_mutex_def)
  have "win_vLoggingPrintf win_demo_env (replicate 2048 (CHR 0x00)) 0 (replicate n (CHR ''x'')) win_ready = None
      \<longleftrightarrow> 2042 < n" if "n \<le> 2043" for n
    using win_message_limit [OF fifo win_ready_good(1) m win_ready_good(4),
        of "replicate n (CHR ''x'')" "replicate 2048 (CHR 0x00)"] that
    by (simp add: dlLOGGING_STREAM_BUFFER_SIZE_def)
  from this [of 2043] this [of 2042] show ?thesis by simp
qed

text \<open>The two calls of a log macro, with room for both frames.\<close>

lemma win_log_line_run:
  assumes ok: "win_env_ok env contents" and good: "win_good contents s" and free: "win_holder env s = 0"
    and t: "t \<noteq> 0" and thread: "\<not> xDirectPrint s" and b: "xLogStreamBuffer s = Some b"
    and h: "header_text l n (w_xMessageNumber s) k = h" "length h \<le> 2043" "CHR 0x00 \<notin> set h"
    and str: "length txt \<le> 2041" "CHR 0x00 \<notin> set txt"
    and room: "length (contents b) + length h + length txt + 10 \<le> dlLOGGING_STREAM_BUFFER_SIZE"
    and arrays: "length a = 2048" "length a' = 2048"
  obtains s' where "run_calls (win_call env) [Log a c (Metadata t l n k), Log a' c' (Print t txt)] s = Some s'"
    "win_good contents s'" "win_shown contents s' = win_shown contents s @ h @ txt @ pcNewline"
    "win_holder env s' = 0" "\<not> xDirectPrint s'"
proof -
  have mutex: "exclusive (w_mutex_api env)"
    and fifo: "fifo_bytes (w_stream_api env) contents dlLOGGING_STREAM_BUFFER_SIZE"
    using ok by (simp_all add: win_env_ok_def)
  from good free obtain m where m: "xStreamBufferMutex s = Some m"
    "xSemaphoreGetMutexHolder (w_mutex_api env) m = 0" by (auto simp: win_good_def win_holder_def)
  obtain m' where m': "xSemaphoreTake (w_mutex_api env) t m = (True, m')"
    "xSemaphoreGetMutexHolder (w_mutex_api env) m' = t"
    by (rule exclusive_take [OF mutex t, of m]) (simp add: m(2))
  let ?s2 = "s\<lparr>xStreamBufferMutex := Some m', w_xMessageNumber := w_xMessageNumber s + 1\<rparr>"
  have "length (header_text l n (w_xMessageNumber s) k) + 4 < 2 ^ 31" using h(1,2) by simp
  from win_metadata_array [OF arrays(1) this m(1) m'(1)] h obtain arr where
    arr: "length arr = 2048" "take 4 arr = int32_bytes (int (length h))"
      "until_nul (take (length h) (drop 4 arr)) = h"
    and eq: "win_xLoggingPrintMetadata env a t l n k s =
      map_option (Pair (int (length h) + 4)) (win_enqueue env arr (int (length h) + 4) ?s2)"
    by (auto simp: until_nul_id)
  have lh: "length h \<le> 2044" and r1: "length (contents b) + length h + 4 \<le> dlLOGGING_STREAM_BUFFER_SIZE"
    using h(2) room by simp_all
  have g2: "win_good contents ?s2" "xLogStreamBuffer ?s2 = Some b" "\<not> xDirectPrint ?s2"
    using good b thread by simp_all
  have same: "win_shown contents ?s2 = win_shown contents s" by simp
  obtain s1 b1 where s1: "win_enqueue env arr (int (length h) + 4) ?s2 = Some s1" "win_good contents s1"
      "win_shown contents s1 = win_shown contents s @ h" "xStreamBufferMutex s1 = Some m'"
      "\<not> xDirectPrint s1" "xLogStreamBuffer s1 = Some b1"
      "length (contents b1) = length (contents b) + length h + 4"
    by (rule enqueue_shown [OF fifo g2(1) arr(1,2) lh g2(2) r1 g2(3)])
      (rule that, simp_all add: arr(3) same)
  have "length txt + 6 < 2 ^ 31" using str(1) by simp
  from win_print_array [OF arrays(2) this str(2) s1(4) m'(2)] str(1) obtain arr' where
    arr': "length arr' = 2048" "take 4 arr' = int32_bytes (int (length txt + 2))"
      "until_nul (take (length txt + 2) (drop 4 arr')) = txt @ pcNewline"
    and eq': "win_vLoggingPrintf env a' t txt s1 =
      map_option (\<lambda>s1. s1\<lparr>xStreamBufferMutex := Some (xSemaphoreGive (w_mutex_api env) m')\<rparr>)
        (win_enqueue env arr' (int (length txt + 2) + 4) s1)" by auto
  have lt: "length txt + 2 \<le> 2044"
    and r2: "length (contents b1) + (length txt + 2) + 4 \<le> dlLOGGING_STREAM_BUFFER_SIZE"
    using str(1) room s1(7) by simp_all
  obtain s2 where s2: "win_enqueue env arr' (int (length txt + 2) + 4) s1 = Some s2" "win_good contents s2"
      "win_shown contents s2 = win_shown contents s1 @ txt @ pcNewline" "\<not> xDirectPrint s2"
    by (rule enqueue_shown [OF fifo s1(2) arr'(1,2) lt s1(6) r2 s1(5)])
      (rule that, assumption, assumption, simp only: arr'(3), assumption)
  let ?s' = "s2\<lparr>xStreamBufferMutex := Some (xSemaphoreGive (w_mutex_api env) m')\<rparr>"
  show ?thesis
  proof (rule that)
    show "run_calls (win_call env) [Log a c (Metadata t l n k), Log a' c' (Print t txt)] s = Some ?s'"
      by (simp only: run_calls.simps win_call.simps eq s1(1) option.map prod.sel eq' s2(1) bind.simps)
    show "win_good contents ?s'" using s2(2) by simp
    show "win_shown contents ?s' = win_shown contents s @ h @ txt @ pcNewline"
      using s2(3) s1(3) by simp
    show "win_holder env ?s' = 0" using exclusive_give [OF mutex] by (simp add: win_holder_def)
    show "\<not> xDirectPrint ?s'" using s2(4) by simp
  qed
qed

lemma win_demo_line:
  obtains s' where "run_calls (win_call win_demo_env)
      [Log (replicate 2048 CHR 0x00) (replicate 2048 CHR 0x00) (Metadata 1 ''INFO'' (Some ''A'') 7),
       Log (replicate 2048 CHR 0x00) (replicate 2048 CHR 0x00) (Print 1 ''hello'')] win_ready = Some s'"
    "win_good id s'" "win_shown id s' = ''INFO: A 0 7 --- hello'' @ pcNewline" "win_holder win_demo_env s' = 0"
proof -
  have h: "header_text ''INFO'' (Some ''A'') (w_xMessageNumber win_ready) 7 = ''INFO: A 0 7 --- ''"
    unfolding win_ready_def win_start_def by simp code_simp
  have d: "\<not> xDirectPrint win_ready" by (simp add: win_ready_def)
  show ?thesis
    by (rule win_log_line_run [OF win_demo_ok win_ready_good(1,3) _ d win_ready_good(4) h, of 1 "''hello''"
          "replicate 2048 CHR 0x00" "replicate 2048 CHR 0x00" "replicate 2048 CHR 0x00" "replicate 2048 CHR 0x00"])
      (use that win_ready_good(2) in \<open>simp_all add: dlLOGGING_STREAM_BUFFER_SIZE_def\<close>)
qed

theorem win_lines_whole_witness:
  "\<exists>s'. let es = [Log (replicate 2048 CHR 0x00) (replicate 2048 CHR 0x00) (Metadata 1 ''INFO'' (Some ''A'') 7),
       Log (replicate 2048 CHR 0x00) (replicate 2048 CHR 0x00) (Print 1 ''hello'')];
     calls = spoken win_kind (win_holder win_demo_env) (win_call win_demo_env) es win_ready
    in run_calls (win_call win_demo_env) es win_ready = Some s'
    \<and> concat (map (\<lambda>(s, e). win_prints win_demo_env e s) calls) = ''INFO: A 0 7 --- hello'' @ pcNewline
    \<and> whole_lines 0 (map (\<lambda>(s, e). the (win_kind e)) calls) 0"
proof -
  let ?es = "[Log (replicate 2048 CHR 0x00) (replicate 2048 CHR 0x00) (Metadata 1 ''INFO'' (Some ''A'') 7),
       Log (replicate 2048 CHR 0x00) (replicate 2048 CHR 0x00) (Print 1 ''hello'')]"
  obtain s' where s': "run_calls (win_call win_demo_env) ?es win_ready = Some s'"
    "win_shown id s' = ''INFO: A 0 7 --- hello'' @ pcNewline" "win_holder win_demo_env s' = 0"
    by (rule win_demo_line) blast
  have "length (header_text ''INFO'' (Some ''A'') i 7) + 4 < 2 ^ 31" for i
  proof -
    have "length (dec (unat i)) \<le> 10"
      by (rule length_dec_le) (use unsigned_less [of i, where 'a = nat] in simp_all)
    moreover have "length (dec (unat (7 :: u32))) \<le> 10"
      by (rule length_dec_le) simp_all
    ultimately show ?thesis
      by (simp add: header_text_def format_rules del: c_format.simps(2))
  qed
  then have fits: "\<forall>e \<in> set ?es. win_fits e" by (simp add: isxdigit_def char_code_def)
  have callers: "\<forall>e \<in> set ?es. \<forall>c. win_kind e = Some c \<longrightarrow> caller c \<noteq> 0" by simp
  have "\<not> xDirectPrint win_ready" by (simp add: win_ready_def)
  from win_lines_whole [OF win_demo_ok win_ready_good(1,3) this fits callers s'(1)] s' win_ready_good(2)
  show ?thesis unfolding Let_def by (intro exI [of _ s']) simp
qed

text \<open>
  C27. A log line reaches the console.  Once the printing thread runs, with room in the stream
  buffer, a log macro by a task while no other logs returns, and the next turn of the thread
  returns and has printed everything that waited, then the header, the message and a newline.
\<close>

theorem win_line_printed:
  assumes "win_env_ok env contents" and "win_good contents s" and "win_holder env s = 0"
    and "t \<noteq> 0" and "\<not> xDirectPrint s" and "xLogStreamBuffer s = Some b"
    and "header_text l n (w_xMessageNumber s) k = h" and "length h \<le> 2043" and "CHR 0x00 \<notin> set h"
    and "length txt \<le> 2041" and "CHR 0x00 \<notin> set txt"
    and "length (contents b) + length h + length txt + 10 \<le> dlLOGGING_STREAM_BUFFER_SIZE"
    and "length a = 2048" and "length a' = 2048"
  shows "\<exists>s'. run_calls (win_call env)
      [Log a c (Metadata t l n k), Log a' c' (Print t txt), Thread_turn] s = Some s'
    \<and> w_console s' = win_shown contents s @ h @ txt @ pcNewline
    \<and> win_shown contents s' = w_console s' \<and> win_good contents s'"
proof -
  from assms(1) have fifo: "fifo_bytes (w_stream_api env) contents dlLOGGING_STREAM_BUFFER_SIZE"
    by (simp add: win_env_ok_def)
  obtain s1 where s1: "run_calls (win_call env)
      [Log a c (Metadata t l n k), Log a' c' (Print t txt)] s = Some s1" "win_good contents s1"
    "win_shown contents s1 = win_shown contents s @ h @ txt @ pcNewline" "\<not> xDirectPrint s1"
    by (rule win_log_line_run [OF assms]) blast
  from fifo s1(2) obtain s' where s': "prvWin32LoggingThread_turn env s1 = Some s'"
    "win_good contents s'" "win_shown contents s' = win_shown contents s1"
    "w_console s' = win_shown contents s1" by (rule thread_turn_good)
  with s1(1,4) have "run_calls (win_call env)
      [Log a c (Metadata t l n k), Log a' c' (Print t txt), Thread_turn] s = Some s'"
    by (auto split: bind_splits)
  with s1(3) s' show ?thesis by (intro exI [of _ s']) (simp only:)
qed

theorem win_line_printed_witness:
  "\<exists>s'. run_calls (win_call win_demo_env)
      [Log (replicate 2048 CHR 0x00) [] (Metadata 1 ''INFO'' (Some ''A'') 7),
       Log (replicate 2048 CHR 0x00) [] (Print 1 ''hello''), Thread_turn] win_ready = Some s'
    \<and> w_console s' = ''INFO: A 0 7 --- hello'' @ pcNewline"
proof -
  have h: "header_text ''INFO'' (Some ''A'') (w_xMessageNumber win_ready) 7 = ''INFO: A 0 7 --- ''"
    unfolding win_ready_def win_start_def by simp code_simp
  have d: "\<not> xDirectPrint win_ready" by (simp add: win_ready_def)
  from win_line_printed [OF win_demo_ok win_ready_good(1,3) _ d win_ready_good(4) h, of 1 "''hello''"
      "replicate 2048 CHR 0x00" "replicate 2048 CHR 0x00" "[]" "[]"] win_ready_good(2)
  show ?thesis
    by (simp add: dlLOGGING_STREAM_BUFFER_SIZE_def del: run_calls.simps) blast
qed

end
