(* ===== verification/Mbedtls_Error.thy ===== *)
theory Mbedtls_Error
  imports Prelude
begin

unbundle bit_operations_syntax

text \<open>
  lib/FreeRTOS/utilities/mbedtls_freertos/mbedtls_error.c: the texts of the mbedTLS error codes,
  and the macros of the TLS transports that log them.

  The codes are macros of mbedTLS, whose headers are not part of the repository: \<open>code\<close> gives the
  value of a macro by its name, and \<open>on\<close> the macros that the configuration defines.  Each
  \<open>#if\<close> group of cases is one table here, in the order of the switch; the C compiler wants the
  values of its cases distinct, so that the first case that matches is the only one.
\<close>

type_synonym error_cases = "(string \<times> string) list"

section \<open>High-level codes\<close>

definition cipher_errors :: error_cases where
  "cipher_errors = [
     (''MBEDTLS_ERR_CIPHER_FEATURE_UNAVAILABLE'',
       ''CIPHER - The selected feature is not available''),
     (''MBEDTLS_ERR_CIPHER_BAD_INPUT_DATA'',
       ''CIPHER - Bad input parameters''),
     (''MBEDTLS_ERR_CIPHER_ALLOC_FAILED'',
       ''CIPHER - Failed to allocate memory''),
     (''MBEDTLS_ERR_CIPHER_INVALID_PADDING'',
       ''CIPHER - Input data contains invalid padding and is rejected''),
     (''MBEDTLS_ERR_CIPHER_FULL_BLOCK_EXPECTED'',
       ''CIPHER - Decryption of block requires a full block''),
     (''MBEDTLS_ERR_CIPHER_AUTH_FAILED'',
       ''CIPHER - Authentication failed (for AEAD modes)''),
     (''MBEDTLS_ERR_CIPHER_INVALID_CONTEXT'',
       ''CIPHER - The context is invalid. For example, because it was freed''),
     (''MBEDTLS_ERR_CIPHER_HW_ACCEL_FAILED'',
       ''CIPHER - Cipher hardware accelerator failed'')]"

definition dhm_errors :: error_cases where
  "dhm_errors = [
     (''MBEDTLS_ERR_DHM_BAD_INPUT_DATA'',
       ''DHM - Bad input parameters''),
     (''MBEDTLS_ERR_DHM_READ_PARAMS_FAILED'',
       ''DHM - Reading of the DHM parameters failed''),
     (''MBEDTLS_ERR_DHM_MAKE_PARAMS_FAILED'',
       ''DHM - Making of the DHM parameters failed''),
     (''MBEDTLS_ERR_DHM_READ_PUBLIC_FAILED'',
       ''DHM - Reading of the public values failed''),
     (''MBEDTLS_ERR_DHM_MAKE_PUBLIC_FAILED'',
       ''DHM - Making of the public value failed''),
     (''MBEDTLS_ERR_DHM_CALC_SECRET_FAILED'',
       ''DHM - Calculation of the DHM secret failed''),
     (''MBEDTLS_ERR_DHM_INVALID_FORMAT'',
       ''DHM - The ASN.1 data is not formatted correctly''),
     (''MBEDTLS_ERR_DHM_ALLOC_FAILED'',
       ''DHM - Allocation of memory failed''),
     (''MBEDTLS_ERR_DHM_FILE_IO_ERROR'',
       ''DHM - Read or write of file failed''),
     (''MBEDTLS_ERR_DHM_HW_ACCEL_FAILED'',
       ''DHM - DHM hardware accelerator failed''),
     (''MBEDTLS_ERR_DHM_SET_GROUP_FAILED'',
       ''DHM - Setting the modulus and generator failed'')]"

definition ecp_errors :: error_cases where
  "ecp_errors = [
     (''MBEDTLS_ERR_ECP_BAD_INPUT_DATA'',
       ''ECP - Bad input parameters to function''),
     (''MBEDTLS_ERR_ECP_BUFFER_TOO_SMALL'',
       ''ECP - The buffer is too small to write to''),
     (''MBEDTLS_ERR_ECP_FEATURE_UNAVAILABLE'',
       ''ECP - The requested feature is not available, for example, the requested curve is not supported''),
     (''MBEDTLS_ERR_ECP_VERIFY_FAILED'',
       ''ECP - The signature is not valid''),
     (''MBEDTLS_ERR_ECP_ALLOC_FAILED'',
       ''ECP - Memory allocation failed''),
     (''MBEDTLS_ERR_ECP_RANDOM_FAILED'',
       ''ECP - Generation of random value, such as ephemeral key, failed''),
     (''MBEDTLS_ERR_ECP_INVALID_KEY'',
       ''ECP - Invalid private or public key''),
     (''MBEDTLS_ERR_ECP_SIG_LEN_MISMATCH'',
       ''ECP - The buffer contains a valid signature followed by more data''),
     (''MBEDTLS_ERR_ECP_HW_ACCEL_FAILED'',
       ''ECP - The ECP hardware accelerator failed''),
     (''MBEDTLS_ERR_ECP_IN_PROGRESS'',
       ''ECP - Operation in progress, call again with the same parameters to continue'')]"

definition md_errors :: error_cases where
  "md_errors = [
     (''MBEDTLS_ERR_MD_FEATURE_UNAVAILABLE'',
       ''MD - The selected feature is not available''),
     (''MBEDTLS_ERR_MD_BAD_INPUT_DATA'',
       ''MD - Bad input parameters to function''),
     (''MBEDTLS_ERR_MD_ALLOC_FAILED'',
       ''MD - Failed to allocate memory''),
     (''MBEDTLS_ERR_MD_FILE_IO_ERROR'',
       ''MD - Opening or reading of file failed''),
     (''MBEDTLS_ERR_MD_HW_ACCEL_FAILED'',
       ''MD - MD hardware accelerator failed'')]"

definition pem_errors :: error_cases where
  "pem_errors = [
     (''MBEDTLS_ERR_PEM_NO_HEADER_FOOTER_PRESENT'',
       ''PEM - No PEM header or footer found''),
     (''MBEDTLS_ERR_PEM_INVALID_DATA'',
       ''PEM - PEM string is not as expected''),
     (''MBEDTLS_ERR_PEM_ALLOC_FAILED'',
       ''PEM - Failed to allocate memory''),
     (''MBEDTLS_ERR_PEM_INVALID_ENC_IV'',
       ''PEM - RSA IV is not in hex-format''),
     (''MBEDTLS_ERR_PEM_UNKNOWN_ENC_ALG'',
       ''PEM - Unsupported key encryption algorithm''),
     (''MBEDTLS_ERR_PEM_PASSWORD_REQUIRED'',
       ''PEM - Private key password can't be empty''),
     (''MBEDTLS_ERR_PEM_PASSWORD_MISMATCH'',
       ''PEM - Given private key password does not allow for correct decryption''),
     (''MBEDTLS_ERR_PEM_FEATURE_UNAVAILABLE'',
       ''PEM - Unavailable feature, e.g. hashing/encryption combination''),
     (''MBEDTLS_ERR_PEM_BAD_INPUT_DATA'',
       ''PEM - Bad input parameters to function'')]"

definition pk_errors :: error_cases where
  "pk_errors = [
     (''MBEDTLS_ERR_PK_ALLOC_FAILED'',
       ''PK - Memory allocation failed''),
     (''MBEDTLS_ERR_PK_TYPE_MISMATCH'',
       ''PK - Type mismatch, eg attempt to encrypt with an ECDSA key''),
     (''MBEDTLS_ERR_PK_BAD_INPUT_DATA'',
       ''PK - Bad input parameters to function''),
     (''MBEDTLS_ERR_PK_FILE_IO_ERROR'',
       ''PK - Read/write of file failed''),
     (''MBEDTLS_ERR_PK_KEY_INVALID_VERSION'',
       ''PK - Unsupported key version''),
     (''MBEDTLS_ERR_PK_KEY_INVALID_FORMAT'',
       ''PK - Invalid key tag or value''),
     (''MBEDTLS_ERR_PK_UNKNOWN_PK_ALG'',
       ''PK - Key algorithm is unsupported (only RSA and EC are supported)''),
     (''MBEDTLS_ERR_PK_PASSWORD_REQUIRED'',
       ''PK - Private key password can't be empty''),
     (''MBEDTLS_ERR_PK_PASSWORD_MISMATCH'',
       ''PK - Given private key password does not allow for correct decryption''),
     (''MBEDTLS_ERR_PK_INVALID_PUBKEY'',
       ''PK - The pubkey tag or value is invalid (only RSA and EC are supported)''),
     (''MBEDTLS_ERR_PK_INVALID_ALG'',
       ''PK - The algorithm tag or value is invalid''),
     (''MBEDTLS_ERR_PK_UNKNOWN_NAMED_CURVE'',
       ''PK - Elliptic curve is unsupported (only NIST curves are supported)''),
     (''MBEDTLS_ERR_PK_FEATURE_UNAVAILABLE'',
       ''PK - Unavailable feature, e.g. RSA disabled for RSA key''),
     (''MBEDTLS_ERR_PK_SIG_LEN_MISMATCH'',
       ''PK - The buffer contains a valid signature followed by more data''),
     (''MBEDTLS_ERR_PK_HW_ACCEL_FAILED'',
       ''PK - PK hardware accelerator failed'')]"

definition pkcs12_errors :: error_cases where
  "pkcs12_errors = [
     (''MBEDTLS_ERR_PKCS12_BAD_INPUT_DATA'',
       ''PKCS12 - Bad input parameters to function''),
     (''MBEDTLS_ERR_PKCS12_FEATURE_UNAVAILABLE'',
       ''PKCS12 - Feature not available, e.g. unsupported encryption scheme''),
     (''MBEDTLS_ERR_PKCS12_PBE_INVALID_FORMAT'',
       ''PKCS12 - PBE ASN.1 data not as expected''),
     (''MBEDTLS_ERR_PKCS12_PASSWORD_MISMATCH'',
       ''PKCS12 - Given private key password does not allow for correct decryption'')]"

definition pkcs5_errors :: error_cases where
  "pkcs5_errors = [
     (''MBEDTLS_ERR_PKCS5_BAD_INPUT_DATA'',
       ''PKCS5 - Bad input parameters to function''),
     (''MBEDTLS_ERR_PKCS5_INVALID_FORMAT'',
       ''PKCS5 - Unexpected ASN.1 data''),
     (''MBEDTLS_ERR_PKCS5_FEATURE_UNAVAILABLE'',
       ''PKCS5 - Requested encryption or digest alg not available''),
     (''MBEDTLS_ERR_PKCS5_PASSWORD_MISMATCH'',
       ''PKCS5 - Given private key password does not allow for correct decryption'')]"

definition rsa_errors :: error_cases where
  "rsa_errors = [
     (''MBEDTLS_ERR_RSA_BAD_INPUT_DATA'',
       ''RSA - Bad input parameters to function''),
     (''MBEDTLS_ERR_RSA_INVALID_PADDING'',
       ''RSA - Input data contains invalid padding and is rejected''),
     (''MBEDTLS_ERR_RSA_KEY_GEN_FAILED'',
       ''RSA - Something failed during generation of a key''),
     (''MBEDTLS_ERR_RSA_KEY_CHECK_FAILED'',
       ''RSA - Key failed to pass the validity check of the library''),
     (''MBEDTLS_ERR_RSA_PUBLIC_FAILED'',
       ''RSA - The public key operation failed''),
     (''MBEDTLS_ERR_RSA_PRIVATE_FAILED'',
       ''RSA - The private key operation failed''),
     (''MBEDTLS_ERR_RSA_VERIFY_FAILED'',
       ''RSA - The PKCS#1 verification failed''),
     (''MBEDTLS_ERR_RSA_OUTPUT_TOO_LARGE'',
       ''RSA - The output buffer for decryption is not large enough''),
     (''MBEDTLS_ERR_RSA_RNG_FAILED'',
       ''RSA - The random generator failed to generate non-zeros''),
     (''MBEDTLS_ERR_RSA_UNSUPPORTED_OPERATION'',
       ''RSA - The implementation does not offer the requested operation, for example, because of security violations or lack of functionality''),
     (''MBEDTLS_ERR_RSA_HW_ACCEL_FAILED'',
       ''RSA - RSA hardware accelerator failed'')]"

definition ssl_errors :: error_cases where
  "ssl_errors = [
     (''MBEDTLS_ERR_SSL_FEATURE_UNAVAILABLE'',
       ''SSL - The requested feature is not available''),
     (''MBEDTLS_ERR_SSL_BAD_INPUT_DATA'',
       ''SSL - Bad input parameters to function''),
     (''MBEDTLS_ERR_SSL_INVALID_MAC'',
       ''SSL - Verification of the message MAC failed''),
     (''MBEDTLS_ERR_SSL_INVALID_RECORD'',
       ''SSL - An invalid SSL record was received''),
     (''MBEDTLS_ERR_SSL_CONN_EOF'',
       ''SSL - The connection indicated an EOF''),
     (''MBEDTLS_ERR_SSL_UNKNOWN_CIPHER'',
       ''SSL - An unknown cipher was received''),
     (''MBEDTLS_ERR_SSL_NO_CIPHER_CHOSEN'',
       ''SSL - The server has no ciphersuites in common with the client''),
     (''MBEDTLS_ERR_SSL_NO_RNG'',
       ''SSL - No RNG was provided to the SSL module''),
     (''MBEDTLS_ERR_SSL_NO_CLIENT_CERTIFICATE'',
       ''SSL - No client certification received from the client, but required by the authentication mode''),
     (''MBEDTLS_ERR_SSL_CERTIFICATE_TOO_LARGE'',
       ''SSL - Our own certificate(s) is/are too large to send in an SSL message''),
     (''MBEDTLS_ERR_SSL_CERTIFICATE_REQUIRED'',
       ''SSL - The own certificate is not set, but needed by the server''),
     (''MBEDTLS_ERR_SSL_PRIVATE_KEY_REQUIRED'',
       ''SSL - The own private key or pre-shared key is not set, but needed''),
     (''MBEDTLS_ERR_SSL_CA_CHAIN_REQUIRED'',
       ''SSL - No CA Chain is set, but required to operate''),
     (''MBEDTLS_ERR_SSL_UNEXPECTED_MESSAGE'',
       ''SSL - An unexpected message was received from our peer''),
     (''MBEDTLS_ERR_SSL_FATAL_ALERT_MESSAGE'',
       ''SSL - A fatal alert message was received from our peer''),
     (''MBEDTLS_ERR_SSL_PEER_VERIFY_FAILED'',
       ''SSL - Verification of our peer failed''),
     (''MBEDTLS_ERR_SSL_PEER_CLOSE_NOTIFY'',
       ''SSL - The peer notified us that the connection is going to be closed''),
     (''MBEDTLS_ERR_SSL_BAD_HS_CLIENT_HELLO'',
       ''SSL - Processing of the ClientHello handshake message failed''),
     (''MBEDTLS_ERR_SSL_BAD_HS_SERVER_HELLO'',
       ''SSL - Processing of the ServerHello handshake message failed''),
     (''MBEDTLS_ERR_SSL_BAD_HS_CERTIFICATE'',
       ''SSL - Processing of the Certificate handshake message failed''),
     (''MBEDTLS_ERR_SSL_BAD_HS_CERTIFICATE_REQUEST'',
       ''SSL - Processing of the CertificateRequest handshake message failed''),
     (''MBEDTLS_ERR_SSL_BAD_HS_SERVER_KEY_EXCHANGE'',
       ''SSL - Processing of the ServerKeyExchange handshake message failed''),
     (''MBEDTLS_ERR_SSL_BAD_HS_SERVER_HELLO_DONE'',
       ''SSL - Processing of the ServerHelloDone handshake message failed''),
     (''MBEDTLS_ERR_SSL_BAD_HS_CLIENT_KEY_EXCHANGE'',
       ''SSL - Processing of the ClientKeyExchange handshake message failed''),
     (''MBEDTLS_ERR_SSL_BAD_HS_CLIENT_KEY_EXCHANGE_RP'',
       ''SSL - Processing of the ClientKeyExchange handshake message failed in DHM / ECDH Read Public''),
     (''MBEDTLS_ERR_SSL_BAD_HS_CLIENT_KEY_EXCHANGE_CS'',
       ''SSL - Processing of the ClientKeyExchange handshake message failed in DHM / ECDH Calculate Secret''),
     (''MBEDTLS_ERR_SSL_BAD_HS_CERTIFICATE_VERIFY'',
       ''SSL - Processing of the CertificateVerify handshake message failed''),
     (''MBEDTLS_ERR_SSL_BAD_HS_CHANGE_CIPHER_SPEC'',
       ''SSL - Processing of the ChangeCipherSpec handshake message failed''),
     (''MBEDTLS_ERR_SSL_BAD_HS_FINISHED'',
       ''SSL - Processing of the Finished handshake message failed''),
     (''MBEDTLS_ERR_SSL_ALLOC_FAILED'',
       ''SSL - Memory allocation failed''),
     (''MBEDTLS_ERR_SSL_HW_ACCEL_FAILED'',
       ''SSL - Hardware acceleration function returned with error''),
     (''MBEDTLS_ERR_SSL_HW_ACCEL_FALLTHROUGH'',
       ''SSL - Hardware acceleration function skipped / left alone data''),
     (''MBEDTLS_ERR_SSL_COMPRESSION_FAILED'',
       ''SSL - Processing of the compression / decompression failed''),
     (''MBEDTLS_ERR_SSL_BAD_HS_PROTOCOL_VERSION'',
       ''SSL - Handshake protocol not within min/max boundaries''),
     (''MBEDTLS_ERR_SSL_BAD_HS_NEW_SESSION_TICKET'',
       ''SSL - Processing of the NewSessionTicket handshake message failed''),
     (''MBEDTLS_ERR_SSL_SESSION_TICKET_EXPIRED'',
       ''SSL - Session ticket has expired''),
     (''MBEDTLS_ERR_SSL_PK_TYPE_MISMATCH'',
       ''SSL - Public key type mismatch (eg, asked for RSA key exchange and presented EC key)''),
     (''MBEDTLS_ERR_SSL_UNKNOWN_IDENTITY'',
       ''SSL - Unknown identity received (eg, PSK identity)''),
     (''MBEDTLS_ERR_SSL_INTERNAL_ERROR'',
       ''SSL - Internal error (eg, unexpected failure in lower-level module)''),
     (''MBEDTLS_ERR_SSL_COUNTER_WRAPPING'',
       ''SSL - A counter would wrap (eg, too many messages exchanged)''),
     (''MBEDTLS_ERR_SSL_WAITING_SERVER_HELLO_RENEGO'',
       ''SSL - Unexpected message at ServerHello in renegotiation''),
     (''MBEDTLS_ERR_SSL_HELLO_VERIFY_REQUIRED'',
       ''SSL - DTLS client must retry for hello verification''),
     (''MBEDTLS_ERR_SSL_BUFFER_TOO_SMALL'',
       ''SSL - A buffer is too small to receive or write a message''),
     (''MBEDTLS_ERR_SSL_NO_USABLE_CIPHERSUITE'',
       ''SSL - None of the common ciphersuites is usable (eg, no suitable certificate, see debug messages)''),
     (''MBEDTLS_ERR_SSL_WANT_READ'',
       ''SSL - No data of requested type currently available on underlying transport''),
     (''MBEDTLS_ERR_SSL_WANT_WRITE'',
       ''SSL - Connection requires a write call''),
     (''MBEDTLS_ERR_SSL_TIMEOUT'',
       ''SSL - The operation timed out''),
     (''MBEDTLS_ERR_SSL_CLIENT_RECONNECT'',
       ''SSL - The client initiated a reconnect from the same port''),
     (''MBEDTLS_ERR_SSL_UNEXPECTED_RECORD'',
       ''SSL - Record header looks valid but is not expected''),
     (''MBEDTLS_ERR_SSL_NON_FATAL'',
       ''SSL - The alert message received indicates a non-fatal error''),
     (''MBEDTLS_ERR_SSL_INVALID_VERIFY_HASH'',
       ''SSL - Couldn't set the hash for verifying CertificateVerify''),
     (''MBEDTLS_ERR_SSL_CONTINUE_PROCESSING'',
       ''SSL - Internal-only message signaling that further message-processing should be done''),
     (''MBEDTLS_ERR_SSL_ASYNC_IN_PROGRESS'',
       ''SSL - The asynchronous operation is not completed yet''),
     (''MBEDTLS_ERR_SSL_EARLY_MESSAGE'',
       ''SSL - Internal-only message signaling that a message arrived early''),
     (''MBEDTLS_ERR_SSL_CRYPTO_IN_PROGRESS'',
       ''SSL - A cryptographic operation is in progress. Try again later'')]"

definition x509_errors :: error_cases where
  "x509_errors = [
     (''MBEDTLS_ERR_X509_FEATURE_UNAVAILABLE'',
       ''X509 - Unavailable feature, e.g. RSA hashing/encryption combination''),
     (''MBEDTLS_ERR_X509_UNKNOWN_OID'',
       ''X509 - Requested OID is unknown''),
     (''MBEDTLS_ERR_X509_INVALID_FORMAT'',
       ''X509 - The CRT/CRL/CSR format is invalid, e.g. different type expected''),
     (''MBEDTLS_ERR_X509_INVALID_VERSION'',
       ''X509 - The CRT/CRL/CSR version element is invalid''),
     (''MBEDTLS_ERR_X509_INVALID_SERIAL'',
       ''X509 - The serial tag or value is invalid''),
     (''MBEDTLS_ERR_X509_INVALID_ALG'',
       ''X509 - The algorithm tag or value is invalid''),
     (''MBEDTLS_ERR_X509_INVALID_NAME'',
       ''X509 - The name tag or value is invalid''),
     (''MBEDTLS_ERR_X509_INVALID_DATE'',
       ''X509 - The date tag or value is invalid''),
     (''MBEDTLS_ERR_X509_INVALID_SIGNATURE'',
       ''X509 - The signature tag or value invalid''),
     (''MBEDTLS_ERR_X509_INVALID_EXTENSIONS'',
       ''X509 - The extension tag or value is invalid''),
     (''MBEDTLS_ERR_X509_UNKNOWN_VERSION'',
       ''X509 - CRT/CRL/CSR has an unsupported version number''),
     (''MBEDTLS_ERR_X509_UNKNOWN_SIG_ALG'',
       ''X509 - Signature algorithm (oid) is unsupported''),
     (''MBEDTLS_ERR_X509_SIG_MISMATCH'',
       ''X509 - Signature algorithms do not match. (see '' @ CHR 0x5C # ''c ::mbedtls_x509_crt sig_oid)''),
     (''MBEDTLS_ERR_X509_CERT_VERIFY_FAILED'',
       ''X509 - Certificate verification failed, e.g. CRL, CA or signature check failed''),
     (''MBEDTLS_ERR_X509_CERT_UNKNOWN_FORMAT'',
       ''X509 - Format not recognized as DER or PEM''),
     (''MBEDTLS_ERR_X509_BAD_INPUT_DATA'',
       ''X509 - Input invalid''),
     (''MBEDTLS_ERR_X509_ALLOC_FAILED'',
       ''X509 - Allocation of memory failed''),
     (''MBEDTLS_ERR_X509_FILE_IO_ERROR'',
       ''X509 - Read/write of file failed''),
     (''MBEDTLS_ERR_X509_BUFFER_TOO_SMALL'',
       ''X509 - Destination buffer is too small''),
     (''MBEDTLS_ERR_X509_FATAL_ERROR'',
       ''X509 - A fatal error occured, eg the chain is too long or the vrfy callback failed'')]"

definition high_groups :: "(string list \<times> error_cases) list" where
  "high_groups = [
     ([''MBEDTLS_CIPHER_C''], cipher_errors),
     ([''MBEDTLS_DHM_C''], dhm_errors),
     ([''MBEDTLS_ECP_C''], ecp_errors),
     ([''MBEDTLS_MD_C''], md_errors),
     ([''MBEDTLS_PEM_PARSE_C'', ''MBEDTLS_PEM_WRITE_C''], pem_errors),
     ([''MBEDTLS_PK_C''], pk_errors),
     ([''MBEDTLS_PKCS12_C''], pkcs12_errors),
     ([''MBEDTLS_PKCS5_C''], pkcs5_errors),
     ([''MBEDTLS_RSA_C''], rsa_errors),
     ([''MBEDTLS_SSL_TLS_C''], ssl_errors),
     ([''MBEDTLS_X509_USE_C'', ''MBEDTLS_X509_CREATE_C''], x509_errors)]"

section \<open>Low-level codes\<close>

definition aes_errors :: error_cases where
  "aes_errors = [
     (''MBEDTLS_ERR_AES_INVALID_KEY_LENGTH'',
       ''AES - Invalid key length''),
     (''MBEDTLS_ERR_AES_INVALID_INPUT_LENGTH'',
       ''AES - Invalid data input length''),
     (''MBEDTLS_ERR_AES_BAD_INPUT_DATA'',
       ''AES - Invalid input data''),
     (''MBEDTLS_ERR_AES_FEATURE_UNAVAILABLE'',
       ''AES - Feature not available. For example, an unsupported AES key size''),
     (''MBEDTLS_ERR_AES_HW_ACCEL_FAILED'',
       ''AES - AES hardware accelerator failed'')]"

definition arc4_errors :: error_cases where
  "arc4_errors = [
     (''MBEDTLS_ERR_ARC4_HW_ACCEL_FAILED'',
       ''ARC4 - ARC4 hardware accelerator failed'')]"

definition aria_errors :: error_cases where
  "aria_errors = [
     (''MBEDTLS_ERR_ARIA_BAD_INPUT_DATA'',
       ''ARIA - Bad input data''),
     (''MBEDTLS_ERR_ARIA_INVALID_INPUT_LENGTH'',
       ''ARIA - Invalid data input length''),
     (''MBEDTLS_ERR_ARIA_FEATURE_UNAVAILABLE'',
       ''ARIA - Feature not available. For example, an unsupported ARIA key size''),
     (''MBEDTLS_ERR_ARIA_HW_ACCEL_FAILED'',
       ''ARIA - ARIA hardware accelerator failed'')]"

definition asn1_errors :: error_cases where
  "asn1_errors = [
     (''MBEDTLS_ERR_ASN1_OUT_OF_DATA'',
       ''ASN1 - Out of data when parsing an ASN1 data structure''),
     (''MBEDTLS_ERR_ASN1_UNEXPECTED_TAG'',
       ''ASN1 - ASN1 tag was of an unexpected value''),
     (''MBEDTLS_ERR_ASN1_INVALID_LENGTH'',
       ''ASN1 - Error when trying to determine the length or invalid length''),
     (''MBEDTLS_ERR_ASN1_LENGTH_MISMATCH'',
       ''ASN1 - Actual length differs from expected length''),
     (''MBEDTLS_ERR_ASN1_INVALID_DATA'',
       ''ASN1 - Data is invalid. (not used)''),
     (''MBEDTLS_ERR_ASN1_ALLOC_FAILED'',
       ''ASN1 - Memory allocation failed''),
     (''MBEDTLS_ERR_ASN1_BUF_TOO_SMALL'',
       ''ASN1 - Buffer too small when writing ASN.1 data structure'')]"

definition base64_errors :: error_cases where
  "base64_errors = [
     (''MBEDTLS_ERR_BASE64_BUFFER_TOO_SMALL'',
       ''BASE64 - Output buffer too small''),
     (''MBEDTLS_ERR_BASE64_INVALID_CHARACTER'',
       ''BASE64 - Invalid character in input'')]"

definition bignum_errors :: error_cases where
  "bignum_errors = [
     (''MBEDTLS_ERR_MPI_FILE_IO_ERROR'',
       ''BIGNUM - An error occurred while reading from or writing to a file''),
     (''MBEDTLS_ERR_MPI_BAD_INPUT_DATA'',
       ''BIGNUM - Bad input parameters to function''),
     (''MBEDTLS_ERR_MPI_INVALID_CHARACTER'',
       ''BIGNUM - There is an invalid character in the digit string''),
     (''MBEDTLS_ERR_MPI_BUFFER_TOO_SMALL'',
       ''BIGNUM - The buffer is too small to write to''),
     (''MBEDTLS_ERR_MPI_NEGATIVE_VALUE'',
       ''BIGNUM - The input arguments are negative or result in illegal output''),
     (''MBEDTLS_ERR_MPI_DIVISION_BY_ZERO'',
       ''BIGNUM - The input argument for division is zero, which is not allowed''),
     (''MBEDTLS_ERR_MPI_NOT_ACCEPTABLE'',
       ''BIGNUM - The input arguments are not acceptable''),
     (''MBEDTLS_ERR_MPI_ALLOC_FAILED'',
       ''BIGNUM - Memory allocation failed'')]"

definition blowfish_errors :: error_cases where
  "blowfish_errors = [
     (''MBEDTLS_ERR_BLOWFISH_BAD_INPUT_DATA'',
       ''BLOWFISH - Bad input data''),
     (''MBEDTLS_ERR_BLOWFISH_INVALID_INPUT_LENGTH'',
       ''BLOWFISH - Invalid data input length''),
     (''MBEDTLS_ERR_BLOWFISH_HW_ACCEL_FAILED'',
       ''BLOWFISH - Blowfish hardware accelerator failed'')]"

definition camellia_errors :: error_cases where
  "camellia_errors = [
     (''MBEDTLS_ERR_CAMELLIA_BAD_INPUT_DATA'',
       ''CAMELLIA - Bad input data''),
     (''MBEDTLS_ERR_CAMELLIA_INVALID_INPUT_LENGTH'',
       ''CAMELLIA - Invalid data input length''),
     (''MBEDTLS_ERR_CAMELLIA_HW_ACCEL_FAILED'',
       ''CAMELLIA - Camellia hardware accelerator failed'')]"

definition ccm_errors :: error_cases where
  "ccm_errors = [
     (''MBEDTLS_ERR_CCM_BAD_INPUT'',
       ''CCM - Bad input parameters to the function''),
     (''MBEDTLS_ERR_CCM_AUTH_FAILED'',
       ''CCM - Authenticated decryption failed''),
     (''MBEDTLS_ERR_CCM_HW_ACCEL_FAILED'',
       ''CCM - CCM hardware accelerator failed'')]"

definition chacha20_errors :: error_cases where
  "chacha20_errors = [
     (''MBEDTLS_ERR_CHACHA20_BAD_INPUT_DATA'',
       ''CHACHA20 - Invalid input parameter(s)''),
     (''MBEDTLS_ERR_CHACHA20_FEATURE_UNAVAILABLE'',
       ''CHACHA20 - Feature not available. For example, s part of the API is not implemented''),
     (''MBEDTLS_ERR_CHACHA20_HW_ACCEL_FAILED'',
       ''CHACHA20 - Chacha20 hardware accelerator failed'')]"

definition chachapoly_errors :: error_cases where
  "chachapoly_errors = [
     (''MBEDTLS_ERR_CHACHAPOLY_BAD_STATE'',
       ''CHACHAPOLY - The requested operation is not permitted in the current state''),
     (''MBEDTLS_ERR_CHACHAPOLY_AUTH_FAILED'',
       ''CHACHAPOLY - Authenticated decryption failed: data was not authentic'')]"

definition cmac_errors :: error_cases where
  "cmac_errors = [
     (''MBEDTLS_ERR_CMAC_HW_ACCEL_FAILED'',
       ''CMAC - CMAC hardware accelerator failed'')]"

definition ctr_drbg_errors :: error_cases where
  "ctr_drbg_errors = [
     (''MBEDTLS_ERR_CTR_DRBG_ENTROPY_SOURCE_FAILED'',
       ''CTR_DRBG - The entropy source failed''),
     (''MBEDTLS_ERR_CTR_DRBG_REQUEST_TOO_BIG'',
       ''CTR_DRBG - The requested random buffer length is too big''),
     (''MBEDTLS_ERR_CTR_DRBG_INPUT_TOO_BIG'',
       ''CTR_DRBG - The input (entropy + additional data) is too large''),
     (''MBEDTLS_ERR_CTR_DRBG_FILE_IO_ERROR'',
       ''CTR_DRBG - Read or write error in file'')]"

definition des_errors :: error_cases where
  "des_errors = [
     (''MBEDTLS_ERR_DES_INVALID_INPUT_LENGTH'',
       ''DES - The data input has an invalid length''),
     (''MBEDTLS_ERR_DES_HW_ACCEL_FAILED'',
       ''DES - DES hardware accelerator failed'')]"

definition entropy_errors :: error_cases where
  "entropy_errors = [
     (''MBEDTLS_ERR_ENTROPY_SOURCE_FAILED'',
       ''ENTROPY - Critical entropy source failure''),
     (''MBEDTLS_ERR_ENTROPY_MAX_SOURCES'',
       ''ENTROPY - No more sources can be added''),
     (''MBEDTLS_ERR_ENTROPY_NO_SOURCES_DEFINED'',
       ''ENTROPY - No sources have been added to poll''),
     (''MBEDTLS_ERR_ENTROPY_NO_STRONG_SOURCE'',
       ''ENTROPY - No strong sources have been added to poll''),
     (''MBEDTLS_ERR_ENTROPY_FILE_IO_ERROR'',
       ''ENTROPY - Read/write error in file'')]"

definition gcm_errors :: error_cases where
  "gcm_errors = [
     (''MBEDTLS_ERR_GCM_AUTH_FAILED'',
       ''GCM - Authenticated decryption failed''),
     (''MBEDTLS_ERR_GCM_HW_ACCEL_FAILED'',
       ''GCM - GCM hardware accelerator failed''),
     (''MBEDTLS_ERR_GCM_BAD_INPUT'',
       ''GCM - Bad input parameters to function'')]"

definition hkdf_errors :: error_cases where
  "hkdf_errors = [
     (''MBEDTLS_ERR_HKDF_BAD_INPUT_DATA'',
       ''HKDF - Bad input parameters to function'')]"

definition hmac_drbg_errors :: error_cases where
  "hmac_drbg_errors = [
     (''MBEDTLS_ERR_HMAC_DRBG_REQUEST_TOO_BIG'',
       ''HMAC_DRBG - Too many random requested in single call''),
     (''MBEDTLS_ERR_HMAC_DRBG_INPUT_TOO_BIG'',
       ''HMAC_DRBG - Input too large (Entropy + additional)''),
     (''MBEDTLS_ERR_HMAC_DRBG_FILE_IO_ERROR'',
       ''HMAC_DRBG - Read/write error in file''),
     (''MBEDTLS_ERR_HMAC_DRBG_ENTROPY_SOURCE_FAILED'',
       ''HMAC_DRBG - The entropy source failed'')]"

definition md2_errors :: error_cases where
  "md2_errors = [
     (''MBEDTLS_ERR_MD2_HW_ACCEL_FAILED'',
       ''MD2 - MD2 hardware accelerator failed'')]"

definition md4_errors :: error_cases where
  "md4_errors = [
     (''MBEDTLS_ERR_MD4_HW_ACCEL_FAILED'',
       ''MD4 - MD4 hardware accelerator failed'')]"

definition md5_errors :: error_cases where
  "md5_errors = [
     (''MBEDTLS_ERR_MD5_HW_ACCEL_FAILED'',
       ''MD5 - MD5 hardware accelerator failed'')]"

definition net_errors :: error_cases where
  "net_errors = [
     (''MBEDTLS_ERR_NET_SOCKET_FAILED'',
       ''NET - Failed to open a socket''),
     (''MBEDTLS_ERR_NET_CONNECT_FAILED'',
       ''NET - The connection to the given server / port failed''),
     (''MBEDTLS_ERR_NET_BIND_FAILED'',
       ''NET - Binding of the socket failed''),
     (''MBEDTLS_ERR_NET_LISTEN_FAILED'',
       ''NET - Could not listen on the socket''),
     (''MBEDTLS_ERR_NET_ACCEPT_FAILED'',
       ''NET - Could not accept the incoming connection''),
     (''MBEDTLS_ERR_NET_RECV_FAILED'',
       ''NET - Reading information from the socket failed''),
     (''MBEDTLS_ERR_NET_SEND_FAILED'',
       ''NET - Sending information through the socket failed''),
     (''MBEDTLS_ERR_NET_CONN_RESET'',
       ''NET - Connection was reset by peer''),
     (''MBEDTLS_ERR_NET_UNKNOWN_HOST'',
       ''NET - Failed to get an IP address for the given hostname''),
     (''MBEDTLS_ERR_NET_BUFFER_TOO_SMALL'',
       ''NET - Buffer is too small to hold the data''),
     (''MBEDTLS_ERR_NET_INVALID_CONTEXT'',
       ''NET - The context is invalid, eg because it was free()ed''),
     (''MBEDTLS_ERR_NET_POLL_FAILED'',
       ''NET - Polling the net context failed''),
     (''MBEDTLS_ERR_NET_BAD_INPUT_DATA'',
       ''NET - Input invalid'')]"

definition oid_errors :: error_cases where
  "oid_errors = [
     (''MBEDTLS_ERR_OID_NOT_FOUND'',
       ''OID - OID is not found''),
     (''MBEDTLS_ERR_OID_BUF_TOO_SMALL'',
       ''OID - output buffer is too small'')]"

definition padlock_errors :: error_cases where
  "padlock_errors = [
     (''MBEDTLS_ERR_PADLOCK_DATA_MISALIGNED'',
       ''PADLOCK - Input data should be aligned'')]"

definition platform_errors :: error_cases where
  "platform_errors = [
     (''MBEDTLS_ERR_PLATFORM_HW_ACCEL_FAILED'',
       ''PLATFORM - Hardware accelerator failed''),
     (''MBEDTLS_ERR_PLATFORM_FEATURE_UNSUPPORTED'',
       ''PLATFORM - The requested feature is not supported by the platform'')]"

definition poly1305_errors :: error_cases where
  "poly1305_errors = [
     (''MBEDTLS_ERR_POLY1305_BAD_INPUT_DATA'',
       ''POLY1305 - Invalid input parameter(s)''),
     (''MBEDTLS_ERR_POLY1305_FEATURE_UNAVAILABLE'',
       ''POLY1305 - Feature not available. For example, s part of the API is not implemented''),
     (''MBEDTLS_ERR_POLY1305_HW_ACCEL_FAILED'',
       ''POLY1305 - Poly1305 hardware accelerator failed'')]"

definition ripemd160_errors :: error_cases where
  "ripemd160_errors = [
     (''MBEDTLS_ERR_RIPEMD160_HW_ACCEL_FAILED'',
       ''RIPEMD160 - RIPEMD160 hardware accelerator failed'')]"

definition sha1_errors :: error_cases where
  "sha1_errors = [
     (''MBEDTLS_ERR_SHA1_HW_ACCEL_FAILED'',
       ''SHA1 - SHA-1 hardware accelerator failed''),
     (''MBEDTLS_ERR_SHA1_BAD_INPUT_DATA'',
       ''SHA1 - SHA-1 input data was malformed'')]"

definition sha256_errors :: error_cases where
  "sha256_errors = [
     (''MBEDTLS_ERR_SHA256_HW_ACCEL_FAILED'',
       ''SHA256 - SHA-256 hardware accelerator failed''),
     (''MBEDTLS_ERR_SHA256_BAD_INPUT_DATA'',
       ''SHA256 - SHA-256 input data was malformed'')]"

definition sha512_errors :: error_cases where
  "sha512_errors = [
     (''MBEDTLS_ERR_SHA512_HW_ACCEL_FAILED'',
       ''SHA512 - SHA-512 hardware accelerator failed''),
     (''MBEDTLS_ERR_SHA512_BAD_INPUT_DATA'',
       ''SHA512 - SHA-512 input data was malformed'')]"

definition threading_errors :: error_cases where
  "threading_errors = [
     (''MBEDTLS_ERR_THREADING_FEATURE_UNAVAILABLE'',
       ''THREADING - The selected feature is not available''),
     (''MBEDTLS_ERR_THREADING_BAD_INPUT_DATA'',
       ''THREADING - Bad input parameters to function''),
     (''MBEDTLS_ERR_THREADING_MUTEX_ERROR'',
       ''THREADING - Locking / unlocking / free failed with error code'')]"

definition xtea_errors :: error_cases where
  "xtea_errors = [
     (''MBEDTLS_ERR_XTEA_INVALID_INPUT_LENGTH'',
       ''XTEA - The data input has an invalid length''),
     (''MBEDTLS_ERR_XTEA_HW_ACCEL_FAILED'',
       ''XTEA - XTEA hardware accelerator failed'')]"

definition low_groups :: "(string list \<times> error_cases) list" where
  "low_groups = [
     ([''MBEDTLS_AES_C''], aes_errors),
     ([''MBEDTLS_ARC4_C''], arc4_errors),
     ([''MBEDTLS_ARIA_C''], aria_errors),
     ([''MBEDTLS_ASN1_PARSE_C''], asn1_errors),
     ([''MBEDTLS_BASE64_C''], base64_errors),
     ([''MBEDTLS_BIGNUM_C''], bignum_errors),
     ([''MBEDTLS_BLOWFISH_C''], blowfish_errors),
     ([''MBEDTLS_CAMELLIA_C''], camellia_errors),
     ([''MBEDTLS_CCM_C''], ccm_errors),
     ([''MBEDTLS_CHACHA20_C''], chacha20_errors),
     ([''MBEDTLS_CHACHAPOLY_C''], chachapoly_errors),
     ([''MBEDTLS_CMAC_C''], cmac_errors),
     ([''MBEDTLS_CTR_DRBG_C''], ctr_drbg_errors),
     ([''MBEDTLS_DES_C''], des_errors),
     ([''MBEDTLS_ENTROPY_C''], entropy_errors),
     ([''MBEDTLS_GCM_C''], gcm_errors),
     ([''MBEDTLS_HKDF_C''], hkdf_errors),
     ([''MBEDTLS_HMAC_DRBG_C''], hmac_drbg_errors),
     ([''MBEDTLS_MD2_C''], md2_errors),
     ([''MBEDTLS_MD4_C''], md4_errors),
     ([''MBEDTLS_MD5_C''], md5_errors),
     ([''MBEDTLS_NET_C''], net_errors),
     ([''MBEDTLS_OID_C''], oid_errors),
     ([''MBEDTLS_PADLOCK_C''], padlock_errors),
     ([''MBEDTLS_PLATFORM_C''], platform_errors),
     ([''MBEDTLS_POLY1305_C''], poly1305_errors),
     ([''MBEDTLS_RIPEMD160_C''], ripemd160_errors),
     ([''MBEDTLS_SHA1_C''], sha1_errors),
     ([''MBEDTLS_SHA256_C''], sha256_errors),
     ([''MBEDTLS_SHA512_C''], sha512_errors),
     ([''MBEDTLS_THREADING_C''], threading_errors),
     ([''MBEDTLS_XTEA_C''], xtea_errors)]"

section \<open>The configuration\<close>

text \<open>The macros that source/configuration-files/mbedtls_config.h defines.\<close>

definition mbedtls_config :: "string list" where
  "mbedtls_config = [
     ''MBEDTLS_CONFIG_H'',
     ''MBEDTLS_DEBUG_C'',
     ''MBEDTLS_DEBUG_THRESHOLD'',
     ''MBEDTLS_DEPRECATED_REMOVED'',
     ''MBEDTLS_AES_ROM_TABLES'',
     ''MBEDTLS_CIPHER_MODE_CBC'',
     ''MBEDTLS_CIPHER_MODE_CFB'',
     ''MBEDTLS_CIPHER_MODE_CTR'',
     ''MBEDTLS_CIPHER_PADDING_PKCS7'',
     ''MBEDTLS_CIPHER_PADDING_ONE_AND_ZEROS'',
     ''MBEDTLS_CIPHER_PADDING_ZEROS_AND_LEN'',
     ''MBEDTLS_CIPHER_PADDING_ZEROS'',
     ''MBEDTLS_REMOVE_ARC4_CIPHERSUITES'',
     ''MBEDTLS_ECP_DP_SECP256R1_ENABLED'',
     ''MBEDTLS_ECP_NIST_OPTIM'',
     ''MBEDTLS_KEY_EXCHANGE_ECDHE_RSA_ENABLED'',
     ''MBEDTLS_KEY_EXCHANGE_ECDHE_ECDSA_ENABLED'',
     ''MBEDTLS_SSL_ALL_ALERT_MESSAGES'',
     ''MBEDTLS_SSL_ENCRYPT_THEN_MAC'',
     ''MBEDTLS_SSL_EXTENDED_MASTER_SECRET'',
     ''MBEDTLS_SSL_MAX_FRAGMENT_LENGTH'',
     ''MBEDTLS_SSL_PROTO_TLS1_2'',
     ''MBEDTLS_SSL_ALPN'',
     ''MBEDTLS_SSL_SERVER_NAME_INDICATION'',
     ''MBEDTLS_X509_CHECK_KEY_USAGE'',
     ''MBEDTLS_X509_CHECK_EXTENDED_KEY_USAGE'',
     ''MBEDTLS_NO_PLATFORM_ENTROPY'',
     ''MBEDTLS_AES_C'',
     ''MBEDTLS_ASN1_PARSE_C'',
     ''MBEDTLS_ASN1_WRITE_C'',
     ''MBEDTLS_BASE64_C'',
     ''MBEDTLS_BIGNUM_C'',
     ''MBEDTLS_CIPHER_C'',
     ''MBEDTLS_CTR_DRBG_C'',
     ''MBEDTLS_ECDH_C'',
     ''MBEDTLS_ECDSA_C'',
     ''MBEDTLS_ECP_C'',
     ''MBEDTLS_ENTROPY_C'',
     ''MBEDTLS_GCM_C'',
     ''MBEDTLS_MD_C'',
     ''MBEDTLS_OID_C'',
     ''MBEDTLS_PEM_PARSE_C'',
     ''MBEDTLS_PK_C'',
     ''MBEDTLS_PK_PARSE_C'',
     ''MBEDTLS_PKCS1_V15'',
     ''MBEDTLS_PLATFORM_C'',
     ''MBEDTLS_RSA_C'',
     ''MBEDTLS_SHA1_C'',
     ''MBEDTLS_SHA256_C'',
     ''MBEDTLS_SSL_CLI_C'',
     ''MBEDTLS_SSL_TLS_C'',
     ''MBEDTLS_THREADING_ALT'',
     ''MBEDTLS_THREADING_C'',
     ''MBEDTLS_X509_USE_C'',
     ''MBEDTLS_X509_CRT_PARSE_C'',
     ''MBEDTLS_PLATFORM_MEMORY'',
     ''MBEDTLS_PLATFORM_CALLOC_MACRO'',
     ''MBEDTLS_PLATFORM_FREE_MACRO'']"

definition in_config :: "string \<Rightarrow> bool" where
  "in_config m = List.member mbedtls_config m"

section \<open>The functions\<close>

text \<open>The cases of the groups for which one of the macros is defined.\<close>

definition compiled ::
  "(string \<Rightarrow> bool) \<Rightarrow> (string list \<times> error_cases) list \<Rightarrow> error_cases" where
  "compiled on groups = concat (map snd (filter (list_ex on \<circ> fst) groups))"

definition use_ret :: "int \<Rightarrow> u32" where
  "use_ret errnum = (if errnum < 0 then of_int (- errnum) else of_int errnum) AND (0xFF80 :: u32)"

fun error_switch :: "(string \<Rightarrow> int) \<Rightarrow> error_cases \<Rightarrow> u32 \<Rightarrow> string option" where
  "error_switch code [] v = None"
| "error_switch code ((name, rc) # cases) v =
     (if of_int (- code name) = v then Some rc else error_switch code cases v)"

definition mbedtls_strerror_highlevel ::
  "(string \<Rightarrow> bool) \<Rightarrow> (string \<Rightarrow> int) \<Rightarrow> int \<Rightarrow> string option" where
  "mbedtls_strerror_highlevel on code errnum =
     error_switch code (compiled on high_groups) (use_ret errnum)"

definition mbedtls_strerror_lowlevel ::
  "(string \<Rightarrow> bool) \<Rightarrow> (string \<Rightarrow> int) \<Rightarrow> int \<Rightarrow> string option" where
  "mbedtls_strerror_lowlevel on code errnum =
     error_switch code (compiled on low_groups) (use_ret errnum)"

text \<open>What the TLS transports log.\<close>

definition pNoHighLevelMbedTlsCodeStr :: string where
  "pNoHighLevelMbedTlsCodeStr = ''<No-High-Level-Code>''"

definition pNoLowLevelMbedTlsCodeStr :: string where
  "pNoLowLevelMbedTlsCodeStr = ''<No-Low-Level-Code>''"

definition mbedtlsHighLevelCodeOrDefault ::
  "(string \<Rightarrow> bool) \<Rightarrow> (string \<Rightarrow> int) \<Rightarrow> int \<Rightarrow> string" where
  "mbedtlsHighLevelCodeOrDefault on code mbedTlsCode =
     (case mbedtls_strerror_highlevel on code mbedTlsCode of
        Some str \<Rightarrow> str | None \<Rightarrow> pNoHighLevelMbedTlsCodeStr)"

definition mbedtlsLowLevelCodeOrDefault ::
  "(string \<Rightarrow> bool) \<Rightarrow> (string \<Rightarrow> int) \<Rightarrow> int \<Rightarrow> string" where
  "mbedtlsLowLevelCodeOrDefault on code mbedTlsCode =
     (case mbedtls_strerror_lowlevel on code mbedTlsCode of
        Some str \<Rightarrow> str | None \<Rightarrow> pNoLowLevelMbedTlsCodeStr)"

section \<open>The layout of the codes\<close>

text \<open>
  As mbedTLS documents it: the negated code has seven bits for the module at the bottom of the
  stack that failed, and the bits above for the one that reports.
\<close>

definition high_code :: "int \<Rightarrow> bool" where
  "high_code c \<longleftrightarrow> (\<exists>k. c = - (128 * k) \<and> 0 < k \<and> k < 512)"

definition low_code :: "int \<Rightarrow> bool" where
  "low_code c \<longleftrightarrow> - 128 < c \<and> c < 0"

text \<open>The mask keeps the high part and drops the low one.\<close>

lemma mask_high:
  assumes "n < 2 ^ 16"
  shows "(of_nat n :: u32) AND 0xFF80 = of_nat (n div 128 * 128)"
proof (rule bit_word_eqI)
  fix i
  assume i: "i < LENGTH(32)"
  have mask: "(0xFF80 :: u32) = push_bit 7 (mask 9)" by (simp add: mask_eq_exp_minus_1)
  have "bit n i \<Longrightarrow> i < 16"
  proof -
    assume "bit n i"
    moreover have "take_bit 16 n = n" using assms by (simp add: take_bit_nat_eq_self)
    ultimately show "i < 16" by (metis bit_take_bit_iff)
  qed
  moreover have "n div 128 * 128 = push_bit 7 (drop_bit 7 n)"
    by (simp add: push_bit_eq_mult drop_bit_eq_div)
  ultimately show "bit ((of_nat n :: u32) AND 0xFF80) i = bit (of_nat (n div 128 * 128) :: u32) i"
    using i unfolding mask by (auto simp: bit_simps)
qed

lemma use_ret_code:
  assumes "\<bar>c\<bar> < 2 ^ 16"
  shows "use_ret c = of_nat (nat \<bar>c\<bar> div 128 * 128)"
proof -
  have "nat \<bar>c\<bar> < 2 ^ 16" using assms by simp
  moreover have "use_ret c = (of_nat (nat \<bar>c\<bar>) :: u32) AND 0xFF80"
    by (simp add: use_ret_def)
  ultimately show ?thesis by (simp only: mask_high)
qed

lemma use_ret_low_bits: "use_ret c AND 0x7F = 0"
proof -
  have "(0xFF80 :: u32) AND 0x7F = 0" by simp
  then show ?thesis by (simp only: use_ret_def and.assoc) simp
qed

lemma low_code_bits:
  assumes "low_code c"
  shows "(of_int (- c) :: u32) AND 0x7F \<noteq> 0"
proof -
  obtain m where m: "- c = int m" "0 < m" "m < 128"
    using assms nonneg_int_cases [of "- c"] by (auto simp: low_code_def)
  have "(0x7F :: u32) = mask 7" by (simp add: mask_eq_exp_minus_1)
  then have "(of_nat m :: u32) AND 0x7F = take_bit 7 (of_nat m)"
    by (simp only: take_bit_eq_mask)
  also have "\<dots> = of_nat (take_bit 7 m)" by (simp add: take_bit_of_nat)
  also have "take_bit 7 m = m" using m(3) by (simp add: take_bit_nat_eq_self)
  finally have "(of_nat m :: u32) AND 0x7F = of_nat m" .
  moreover have "unat (of_nat m :: u32) = m" by (rule unat_of_nat32) (use m(3) in simp)
  then have "(of_nat m :: u32) \<noteq> 0" using m(2) by auto
  ultimately show ?thesis using m(1) by simp
qed

lemma error_switch_None:
  "\<forall>(n, rc) \<in> set cases. of_int (- code n) \<noteq> v \<Longrightarrow> error_switch code cases v = None"
  by (induction cases) auto

lemma error_switch_Some:
  assumes "(name, rc) \<in> set cases" and "of_int (- code name) = v"
    and "\<forall>(n, m) \<in> set cases. of_int (- code n) = v \<longrightarrow> code n = code name"
    and "distinct (map (code \<circ> fst) cases)"
  shows "error_switch code cases v = Some rc"
  using assms
proof (induction cases)
  case (Cons p cases)
  obtain n m where p: "p = (n, m)" by (cases p)
  show ?case
  proof (cases "of_int (- code n) = v")
    case True
    with Cons.prems(3) p have eq: "code n = code name" by simp
    have "(name, rc) = (n, m)"
    proof (rule ccontr)
      assume "(name, rc) \<noteq> (n, m)"
      with Cons.prems(1) p have "(name, rc) \<in> set cases" by auto
      then have "code name \<in> set (map (code \<circ> fst) cases)" by force
      with Cons.prems(4) p eq show False by simp
    qed
    with True p show ?thesis by simp
  next
    case False
    with Cons p show ?thesis by auto
  qed
qed simp

lemma high_code_word:
  assumes "high_code a" and "high_code b" and "(of_int (- a) :: u32) = of_int (- b)"
  shows "a = b"
proof -
  obtain k l where kl: "a = - (128 * k)" "0 < k" "k < 512" "b = - (128 * l)" "0 < l" "l < 512"
    using assms(1,2) by (auto simp: high_code_def)
  have word: "unat (of_nat (nat (128 * j)) :: u32) = nat (128 * j)" if "j < 512" for j :: int
    by (rule unat_of_nat32) (use that in simp)
  have "unat (of_nat (nat (128 * k)) :: u32) = nat (128 * k)"
    "unat (of_nat (nat (128 * l)) :: u32) = nat (128 * l)"
    using kl word by blast+
  moreover have "(of_nat (nat (128 * k)) :: u32) = of_nat (nat (128 * l))"
    using assms(3) kl by simp
  ultimately show ?thesis using kl by simp
qed

section \<open>Properties\<close>

text \<open>
  C28. The text of the module that reports an error.  For every case that is compiled in, the code
  of the case, alone or with the code of a lower module added to it, and with either sign, is
  translated to the text of the case.
\<close>

theorem highlevel_text_found:
  assumes "(name, rc) \<in> set (compiled on high_groups)"
    and "\<forall>(n, m) \<in> set (compiled on high_groups). high_code (code n)"
    and "distinct (map (code \<circ> fst) (compiled on high_groups))"
    and "0 \<le> low" and "low < 128" and "\<bar>c\<bar> = low - code name"
  shows "mbedtls_strerror_highlevel on code c = Some rc"
proof -
  from assms(1,2) have "high_code (code name)" by blast
  then obtain k where k: "code name = - (128 * k)" "0 < k" "k < 512" by (auto simp: high_code_def)
  have "nat \<bar>c\<bar> div 128 * 128 = nat (128 * k)"
  proof -
    have "\<bar>c\<bar> div 128 = k" using assms(4-6) k(1) by simp
    then have "nat \<bar>c\<bar> div 128 = nat k" using nat_div_distrib [of "\<bar>c\<bar>" 128] by simp
    then show ?thesis using k(2) by (simp add: nat_mult_distrib)
  qed
  moreover have "\<bar>c\<bar> < 2 ^ 16" using assms(5,6) k by simp
  ultimately have "use_ret c = of_nat (nat (128 * k))" by (simp only: use_ret_code)
  then have v: "of_int (- code name) = use_ret c" using k by simp
  have "\<forall>(n, m) \<in> set (compiled on high_groups). of_int (- code n) = use_ret c \<longrightarrow> code n = code name"
    using assms(2) high_code_word [OF _ \<open>high_code (code name)\<close>] v by (auto simp del: of_int_minus)
  then show ?thesis
    unfolding mbedtls_strerror_highlevel_def
    by (intro error_switch_Some [OF assms(1) v _ assms(3)])
qed

text \<open>The codes of the message digest module, as mbedTLS documents them.\<close>

definition md_codes :: "string \<Rightarrow> int" where
  "md_codes n =
     (if n = ''MBEDTLS_ERR_MD_FEATURE_UNAVAILABLE'' then - 0x5080
      else if n = ''MBEDTLS_ERR_MD_BAD_INPUT_DATA'' then - 0x5100
      else if n = ''MBEDTLS_ERR_MD_ALLOC_FAILED'' then - 0x5180
      else if n = ''MBEDTLS_ERR_MD_FILE_IO_ERROR'' then - 0x5200
      else - 0x5280)"

lemma md_compiled: "compiled (\<lambda>g. g = ''MBEDTLS_MD_C'') high_groups = md_errors"
  by (simp add: compiled_def high_groups_def)

theorem highlevel_text_found_witness:
  "mbedtls_strerror_highlevel (\<lambda>g. g = ''MBEDTLS_MD_C'') md_codes (- 0x51A3) =
     Some ''MD - Failed to allocate memory''"
proof (rule highlevel_text_found [where name = "''MBEDTLS_ERR_MD_ALLOC_FAILED''" and low = 35])
  show "\<forall>(n, m) \<in> set (compiled (\<lambda>g. g = ''MBEDTLS_MD_C'') high_groups). high_code (md_codes n)"
    unfolding md_compiled
    by (simp add: md_errors_def md_codes_def high_code_def)
qed (simp_all add: md_compiled md_errors_def md_codes_def)

text \<open>
  C39. The module at the bottom is never named.  With the configuration of the demos the low-level
  function keeps the bits of the high part, so that no error code has a text and every log of
  the TLS transports says that there is no low-level code.
\<close>

theorem lowlevel_text_never_found:
  assumes "\<forall>(n, m) \<in> set (compiled in_config low_groups). low_code (code n)"
  shows "mbedtlsLowLevelCodeOrDefault in_config code c = pNoLowLevelMbedTlsCodeStr"
proof -
  have "of_int (- code n) \<noteq> use_ret c"
    if "(n, m) \<in> set (compiled in_config low_groups)" for n m
    using that assms low_code_bits [of "code n"] use_ret_low_bits [of c] by auto
  then have "mbedtls_strerror_lowlevel in_config code c = None"
    unfolding mbedtls_strerror_lowlevel_def by (intro error_switch_None) blast
  then show ?thesis by (simp add: mbedtlsLowLevelCodeOrDefault_def)
qed

text \<open>The two low-level AES codes that mbedTLS documents as 0x20 and 0x22; the others numbered.\<close>

definition low_sample :: "string \<Rightarrow> int" where
  "low_sample n =
     (if n = ''MBEDTLS_ERR_AES_INVALID_KEY_LENGTH'' then - 0x20
      else if n = ''MBEDTLS_ERR_AES_INVALID_INPUT_LENGTH'' then - 0x22
      else - int (length n))"

lemma aes_compiled:
  "(''MBEDTLS_ERR_AES_INVALID_KEY_LENGTH'', ''AES - Invalid key length'') \<in>
     set (compiled in_config low_groups)"
proof -
  have "in_config ''MBEDTLS_AES_C''" by code_simp
  then have "list_ex in_config [''MBEDTLS_AES_C'']" by simp
  then show ?thesis by (simp add: compiled_def low_groups_def aes_errors_def)
qed

theorem lowlevel_text_never_found_witness:
  "low_sample ''MBEDTLS_ERR_AES_INVALID_KEY_LENGTH'' = - 0x20
   \<and> (''MBEDTLS_ERR_AES_INVALID_KEY_LENGTH'', ''AES - Invalid key length'') \<in>
       set (compiled in_config low_groups)
   \<and> mbedtlsLowLevelCodeOrDefault in_config low_sample (- 0x20) =
       ''<No-Low-Level-Code>''"
proof -
  have names: "list_all (\<lambda>(n, m). n \<noteq> [] \<and> length n < 128) (concat (map snd low_groups))"
    by code_simp
  have "set (compiled on low_groups) \<subseteq> set (concat (map snd low_groups))" for on
    by (auto simp: compiled_def)
  then have "\<forall>(n, m) \<in> set (compiled in_config low_groups). low_code (low_sample n)"
    using names by (fastforce simp: low_code_def low_sample_def list_all_iff)
  from lowlevel_text_never_found [OF this] aes_compiled show ?thesis
    unfolding pNoLowLevelMbedTlsCodeStr_def by (simp add: low_sample_def [of "''MBEDTLS_ERR_AES_INVALID_KEY_LENGTH''"])
qed

end
