(* ===== verification/Spec2Isabelle.thy ===== *)
theory Spec2Isabelle
  imports Subscription_Manager Command_Pool Report_Builder Tls_Pkcs11 Platform_Port
    Mqtt_Agent_Task Ota_Pal Shadow_Update Ota_Demo Defender_Demo Simple_Sub_Pub
    Large_Message Demo_System Application Logging_Windows Mbedtls_Error
begin

text \<open>
  The coreMQTT-Agent demos: FreeRTOS tasks that share one MQTT connection through the coreMQTT
  agent.  This development models the C code of the repository and proves what makes it
  correct; where the code does not do what it means to, the theorem says what it does instead.

  \<^bold>\<open>The program.\<close>  \<open>main\<close> (source/main.c) starts FreeRTOS+TCP and the scheduler.  When the network
  comes up, the event hook creates the connection task (source/mqtt-agent-task.c), which
  connects to the broker through one of the transports (lib/FreeRTOS/network_transport), creates
  the demo tasks (source/demo-tasks) and becomes the MQTT agent task.  The demo tasks queue
  commands for the agent (lib/FreeRTOS/mqtt-agent-interface) and wait for notifications.  The
  agent task runs their callbacks: a completion callback when a command is acknowledged, which
  enters subscriptions into the shared list (source/subscription-manager), and, for each publish
  that arrives, the callbacks of the matching subscriptions.  What nobody handles goes to the OTA
  demo, whose library writes the image through lib/AWS/ota-pal and checks its signature with
  lib/FreeRTOS/utilities/crypto.  The defender demo reports what source/defender-tools collects.
  All tasks log through logging_output_qemu.c or logging_output_windows.c (build).

  \<^bold>\<open>Theories.\<close>  Definitions have the names of the C functions, with a prefix where two files use the
  same one (\<open>dev_\<close> and \<open>upd_\<close> of the shadow tasks, \<open>sp_\<close> and \<open>large_\<close>, \<open>win_\<close>).

  \<^item> Prelude: machine integers, arrays with checked access, \<open>configASSERT\<close>, \<open>snprintf\<close>,
    \<open>strtoul\<close>, and the option monad of calls.
  \<^item> Subscription_Manager: the list of subscription_manager.c.  \<open>list_ok\<close> is its invariant, \<open>subs\<close>
    its abstraction to a set of subscriptions; every operation refines the one on the set.
    Locale \<open>subscription_store\<close>.
  \<^item> Command_Pool: freertos_agent_message.c and freertos_command_pool.c over a kernel queue (locale
    \<open>rtos_queue\<close>, which is a \<open>message_channel\<close>); \<open>pool_step\<close> interleaves the tasks that get,
    use and release command structures.
  \<^item> Metrics_Collector and Report_Builder: metrics_collector.c (locale \<open>netstat_query\<close>) and
    report_builder.c (locales \<open>array_loop\<close> and \<open>json_array\<close>); the abstract specification of a
    report is the text \<open>report_json\<close>.
  \<^item> Network_Calls: the calls to FreeRTOS+TCP, mbedTLS and corePKCS11 as data, and the history of
    answered calls; locale \<open>transport_sockets\<close>, a transport that closes what it opens.
    Sockets_Wrapper (sockets_wrapper.c and using_plaintext.c), Tls_Transport (using_mbedtls.c) and
    Tls_Pkcs11 (using_mbedtls_pkcs11.c) interpret it.
  \<^item> Platform_Port: the random numbers and the network hook of main.c, mbedtls_freertos_port.c.
  \<^item> Mqtt_Agent_Task: mqtt-agent-task.c, from the connection loop to the agent's command loop and the
    reconnection, over \<open>agent_state\<close>, the static and global variables with the history of calls.
  \<^item> C_Stdio, Crypto, Ota_Pal: the C library's files with arbitrary faults, iot_crypto.c (locale
    \<open>signature_verifier\<close>), ota_pal.c for Win32.
  \<^item> Agent_Client: what the demo tasks share, the notifications and the subscribe command; locale
    \<open>response_handler\<close>, a callback that recognises the answer to its own request by a token.
  \<^item> Shadow_Document, Shadow_Device, Shadow_Update, Ota_Demo, Defender_Demo, Simple_Sub_Pub,
    Large_Message: the demo tasks, one theory per file of source/demo-tasks.  Each task is a
    record of its variables and a place in its loop, and a step relation that interleaves the
    task with what the agent task does for it: \<open>shadow_step\<close>, \<open>update_step\<close>, \<open>ota_step\<close>,
    \<open>defender_step\<close>, \<open>simple_step\<close>, \<open>large_step\<close>.
    A queued publish is a pointer: what is sent is what the buffer holds when the agent reads it.
    The argument \<open>prompt\<close> restricts the runs to those in which the agent is done with a buffer
    before the task reuses it; what holds only then says so.
  \<^item> Demo_System: the tasks together.  \<open>deliver\<close> takes a publish through the shared list to the
    callbacks that have subscribed, or to the OTA demo; \<open>system_step\<close> interleaves deliveries with
    the steps of the tasks (the simple tasks take part with the buffer that their callback shares
    only).  Locale \<open>delivery\<close> carries over what the other theories prove of the unrestricted runs
    of a task, locale \<open>subscriber\<close> says whom a publish reaches and whom it leaves alone.
  \<^item> Application: main.c and the creation of the tasks, from the start to the last demo task.
  \<^item> Log_Text, Logger, Logging_Qemu, Logging_Windows: the rewriting of addresses in log messages, and
    the two logging backends as interpretations of the locale \<open>task_logger\<close>.  On Windows a thread
    empties the stream buffer, one access at a time; what is stated of runs there is stated from
    the start of that thread on (\<open>startup_flush_race\<close> shows what its start may break).
  \<^item> Mbedtls_Error: the generated tables of mbedtls_error.c under the configuration
    mbedtls_config.h, and the functions that search them.

  \<^bold>\<open>Conventions.\<close>  \<open>Some\<close> is a call that returns; \<open>None\<close> is one that does not, because an assertion has
  failed (Application shows that \<open>vAssertCalled\<close> does not return), because it would access memory
  outside an object or through \<open>NULL\<close>, or because a loop goes on for ever.  So a statement that a
  call is \<open>Some\<close> says that it ends and is free of such accesses.  Pointers that may be \<open>NULL\<close> are
  options.  Loops that need not end are \<open>partial_function (option)\<close>; no fuel is used.  Fields
  that only record what has happened (sent reports, verdicts) are never read by a modelled
  function; the history of calls is read only by the environment that answers them.  Log output is left out except in the theories of the loggers.

  \<^bold>\<open>What is not in the repository.\<close>  The kernel, FreeRTOS+TCP, coreMQTT and its agent, mbedTLS,
  corePKCS11, coreJSON, the OTA, shadow and defender libraries are submodules.  They are parameters: functions of
  the history of calls that may answer anything, or records of operations.  Where the code relies
  on their documented behaviour a named hypothesis states it (\<open>counting\<close>, \<open>backoff_ok\<close>,
  \<open>streaming_hash\<close>, \<open>plain_match\<close> and others), and each property that needs one has a
  witness with a concrete instance.

  \<^bold>\<open>Lemma groups.\<close>  Invariants of states under every interleaving (the pool, the OTA event buffers,
  the tasks, the loggers); refinement of abstract specifications (the subscription set, the JSON
  text, the assembled image, the reconnection sequence); the delivery of a publish to exactly those
  who asked for it; resource balance of the transports; bounds (the retries of the connection loop,
  at most \<open>RETRY_MAX_ATTEMPTS\<close> + 1 attempts; the buffers of the reports and logs); round trips
  (subscriptions, image states, report identifiers); error behaviour on every branch; liveness of a report and a
  log line, and the failures of liveness after a late answer.

  \<^bold>\<open>Not modelled.\<close>  The start-up code and the CMSIS headers of the board, which belong to the
  processor; tinycbor and WinPCap, vendored third-party code that nothing here calls; the
  configuration headers beyond the constants that the code reads; the tests of the crypto
  library and the scripts that register a device with AWS; the debug printers of the transports; and
  \<open>mbedtls_platform_free\<close>, a call of the kernel's allocator.  Time is modelled only as
  the outcome of a wait, a notification or a time-out, and the values of tick counts.
\<close>

end
